(* ===== verification/Prelude.thy ===== *)
theory Prelude
  imports Complex_Main "HOL-Library.AList" "HOL-Library.Char_ord" "HOL-Library.List_Lexorder"
begin

text \<open>
  Shared vocabulary of the development.

  \<^item> Python strings and byte strings are both \<open>string\<close> (lists of \<open>char\<close>): a string over the
    code points 0 to 255, a byte string over the bytes 0 to 255.  Code points above 255 are not
    represented; \<open>str.upper\<close> and \<open>str.lower\<close> act on the ASCII letters.
  \<^item> A Python \<open>dict\<close> whose iteration order can be observed is an association list with distinct
    keys, in insertion order: \<open>AList.update\<close> overwrites in place or appends, as a \<open>dict\<close> does.
  \<^item> A computation that may raise returns \<open>'e + 'a\<close>: \<open>Inl\<close> carries the exception.
  \<^item> Python \<open>float\<close> values are exact rationals; rounding of binary floating point is not modelled.
\<close>

named_theorems py_simps "evaluation rules of the string and dictionary helpers"

type_synonym 'v dict = "(string \<times> 'v) list"

abbreviation dict_set :: "'k \<Rightarrow> 'v \<Rightarrow> ('k \<times> 'v) list \<Rightarrow> ('k \<times> 'v) list" where
  "dict_set k v d \<equiv> AList.update k v d"

abbreviation dict_del :: "'k \<Rightarrow> ('k \<times> 'v) list \<Rightarrow> ('k \<times> 'v) list" where
  "dict_del k d \<equiv> AList.delete k d"

text \<open>The exception monad: a failed first step is the result.\<close>

fun rbind :: "'e + 'a \<Rightarrow> ('a \<Rightarrow> 'e + 'b) \<Rightarrow> 'e + 'b" where
  "rbind (Inl e) f = Inl e"
| "rbind (Inr x) f = f x"

lemma rbind_Inr_iff: "rbind m f = Inr y \<longleftrightarrow> (\<exists>x. m = Inr x \<and> f x = Inr y)"
  by (cases m) auto

fun rmap_list :: "('a \<Rightarrow> 'e + 'b) \<Rightarrow> 'a list \<Rightarrow> 'e + 'b list" where
  "rmap_list f [] = Inr []"
| "rmap_list f (x # xs) = rbind (f x) (\<lambda>y. rbind (rmap_list f xs) (\<lambda>ys. Inr (y # ys)))"

lemma rmap_list_Inr:
  "rmap_list f xs = Inr ys \<Longrightarrow> length ys = length xs \<and> (\<forall>i < length xs. f (xs ! i) = Inr (ys ! i))"
proof (induction xs arbitrary: ys)
  case (Cons x xs)
  then obtain z zs where "f x = Inr z" "rmap_list f xs = Inr zs" "ys = z # zs"
    by (auto simp: rbind_Inr_iff)
  with Cons.IH [of zs] show ?case by (auto simp: less_Suc_eq_0_disj)
qed simp

lemma rmap_list_set:
  "rmap_list f xs = Inr ys \<Longrightarrow> y \<in> set ys \<Longrightarrow> \<exists>x \<in> set xs. f x = Inr y"
  by (induction xs arbitrary: ys) (auto simp: rbind_Inr_iff)

section \<open>Strings\<close>

definition upper_char :: "char \<Rightarrow> char" where
  "upper_char c = (let n = of_char c :: nat in if 97 \<le> n \<and> n \<le> 122 then char_of (n - 32) else c)"

definition lower_char :: "char \<Rightarrow> char" where
  "lower_char c = (let n = of_char c :: nat in if 65 \<le> n \<and> n \<le> 90 then char_of (n + 32) else c)"

definition str_upper :: "string \<Rightarrow> string" where
  "str_upper s = List.map upper_char s"

definition str_lower :: "string \<Rightarrow> string" where
  "str_lower s = List.map lower_char s"

lemma upper_char_idem [simp]: "upper_char (upper_char c) = upper_char c"
  by (auto simp: upper_char_def Let_def)

lemma str_upper_idem [simp]: "str_upper (str_upper s) = str_upper s"
  by (simp add: str_upper_def)

lemma lower_char_idem [simp]: "lower_char (lower_char c) = lower_char c"
  by (auto simp: lower_char_def Let_def)

lemma str_lower_idem [simp]: "str_lower (str_lower s) = str_lower s"
  by (simp add: str_lower_def)

text \<open>\<open>str.isspace\<close> on the characters below 256, as \<open>str.strip\<close> uses it.\<close>

definition is_space :: "char \<Rightarrow> bool" where
  "is_space c = (of_char c \<in> ({9, 10, 11, 12, 13, 28, 29, 30, 31, 32, 133, 160} :: nat set))"

definition str_strip :: "string \<Rightarrow> string" where
  "str_strip s = rev (dropWhile is_space (rev (dropWhile is_space s)))"

definition is_digit :: "char \<Rightarrow> bool" where
  "is_digit c = (let n = of_char c :: nat in 48 \<le> n \<and> n \<le> 57)"

definition digit_val :: "char \<Rightarrow> nat" where
  "digit_val c = of_char c - 48"

definition digit_chr :: "nat \<Rightarrow> char" where
  "digit_chr d = char_of (48 + d)"

lemma is_digit_digit_chr [simp]: "d < 10 \<Longrightarrow> is_digit (digit_chr d)"
  by (simp add: is_digit_def digit_chr_def)

lemma digit_val_digit_chr [simp]: "d < 10 \<Longrightarrow> digit_val (digit_chr d) = d"
  by (simp add: digit_val_def digit_chr_def)

lemma digit_chr_0: "digit_chr 0 = CHR ''0''"
  by code_simp

text \<open>\<open>needle in haystack\<close> for strings, \<open>str.startswith\<close> and \<open>str.endswith\<close>.\<close>

fun str_prefix :: "string \<Rightarrow> string \<Rightarrow> bool" where
  "str_prefix [] s = True"
| "str_prefix (c # cs) [] = False"
| "str_prefix (c # cs) (d # ds) = (c = d \<and> str_prefix cs ds)"

fun str_in :: "string \<Rightarrow> string \<Rightarrow> bool" where
  "str_in p [] = (p = [])"
| "str_in p (c # cs) = (str_prefix p (c # cs) \<or> str_in p cs)"

definition str_suffix :: "string \<Rightarrow> string \<Rightarrow> bool" where
  "str_suffix p s = str_prefix (rev p) (rev s)"

lemma str_prefix_iff: "str_prefix p s \<longleftrightarrow> (\<exists>r. s = p @ r)"
  by (induction p s rule: str_prefix.induct) auto

lemma str_in_iff: "str_in p s \<longleftrightarrow> (\<exists>l r. s = l @ p @ r)"
proof (induction s)
  case (Cons c s)
  have "(\<exists>l r. c # s = l @ p @ r) \<longleftrightarrow> (\<exists>r. c # s = p @ r) \<or> (\<exists>l r. s = l @ p @ r)"
    by (metis append_Cons append_Nil append_eq_Cons_conv)
  then show ?case using Cons by (simp add: str_prefix_iff)
qed auto

section \<open>Decimal text of integers\<close>

fun nat_str :: "nat \<Rightarrow> string" where
  "nat_str n = (if n < 10 then [digit_chr n] else nat_str (n div 10) @ [digit_chr (n mod 10)])"

declare nat_str.simps [simp del]

definition int_str :: "int \<Rightarrow> string" where
  "int_str i = (if i < 0 then CHR ''-'' # nat_str (nat (- i)) else nat_str (nat i))"

definition digits_val :: "string \<Rightarrow> nat" where
  "digits_val s = foldl (\<lambda>a c. 10 * a + digit_val c) 0 s"

lemma digits_val_snoc [simp]: "digits_val (s @ [c]) = 10 * digits_val s + digit_val c"
  by (simp add: digits_val_def)

lemma digits_val_Nil [simp]: "digits_val [] = 0"
  by (simp add: digits_val_def)

lemma digits_val_nat_str [simp]: "digits_val (nat_str n) = n"
proof (induction n rule: nat_str.induct)
  case (1 n)
  show ?case
  proof (cases "n < 10")
    case True
    then have "nat_str n = [] @ [digit_chr n]" by (simp add: nat_str.simps [of n])
    then have "digits_val (nat_str n) = 10 * digits_val [] + digit_val (digit_chr n)"
      by (metis digits_val_snoc)
    with True show ?thesis by simp
  next
    case False
    with 1 show ?thesis by (simp add: nat_str.simps [of n])
  qed
qed

lemma nat_str_digits: "\<forall>c \<in> set (nat_str n). is_digit c"
proof (induction n rule: nat_str.induct)
  case (1 n)
  then show ?case by (cases "n < 10") (auto simp: nat_str.simps [of n])
qed

lemma nat_str_ne [simp]: "nat_str n \<noteq> []"
  by (subst nat_str.simps) simp

lemma nat_str_inj [simp]: "nat_str m = nat_str n \<longleftrightarrow> m = n"
  by (metis digits_val_nat_str)

lemma nat_str_hd_zero: "hd (nat_str n) = CHR ''0'' \<longleftrightarrow> n = 0"
proof (induction n rule: nat_str.induct)
  case (1 n)
  show ?case
  proof (cases "n < 10")
    case True
    then have "nat_str n = [digit_chr n]" by (simp add: nat_str.simps [of n])
    moreover have "digit_chr n = digit_chr 0 \<longleftrightarrow> n = 0"
      using True by (metis digit_val_digit_chr zero_less_numeral)
    ultimately show ?thesis by (simp add: digit_chr_0)
  next
    case False
    with 1 show ?thesis by (simp add: nat_str.simps [of n])
  qed
qed

section \<open>UTF-8 over the code points below 256\<close>

definition utf8_char :: "char \<Rightarrow> string" where
  "utf8_char c = (let n = of_char c :: nat in
     if n < 128 then [c] else [char_of (192 + n div 64), char_of (128 + n mod 64)])"

definition utf8_encode :: "string \<Rightarrow> string" where
  "utf8_encode s = concat (List.map utf8_char s)"

fun utf8_decode :: "string \<Rightarrow> string option" where
  "utf8_decode [] = Some []"
| "utf8_decode (b # bs) =
     (let n = of_char b :: nat in
      if n < 128 then map_option ((#) b) (utf8_decode bs)
      else (case bs of [] \<Rightarrow> None
            | b2 # bs2 \<Rightarrow>
               (let m = of_char b2 :: nat in
                if 194 \<le> n \<and> n < 196 \<and> 128 \<le> m \<and> m < 192
                then map_option ((#) (char_of ((n - 192) * 64 + (m - 128)))) (utf8_decode bs2)
                else None)))"

lemma of_char_less: "(of_char c :: nat) < 256"
  by (metis of_char_mod_256 mod_less_divisor zero_less_numeral)

lemma utf8_decode_char: "utf8_decode (utf8_char c @ r) = map_option ((#) c) (utf8_decode r)"
proof -
  define n where "n = (of_char c :: nat)"
  have n: "n < 256" "c = char_of n" using of_char_less [of c] by (simp_all add: n_def)
  show ?thesis
  proof (cases "n < 128")
    case True
    then show ?thesis by (simp add: utf8_char_def n_def Let_def)
  next
    case False
    then have "n div 64 = 2 \<or> n div 64 = 3" using n(1) by auto
    moreover have "n = 64 * (n div 64) + n mod 64" by simp
    ultimately show ?thesis using False n
      by (auto simp: utf8_char_def Let_def n_def [symmetric] of_char_of)
  qed
qed

lemma utf8_roundtrip [simp]: "utf8_decode (utf8_encode s) = Some s"
  by (induction s) (simp_all add: utf8_encode_def utf8_decode_char)

lemma utf8_encode_inj [simp]: "utf8_encode s = utf8_encode t \<longleftrightarrow> s = t"
  by (metis option.inject utf8_roundtrip)

end
