(* ===== verification/Json.thy ===== *)
theory Json
  imports Prelude "HOL-Library.Multiset"
begin

text \<open>
  The values of \<open>json.loads\<close> and the text of \<open>json.dumps\<close>, as the package uses them: the
  canonical encoder of \<open>canonical.py\<close> (sorted keys, compact separators), the audit encoder
  (sorted keys, default separators, ASCII escapes), and the scanner that reads headers, policies and
  journals back.  The main result is the round trip \<open>loads_dumps\<close>: the text determines the value.

  A JSON object is an association list in insertion order.  \<open>float_text\<close> of a format is
  \<open>float.__repr__\<close>, kept abstract: the signed objects hold no float.
\<close>

datatype json =
    JNull
  | JBool bool
  | JInt int
  | JFloat rat
  | JNonFinite string
  | JStr string
  | JList "json list"
  | JObj "(string \<times> json) list"

record json_format =
  ascii_only :: bool
  item_sep :: string
  key_sep :: string
  float_text :: "rat \<Rightarrow> string"

section \<open>json.dumps\<close>

definition hex_chr :: "nat \<Rightarrow> char" where
  "hex_chr d = (if d < 10 then char_of (48 + d) else char_of (87 + d))"

definition esc_u :: "char \<Rightarrow> string" where
  "esc_u c = [CHR 0x5C, CHR ''u'', CHR ''0'', CHR ''0'',
              hex_chr (of_char c div 16), hex_chr (of_char c mod 16)]"

definition esc_char :: "bool \<Rightarrow> char \<Rightarrow> string" where
  "esc_char asc c =
     (if c = CHR 0x22 then [CHR 0x5C, CHR 0x22]
      else if c = CHR 0x5C then [CHR 0x5C, CHR 0x5C]
      else if c = CHR 0x0A then [CHR 0x5C, CHR ''n'']
      else if c = CHR 0x0D then [CHR 0x5C, CHR ''r'']
      else if c = CHR 0x09 then [CHR 0x5C, CHR ''t'']
      else if c = CHR 0x0C then [CHR 0x5C, CHR ''f'']
      else if c = CHR 0x08 then [CHR 0x5C, CHR ''b'']
      else if of_char c < (32 :: nat) then esc_u c
      else if asc \<and> (126 :: nat) < of_char c then esc_u c
      else [c])"

definition ser_str :: "bool \<Rightarrow> string \<Rightarrow> string" where
  "ser_str asc s = CHR 0x22 # concat (List.map (esc_char asc) s) @ [CHR 0x22]"

fun ser :: "json_format \<Rightarrow> json \<Rightarrow> string"
and ser_elems :: "json_format \<Rightarrow> json list \<Rightarrow> string"
and ser_members :: "json_format \<Rightarrow> (string \<times> json) list \<Rightarrow> string" where
  "ser F JNull = ''null''"
| "ser F (JBool b) = (if b then ''true'' else ''false'')"
| "ser F (JInt i) = int_str i"
| "ser F (JFloat q) = float_text F q"
| "ser F (JNonFinite s) = s"
| "ser F (JStr s) = ser_str (ascii_only F) s"
| "ser F (JList vs) = CHR ''['' # ser_elems F vs @ [CHR '']'']"
| "ser F (JObj kvs) = CHR ''{'' # ser_members F kvs @ [CHR ''}'']"
| "ser_elems F [] = []"
| "ser_elems F (v # vs) = ser F v @ (if vs = [] then [] else item_sep F @ ser_elems F vs)"
| "ser_members F [] = []"
| "ser_members F ((k, v) # kvs) =
     ser_str (ascii_only F) k @ key_sep F @ ser F v @
     (if kvs = [] then [] else item_sep F @ ser_members F kvs)"

text \<open>\<open>sort_keys=True\<close>: the members of every object, by key.\<close>

fun sort_json :: "json \<Rightarrow> json"
and sort_elems :: "json list \<Rightarrow> json list"
and sort_members :: "(string \<times> json) list \<Rightarrow> (string \<times> json) list" where
  "sort_json JNull = JNull"
| "sort_json (JBool b) = JBool b"
| "sort_json (JInt i) = JInt i"
| "sort_json (JFloat q) = JFloat q"
| "sort_json (JNonFinite s) = JNonFinite s"
| "sort_json (JStr s) = JStr s"
| "sort_json (JList vs) = JList (sort_elems vs)"
| "sort_json (JObj kvs) = JObj (sort_key fst (sort_members kvs))"
| "sort_elems [] = []"
| "sort_elems (v # vs) = sort_json v # sort_elems vs"
| "sort_members [] = []"
| "sort_members ((k, v) # kvs) = (k, sort_json v) # sort_members kvs"

definition dumps_sorted :: "json_format \<Rightarrow> json \<Rightarrow> string" where
  "dumps_sorted F v = ser F (sort_json v)"

section \<open>json.loads\<close>

definition is_ws :: "char \<Rightarrow> bool" where
  "is_ws c = (c = CHR '' '' \<or> c = CHR 0x09 \<or> c = CHR 0x0A \<or> c = CHR 0x0D)"

definition skip_ws :: "string \<Rightarrow> string" where
  "skip_ws s = dropWhile is_ws s"

definition hex_val :: "char \<Rightarrow> nat option" where
  "hex_val c = (let n = of_char c :: nat in
     if 48 \<le> n \<and> n \<le> 57 then Some (n - 48)
     else if 65 \<le> n \<and> n \<le> 70 then Some (n - 55)
     else if 97 \<le> n \<and> n \<le> 102 then Some (n - 87)
     else None)"

fun hex4 :: "char \<Rightarrow> char \<Rightarrow> char \<Rightarrow> char \<Rightarrow> nat option" where
  "hex4 a b c d = (case (hex_val a, hex_val b, hex_val c, hex_val d) of
     (Some w, Some x, Some y, Some z) \<Rightarrow> Some (4096 * w + 256 * x + 16 * y + z)
   | _ \<Rightarrow> None)"

definition unescape :: "char \<Rightarrow> char option" where
  "unescape e =
     (if e = CHR 0x22 then Some (CHR 0x22)
      else if e = CHR 0x5C then Some (CHR 0x5C)
      else if e = CHR ''/'' then Some (CHR ''/'')
      else if e = CHR ''b'' then Some (CHR 0x08)
      else if e = CHR ''f'' then Some (CHR 0x0C)
      else if e = CHR ''n'' then Some (CHR 0x0A)
      else if e = CHR ''r'' then Some (CHR 0x0D)
      else if e = CHR ''t'' then Some (CHR 0x09)
      else None)"

definition push_char :: "char \<Rightarrow> (string \<times> string) option \<Rightarrow> (string \<times> string) option" where
  "push_char c m = map_option (\<lambda>(t, r). (c # t, r)) m"

text \<open>The string scanner, after the opening quote; escapes above 255 are outside the alphabet.\<close>

fun p_str :: "string \<Rightarrow> (string \<times> string) option" where
  "p_str [] = None"
| "p_str (c # cs) =
     (if c = CHR 0x22 then Some ([], cs)
      else if c = CHR 0x5C then
        (case cs of
           [] \<Rightarrow> None
         | e # es \<Rightarrow>
             if e = CHR ''u'' then
               (case es of
                  h1 # h2 # h3 # h4 # r \<Rightarrow>
                    (case hex4 h1 h2 h3 h4 of
                       Some n \<Rightarrow> if n < 256 then push_char (char_of n) (p_str r) else None
                     | None \<Rightarrow> None)
                | _ \<Rightarrow> None)
             else (case unescape e of Some d \<Rightarrow> push_char d (p_str es) | None \<Rightarrow> None))
      else if of_char c < (32 :: nat) then None
      else push_char c (p_str cs))"

definition p_frac :: "string \<Rightarrow> string option \<times> string" where
  "p_frac s = (case s of
     c # t \<Rightarrow> if c = CHR ''.'' \<and> takeWhile is_digit t \<noteq> []
              then (Some (takeWhile is_digit t), dropWhile is_digit t) else (None, s)
   | [] \<Rightarrow> (None, s))"

definition p_sign :: "string \<Rightarrow> bool \<times> string" where
  "p_sign t = (case t of d # w \<Rightarrow> if d = CHR ''-'' then (True, w)
                               else if d = CHR ''+'' then (False, w) else (False, t)
             | [] \<Rightarrow> (False, t))"

definition p_exp :: "string \<Rightarrow> int option \<times> string" where
  "p_exp s = (case s of
     c # t \<Rightarrow>
       if c = CHR ''e'' \<or> c = CHR ''E'' then
         (let (neg, u) = p_sign t; ds = takeWhile is_digit u
          in if ds = [] then (None, s)
             else (Some (if neg then - int (digits_val ds) else int (digits_val ds)),
                   dropWhile is_digit u))
       else (None, s)
   | [] \<Rightarrow> (None, s))"

definition pow10 :: "int \<Rightarrow> rat" where
  "pow10 e = (if e < 0 then 1 / 10 ^ nat (- e) else 10 ^ nat e)"

definition p_minus :: "string \<Rightarrow> bool \<times> string" where
  "p_minus s = (case s of c # t \<Rightarrow> if c = CHR ''-'' then (True, t) else (False, s)
              | [] \<Rightarrow> (False, s))"

definition p_int :: "string \<Rightarrow> string \<times> string" where
  "p_int u = (case u of
     [] \<Rightarrow> ([], u)
   | c # t \<Rightarrow> if c = CHR ''0'' then ([c], t)
              else (takeWhile is_digit u, dropWhile is_digit u))"

definition p_num :: "string \<Rightarrow> (json \<times> string) option" where
  "p_num s =
     (let (neg, u) = p_minus s; (ip, r) = p_int u
      in if ip = [] then None
         else
           (let (fr, r1) = p_frac r; (ex, r2) = p_exp r1
            in if fr = None \<and> ex = None
               then Some (JInt (if neg then - int (digits_val ip) else int (digits_val ip)), r2)
               else
                 (let ds = (case fr of None \<Rightarrow> [] | Some ds \<Rightarrow> ds);
                      e = (case ex of None \<Rightarrow> 0 | Some e \<Rightarrow> e);
                      q = of_nat (digits_val (ip @ ds)) * pow10 (e - int (length ds))
                  in Some (JFloat (if neg then - q else q), r2))))"

text \<open>\<open>dict(pairs)\<close>: a repeated key keeps its first position and its last value.\<close>

definition dict_of :: "(string \<times> 'v) list \<Rightarrow> (string \<times> 'v) list" where
  "dict_of kvs = foldl (\<lambda>d kv. dict_set (fst kv) (snd kv) d) [] kvs"

fun p_val :: "nat \<Rightarrow> string \<Rightarrow> (json \<times> string) option"
and p_elems :: "nat \<Rightarrow> string \<Rightarrow> (json list \<times> string) option"
and p_members :: "nat \<Rightarrow> string \<Rightarrow> ((string \<times> json) list \<times> string) option" where
  "p_val 0 s = None"
| "p_val (Suc n) s =
     (case s of
        [] \<Rightarrow> None
      | c # cs \<Rightarrow>
          if c = CHR 0x22 then map_option (\<lambda>(t, r). (JStr t, r)) (p_str cs)
          else if c = CHR ''{'' then
            (case skip_ws cs of
               [] \<Rightarrow> None
             | d # ds \<Rightarrow> if d = CHR ''}'' then Some (JObj [], ds)
                         else map_option (\<lambda>(kvs, r). (JObj (dict_of kvs), r)) (p_members n (d # ds)))
          else if c = CHR ''['' then
            (case skip_ws cs of
               [] \<Rightarrow> None
             | d # ds \<Rightarrow> if d = CHR '']'' then Some (JList [], ds)
                         else map_option (\<lambda>(vs, r). (JList vs, r)) (p_elems n (d # ds)))
          else if str_prefix ''null'' s then Some (JNull, drop 4 s)
          else if str_prefix ''true'' s then Some (JBool True, drop 4 s)
          else if str_prefix ''false'' s then Some (JBool False, drop 5 s)
          else if str_prefix ''NaN'' s then Some (JNonFinite ''NaN'', drop 3 s)
          else if str_prefix ''Infinity'' s then Some (JNonFinite ''Infinity'', drop 8 s)
          else if str_prefix ''-Infinity'' s then Some (JNonFinite ''-Infinity'', drop 9 s)
          else p_num s)"
| "p_elems 0 s = None"
| "p_elems (Suc n) s =
     (case p_val n s of
        None \<Rightarrow> None
      | Some (v, r) \<Rightarrow>
          (case skip_ws r of
             [] \<Rightarrow> None
           | c # cs \<Rightarrow>
               if c = CHR '']'' then Some ([v], cs)
               else if c = CHR '','' then
                 map_option (\<lambda>(vs, t). (v # vs, t)) (p_elems n (skip_ws cs))
               else None))"
| "p_members 0 s = None"
| "p_members (Suc n) s =
     (case s of
        [] \<Rightarrow> None
      | q # cs \<Rightarrow>
          if q \<noteq> CHR 0x22 then None
          else
            (case p_str cs of
               None \<Rightarrow> None
             | Some (k, r) \<Rightarrow>
                 (case skip_ws r of
                    [] \<Rightarrow> None
                  | c # r1 \<Rightarrow>
                      if c \<noteq> CHR '':'' then None
                      else
                        (case p_val n (skip_ws r1) of
                           None \<Rightarrow> None
                         | Some (v, r2) \<Rightarrow>
                             (case skip_ws r2 of
                                [] \<Rightarrow> None
                              | d # ds \<Rightarrow>
                                  if d = CHR ''}'' then Some ([(k, v)], ds)
                                  else if d = CHR '','' then
                                    map_option (\<lambda>(kvs, t). ((k, v) # kvs, t))
                                      (p_members n (skip_ws ds))
                                  else None)))))"

text \<open>
  \<open>None\<close> is \<open>JSONDecodeError\<close>, for trailing text too.  Two units of fuel per character are enough
  (\<open>p_fuel_enough\<close> below): a nested value has consumed a bracket, a further item a separator.
\<close>

definition loads :: "string \<Rightarrow> json option" where
  "loads s = (case p_val (Suc (2 * length s)) (skip_ws s) of
     Some (v, r) \<Rightarrow> if skip_ws r = [] then Some v else None
   | None \<Rightarrow> None)"

section \<open>The text determines the value\<close>

fun no_float :: "json \<Rightarrow> bool"
and no_float_elems :: "json list \<Rightarrow> bool"
and no_float_members :: "(string \<times> json) list \<Rightarrow> bool" where
  "no_float (JFloat q) = False"
| "no_float (JNonFinite s) = False"
| "no_float (JList vs) = no_float_elems vs"
| "no_float (JObj kvs) = no_float_members kvs"
| "no_float JNull = True"
| "no_float (JBool b) = True"
| "no_float (JInt i) = True"
| "no_float (JStr s) = True"
| "no_float_elems [] = True"
| "no_float_elems (v # vs) = (no_float v \<and> no_float_elems vs)"
| "no_float_members [] = True"
| "no_float_members ((k, v) # kvs) = (no_float v \<and> no_float_members kvs)"

text \<open>A Python \<open>dict\<close> has no repeated key.\<close>

fun wf_json :: "json \<Rightarrow> bool"
and wf_elems :: "json list \<Rightarrow> bool"
and wf_members :: "(string \<times> json) list \<Rightarrow> bool" where
  "wf_json (JList vs) = wf_elems vs"
| "wf_json (JObj kvs) = (distinct (List.map fst kvs) \<and> wf_members kvs)"
| "wf_json JNull = True"
| "wf_json (JBool b) = True"
| "wf_json (JInt i) = True"
| "wf_json (JFloat q) = True"
| "wf_json (JNonFinite s) = True"
| "wf_json (JStr s) = True"
| "wf_elems [] = True"
| "wf_elems (v # vs) = (wf_json v \<and> wf_elems vs)"
| "wf_members [] = True"
| "wf_members ((k, v) # kvs) = (wf_json v \<and> wf_members kvs)"

definition format_ok :: "json_format \<Rightarrow> bool" where
  "format_ok F = ((item_sep F = '','' \<or> item_sep F = '', '') \<and> (key_sep F = '':'' \<or> key_sep F = '': ''))"

lemma hex_val_hex_chr [simp]: "d < 16 \<Longrightarrow> hex_val (hex_chr d) = Some d"
  by (auto simp: hex_val_def hex_chr_def of_char_of)

lemma hex_val_zero: "hex_val (CHR ''0'') = Some 0"
  by code_simp

lemma p_str_esc_u: "p_str (esc_u c @ t) = push_char c (p_str t)"
proof -
  have n: "(of_char c :: nat) < 256" by (rule of_char_less)
  then have "of_char c div 16 < (16 :: nat)" by (simp add: less_mult_imp_div_less)
  then have h: "hex_val (hex_chr (of_char c div 16)) = Some (of_char c div 16)"
    by (rule hex_val_hex_chr)
  have h': "hex_val (hex_chr (of_char c mod 16)) = Some (of_char c mod 16)"
    by (rule hex_val_hex_chr) simp
  have "16 * (of_char c div 16) + of_char c mod 16 = (of_char c :: nat)" by simp
  with n h h' show ?thesis by (simp add: esc_u_def hex_val_zero)
qed

lemma p_str_esc_char: "p_str (esc_char asc c @ t) = push_char c (p_str t)"
  by (auto simp: esc_char_def p_str_esc_u unescape_def)

lemma p_str_ser:
  "p_str (concat (List.map (esc_char asc) s) @ CHR 0x22 # r) = Some (s, r)"
  by (induction s) (simp_all add: p_str_esc_char push_char_def del: p_str.simps(2), simp)

definition num_end :: "string \<Rightarrow> bool" where
  "num_end r = (r = [] \<or> \<not> is_digit (hd r) \<and> hd r \<notin> {CHR ''.'', CHR ''e'', CHR ''E''})"

lemma takeWhile_digits:
  "\<forall>c \<in> set ds. is_digit c \<Longrightarrow> num_end r \<Longrightarrow>
   takeWhile is_digit (ds @ r) = ds \<and> dropWhile is_digit (ds @ r) = r"
  by (induction ds) (cases r; auto simp: num_end_def)+

lemma num_end_frac_exp: "num_end r \<Longrightarrow> p_frac r = (None, r) \<and> p_exp r = (None, r)"
  by (cases r) (auto simp: num_end_def p_frac_def p_exp_def)

lemma is_digit_minus [simp]: "\<not> is_digit (CHR ''-'')"
  by code_simp

lemma is_digit_zero [simp]: "is_digit (CHR ''0'')"
  by code_simp

lemma digit_val_zero [simp]: "digit_val (CHR ''0'') = 0"
  by code_simp

lemma nat_str_zero: "nat_str 0 = [CHR ''0'']"
  by (simp add: nat_str.simps digit_chr_0)

text \<open>The digits part of the number scanner.\<close>

lemma p_num_nat:
  assumes "num_end r"
  shows "p_num (nat_str n @ r) = Some (JInt (int n), r)"
    and "p_num (CHR ''-'' # nat_str n @ r) = Some (JInt (- int n), r)"
proof -
  obtain c cs where c: "nat_str n = c # cs" by (cases "nat_str n") auto
  have dig: "is_digit c" "\<forall>d \<in> set (c # cs). is_digit d" using nat_str_digits [of n] c by auto
  have neq: "c \<noteq> CHR ''-''" using dig by auto
  have tw: "takeWhile is_digit (c # cs @ r) = c # cs" "dropWhile is_digit (c # cs @ r) = r"
    using takeWhile_digits [OF dig(2) assms] by simp_all
  have v: "digits_val (c # cs) = n" using digits_val_nat_str [of n] c by simp
  have z: "c = CHR ''0'' \<Longrightarrow> cs = [] \<and> n = 0"
    using nat_str_hd_zero [of n] nat_str_zero c by auto
  note fe = num_end_frac_exp [OF assms]
  have v0: "digits_val [CHR ''0''] = 0" by (simp add: digits_val_def)
  show "p_num (nat_str n @ r) = Some (JInt (int n), r)"
    using neq z tw v fe v0 by (auto simp: p_num_def p_minus_def p_int_def c Let_def simp del: takeWhile.simps dropWhile.simps)
  show "p_num (CHR ''-'' # nat_str n @ r) = Some (JInt (- int n), r)"
    using neq z tw v fe v0 by (auto simp: p_num_def p_minus_def p_int_def c Let_def simp del: takeWhile.simps dropWhile.simps)
qed

lemma int_str_cases:
  obtains c cs where "int_str i = c # cs" "is_digit c"
  | c cs where "int_str i = CHR ''-'' # c # cs" "is_digit c"
proof -
  obtain c cs where "nat_str (nat (if i < 0 then - i else i)) = c # cs"
    by (cases "nat_str (nat (if i < 0 then - i else i))") auto
  moreover from this have "is_digit c"
    using nat_str_digits by (metis list.set_intros(1))
  ultimately show thesis using that by (auto simp: int_str_def split: if_splits)
qed

lemma not_digit_literals:
  "\<not> is_digit (CHR 0x22)" "\<not> is_digit (CHR ''{'')" "\<not> is_digit (CHR ''['')" "\<not> is_digit (CHR ''n'')"
  "\<not> is_digit (CHR ''t'')" "\<not> is_digit (CHR ''f'')" "\<not> is_digit (CHR ''N'')" "\<not> is_digit (CHR ''I'')"
  "\<not> is_digit (CHR '' '')" "\<not> is_digit (CHR 0x09)" "\<not> is_digit (CHR 0x0A)" "\<not> is_digit (CHR 0x0D)"
  "\<not> is_digit (CHR '']'')" "\<not> is_digit (CHR '','')" "\<not> is_digit (CHR ''}'')"
  by code_simp+

lemma digit_neq:
  assumes "is_digit c"
  shows "c \<noteq> CHR 0x22" "c \<noteq> CHR ''{''" "c \<noteq> CHR ''[''" "c \<noteq> CHR ''n''" "c \<noteq> CHR ''t''" "c \<noteq> CHR ''f''"
    "c \<noteq> CHR ''N''" "c \<noteq> CHR ''I''" "c \<noteq> CHR ''-''" "c \<noteq> CHR '' ''" "c \<noteq> CHR 0x09" "c \<noteq> CHR 0x0A"
    "c \<noteq> CHR 0x0D" "c \<noteq> CHR '']''" "c \<noteq> CHR '',''" "c \<noteq> CHR ''}''"
  using assms not_digit_literals is_digit_minus by metis+

lemma p_val_int:
  assumes "num_end r" shows "p_val (Suc n) (int_str i @ r) = Some (JInt i, r)"
proof -
  have num: "p_num (int_str i @ r) = Some (JInt i, r)"
    using p_num_nat [OF assms] by (auto simp: int_str_def)
  show ?thesis
  proof (cases rule: int_str_cases [of i])
    case (1 c cs)
    note neq = digit_neq [OF 1(2)]
    show ?thesis using num 1(1) neq neq [symmetric] by simp
  next
    case (2 c cs)
    note neq = digit_neq [OF 2(2)]
    show ?thesis using num 2(1) neq neq [symmetric] by simp
  qed
qed

text \<open>
  What is needed of \<open>float.__repr__\<close> for the floats of a value: the scanner reads the text back.
  A value without floats needs nothing.
\<close>

definition float_scan :: "json_format \<Rightarrow> rat \<Rightarrow> bool" where
  "float_scan F q \<longleftrightarrow>
     (\<exists>c cs. float_text F q = c # cs \<and> \<not> is_ws c \<and> c \<noteq> CHR '']'' \<and> c \<noteq> CHR ''}'') \<and>
     (\<forall>n r. num_end r \<longrightarrow> p_val (Suc n) (float_text F q @ r) = Some (JFloat q, r))"

fun ser_ok :: "json_format \<Rightarrow> json \<Rightarrow> bool"
and ser_ok_elems :: "json_format \<Rightarrow> json list \<Rightarrow> bool"
and ser_ok_members :: "json_format \<Rightarrow> (string \<times> json) list \<Rightarrow> bool" where
  "ser_ok F (JFloat q) = float_scan F q"
| "ser_ok F (JNonFinite s) = (s = ''NaN'' \<or> s = ''Infinity'' \<or> s = ''-Infinity'')"
| "ser_ok F (JList vs) = ser_ok_elems F vs"
| "ser_ok F (JObj kvs) = ser_ok_members F kvs"
| "ser_ok F JNull = True"
| "ser_ok F (JBool b) = True"
| "ser_ok F (JInt i) = True"
| "ser_ok F (JStr s) = True"
| "ser_ok_elems F [] = True"
| "ser_ok_elems F (v # vs) = (ser_ok F v \<and> ser_ok_elems F vs)"
| "ser_ok_members F [] = True"
| "ser_ok_members F ((k, v) # kvs) = (ser_ok F v \<and> ser_ok_members F kvs)"

lemma no_float_ser_ok:
  "no_float v \<Longrightarrow> ser_ok F v"
  "no_float_elems vs \<Longrightarrow> ser_ok_elems F vs"
  "no_float_members kvs \<Longrightarrow> ser_ok_members F kvs"
  by (induction v and vs and kvs rule: no_float_no_float_elems_no_float_members.induct) simp_all

lemma ser_ok_members_iff: "ser_ok_members F kvs \<longleftrightarrow> (\<forall>kv \<in> set kvs. ser_ok F (snd kv))"
  by (induction kvs) auto

text \<open>The first character of a serialised value: what follows a bracket or a separator.\<close>

lemma ser_first:
  assumes "ser_ok F v"
  shows "\<exists>c cs. ser F v = c # cs \<and> \<not> is_ws c \<and> c \<noteq> CHR '']'' \<and> c \<noteq> CHR ''}''"
proof (cases v)
  case (JInt i)
  show ?thesis
    using not_digit_literals JInt
    by (cases rule: int_str_cases [of i]) (auto simp: is_ws_def)
qed (use assms in \<open>auto simp: ser_str_def is_ws_def float_scan_def\<close>)

lemma skip_ws_ser: "ser_ok F v \<Longrightarrow> skip_ws (ser F v @ r) = ser F v @ r"
  using ser_first [of F v] by (auto simp: skip_ws_def)

lemma skip_ws_quote [simp]: "skip_ws (CHR 0x22 # r) = CHR 0x22 # r"
  by (simp add: skip_ws_def is_ws_def)

lemma skip_ws_others [simp]:
  "skip_ws (CHR '']'' # r) = CHR '']'' # r" "skip_ws (CHR ''}'' # r) = CHR ''}'' # r"
  "skip_ws (CHR '','' # r) = CHR '','' # r" "skip_ws (CHR '':'' # r) = CHR '':'' # r"
  "skip_ws (CHR '' '' # r) = skip_ws r" "skip_ws [] = []"
  by (simp_all add: skip_ws_def is_ws_def)

lemma num_end_others [simp]:
  "num_end (CHR '']'' # r)" "num_end (CHR ''}'' # r)" "num_end (CHR '','' # r)" "num_end []"
  using not_digit_literals by (simp_all add: num_end_def)

lemma dict_set_new: "k \<notin> fst ` set d \<Longrightarrow> dict_set k v d = d @ [(k, v)]"
  by (induction d) auto

lemma dict_of_distinct:
  fixes kvs :: "(string \<times> 'v) list"
  shows "distinct (List.map fst kvs) \<Longrightarrow> dict_of kvs = kvs"
proof -
  have "distinct (List.map fst (d @ kvs)) \<Longrightarrow>
    foldl (\<lambda>d kv. dict_set (fst kv) (snd kv) d) d kvs = d @ kvs" for d
  proof (induction kvs arbitrary: d)
    case (Cons kv kvs)
    then have "fst kv \<notin> fst ` set d" by auto
    with Cons.IH [of "d @ [kv]"] Cons.prems show ?case by (simp add: dict_set_new)
  qed simp
  from this [of "[]"] show "distinct (List.map fst kvs) \<Longrightarrow> dict_of kvs = kvs"
    by (simp add: dict_of_def)
qed

lemma ser_str_scan: "p_val (Suc n) (ser_str asc s @ r) = Some (JStr s, r)"
  by (simp add: ser_str_def p_str_ser)

lemma ser_members_first:
  "kvs \<noteq> [] \<Longrightarrow> \<exists>cs. ser_members F kvs = CHR 0x22 # cs"
  by (cases kvs) (auto simp: ser_str_def)

lemma ser_elems_first:
  "vs \<noteq> [] \<Longrightarrow> ser_ok_elems F vs \<Longrightarrow>
   \<exists>c cs. ser_elems F vs = c # cs \<and> \<not> is_ws c \<and> c \<noteq> CHR '']'' \<and> c \<noteq> CHR ''}''"
  using ser_first by (cases vs) fastforce+

lemma separators:
  assumes "format_ok F"
  obtains w u where "item_sep F @ t = CHR '','' # w" "skip_ws w = skip_ws t"
    "key_sep F @ t = CHR '':'' # u" "skip_ws u = skip_ws t"
  using assms that by (auto simp: format_ok_def)

lemma separator_lengths: "format_ok F \<Longrightarrow> 1 \<le> length (item_sep F) \<and> 1 \<le> length (key_sep F)"
  by (auto simp: format_ok_def)

lemma skip_ws_first: "s = c # cs \<Longrightarrow> \<not> is_ws c \<Longrightarrow> skip_ws (s @ r) = s @ r"
  by (simp add: skip_ws_def)

text \<open>Scanning what was printed gives the value back, with fuel to spare.\<close>

lemma scan_ser:
  shows "format_ok F \<Longrightarrow> ser_ok F v \<Longrightarrow> wf_json v \<Longrightarrow> num_end r \<Longrightarrow> 2 * length (ser F v) < n \<Longrightarrow>
      p_val n (ser F v @ r) = Some (v, r)"
    and "format_ok F \<Longrightarrow> ser_ok_elems F vs \<Longrightarrow> wf_elems vs \<Longrightarrow> vs \<noteq> [] \<Longrightarrow>
      2 * length (ser_elems F vs) + 1 < n \<Longrightarrow>
      p_elems n (ser_elems F vs @ CHR '']'' # r) = Some (vs, r)"
    and "format_ok F \<Longrightarrow> ser_ok_members F kvs \<Longrightarrow> wf_members kvs \<Longrightarrow> kvs \<noteq> [] \<Longrightarrow>
      2 * length (ser_members F kvs) + 1 < n \<Longrightarrow>
      p_members n (ser_members F kvs @ CHR ''}'' # r) = Some (kvs, r)"
proof (induction F v and F vs and F kvs arbitrary: r n and r n and r n
    rule: ser_ser_elems_ser_members.induct)
  case (3 F i)
  then show ?case by (cases n) (auto simp: p_val_int simp del: p_val.simps(2))
next
  case (6 F s)
  then show ?case by (cases n) (auto simp: ser_str_scan simp del: p_val.simps(2))
next
  case (7 F vs)
  then obtain m where m: "n = Suc m" by (cases n) auto
  show ?case
  proof (cases "vs = []")
    case False
    then obtain c cs where c: "ser_elems F vs = c # cs" "\<not> is_ws c" "c \<noteq> CHR '']''"
      using ser_elems_first [of vs F] 7 by auto
    have "p_elems m (ser_elems F vs @ CHR '']'' # r) = Some (vs, r)"
      using 7 False m by simp
    then show ?thesis using c m by (simp add: skip_ws_def)
  qed (simp add: m)
next
  case (8 F kvs)
  then obtain m where m: "n = Suc m" by (cases n) auto
  show ?case
  proof (cases "kvs = []")
    case False
    then obtain cs where c: "ser_members F kvs = CHR 0x22 # cs"
      using ser_members_first [of kvs F] by auto
    have "p_members m (ser_members F kvs @ CHR ''}'' # r) = Some (kvs, r)"
      using 8 False m by simp
    then show ?thesis using c m 8 by (simp add: dict_of_distinct)
  qed (simp add: m)
next
  case (10 F v vs)
  then obtain m where m: "n = Suc m" by (cases n) auto
  show ?case
  proof (cases "vs = []")
    case True
    then show ?thesis using 10 m by simp
  next
    case False
    obtain w where w: "item_sep F @ ser_elems F vs @ CHR '']'' # r = CHR '','' # w"
      "skip_ws w = skip_ws (ser_elems F vs @ CHR '']'' # r)"
      using separators [OF 10(3)] by metis
    obtain c cs where "ser_elems F vs = c # cs" "\<not> is_ws c"
      using ser_elems_first [of vs F] 10 False by auto
    then have sk: "skip_ws w = ser_elems F vs @ CHR '']'' # r"
      using w(2) skip_ws_first by metis
    have "p_val m (ser F v @ CHR '','' # w) = Some (v, CHR '','' # w)"
      using 10 m False by simp
    moreover have "p_elems m (ser_elems F vs @ CHR '']'' # r) = Some (vs, r)"
      using 10 m False w(1) separator_lengths [OF 10(3)] by simp
    ultimately show ?thesis using m w(1) sk False by simp
  qed
next
  case (12 F k v kvs)
  then obtain m where m: "n = Suc m" by (cases n) auto
  have ks: "p_str (concat (List.map (esc_char (ascii_only F)) k) @ CHR 0x22 # t) = Some (k, t)" for t
    by (rule p_str_ser)
  show ?case
  proof (cases "kvs = []")
    case True
    obtain u where u: "key_sep F @ ser F v @ CHR ''}'' # r = CHR '':'' # u"
      "skip_ws u = skip_ws (ser F v @ CHR ''}'' # r)"
      using separators [OF 12(3)] by metis
    have "p_val m (ser F v @ CHR ''}'' # r) = Some (v, CHR ''}'' # r)"
      using 12 m True by simp
    then show ?thesis using 12 m True u skip_ws_ser [of F v] ks
      by (simp add: ser_str_def)
  next
    case False
    obtain w where w: "item_sep F @ ser_members F kvs @ CHR ''}'' # r = CHR '','' # w"
      "skip_ws w = skip_ws (ser_members F kvs @ CHR ''}'' # r)"
      using separators [OF 12(3)] by metis
    obtain u where u: "key_sep F @ ser F v @ CHR '','' # w = CHR '':'' # u"
      "skip_ws u = skip_ws (ser F v @ CHR '','' # w)"
      using separators [OF 12(3)] by metis
    have sk: "skip_ws w = ser_members F kvs @ CHR ''}'' # r"
      using w(2) ser_members_first [OF False, of F] by auto
    have "p_val m (ser F v @ CHR '','' # w) = Some (v, CHR '','' # w)"
      using 12 m False by simp
    moreover have "p_members m (ser_members F kvs @ CHR ''}'' # r) = Some (kvs, r)"
      using 12 m False w(1) separator_lengths [OF 12(3)] by simp
    ultimately show ?thesis using 12 m False u w(1) sk skip_ws_ser [of F v] ks
      by (simp add: ser_str_def)
  qed
next
  case (4 F q)
  then show ?case by (cases n) (auto simp: float_scan_def simp del: p_val.simps(2))
next
  case (5 F s)
  then show ?case by (cases n) auto
next
  case (1 F)
  then show ?case by (cases n) auto
next
  case (2 F b)
  then show ?case by (cases n) auto
qed auto

theorem loads_ser:
  assumes "format_ok F" "ser_ok F v" "wf_json v"
  shows "loads (ser F v) = Some v"
  using scan_ser(1) [OF assms, of "[]" "Suc (2 * length (ser F v))"] skip_ws_ser [OF assms(2), of "[]"]
  by (simp add: loads_def)

section \<open>Fuel is never the reason of a failure\<close>

lemma skip_ws_length: "length (skip_ws s) \<le> length s"
  by (simp add: skip_ws_def length_dropWhile_le)

lemma p_str_length: "p_str s = Some (t, r) \<Longrightarrow> length r < length s"
proof (induction s arbitrary: t r rule: p_str.induct)
  case (2 c cs)
  show ?case
    using "2.prems" "2.IH"
    by (auto simp: push_char_def split: if_splits list.splits option.splits) fastforce+
qed simp

lemma p_frac_length: "p_frac s = (m, r) \<Longrightarrow> length r \<le> length s"
  by (auto simp: p_frac_def length_dropWhile_le le_SucI split: list.splits if_splits)

lemma p_sign_length: "p_sign t = (neg, u) \<Longrightarrow> length u \<le> length t"
  by (auto simp: p_sign_def split: list.splits if_splits)

lemma p_exp_length:
  assumes "p_exp s = (m, r)" shows "length r \<le> length s"
proof (cases s)
  case (Cons c t)
  obtain neg u where u: "p_sign t = (neg, u)" by (metis surj_pair)
  then have "length (dropWhile is_digit u) \<le> length t"
    using p_sign_length [OF u] length_dropWhile_le [of is_digit u] by simp
  with assms Cons u show ?thesis by (auto simp: p_exp_def Let_def split: if_splits)
qed (use assms in \<open>simp add: p_exp_def\<close>)

lemma p_minus_length: "p_minus s = (neg, u) \<Longrightarrow> length u \<le> length s"
  by (auto simp: p_minus_def split: list.splits if_splits)

lemma p_int_length:
  assumes "p_int u = (ip, r)" and "ip \<noteq> []"
  shows "length r < length u"
proof (cases u)
  case (Cons c t)
  with assms show ?thesis
    using length_dropWhile_le [of is_digit t]
    by (auto simp: p_int_def less_Suc_eq_le split: if_splits)
qed (use assms in \<open>simp add: p_int_def\<close>)

lemma p_num_length:
  assumes "p_num s = Some (j, r)" shows "length r < length s"
proof -
  obtain neg u ip t fr r1 ex r2 where parts:
    "p_minus s = (neg, u)" "p_int u = (ip, t)" "p_frac t = (fr, r1)" "p_exp r1 = (ex, r2)"
    by fastforce
  have "ip \<noteq> []" and "r = r2"
    using assms unfolding p_num_def Let_def parts prod.case by (auto split: if_splits)
  then show ?thesis
    using p_minus_length [OF parts(1)] p_int_length [OF parts(2)] p_frac_length [OF parts(3)]
      p_exp_length [OF parts(4)] by simp
qed

lemma skip_ws_Cons: "skip_ws s = c # cs \<Longrightarrow> length cs < length s"
  using skip_ws_length [of s] by simp

lemma elems_length:
  assumes "p_elems (Suc n) s = Some (vs, r)"
    and v: "\<And>s v r. p_val n s = Some (v, r) \<Longrightarrow> length r < length s"
    and es: "\<And>s vs r. p_elems n s = Some (vs, r) \<Longrightarrow> length r < length s"
  shows "length r < length s"
proof -
  obtain v' r' where v': "p_val n s = Some (v', r')" using assms(1) by (auto split: option.splits)
  obtain c cs where c: "skip_ws r' = c # cs" using assms(1) v' by (auto split: list.splits)
  have l: "length cs < length s" using v [OF v'] skip_ws_Cons [OF c] by simp
  show ?thesis
  proof (cases "c = CHR '']''")
    case True
    with assms(1) v' c l show ?thesis by simp
  next
    case False
    with assms(1) v' c obtain vs' where "p_elems n (skip_ws cs) = Some (vs', r)"
      by (auto split: if_splits)
    from es [OF this] l skip_ws_length [of cs] show ?thesis by simp
  qed
qed

lemma members_length:
  assumes "p_members (Suc n) s = Some (kvs, r)"
    and v: "\<And>s v r. p_val n s = Some (v, r) \<Longrightarrow> length r < length s"
    and ms: "\<And>s kvs r. p_members n s = Some (kvs, r) \<Longrightarrow> length r < length s"
  shows "length r < length s"
proof -
  obtain cs where s: "s = CHR 0x22 # cs" using assms(1) by (auto split: list.splits if_splits)
  obtain k r0 where k: "p_str cs = Some (k, r0)" using assms(1) s by (auto split: option.splits)
  obtain r1 where r1: "skip_ws r0 = CHR '':'' # r1"
    using assms(1) s k by (auto split: list.splits if_splits)
  obtain v' r2 where v': "p_val n (skip_ws r1) = Some (v', r2)"
    using assms(1) s k r1 by (auto split: option.splits)
  obtain d ds where d: "skip_ws r2 = d # ds" using assms(1) s k r1 v' by (auto split: list.splits)
  have l: "length ds < length s"
    using p_str_length [OF k] skip_ws_Cons [OF r1] skip_ws_Cons [OF d] v [OF v'] skip_ws_length [of r1] s
    by simp
  show ?thesis
  proof (cases "d = CHR ''}''")
    case True
    with assms(1) s k r1 v' d l show ?thesis by simp
  next
    case False
    with assms(1) s k r1 v' d obtain kvs' where "p_members n (skip_ws ds) = Some (kvs', r)"
      by (auto split: if_splits)
    from ms [OF this] l skip_ws_length [of ds] show ?thesis by simp
  qed
qed

lemma val_length:
  assumes "p_val (Suc n) s = Some (v, r)"
    and es: "\<And>s vs r. p_elems n s = Some (vs, r) \<Longrightarrow> length r < length s"
    and ms: "\<And>s kvs r. p_members n s = Some (kvs, r) \<Longrightarrow> length r < length s"
  shows "length r < length s"
proof -
  obtain c cs where s: "s = c # cs" using assms(1) by (cases s) auto
  consider "c = CHR 0x22" | "c = CHR ''{''" | "c = CHR ''[''"
    | "c \<noteq> CHR 0x22" "c \<noteq> CHR ''{''" "c \<noteq> CHR ''[''" by blast
  then show ?thesis
  proof cases
    case 1
    with assms(1) s show ?thesis by (auto dest: p_str_length)
  next
    case 2
    then obtain d ds where d: "skip_ws cs = d # ds" using assms(1) s by (auto split: list.splits)
    with 2 assms(1) s skip_ws_Cons [OF d] skip_ws_length [of cs] show ?thesis
      by (auto dest!: ms split: if_splits)
  next
    case 3
    then obtain d ds where d: "skip_ws cs = d # ds" using assms(1) s by (auto split: list.splits)
    with 3 assms(1) s skip_ws_Cons [OF d] skip_ws_length [of cs] show ?thesis
      by (auto dest!: es split: if_splits)
  next
    case 4
    with assms(1) show ?thesis
      using p_num_length [of s v r] by (auto simp: s simp del: str_prefix.simps split: if_splits)
  qed
qed

lemma scan_length:
  "(p_val n s = Some (v, r) \<longrightarrow> length r < length s) \<and>
   (p_elems n s' = Some (vs, r') \<longrightarrow> length r' < length s') \<and>
   (p_members n s'' = Some (kvs, r'') \<longrightarrow> length r'' < length s'')"
proof (induction n arbitrary: s v r s' vs r' s'' kvs r'')
  case (Suc n)
  have v: "p_val n s = Some (v, r) \<Longrightarrow> length r < length s"
    and es: "p_elems n s = Some (vs, r) \<Longrightarrow> length r < length s"
    and ms: "p_members n s = Some (kvs, r) \<Longrightarrow> length r < length s" for s v r vs kvs
    using Suc.IH by blast+
  have "p_val (Suc n) s = Some (v, r) \<Longrightarrow> length r < length s"
    by (erule val_length) (erule es, erule ms)
  moreover have "p_elems (Suc n) s' = Some (vs, r') \<Longrightarrow> length r' < length s'"
    by (erule elems_length) (erule v, erule es)
  moreover have "p_members (Suc n) s'' = Some (kvs, r'') \<Longrightarrow> length r'' < length s''"
    by (erule members_length) (erule v, erule ms)
  ultimately show ?case by blast
qed simp

lemma val_fuel_step:
  assumes "\<And>s. 2 * length s + 1 < n \<Longrightarrow> p_elems (Suc n) s = p_elems n s"
    and "\<And>s. 2 * length s + 1 < n \<Longrightarrow> p_members (Suc n) s = p_members n s"
    and "2 * length s < Suc n"
  shows "p_val (Suc (Suc n)) s = p_val (Suc n) s"
proof (cases s)
  case (Cons c cs)
  have "2 * length (skip_ws cs) + 1 < n" using assms(3) Cons skip_ws_length [of cs] by simp
  then have "p_elems (Suc n) (skip_ws cs) = p_elems n (skip_ws cs)"
    "p_members (Suc n) (skip_ws cs) = p_members n (skip_ws cs)"
    using assms(1,2) by blast+
  then show ?thesis
    unfolding Cons p_val.simps(2) by (cases "skip_ws cs") simp_all
qed simp

lemma elems_fuel_step:
  assumes "\<And>s. 2 * length s < n \<Longrightarrow> p_val (Suc n) s = p_val n s"
    and "\<And>s. 2 * length s + 1 < n \<Longrightarrow> p_elems (Suc n) s = p_elems n s"
    and "2 * length s + 1 < Suc n"
  shows "p_elems (Suc (Suc n)) s = p_elems (Suc n) s"
proof (cases "p_val n s")
  case (Some vr)
  obtain v r where vr: "vr = (v, r)" by (cases vr)
  have eq: "p_val (Suc n) s = Some (v, r)" "p_val n s = Some (v, r)"
    using assms(1) [of s] assms(3) Some vr by simp_all
  show ?thesis
  proof (cases "skip_ws r")
    case (Cons c cs)
    have "length r < length s" using scan_length eq(2) by blast
    then have "2 * length (skip_ws cs) + 1 < n"
      using assms(3) skip_ws_length [of cs] skip_ws_Cons [OF Cons] by simp
    then have "p_elems (Suc n) (skip_ws cs) = p_elems n (skip_ws cs)" by (rule assms(2))
    with Cons show ?thesis
      unfolding p_elems.simps(2) eq option.case prod.case by simp
  qed (simp add: eq del: p_val.simps)
qed (use assms(1) [of s] assms(3) in \<open>simp del: p_val.simps\<close>)

lemma members_fuel_step:
  assumes val: "\<And>s. 2 * length s < n \<Longrightarrow> p_val (Suc n) s = p_val n s"
    and ms: "\<And>s. 2 * length s + 1 < n \<Longrightarrow> p_members (Suc n) s = p_members n s"
    and n: "2 * length s + 1 < Suc n"
  shows "p_members (Suc (Suc n)) s = p_members (Suc n) s"
proof -
  have rest: "p_members (Suc n) (skip_ws ds) = p_members n (skip_ws ds)"
    if "length ds < length s" for ds
    using that n skip_ws_length [of ds] by (intro ms) simp
  have vs: "p_val (Suc n) (skip_ws r) = p_val n (skip_ws r)" if "length r < length s" for r
    using that n skip_ws_length [of r] by (intro val) simp
  show ?thesis
  proof (cases s)
    case (Cons q cs)
    show ?thesis
    proof (cases "p_str cs")
      case (Some kr)
      obtain k r where kr: "kr = (k, r)" by (cases kr)
      have lr: "length r < length s" using p_str_length Some kr Cons by fastforce
      show ?thesis
      proof (cases "skip_ws r")
        case r: (Cons c r1)
        have l: "length r1 < length s" using skip_ws_Cons [OF r] lr by simp
        show ?thesis
        proof (cases "p_val n (skip_ws r1)")
          case v: (Some vr)
          obtain v' r2 where vr: "vr = (v', r2)" by (cases vr)
          have "length r2 < length (skip_ws r1)" using scan_length v vr by blast
          then have l2: "length r2 < length s" using skip_ws_length [of r1] l by simp
          have "length ds < length s" if "skip_ws r2 = d # ds" for d ds
            using skip_ws_Cons [OF that] l2 by simp
          then show ?thesis using Cons Some kr r v vr vs [OF l] rest
            by (simp del: p_val.simps p_members.simps add: p_members.simps(2) split: list.splits)
        qed (use Cons Some kr r vs [OF l] in
            \<open>simp del: p_val.simps p_members.simps add: p_members.simps(2)\<close>)
      qed (use Cons Some kr in \<open>simp add: p_members.simps(2)\<close>)
    qed (simp add: Cons)
  qed simp
qed

theorem p_fuel_enough:
  "(2 * length s < n \<longrightarrow> p_val (n + k) s = p_val n s) \<and>
   (2 * length s + 1 < n \<longrightarrow> p_elems (n + k) s = p_elems n s) \<and>
   (2 * length s + 1 < n \<longrightarrow> p_members (n + k) s = p_members n s)"
proof -
  have step: "(2 * length s < n \<longrightarrow> p_val (Suc n) s = p_val n s) \<and>
     (2 * length s + 1 < n \<longrightarrow> p_elems (Suc n) s = p_elems n s) \<and>
     (2 * length s + 1 < n \<longrightarrow> p_members (Suc n) s = p_members n s)" for n s
  proof (induction n arbitrary: s)
    case (Suc n)
    then show ?case
      using val_fuel_step [of n s] elems_fuel_step [of n s] members_fuel_step [of n s] by blast
  qed simp
  show ?thesis
    by (induction k) (use step in \<open>simp_all del: p_val.simps p_elems.simps p_members.simps\<close>)
qed

section \<open>Key order\<close>

lemma sort_members_map: "sort_members kvs = List.map (\<lambda>(k, v). (k, sort_json v)) kvs"
  by (induction kvs) auto

lemma sort_elems_map: "sort_elems vs = List.map sort_json vs"
  by (induction vs) auto

lemma no_float_members_iff: "no_float_members kvs \<longleftrightarrow> (\<forall>kv \<in> set kvs. no_float (snd kv))"
  by (induction kvs) auto

lemma wf_members_iff: "wf_members kvs \<longleftrightarrow> (\<forall>kv \<in> set kvs. wf_json (snd kv))"
  by (induction kvs) auto

lemma members_sort_key [simp]:
  "no_float_members (sort_key f kvs) = no_float_members kvs"
  "wf_members (sort_key f kvs) = wf_members kvs"
  "ser_ok_members F (sort_key f kvs) = ser_ok_members F kvs"
  by (simp_all add: no_float_members_iff wf_members_iff ser_ok_members_iff)

lemma fst_sort_members [simp]: "List.map fst (sort_members kvs) = List.map fst kvs"
  by (induction kvs) auto

lemma distinct_fst_sort_key:
  "distinct (List.map fst (sort_key f kvs)) = distinct (List.map fst kvs)"
  by (metis mset_map mset_sort mset_eq_imp_distinct_iff)

lemma sort_json_no_float [simp]:
  "no_float (sort_json v) = no_float v"
  "no_float_elems (sort_elems vs) = no_float_elems vs"
  "no_float_members (sort_members kvs) = no_float_members kvs"
  by (induction v and vs and kvs rule: sort_json_sort_elems_sort_members.induct) simp_all

lemma sort_json_ser_ok [simp]:
  "ser_ok F (sort_json v) = ser_ok F v"
  "ser_ok_elems F (sort_elems vs) = ser_ok_elems F vs"
  "ser_ok_members F (sort_members kvs) = ser_ok_members F kvs"
  by (induction v and vs and kvs rule: sort_json_sort_elems_sort_members.induct) simp_all

lemma sort_json_wf [simp]:
  "wf_json (sort_json v) = wf_json v"
  "wf_elems (sort_elems vs) = wf_elems vs"
  "wf_members (sort_members kvs) = wf_members kvs"
  by (induction v and vs and kvs rule: sort_json_sort_elems_sort_members.induct)
    (simp_all add: distinct_fst_sort_key)

text \<open>Two objects with the same members in another order have one text.\<close>

lemma sort_json_perm:
  assumes "mset kvs = mset kvs'" and "distinct (List.map fst kvs)"
  shows "sort_json (JObj kvs) = sort_json (JObj kvs')"
proof -
  have m: "mset (sort_members kvs) = mset (sort_members kvs')"
    using assms(1) by (simp add: sort_members_map)
  have "inj_on fst (set (sort_members kvs))"
    using assms(2) by (metis distinct_map fst_sort_members)
  then have "sort_key fst (sort_members kvs) = sort_key fst (sort_members kvs')"
    using m by (intro sort_key_inj_key_eq) simp_all
  then show ?thesis by simp
qed

theorem dumps_sorted_inj:
  assumes "format_ok F" "ser_ok F v" "wf_json v" "ser_ok F w" "wf_json w"
    and "dumps_sorted F v = dumps_sorted F w"
  shows "sort_json v = sort_json w"
proof -
  have "loads (ser F (sort_json v)) = Some (sort_json v)"
    by (rule loads_ser) (use assms in simp_all)
  moreover have "loads (ser F (sort_json w)) = Some (sort_json w)"
    by (rule loads_ser) (use assms in simp_all)
  ultimately show ?thesis using assms(6) unfolding dumps_sorted_def by (metis option.inject)
qed

end
