(* ===== verification/Canonical.thy ===== *)
theory Canonical
  imports Json
begin

text \<open>
  \<open>canonical.py\<close> and \<open>signing.py\<close>: the one encoding of an object that is hashed and signed, the
  URL-safe base64 of headers, and the keys.

  What is not the package's own code is the record \<open>runtime\<close>: SHA-256, \<open>float.__repr__\<close> and the
  \<open>repr\<close> of a list or a dictionary of the standard library, Ed25519 and PEM of \<open>cryptography\<close>.  Every definition that needs them takes the
  record as an argument, so the theorems hold for whatever functions are behind it; \<open>runtime_ok\<close>
  is the documented behaviour the round trips rely on.
\<close>

record ('sk, 'pk) runtime =
  sha256 :: "string \<Rightarrow> string"
  float_repr :: "rat \<Rightarrow> string"
  container_repr :: "json \<Rightarrow> string"
  ed_from_seed :: "string \<Rightarrow> 'sk"
  ed_public :: "'sk \<Rightarrow> 'pk"
  ed_sign :: "'sk \<Rightarrow> string \<Rightarrow> string"
  ed_verify :: "'pk \<Rightarrow> string \<Rightarrow> string \<Rightarrow> bool"
  pem_encode :: "'pk \<Rightarrow> string"
  pem_decode :: "string \<Rightarrow> 'pk option"

definition runtime_ok :: "('sk, 'pk) runtime \<Rightarrow> bool" where
  "runtime_ok rt \<longleftrightarrow>
     (\<forall>k m. ed_verify rt (ed_public rt k) (ed_sign rt k m) m) \<and>
     (\<forall>p. pem_decode rt (pem_encode rt p) = Some p \<and> pem_encode rt p \<noteq> [])"

text \<open>A concrete runtime, for evaluation on examples: keys are strings, the digest is the text.\<close>

definition toy_runtime :: "(string, string) runtime" where
  "toy_runtime = \<lparr> sha256 = (\<lambda>s. s), float_repr = (\<lambda>q. ''0.0''), container_repr = (\<lambda>v. ''...''),
     ed_from_seed = (\<lambda>s. s), ed_public = (\<lambda>k. k),
     ed_sign = (\<lambda>k m. k @ ''|'' @ m), ed_verify = (\<lambda>p s m. s = p @ ''|'' @ m),
     pem_encode = (\<lambda>p. ''PEM '' @ p),
     pem_decode = (\<lambda>s. if str_prefix ''PEM '' s then Some (drop 4 s) else None) \<rparr>"

lemma toy_runtime_ok: "runtime_ok toy_runtime"
  by (simp add: runtime_ok_def toy_runtime_def)

section \<open>Base64, URL-safe, without padding\<close>

definition b64_chr :: "nat \<Rightarrow> char" where
  "b64_chr n = (if n < 26 then char_of (65 + n)
                else if n < 52 then char_of (71 + n)
                else if n < 62 then char_of (n - 4)
                else if n = 62 then CHR ''-'' else CHR ''_'')"

fun urlsafe_b64encode :: "string \<Rightarrow> string" where
  "urlsafe_b64encode [] = []"
| "urlsafe_b64encode [a] =
     [b64_chr (of_char a div 4), b64_chr (of_char a mod 4 * 16), CHR ''='', CHR ''='']"
| "urlsafe_b64encode [a, b] =
     [b64_chr (of_char a div 4), b64_chr (of_char a mod 4 * 16 + of_char b div 16),
      b64_chr (of_char b mod 16 * 4), CHR ''='']"
| "urlsafe_b64encode (a # b # c # r) =
     b64_chr (of_char a div 4) # b64_chr (of_char a mod 4 * 16 + of_char b div 16) #
     b64_chr (of_char b mod 16 * 4 + of_char c div 64) # b64_chr (of_char c mod 64) #
     urlsafe_b64encode r"

definition rstrip_eq :: "string \<Rightarrow> string" where
  "rstrip_eq s = rev (dropWhile (\<lambda>c. c = CHR ''='') (rev s))"

definition b64 :: "string \<Rightarrow> string" where
  "b64 raw = rstrip_eq (urlsafe_b64encode raw)"

text \<open>The decoder's table after \<open>-_\<close> have become \<open>+/\<close>; other characters are skipped.\<close>

definition b64_val :: "char \<Rightarrow> nat option" where
  "b64_val c = (let n = of_char c :: nat in
     if 65 \<le> n \<and> n \<le> 90 then Some (n - 65)
     else if 97 \<le> n \<and> n \<le> 122 then Some (n - 71)
     else if 48 \<le> n \<and> n \<le> 57 then Some (n + 4)
     else if n = 43 \<or> n = 45 then Some 62
     else if n = 47 \<or> n = 95 then Some 63
     else None)"

text \<open>
  \<open>binascii.a2b_base64\<close> in its lenient mode: position in the quadruple, bits left over, padding
  characters seen since the last data character.  Enough padding ends the input.
\<close>

fun a2b :: "nat \<Rightarrow> nat \<Rightarrow> nat \<Rightarrow> string \<Rightarrow> string option" where
  "a2b q l p [] = (if q = 0 then Some [] else None)"
| "a2b q l p (c # cs) =
     (if c = CHR ''='' then
        (if 2 \<le> q \<and> 4 \<le> q + Suc p then Some []
         else a2b q l (if 2 \<le> q then Suc p else p) cs)
      else (case b64_val c of
              None \<Rightarrow> a2b q l p cs
            | Some v \<Rightarrow>
                if q = 0 then a2b 1 v 0 cs
                else if q = 1 then map_option ((#) (char_of (l * 4 + v div 16))) (a2b 2 (v mod 16) 0 cs)
                else if q = 2 then map_option ((#) (char_of (l * 16 + v div 4))) (a2b 3 (v mod 4) 0 cs)
                else map_option ((#) (char_of (l * 64 + v))) (a2b 0 0 0 cs)))"

definition urlsafe_b64decode :: "string \<Rightarrow> string option" where
  "urlsafe_b64decode s =
     (if \<exists>c \<in> set s. (128 :: nat) \<le> of_char c then None else a2b 0 0 0 s)"

text \<open>\<open>None\<close> is a \<open>ValueError\<close>: a character outside ASCII, or an impossible length.\<close>

definition unb64 :: "string \<Rightarrow> string option" where
  "unb64 raw = urlsafe_b64decode (raw @ replicate (nat (- int (length raw) mod 4)) (CHR ''=''))"

fun b64_body :: "string \<Rightarrow> string" where
  "b64_body [] = []"
| "b64_body [a] = [b64_chr (of_char a div 4), b64_chr (of_char a mod 4 * 16)]"
| "b64_body [a, b] =
     [b64_chr (of_char a div 4), b64_chr (of_char a mod 4 * 16 + of_char b div 16),
      b64_chr (of_char b mod 16 * 4)]"
| "b64_body (a # b # c # r) =
     b64_chr (of_char a div 4) # b64_chr (of_char a mod 4 * 16 + of_char b div 16) #
     b64_chr (of_char b mod 16 * 4 + of_char c div 64) # b64_chr (of_char c mod 64) # b64_body r"

lemma b64_val_chr [simp]: "n < 64 \<Longrightarrow> b64_val (b64_chr n) = Some n"
proof -
  assume n: "n < 64"
  consider "n < 26" | "26 \<le> n" "n < 52" | "52 \<le> n" "n < 62" | "n = 62" | "n = 63" using n by linarith
  then show ?thesis
    by cases (auto simp: b64_chr_def b64_val_def Let_def)
qed

lemma b64_chr_props:
  assumes "n < 64"
  shows "b64_chr n \<noteq> CHR ''=''" "of_char (b64_chr n) < (128 :: nat)" "b64_chr n \<noteq> CHR ''.''"
proof -
  have v: "b64_val (b64_chr n) = Some n" using assms by simp
  have "b64_val (CHR ''='') = None" "b64_val (CHR ''.'') = None" by code_simp+
  with v show "b64_chr n \<noteq> CHR ''=''" "b64_chr n \<noteq> CHR ''.''" by (metis option.distinct(1))+
  show "of_char (b64_chr n) < (128 :: nat)" using assms by (auto simp: b64_chr_def)
qed

lemma byte_parts:
  fixes a b :: char
  shows "(of_char a :: nat) div 4 < 64" "(of_char a mod 4 * 16 :: nat) < 64"
    "(of_char a mod 4 * 16 + of_char b div 16 :: nat) < 64"
    "(of_char a mod 16 * 4 :: nat) < 64" "(of_char a mod 16 * 4 + of_char b div 64 :: nat) < 64"
    "(of_char a mod 64 :: nat) < 64"
proof -
  have "x div 4 < 64 \<and> x mod 4 * 16 < 64 \<and> x mod 4 * 16 + y div 16 < 64 \<and>
        x mod 16 * 4 < 64 \<and> x mod 16 * 4 + y div 64 < 64 \<and> x mod 64 < 64"
    if "x < 256" "y < 256" for x y :: nat
  proof -
    have "x div 4 < 64" "y div 16 < 16" "y div 64 < 4"
      using that by (simp_all add: less_mult_imp_div_less)
    moreover have "x mod 4 < 4" "x mod 16 < 16" "x mod 64 < 64" by simp_all
    ultimately show ?thesis by linarith
  qed
  from this [OF of_char_less of_char_less, of a b]
  show "(of_char a :: nat) div 4 < 64" "(of_char a mod 4 * 16 :: nat) < 64"
    "(of_char a mod 4 * 16 + of_char b div 16 :: nat) < 64"
    "(of_char a mod 16 * 4 :: nat) < 64" "(of_char a mod 16 * 4 + of_char b div 64 :: nat) < 64"
    "(of_char a mod 64 :: nat) < 64"
    by blast+
qed

lemma byte_div:
  "(of_char b :: nat) div 16 div 16 = 0" "(of_char b :: nat) div 16 mod 16 = of_char b div 16"
  "(of_char b :: nat) div 64 div 4 = 0" "(of_char b :: nat) div 64 mod 4 = of_char b div 64"
proof -
  have "(of_char b :: nat) div 16 < 16" "(of_char b :: nat) div 64 < 4"
    using of_char_less [of b] by (simp_all add: less_mult_imp_div_less)
  then show "(of_char b :: nat) div 16 div 16 = 0" "(of_char b :: nat) div 16 mod 16 = of_char b div 16"
    "(of_char b :: nat) div 64 div 4 = 0" "(of_char b :: nat) div 64 mod 4 = of_char b div 64"
    by simp_all
qed

lemma urlsafe_b64encode_body:
  "\<exists>k. urlsafe_b64encode s = b64_body s @ replicate k (CHR ''='')"
  by (induction s rule: b64_body.induct)
    (auto intro: exI [of _ 0] exI [of _ "Suc 0"] exI [of _ "Suc (Suc 0)"])

lemma b64_body_all: "(\<And>n. n < 64 \<Longrightarrow> P (b64_chr n)) \<Longrightarrow> \<forall>c \<in> set (b64_body s). P c"
  by (induction s rule: b64_body.induct) (simp_all add: byte_parts)

lemma b64_eq_body: "b64 s = b64_body s"
proof -
  obtain k where k: "urlsafe_b64encode s = b64_body s @ replicate k (CHR ''='')"
    using urlsafe_b64encode_body by blast
  have "\<forall>c \<in> set (b64_body s). c \<noteq> CHR ''=''"
    by (rule b64_body_all) (rule b64_chr_props)
  then have "dropWhile (\<lambda>c. c = CHR ''='') (rev (b64_body s)) = rev (b64_body s)"
    by (cases "rev (b64_body s)") (auto simp flip: set_rev [of "b64_body s"])
  moreover have "dropWhile (\<lambda>c. c = CHR ''='') (replicate k (CHR ''='') @ xs)
      = dropWhile (\<lambda>c. c = CHR ''='') xs" for xs
    by (induction k) auto
  ultimately show ?thesis by (simp add: b64_def rstrip_eq_def k)
qed

lemma a2b_body:
  "a2b 0 l p (b64_body s @ replicate (nat (- int (length (b64_body s)) mod 4)) (CHR ''='')) = Some s"
proof (induction s arbitrary: l p rule: b64_body.induct)
  case (4 a b c r)
  have "- int (length (b64_body (a # b # c # r))) mod 4 = - int (length (b64_body r)) mod 4"
  proof -
    have "- (4 + x) mod 4 = - x mod 4" for x :: int by presburger
    from this [of "int (length (b64_body r))"] show ?thesis by simp
  qed
  with "4.IH" show ?case
    by (simp add: byte_parts byte_div b64_chr_props)
qed (simp_all add: byte_parts byte_div b64_chr_props numeral_2_eq_2)

theorem b64_roundtrip: "unb64 (b64 s) = Some s"
proof -
  have "\<forall>c \<in> set (b64_body s). of_char c < (128 :: nat)"
    by (rule b64_body_all) (rule b64_chr_props)
  moreover have "of_char (CHR ''='') < (128 :: nat)" by code_simp
  ultimately have "\<not> (\<exists>c \<in> set (b64_body s @ replicate k (CHR ''='')). (128 :: nat) \<le> of_char c)" for k
    by (auto simp: not_le)
  then show ?thesis by (simp add: unb64_def urlsafe_b64decode_def b64_eq_body a2b_body)
qed

lemma b64_no_dot: "CHR ''.'' \<notin> set (b64 s)"
  using b64_body_all [of "\<lambda>c. c \<noteq> CHR ''.''" s] b64_chr_props(3) by (auto simp: b64_eq_body)

section \<open>Canonical bytes\<close>

datatype canonical_error = FloatRejected string

fun assert_no_floats :: "string \<Rightarrow> json \<Rightarrow> canonical_error + unit"
and assert_no_floats_elems :: "string \<Rightarrow> nat \<Rightarrow> json list \<Rightarrow> canonical_error + unit"
and assert_no_floats_members :: "string \<Rightarrow> (string \<times> json) list \<Rightarrow> canonical_error + unit" where
  "assert_no_floats path (JFloat q) = Inl (FloatRejected path)"
| "assert_no_floats path (JNonFinite s) = Inl (FloatRejected path)"
| "assert_no_floats path (JObj kvs) = assert_no_floats_members path kvs"
| "assert_no_floats path (JList vs) = assert_no_floats_elems path 0 vs"
| "assert_no_floats path JNull = Inr ()"
| "assert_no_floats path (JBool b) = Inr ()"
| "assert_no_floats path (JInt i) = Inr ()"
| "assert_no_floats path (JStr s) = Inr ()"
| "assert_no_floats_elems path i [] = Inr ()"
| "assert_no_floats_elems path i (v # vs) =
     rbind (assert_no_floats (path @ ''['' @ nat_str i @ '']'') v)
       (\<lambda>_. assert_no_floats_elems path (Suc i) vs)"
| "assert_no_floats_members path [] = Inr ()"
| "assert_no_floats_members path ((k, v) # kvs) =
     rbind (assert_no_floats (path @ ''.'' @ k) v) (\<lambda>_. assert_no_floats_members path kvs)"

definition canonical_format :: "(rat \<Rightarrow> string) \<Rightarrow> json_format" where
  "canonical_format fr = \<lparr> ascii_only = False, item_sep = '','', key_sep = '':'', float_text = fr \<rparr>"

definition canonical_bytes :: "(rat \<Rightarrow> string) \<Rightarrow> bool \<Rightarrow> json \<Rightarrow> canonical_error + string" where
  "canonical_bytes fr reject_floats payload =
     rbind (if reject_floats then assert_no_floats ''$'' payload else Inr ())
       (\<lambda>_. Inr (utf8_encode (dumps_sorted (canonical_format fr) payload)))"

text \<open>\<open>hashlib.sha256(raw).hexdigest()\<close>.\<close>

definition hex2 :: "char \<Rightarrow> string" where
  "hex2 c = [hex_chr (of_char c div 16), hex_chr (of_char c mod 16)]"

definition sha256_hex :: "('sk, 'pk) runtime \<Rightarrow> string \<Rightarrow> string" where
  "sha256_hex rt raw = concat (List.map hex2 (sha256 rt raw))"

definition canonical_hash :: "('sk, 'pk) runtime \<Rightarrow> json \<Rightarrow> canonical_error + string" where
  "canonical_hash rt payload =
     rbind (canonical_bytes (float_repr rt) True payload) (\<lambda>raw. Inr (sha256_hex rt raw))"

lemma format_ok_canonical [simp]: "format_ok (canonical_format fr)"
  by (simp add: format_ok_def canonical_format_def)

lemma assert_no_floats_iff:
  "(assert_no_floats path v = Inr ()) = no_float v"
  "(assert_no_floats_elems path i vs = Inr ()) = no_float_elems vs"
  "(assert_no_floats_members path kvs = Inr ()) = no_float_members kvs"
  by (induction path v and path i vs and path kvs
      rule: assert_no_floats_assert_no_floats_elems_assert_no_floats_members.induct)
    (auto simp: rbind_Inr_iff)

lemma canonical_bytes_Inr:
  "canonical_bytes fr True v = Inr raw \<longleftrightarrow>
   no_float v \<and> raw = utf8_encode (dumps_sorted (canonical_format fr) v)"
  using assert_no_floats_iff(1) [of "''$''" v]
  by (auto simp: canonical_bytes_def rbind_Inr_iff)

text \<open>Equal bytes come from equal objects, up to the order of the members of each object.\<close>

lemma canonical_bytes_inj:
  assumes "canonical_bytes fr True v = Inr raw" "canonical_bytes fr True w = Inr raw"
    and "wf_json v" "wf_json w"
  shows "sort_json v = sort_json w"
  using assms dumps_sorted_inj [of "canonical_format fr" v w]
  by (auto simp: canonical_bytes_Inr no_float_ser_ok)

text \<open>What is read back from the bytes is the object with its members sorted.\<close>

lemma loads_canonical_bytes:
  assumes "canonical_bytes fr True v = Inr raw" "wf_json v"
  shows "Option.bind (utf8_decode raw) loads = Some (sort_json v)"
  using assms loads_ser [of "canonical_format fr" "sort_json v"]
  by (auto simp: canonical_bytes_Inr dumps_sorted_def no_float_ser_ok)

section \<open>signing.py\<close>

datatype signing_error = UnreadableKey

definition derive_signing_key :: "('sk, 'pk) runtime \<Rightarrow> string \<Rightarrow> 'sk" where
  "derive_signing_key rt secret = ed_from_seed rt (sha256 rt (utf8_encode secret))"

definition public_pem :: "('sk, 'pk) runtime \<Rightarrow> 'sk \<Rightarrow> string" where
  "public_pem rt k = pem_encode rt (ed_public rt k)"

text \<open>\<open>ValueError\<close> for an unreadable PEM and for a key that is not Ed25519.\<close>

definition load_public_pem :: "('sk, 'pk) runtime \<Rightarrow> string \<Rightarrow> signing_error + 'pk" where
  "load_public_pem rt pem =
     (case pem_decode rt pem of None \<Rightarrow> Inl UnreadableKey | Some p \<Rightarrow> Inr p)"

definition key_fingerprint :: "('sk, 'pk) runtime \<Rightarrow> string \<Rightarrow> string" where
  "key_fingerprint rt pem = take 16 (sha256_hex rt (utf8_encode pem))"

section \<open>Properties of the component\<close>

text \<open>C30: the bytes to sign say exactly what the object is: two objects have the same bytes if and only if they
  are the same up to the order of their members, and reading the bytes as JSON gives the object back
  with its members sorted.\<close>

theorem canonical_bytes_faithful:
  assumes "wf_json v" "wf_json w" "canonical_bytes fr True v = Inr a" "canonical_bytes fr True w = Inr b"
  shows "(a = b \<longleftrightarrow> sort_json v = sort_json w) \<and> Option.bind (utf8_decode a) loads = Some (sort_json v)"
proof -
  have "sort_json v = sort_json w \<Longrightarrow> a = b"
    using assms(3,4) by (simp add: canonical_bytes_Inr dumps_sorted_def)
  then show ?thesis
    using canonical_bytes_inj [OF assms(3) _ assms(1,2)] assms(4) loads_canonical_bytes [OF assms(3,1)] by blast
qed

theorem canonical_bytes_faithful_witness:
  "\<exists>a. canonical_bytes (\<lambda>q. []) True (JObj [(''b'', JInt 1), (''a'', JNull)]) = Inr a \<and>
       canonical_bytes (\<lambda>q. []) True (JObj [(''a'', JNull), (''b'', JInt 1)]) = Inr a"
proof -
  let ?v = "JObj [(''b'', JInt 1), (''a'', JNull)]" and ?w = "JObj [(''a'', JNull), (''b'', JInt 1)]"
  obtain a b where ab: "canonical_bytes (\<lambda>q. []) True ?v = Inr a" "canonical_bytes (\<lambda>q. []) True ?w = Inr b"
    by (simp add: canonical_bytes_Inr)
  have wf: "wf_json ?v" "wf_json ?w" by simp_all
  have "sort_json ?v = sort_json ?w" by code_simp
  then show ?thesis using canonical_bytes_faithful [OF wf ab] ab by blast
qed

text \<open>An object is refused exactly when a float occurs in it, at whatever depth.\<close>

theorem canonical_rejects_exactly_floats:
  "(\<exists>e. canonical_bytes fr True v = Inl e) \<longleftrightarrow> \<not> no_float v"
  using canonical_bytes_Inr [of fr v] by (metis sum.exhaust sum.distinct(1))

text \<open>What \<open>b64\<close> writes, \<open>unb64\<close> reads back, and it contains no dot, so that the dot can separate the two
  halves of a header.\<close>

theorem b64_header_safe: "unb64 (b64 s) = Some s \<and> CHR ''.'' \<notin> set (b64 s)"
  using b64_roundtrip b64_no_dot by blast

end
