(* ===== verification/HashChain.thy ===== *)
theory HashChain
  imports Canonical
begin

text \<open>
  What the audit journal (\<open>audit.py\<close>) and the evidence journal (\<open>assurance/evidence.py\<close>) share: a list
  of entries, each storing the digest of its own text and carrying the digest of its predecessor.

  \<open>chained\<close> is the check both verifiers perform.  The interface \<open>hash_chain\<close> asks that the text of
  an entry determines its predecessor field and its content; from it follows tamper evidence without
  any assumption on the hash function: two chains that end in the same digest agree entry by entry,
  or they exhibit a collision.
\<close>

fun chained :: "('e \<Rightarrow> string) \<Rightarrow> ('e \<Rightarrow> string) \<Rightarrow> ('e \<Rightarrow> bool) \<Rightarrow> string \<Rightarrow> 'e list \<Rightarrow> bool" where
  "chained prev stored sealed h [] = True"
| "chained prev stored sealed h (e # es) =
     (prev e = h \<and> sealed e \<and> chained prev stored sealed (stored e) es)"

fun chain_head :: "('e \<Rightarrow> string) \<Rightarrow> string \<Rightarrow> 'e list \<Rightarrow> string" where
  "chain_head stored h [] = h"
| "chain_head stored h (e # es) = chain_head stored (stored e) es"

definition hash_collision :: "(string \<Rightarrow> string) \<Rightarrow> string set \<Rightarrow> bool" where
  "hash_collision H T \<longleftrightarrow> (\<exists>x \<in> T. \<exists>y \<in> T. x \<noteq> y \<and> H x = H y)"

lemma chain_head_snoc [simp]: "chain_head stored h (es @ [e]) = stored e"
  by (induction es arbitrary: h) auto

lemma chained_append:
  "chained prev stored sealed h (xs @ ys) \<longleftrightarrow>
   chained prev stored sealed h xs \<and> chained prev stored sealed (chain_head stored h xs) ys"
  by (induction xs arbitrary: h) auto

lemma chained_sealed: "chained prev stored sealed h es \<Longrightarrow> e \<in> set es \<Longrightarrow> sealed e"
  by (induction es arbitrary: h) auto

lemma hash_collision_mono: "hash_collision H S \<Longrightarrow> S \<subseteq> T \<Longrightarrow> hash_collision H T"
  by (auto simp: hash_collision_def)

locale hash_chain =
  fixes H :: "string \<Rightarrow> string"
    and pre :: "'e \<Rightarrow> string"
    and prev :: "'e \<Rightarrow> string"
    and stored :: "'e \<Rightarrow> string"
    and sealed :: "'e \<Rightarrow> bool"
    and content :: "'e \<Rightarrow> 'c"
    and ok :: "'e \<Rightarrow> bool"
  assumes sealed_digest: "ok e \<Longrightarrow> sealed e \<Longrightarrow> stored e = H (pre e)"
    and pre_determines: "ok e \<Longrightarrow> ok e' \<Longrightarrow> pre e = pre e' \<Longrightarrow> prev e = prev e' \<and> content e = content e'"
begin

lemma same_digest:
  assumes "ok e" "ok e'" "sealed e" "sealed e'" "stored e = stored e'"
  shows "prev e = prev e' \<and> content e = content e' \<or> hash_collision H {pre e, pre e'}"
proof (cases "pre e = pre e'")
  case True
  with assms pre_determines show ?thesis by blast
next
  case False
  moreover have "H (pre e) = H (pre e')" using assms sealed_digest by metis
  ultimately show ?thesis by (auto simp: hash_collision_def)
qed

theorem tamper_evident:
  assumes "chained prev stored sealed h xs" "chained prev stored sealed h' ys"
    and "\<forall>e \<in> set xs \<union> set ys. ok e"
    and "length xs = length ys" "chain_head stored h xs = chain_head stored h' ys"
  shows "h = h' \<and> List.map content xs = List.map content ys \<or> hash_collision H (pre ` (set xs \<union> set ys))"
  using assms
proof (induction xs arbitrary: ys rule: rev_induct)
  case Nil
  then show ?case by simp
next
  case (snoc x xs)
  then obtain zs y where ys: "ys = zs @ [y]" by (cases ys rule: rev_cases) auto
  have c: "chained prev stored sealed h xs" "prev x = chain_head stored h xs" "sealed x"
    "chained prev stored sealed h' zs" "prev y = chain_head stored h' zs" "sealed y"
    using snoc.prems(1,2) by (simp_all add: ys chained_append)
  have st: "stored x = stored y" using snoc.prems(5) by (simp add: ys)
  have ok: "ok x" "ok y" using snoc.prems(3) ys by auto
  from same_digest [OF ok c(3,6) st] show ?case
  proof
    assume eq: "prev x = prev y \<and> content x = content y"
    then have "h = h' \<and> List.map content xs = List.map content zs \<or>
        hash_collision H (pre ` (set xs \<union> set zs))"
      using snoc.prems(3,4) c ys by (intro snoc.IH) auto
    then show ?thesis
    proof
      assume "hash_collision H (pre ` (set xs \<union> set zs))"
      then have "hash_collision H (pre ` (set (xs @ [x]) \<union> set ys))"
        by (rule hash_collision_mono) (auto simp: ys)
      then show ?thesis ..
    qed (use eq ys in auto)
  next
    assume "hash_collision H {pre x, pre y}"
    then have "hash_collision H (pre ` (set (xs @ [x]) \<union> set ys))"
      by (rule hash_collision_mono) (auto simp: ys)
    then show ?thesis ..
  qed
qed

end

end
