(* ===== verification/PyValues.thy ===== *)
theory PyValues
  imports Canonical
begin

text \<open>
  Conversions of JSON values that several modules perform on untrusted input: \<open>str(v)\<close>, \<open>int(v)\<close>,
  \<open>json.loads\<close> of bytes, truth values, \<open>dict.get\<close>.
\<close>

datatype py_exc = TypeError | ValueError | OverflowError | AttributeError | KeyError

definition py_str :: "('sk, 'pk) runtime \<Rightarrow> json \<Rightarrow> string" where
  "py_str rt v = (case v of
     JNull \<Rightarrow> ''None''
   | JBool b \<Rightarrow> (if b then ''True'' else ''False'')
   | JInt i \<Rightarrow> int_str i
   | JFloat q \<Rightarrow> float_repr rt q
   | JNonFinite s \<Rightarrow> (if s = ''NaN'' then ''nan'' else if s = ''Infinity'' then ''inf'' else ''-inf'')
   | JStr s \<Rightarrow> s
   | JList vs \<Rightarrow> container_repr rt v
   | JObj kvs \<Rightarrow> container_repr rt v)"

text \<open>Digits with single underscores between them, as \<open>int(text)\<close> accepts them.\<close>

fun underscore_digits :: "string \<Rightarrow> string option" where
  "underscore_digits [] = None"
| "underscore_digits [c] = (if is_digit c then Some [c] else None)"
| "underscore_digits (c # d # cs) =
     (if \<not> is_digit c then None
      else if d = CHR ''_'' then map_option ((#) c) (underscore_digits cs)
      else map_option ((#) c) (underscore_digits (d # cs)))"

definition int_of_text :: "string \<Rightarrow> int option" where
  "int_of_text s =
     (let t = str_strip s; (neg, u) = p_sign t
      in map_option (\<lambda>ds. if neg then - int (digits_val ds) else int (digits_val ds))
           (underscore_digits u))"

definition trunc :: "rat \<Rightarrow> int" where
  "trunc q = (if 0 \<le> q then \<lfloor>q\<rfloor> else \<lceil>q\<rceil>)"

definition py_int :: "json \<Rightarrow> py_exc + int" where
  "py_int v = (case v of
     JInt i \<Rightarrow> Inr i
   | JBool b \<Rightarrow> Inr (if b then 1 else 0)
   | JFloat q \<Rightarrow> Inr (trunc q)
   | JNonFinite s \<Rightarrow> Inl (if s = ''NaN'' then ValueError else OverflowError)
   | JStr s \<Rightarrow> (case int_of_text s of None \<Rightarrow> Inl ValueError | Some i \<Rightarrow> Inr i)
   | _ \<Rightarrow> Inl TypeError)"

text \<open>\<open>json.loads\<close> of bytes in UTF-8; the detection of UTF-16 and UTF-32 is not modelled.\<close>

definition loads_bytes :: "string \<Rightarrow> json option" where
  "loads_bytes raw = Option.bind (utf8_decode raw) loads"

definition py_true :: "json \<Rightarrow> bool" where
  "py_true v = (case v of
     JNull \<Rightarrow> False | JBool b \<Rightarrow> b | JInt i \<Rightarrow> i \<noteq> 0 | JFloat q \<Rightarrow> q \<noteq> 0 | JNonFinite s \<Rightarrow> True
   | JStr s \<Rightarrow> s \<noteq> [] | JList vs \<Rightarrow> vs \<noteq> [] | JObj kvs \<Rightarrow> kvs \<noteq> [])"

definition py_get :: "(string \<times> json) list \<Rightarrow> string \<Rightarrow> json" where
  "py_get kvs k = (case map_of kvs k of None \<Rightarrow> JNull | Some v \<Rightarrow> v)"

text \<open>\<open>float(text)\<close> on decimal literals; \<open>inf\<close> and \<open>nan\<close> are no rationals and read as failures.\<close>

definition digit_group :: "string \<Rightarrow> string option \<times> string" where
  "digit_group s =
     (let g = takeWhile (\<lambda>c. is_digit c \<or> c = CHR ''_'') s
      in (underscore_digits g, dropWhile (\<lambda>c. is_digit c \<or> c = CHR ''_'') s))"

definition float_of_text :: "string \<Rightarrow> rat option" where
  "float_of_text s =
     (let (neg, u) = p_sign (str_strip s);
          (ip, r) = digit_group u;
          (fr, r1) = (case r of c # t \<Rightarrow> if c = CHR ''.'' then digit_group t else (None, r) | [] \<Rightarrow> (None, r));
          (ex, r2) = p_exp r1;
          ds = (case ip of None \<Rightarrow> [] | Some d \<Rightarrow> d) @ (case fr of None \<Rightarrow> [] | Some d \<Rightarrow> d);
          e = (case ex of None \<Rightarrow> 0 | Some e \<Rightarrow> e) - int (case fr of None \<Rightarrow> 0 | Some d \<Rightarrow> length d);
          q = of_nat (digits_val ds) * pow10 e
      in if ds = [] \<or> r2 \<noteq> [] then None else Some (if neg then - q else q))"

definition py_float :: "json \<Rightarrow> py_exc + rat" where
  "py_float v = (case v of
     JInt i \<Rightarrow> Inr (of_int i)
   | JBool b \<Rightarrow> Inr (if b then 1 else 0)
   | JFloat q \<Rightarrow> Inr q
   | JNonFinite s \<Rightarrow> Inl ValueError
   | JStr s \<Rightarrow> (case float_of_text s of None \<Rightarrow> Inl ValueError | Some q \<Rightarrow> Inr q)
   | _ \<Rightarrow> Inl TypeError)"

text \<open>\<open>json.dumps(v, ensure_ascii=False)\<close>: default separators.\<close>

definition readable_format :: "(rat \<Rightarrow> string) \<Rightarrow> json_format" where
  "readable_format fr = \<lparr> ascii_only = False, item_sep = '', '', key_sep = '': '', float_text = fr \<rparr>"

text \<open>\<open>isinstance(v, str)\<close>, \<open>isinstance(v, (int, float))\<close> (a \<open>bool\<close> is an \<open>int\<close>), and
  "\<open>None\<close> or a string".\<close>

fun py_is_str :: "json \<Rightarrow> bool" where
  "py_is_str (JStr s) = True"
| "py_is_str _ = False"

fun py_is_num :: "json \<Rightarrow> bool" where
  "py_is_num (JBool b) = True"
| "py_is_num (JInt i) = True"
| "py_is_num (JFloat q) = True"
| "py_is_num (JNonFinite s) = True"
| "py_is_num _ = False"

definition py_or :: "json \<Rightarrow> json \<Rightarrow> json" where
  "py_or v w = (if py_true v then v else w)"

fun str_of_json :: "json \<Rightarrow> string" where
  "str_of_json (JStr s) = s"
| "str_of_json _ = []"

definition json_of_opt :: "string option \<Rightarrow> json" where
  "json_of_opt x = (case x of None \<Rightarrow> JNull | Some s \<Rightarrow> JStr s)"

fun opt_of_json :: "json \<Rightarrow> string option" where
  "opt_of_json (JStr s) = Some s"
| "opt_of_json _ = None"

lemma opt_of_json_inverse [simp]: "opt_of_json (json_of_opt x) = x"
  by (cases x) (simp_all add: json_of_opt_def)

lemma py_is_str_iff: "py_is_str v \<longleftrightarrow> (\<exists>s. v = JStr s)"
  by (cases v) auto

lemma py_float_JFloat [simp]: "py_float (JFloat q) = Inr q"
  by (simp add: py_float_def)

lemma py_true_simps [simp]:
  "py_true JNull = False" "py_true (JBool b) = b" "py_true (JInt i) = (i \<noteq> 0)"
  "py_true (JFloat q) = (q \<noteq> 0)" "py_true (JNonFinite s) = True" "py_true (JStr s) = (s \<noteq> [])"
  "py_true (JList vs) = (vs \<noteq> [])" "py_true (JObj kvs) = (kvs \<noteq> [])"
  by (simp_all add: py_true_def)

text \<open>A dictionary rebuilt from its values, each filed under its own key.\<close>

lemma foldl_dict_set_by:
  assumes "distinct (List.map fst (d @ xs))" "\<forall>x \<in> set xs. key (snd x) = fst x"
  shows "foldl (\<lambda>d a. dict_set (key a) a d) d (List.map snd xs) = d @ xs"
  using assms
proof (induction xs arbitrary: d)
  case (Cons x xs)
  obtain k a where x: "x = (k, a)" by (cases x)
  have "dict_set k a d = d @ [(k, a)]" using Cons.prems(1) x by (induction d) auto
  then show ?case using Cons.IH [of "d @ [(k, a)]"] Cons.prems by (simp add: x)
qed simp

lemma foldl_dict_set_pairs:
  "distinct (List.map fst (d @ kvs)) \<Longrightarrow> foldl (\<lambda>d kv. dict_set (fst kv) (snd kv) d) d kvs = d @ kvs"
proof (induction kvs arbitrary: d)
  case (Cons kv kvs)
  then have "dict_set (fst kv) (snd kv) d = d @ [kv]" by (simp add: dict_set_new)
  with Cons.IH [of "d @ [kv]"] Cons.prems show ?case by simp
qed simp

lemma set_dict_del: "set (dict_del k xs) \<subseteq> set xs"
  by (induction xs) (auto split: if_splits)

lemma py_str_JStr [simp]: "py_str rt (JStr s) = s"
  by (simp add: py_str_def)

lemma py_int_JInt [simp]: "py_int (JInt i) = Inr i"
  by (simp add: py_int_def)

lemma loads_bytes_canonical:
  assumes "canonical_bytes fr True v = Inr raw" "wf_json v"
  shows "loads_bytes raw = Some (sort_json v)"
  using loads_canonical_bytes [OF assms] by (simp add: loads_bytes_def)

text \<open>Fields of an object survive the sorting of its keys.\<close>

lemma map_of_sorted:
  assumes "distinct (List.map fst kvs)"
  shows "map_of (sort_key fst (sort_members kvs)) k = map_option sort_json (map_of kvs k)"
proof -
  have m: "map_of (sort_members l) k = map_option sort_json (map_of l k)" for l
    by (induction l) auto
  have "map_of (sort_key fst (sort_members kvs)) = map_of (sort_members kvs)"
    using assms by (intro map_of_inject_set [THEN iffD2]) (simp_all add: distinct_fst_sort_key)
  then show ?thesis by (simp add: m)
qed

lemma sort_json_obj_lookup:
  assumes "distinct (List.map fst kvs)" "distinct (List.map fst kvs')"
    and "sort_json (JObj kvs) = sort_json (JObj kvs')"
  shows "map_option sort_json (map_of kvs k) = map_option sort_json (map_of kvs' k)"
proof -
  have m: "map_of (sort_members l) k = map_option sort_json (map_of l k)" for l
    by (induction l) auto
  have s: "map_of (sort_key fst (sort_members l)) = map_of (sort_members l)"
    if "distinct (List.map fst l)" for l
    using that by (intro map_of_inject_set [THEN iffD2]) (simp_all add: distinct_fst_sort_key)
  from assms(3) have "map_of (sort_key fst (sort_members kvs)) k = map_of (sort_key fst (sort_members kvs')) k"
    by simp
  then show ?thesis by (simp add: s assms m)
qed

end
