(* ===== verification/Journal.thy ===== *)
theory Journal
  imports HashChain PyValues
begin

text \<open>
  \<open>audit.py\<close>: the journal in which each entry is sealed by the SHA-256 of its own content, its
  index and the digest of the entry before it.  An entry's timestamp is a float, so the results that
  read a text back ask \<open>audit_entry_ok\<close>: \<open>float.__repr__\<close> of that timestamp is read back by
  \<open>json.loads\<close>, and the metadata is a dictionary.
\<close>

record audit_entry =
  ae_index :: int
  ae_timestamp :: rat
  ae_event_type :: string
  ae_sender :: string
  ae_target :: "string option"
  ae_metadata :: json
  ae_prev_hash :: string
  ae_hash :: string

definition json_of_option :: "string option \<Rightarrow> json" where
  "json_of_option t = (case t of None \<Rightarrow> JNull | Some s \<Rightarrow> JStr s)"

definition audit_format :: "('sk, 'pk) runtime \<Rightarrow> json_format" where
  "audit_format rt =
     \<lparr> ascii_only = True, item_sep = '', '', key_sep = '': '', float_text = float_repr rt \<rparr>"

definition audit_payload :: "audit_entry \<Rightarrow> json" where
  "audit_payload e = JObj
     [(''index'', JInt (ae_index e)),
      (''timestamp'', JFloat (ae_timestamp e)),
      (''event_type'', JStr (ae_event_type e)),
      (''sender'', JStr (ae_sender e)),
      (''target'', json_of_option (ae_target e)),
      (''metadata'', ae_metadata e),
      (''prev_hash'', JStr (ae_prev_hash e))]"

definition audit_text :: "('sk, 'pk) runtime \<Rightarrow> audit_entry \<Rightarrow> string" where
  "audit_text rt e = utf8_encode (dumps_sorted (audit_format rt) (audit_payload e))"

definition compute_hash :: "('sk, 'pk) runtime \<Rightarrow> audit_entry \<Rightarrow> string" where
  "compute_hash rt e = sha256_hex rt (audit_text rt e)"

text \<open>The constructor: \<open>timestamp or time.time()\<close>, \<open>entry_hash or self.compute_hash()\<close>.\<close>

definition new_audit_entry ::
  "('sk, 'pk) runtime \<Rightarrow> rat \<Rightarrow> int \<Rightarrow> string \<Rightarrow> string \<Rightarrow> string option \<Rightarrow> json \<Rightarrow> string \<Rightarrow>
   rat option \<Rightarrow> string option \<Rightarrow> audit_entry" where
  "new_audit_entry rt clock index event_type sender target metadata prev_hash timestamp entry_hash =
     (let e = \<lparr> ae_index = index,
                ae_timestamp = (case timestamp of None \<Rightarrow> clock | Some t \<Rightarrow> if t = 0 then clock else t),
                ae_event_type = event_type, ae_sender = sender, ae_target = target,
                ae_metadata = metadata, ae_prev_hash = prev_hash, ae_hash = [] \<rparr>
      in e\<lparr>ae_hash := (case entry_hash of
                         None \<Rightarrow> compute_hash rt e
                       | Some h \<Rightarrow> if h = [] then compute_hash rt e else h)\<rparr>)"

definition audit_entry_to_dict :: "audit_entry \<Rightarrow> json" where
  "audit_entry_to_dict e = JObj
     [(''index'', JInt (ae_index e)),
      (''timestamp'', JFloat (ae_timestamp e)),
      (''event_type'', JStr (ae_event_type e)),
      (''sender'', JStr (ae_sender e)),
      (''target'', json_of_option (ae_target e)),
      (''metadata'', ae_metadata e),
      (''prev_hash'', JStr (ae_prev_hash e)),
      (''hash'', JStr (ae_hash e))]"

text \<open>
  \<open>AuditEntry.from_dict\<close>, on rows whose fields have the types \<open>to_dict\<close> gives them; \<open>None\<close> is a
  missing mandatory field (\<open>KeyError\<close>) or a row of other types.
\<close>

definition audit_entry_from_dict :: "('sk, 'pk) runtime \<Rightarrow> rat \<Rightarrow> json \<Rightarrow> audit_entry option" where
  "audit_entry_from_dict rt clock d = (case d of
     JObj kvs \<Rightarrow>
       (case (map_of kvs ''index'', map_of kvs ''event_type'', map_of kvs ''sender'',
              map_of kvs ''prev_hash'') of
          (Some (JInt i), Some (JStr ev), Some (JStr sdr), Some (JStr ph)) \<Rightarrow>
            Some (new_audit_entry rt clock i ev sdr
              (case map_of kvs ''target'' of Some (JStr t) \<Rightarrow> Some t | _ \<Rightarrow> None)
              (case map_of kvs ''metadata'' of Some m \<Rightarrow> m | None \<Rightarrow> JObj [])
              ph
              (case map_of kvs ''timestamp'' of Some (JFloat t) \<Rightarrow> Some t
                 | Some (JInt t) \<Rightarrow> Some (of_int t) | _ \<Rightarrow> None)
              (case map_of kvs ''hash'' of Some (JStr h) \<Rightarrow> Some h | _ \<Rightarrow> None))
        | _ \<Rightarrow> None)
   | _ \<Rightarrow> None)"

section \<open>The journal\<close>

definition zero_hash :: string where
  "zero_hash = replicate 64 (CHR ''0'')"

definition genesis_block :: "('sk, 'pk) runtime \<Rightarrow> rat \<Rightarrow> audit_entry" where
  "genesis_block rt clock = new_audit_entry rt clock 0 ''GENESIS'' ''intermesh_system'' None
     (JObj [(''system'', JStr ''InterMesh Protocol Immutable Audit Log Initialized'')])
     zero_hash (Some clock) None"

text \<open>
  The journal resumes the rows it is given, or starts with a genesis block; \<open>None\<close> is a row that
  \<open>from_dict\<close> refuses.
\<close>

definition audit_new :: "('sk, 'pk) runtime \<Rightarrow> rat \<Rightarrow> audit_entry list" where
  "audit_new rt clock = [genesis_block rt clock]"

definition audit_open :: "('sk, 'pk) runtime \<Rightarrow> rat \<Rightarrow> json list \<Rightarrow> audit_entry list option" where
  "audit_open rt clock rows =
     (if rows \<noteq> [] then those (List.map (audit_entry_from_dict rt clock) rows)
      else Some (audit_new rt clock))"

text \<open>\<open>log\<close>; \<open>metadata or {}\<close> is an empty dictionary for \<open>None\<close>.\<close>

definition audit_log ::
  "('sk, 'pk) runtime \<Rightarrow> rat \<Rightarrow> string \<Rightarrow> string \<Rightarrow> string option \<Rightarrow> json \<Rightarrow>
   audit_entry list \<Rightarrow> audit_entry list" where
  "audit_log rt clock event_type sender target metadata chain =
     chain @ [new_audit_entry rt clock (int (length chain)) event_type sender target
                (if py_true metadata then metadata else JObj []) (ae_hash (last chain)) None None]"

fun verify_links :: "('sk, 'pk) runtime \<Rightarrow> audit_entry \<Rightarrow> audit_entry list \<Rightarrow> bool" where
  "verify_links rt p [] = True"
| "verify_links rt p (c # cs) =
     (if ae_prev_hash c \<noteq> ae_hash p then False
      else if ae_hash c \<noteq> compute_hash rt c then False
      else verify_links rt c cs)"

definition verify_integrity :: "('sk, 'pk) runtime \<Rightarrow> audit_entry list \<Rightarrow> bool" where
  "verify_integrity rt chain = (case chain of [] \<Rightarrow> True | g # es \<Rightarrow> verify_links rt g es)"

section \<open>Properties of the entries\<close>

lemma compute_hash_hash_field [simp]: "compute_hash rt (e\<lparr>ae_hash := h\<rparr>) = compute_hash rt e"
  by (simp add: compute_hash_def audit_text_def audit_payload_def)

lemma new_audit_entry_fields [simp]:
  "ae_index (new_audit_entry rt c i ev s t m p ts h) = i"
  "ae_prev_hash (new_audit_entry rt c i ev s t m p ts h) = p"
  "ae_event_type (new_audit_entry rt c i ev s t m p ts h) = ev"
  "ae_sender (new_audit_entry rt c i ev s t m p ts h) = s"
  "ae_target (new_audit_entry rt c i ev s t m p ts h) = t"
  "ae_metadata (new_audit_entry rt c i ev s t m p ts h) = m"
  by (simp_all add: new_audit_entry_def Let_def)

text \<open>An entry created without a stored digest is sealed by its own.\<close>

lemma new_audit_entry_sealed [simp]:
  "ae_hash (new_audit_entry rt c i ev s t m p ts None)
     = compute_hash rt (new_audit_entry rt c i ev s t m p ts None)"
  by (simp add: new_audit_entry_def Let_def compute_hash_def audit_text_def audit_payload_def)

lemma verify_links_chained:
  "verify_links rt p es \<longleftrightarrow>
   chained ae_prev_hash ae_hash (\<lambda>e. ae_hash e = compute_hash rt e) (ae_hash p) es"
  by (induction es arbitrary: p) auto

definition audit_entry_ok :: "('sk, 'pk) runtime \<Rightarrow> audit_entry \<Rightarrow> bool" where
  "audit_entry_ok rt e \<longleftrightarrow>
     float_scan (audit_format rt) (ae_timestamp e) \<and>
     ser_ok (audit_format rt) (ae_metadata e) \<and> wf_json (ae_metadata e)"

lemma format_ok_audit [simp]: "format_ok (audit_format rt)"
  by (simp add: format_ok_def audit_format_def)

lemma audit_payload_ok:
  "audit_entry_ok rt e \<Longrightarrow> ser_ok (audit_format rt) (audit_payload e) \<and> wf_json (audit_payload e)"
  by (auto simp: audit_entry_ok_def audit_payload_def json_of_option_def split: option.splits)

text \<open>The content an entry's digest fixes; the metadata up to the order of its keys.\<close>

definition audit_content ::
  "audit_entry \<Rightarrow> int \<times> rat \<times> string \<times> string \<times> string option \<times> json" where
  "audit_content e = (ae_index e, ae_timestamp e, ae_event_type e, ae_sender e, ae_target e,
                      sort_json (ae_metadata e))"

lemma audit_text_determines:
  assumes "audit_entry_ok rt e" "audit_entry_ok rt e'" "audit_text rt e = audit_text rt e'"
  shows "ae_prev_hash e = ae_prev_hash e' \<and> audit_content e = audit_content e'"
proof -
  have eq: "sort_json (audit_payload e) = sort_json (audit_payload e')"
    using assms by (intro dumps_sorted_inj [of "audit_format rt"]) (auto simp: audit_text_def audit_payload_ok)
  have look: "map_option sort_json (map_of kvs k) = map_option sort_json (map_of kvs' k)"
    if "audit_payload e = JObj kvs" "audit_payload e' = JObj kvs'" for kvs kvs' k
    using that eq audit_payload_ok [OF assms(1)] audit_payload_ok [OF assms(2)]
    by (intro sort_json_obj_lookup) auto
  show ?thesis
    using look [OF audit_payload_def audit_payload_def, of "''index''"]
      look [OF audit_payload_def audit_payload_def, of "''timestamp''"]
      look [OF audit_payload_def audit_payload_def, of "''event_type''"]
      look [OF audit_payload_def audit_payload_def, of "''sender''"]
      look [OF audit_payload_def audit_payload_def, of "''target''"]
      look [OF audit_payload_def audit_payload_def, of "''metadata''"]
      look [OF audit_payload_def audit_payload_def, of "''prev_hash''"]
    by (auto simp: audit_content_def json_of_option_def split: option.splits)
qed

interpretation audit_chain: hash_chain "sha256_hex rt" "audit_text rt" ae_prev_hash ae_hash
    "\<lambda>e. ae_hash e = compute_hash rt e" audit_content "audit_entry_ok rt" for rt
  by unfold_locales (auto simp: compute_hash_def dest: audit_text_determines)

section \<open>Properties of the journal\<close>

lemma verify_links_append:
  "verify_links rt p (xs @ ys) \<longleftrightarrow> verify_links rt p xs \<and> verify_links rt (last (p # xs)) ys"
  by (induction xs arbitrary: p) auto

lemma audit_new_intact [simp]: "verify_integrity rt (audit_new rt clock)"
  by (simp add: audit_new_def verify_integrity_def)

lemma audit_new_nonempty [simp]: "audit_new rt clock \<noteq> []"
  by (simp add: audit_new_def)

lemma audit_log_intact:
  assumes "chain \<noteq> []" "verify_integrity rt chain"
  shows "verify_integrity rt (audit_log rt clock ev s t m chain)"
proof -
  obtain g es where "chain = g # es" using assms(1) by (cases chain) auto
  with assms(2) show ?thesis
    by (simp add: verify_integrity_def audit_log_def verify_links_append)
qed

lemma audit_log_length [simp]: "length (audit_log rt clock ev s t m chain) = Suc (length chain)"
  by (simp add: audit_log_def)

lemma audit_log_nonempty [simp]: "audit_log rt clock ev s t m chain \<noteq> []"
  by (simp add: audit_log_def)

text \<open>The entries are numbered in order.\<close>

definition audit_indexed :: "audit_entry list \<Rightarrow> bool" where
  "audit_indexed chain \<longleftrightarrow> (\<forall>i < length chain. ae_index (chain ! i) = int i)"

lemma audit_new_indexed [simp]: "audit_indexed (audit_new rt clock)"
  by (simp add: audit_new_def audit_indexed_def genesis_block_def)

lemma audit_log_indexed: "audit_indexed chain \<Longrightarrow> audit_indexed (audit_log rt clock ev s t m chain)"
  by (auto simp: audit_indexed_def audit_log_def nth_append less_Suc_eq)

text \<open>A journal in order: what every journal written by this module is.\<close>

definition audit_sound :: "('sk, 'pk) runtime \<Rightarrow> audit_entry list \<Rightarrow> bool" where
  "audit_sound rt chain \<longleftrightarrow> chain \<noteq> [] \<and> verify_integrity rt chain \<and> audit_indexed chain"

lemma audit_new_sound [simp]: "audit_sound rt (audit_new rt clock)"
  by (simp add: audit_sound_def)

lemma audit_log_sound: "audit_sound rt chain \<Longrightarrow> audit_sound rt (audit_log rt clock ev s t m chain)"
  by (simp add: audit_sound_def audit_log_intact audit_log_indexed)

text \<open>A sequence of calls to \<open>log\<close>: clock, event, sender, target, metadata.\<close>

type_synonym audit_event = "rat \<times> string \<times> string \<times> string option \<times> json"

fun audit_run :: "('sk, 'pk) runtime \<Rightarrow> audit_event list \<Rightarrow> audit_entry list \<Rightarrow> audit_entry list" where
  "audit_run rt [] chain = chain"
| "audit_run rt ((clock, ev, s, t, m) # events) chain =
     audit_run rt events (audit_log rt clock ev s t m chain)"

lemma audit_run_sound: "audit_sound rt chain \<Longrightarrow> audit_sound rt (audit_run rt events chain)"
  by (induction rt events chain rule: audit_run.induct) (simp_all add: audit_log_sound)

lemma audit_run_prefix: "\<exists>new. audit_run rt events chain = chain @ new \<and> length new = length events"
proof (induction rt events chain rule: audit_run.induct)
  case (2 rt clock ev s t m events chain)
  then show ?case by (auto simp: audit_log_def)
qed simp

section \<open>Storing a journal\<close>

lemma audit_entry_roundtrip:
  assumes "ae_timestamp e \<noteq> 0" "ae_hash e \<noteq> []"
  shows "audit_entry_from_dict rt clock (audit_entry_to_dict e) = Some e"
  using assms
  by (cases "ae_target e")
     (simp_all add: audit_entry_from_dict_def audit_entry_to_dict_def new_audit_entry_def json_of_option_def)

lemma those_map_Some: "(\<And>x. x \<in> set xs \<Longrightarrow> f (g x) = Some x) \<Longrightarrow> those (List.map f (List.map g xs)) = Some xs"
  by (induction xs) auto

lemma audit_open_roundtrip:
  assumes "chain \<noteq> []" "\<And>e. e \<in> set chain \<Longrightarrow> ae_timestamp e \<noteq> 0 \<and> ae_hash e \<noteq> []"
  shows "audit_open rt clock (List.map audit_entry_to_dict chain) = Some chain"
  using assms those_map_Some [of chain "audit_entry_from_dict rt clock" audit_entry_to_dict]
  by (simp add: audit_open_def audit_entry_roundtrip)

section \<open>Properties of the component\<close>

text \<open>Whatever is logged, and in whatever order, the journal that results keeps every entry it had,
  numbers its entries in order, and passes its own integrity check.\<close>

theorem audit_log_keeps_history:
  "audit_sound rt (audit_run rt events (audit_new rt clock)) \<and>
   (\<exists>new. audit_run rt events (audit_new rt clock) = audit_new rt clock @ new \<and>
          length new = length events)"
  using audit_run_sound [OF audit_new_sound, of rt events clock]
    audit_run_prefix [of rt events "audit_new rt clock"] by blast


text \<open>A two-entry journal over the toy runtime, for the witnesses.\<close>

definition toy_entry :: audit_entry where
  "toy_entry = new_audit_entry toy_runtime 0 1 ''CHARGE'' ''alice'' (Some ''bob'')
     (JObj [(''amount'', JStr ''0.001'')]) (ae_hash (genesis_block toy_runtime 0)) None None"

lemma toy_journal: "verify_integrity toy_runtime [genesis_block toy_runtime 0, toy_entry]"
  by (simp add: verify_integrity_def toy_entry_def)

lemma toy_float_scan: "float_scan (audit_format toy_runtime) 0"
proof -
  have d: "is_digit (CHR ''0'')" "\<not> is_ws (CHR ''0'')" by code_simp+
  have "p_val (Suc n) (CHR ''0'' # CHR ''.'' # CHR ''0'' # r) = Some (JFloat 0, r)" if r: "num_end r" for n r
  proof -
    have "takeWhile is_digit r = []" "dropWhile is_digit r = r"
      using r by (cases r; simp add: num_end_def)+
    then have "p_frac (CHR ''.'' # CHR ''0'' # r) = (Some ''0'', r)"
      using d by (simp add: p_frac_def)
    moreover have "digits_val ''00'' = 0" by code_simp
    ultimately have "p_num (CHR ''0'' # CHR ''.'' # CHR ''0'' # r) = Some (JFloat 0, r)"
      using num_end_frac_exp [OF r] by (simp add: p_num_def p_minus_def p_int_def)
    then show ?thesis by simp
  qed
  then show ?thesis using d by (simp add: float_scan_def audit_format_def toy_runtime_def)
qed

lemma toy_entry_ok: "audit_entry_ok toy_runtime toy_entry"
  using toy_float_scan
  by (simp add: audit_entry_ok_def toy_entry_def new_audit_entry_def Let_def)


text \<open>The check does not see a journal that lost its last entries: every prefix of a journal that
  passes it passes it too, and so does the journal whose first entry has another content under the
  same stored digest.\<close>

theorem audit_check_blind_spots:
  assumes "verify_integrity rt (g # es)"
  shows "(\<forall>n. verify_integrity rt (g # take n es)) \<and>
         (\<forall>g'. ae_hash g' = ae_hash g \<longrightarrow> verify_integrity rt (g' # es))"
proof -
  have "verify_links rt g (take n es @ drop n es)" for n using assms by (simp add: verify_integrity_def)
  then have "verify_integrity rt (g # take n es)" for n
    unfolding verify_links_append by (simp add: verify_integrity_def)
  moreover have "ae_hash g' = ae_hash g \<Longrightarrow> verify_integrity rt (g' # es)" for g'
    using assms by (simp add: verify_integrity_def verify_links_chained)
  ultimately show ?thesis by blast
qed

theorem audit_check_blind_spots_witness:
  "verify_integrity toy_runtime [(genesis_block toy_runtime 0)\<lparr>ae_event_type := ''REWRITTEN''\<rparr>, toy_entry]"
  using audit_check_blind_spots [OF toy_journal] by simp

text \<open>A journal written out with \<open>to_dict\<close> and opened again is the same journal, whatever the clock says.\<close>

theorem audit_journal_roundtrip:
  assumes "chain \<noteq> []" "\<forall>e \<in> set chain. ae_timestamp e \<noteq> 0 \<and> ae_hash e \<noteq> []"
  shows "audit_open rt clock (List.map audit_entry_to_dict chain) = Some chain"
  using assms by (intro audit_open_roundtrip) auto

theorem audit_journal_roundtrip_witness:
  "audit_open toy_runtime 9 (List.map audit_entry_to_dict [toy_entry\<lparr>ae_timestamp := 5, ae_hash := ''ab''\<rparr>])
     = Some [toy_entry\<lparr>ae_timestamp := 5, ae_hash := ''ab''\<rparr>]"
  by (rule audit_journal_roundtrip) simp_all

end
