(* ===== verification/Price.thy ===== *)
theory Price
  imports Json
begin

text \<open>
  \<open>payments/price.py\<close> and \<open>payments/clock.py\<close>.

  A quantised \<open>Decimal\<close> is an integer count of \<open>SCALE\<close> units (\<open>10^-8\<close>).  \<open>quantize\<close> rounds half up
  and raises \<open>InvalidOperation\<close> when the result needs more than the 28 digits of the default
  context; a sum of two quantised values is exact below that bound, so quantising a sum is the same
  check.  The symbol of the euro lies above the modelled code points; \<open>$\<close> and the pound sign are read.
\<close>

record price =
  p_amount :: int
  p_currency :: string

datatype price_error =
    NotText
  | UnreadablePrice
  | TwoCurrencies
  | UnreadableAmount
  | NegativePrice
  | MixedCurrencies
  | InvalidOperation

text \<open>Every error but \<open>InvalidOperation\<close> is a \<open>PriceError\<close>.\<close>

definition is_PriceError :: "price_error \<Rightarrow> bool" where
  "is_PriceError e \<longleftrightarrow> e \<noteq> InvalidOperation"

datatype price_arg = ArgText string | ArgPrice price | ArgOther

section \<open>Quantisation\<close>

definition decimal_limit :: int where
  "decimal_limit = 10 ^ 28"

definition check_digits :: "int \<Rightarrow> price_error + int" where
  "check_digits u = (if \<bar>u\<bar> < decimal_limit then Inr u else Inl InvalidOperation)"

text \<open>\<open>quantize(Decimal(text))\<close> of a digit string with \<open>k\<close> decimals, to the nearest unit, half up.\<close>

definition round_units :: "nat \<Rightarrow> nat \<Rightarrow> nat" where
  "round_units c k =
     (if k \<le> 8 then c * 10 ^ (8 - k)
      else (let d = 10 ^ (k - 8) in (2 * c + d) div (2 * d)))"

definition quantize_text :: "string \<Rightarrow> string \<Rightarrow> price_error + int" where
  "quantize_text ip fp = check_digits (int (round_units (digits_val (ip @ fp)) (length fp)))"

text \<open>\<open>quantize(a + b)\<close> on quantised values.\<close>

definition quantize_sum :: "int \<Rightarrow> int \<Rightarrow> price_error + int" where
  "quantize_sum a b = check_digits (a + b)"

definition price_add :: "price \<Rightarrow> price \<Rightarrow> price_error + price" where
  "price_add a b =
     (if p_currency a \<noteq> p_currency b then Inl MixedCurrencies
      else rbind (quantize_sum (p_amount a) (p_amount b))
             (\<lambda>x. Inr \<lparr> p_amount = x, p_currency = p_currency a \<rparr>))"

definition price_sub :: "price \<Rightarrow> price \<Rightarrow> price_error + price" where
  "price_sub a b =
     (if p_currency a \<noteq> p_currency b then Inl MixedCurrencies
      else rbind (quantize_sum (p_amount a) (- p_amount b))
             (\<lambda>x. Inr \<lparr> p_amount = x, p_currency = p_currency a \<rparr>))"

section \<open>Reading a price\<close>

definition is_alpha :: "char \<Rightarrow> bool" where
  "is_alpha c = (let n = of_char c :: nat in (65 \<le> n \<and> n \<le> 90) \<or> (97 \<le> n \<and> n \<le> 122))"

definition pound_sign :: char where
  "pound_sign = CHR 0xA3"

definition symbol_currency :: "char \<Rightarrow> string option" where
  "symbol_currency c =
     (if c = CHR ''$'' then Some ''USD'' else if c = pound_sign then Some ''GBP'' else None)"

definition scan_symbol :: "string \<Rightarrow> char option \<times> string" where
  "scan_symbol s = (case s of
     [] \<Rightarrow> (None, s)
   | c # t \<Rightarrow> if symbol_currency c \<noteq> None then (Some c, dropWhile is_space t) else (None, s))"

definition scan_code :: "string \<Rightarrow> string option option" where
  "scan_code s =
     (if s = [] then Some None
      else if 3 \<le> length s \<and> list_all is_alpha (take 3 s) \<and> list_all is_space (drop 3 s)
           then Some (Some (take 3 s)) else None)"

text \<open>The groups of \<open>_PRICE\<close>: symbol, digits before and after the point, code.\<close>

definition match_price ::
  "string \<Rightarrow> (char option \<times> string \<times> string \<times> string option) option" where
  "match_price raw =
     (let (sym, s) = scan_symbol (dropWhile is_space raw);
          ip = takeWhile is_digit s;
          (fr, r) = p_frac (dropWhile is_digit s)
      in if ip = [] then None
         else (case scan_code (dropWhile is_space r) of
                 None \<Rightarrow> None
               | Some code \<Rightarrow> Some (sym, ip, case fr of None \<Rightarrow> [] | Some f \<Rightarrow> f, code)))"

fun parse_price :: "price_arg \<Rightarrow> string \<Rightarrow> price_error + price" where
  "parse_price (ArgPrice p) default_currency = Inr p"
| "parse_price ArgOther default_currency = Inl NotText"
| "parse_price (ArgText raw) default_currency =
     (case match_price raw of
        None \<Rightarrow> Inl UnreadablePrice
      | Some (symbol, ip, fp, code) \<Rightarrow>
          let sc = (case symbol of None \<Rightarrow> None | Some c \<Rightarrow> symbol_currency c) in
          if symbol \<noteq> None \<and> code \<noteq> None \<and> sc \<noteq> map_option str_upper code
          then Inl TwoCurrencies
          else
            (let currency = (case sc of Some c \<Rightarrow> c
                             | None \<Rightarrow> (case code of Some c \<Rightarrow> str_upper c | None \<Rightarrow> default_currency))
             in case quantize_text ip fp of
                  Inl e \<Rightarrow> Inl UnreadableAmount
                | Inr amount \<Rightarrow> if amount < 0 then Inl NegativePrice
                                else Inr \<lparr> p_amount = amount, p_currency = currency \<rparr>))"

section \<open>Writing an amount\<close>

text \<open>
  \<open>str(Decimal)\<close> of a quantised value, exponent \<open>-8\<close>: plain notation while the adjusted exponent is
  at least \<open>-6\<close>, scientific notation below.
\<close>

definition decimal_str :: "int \<Rightarrow> string" where
  "decimal_str u =
     (let ds = nat_str (nat \<bar>u\<bar>); n = length ds;
          body = (if 9 \<le> n then take (n - 8) ds @ ''.'' @ drop (n - 8) ds
                  else if 3 \<le> n then ''0.'' @ replicate (8 - n) (CHR ''0'') @ ds
                  else take 1 ds @ (if 1 < n then ''.'' @ drop 1 ds else [])
                       @ ''E-'' @ nat_str (9 - n))
      in if u < 0 then CHR ''-'' # body else body)"

definition price_str :: "price \<Rightarrow> string" where
  "price_str p = decimal_str (p_amount p) @ '' '' @ p_currency p"

text \<open>\<open>int(seconds * 1000)\<close>: truncation towards zero.\<close>

definition seconds_to_ms :: "rat \<Rightarrow> int" where
  "seconds_to_ms s = (if 0 \<le> s then \<lfloor>s * 1000\<rfloor> else \<lceil>s * 1000\<rceil>)"

section \<open>Lemmas\<close>

lemma check_digits_Inr [simp]: "check_digits u = Inr v \<longleftrightarrow> v = u \<and> \<bar>u\<bar> < decimal_limit"
  by (auto simp: check_digits_def)

lemma quantize_sum_Inr [simp]: "quantize_sum a b = Inr v \<longleftrightarrow> v = a + b \<and> \<bar>a + b\<bar> < decimal_limit"
  by (auto simp: quantize_sum_def)

lemma parse_price_nonneg:
  "parse_price (ArgText raw) d = Inr p \<Longrightarrow> 0 \<le> p_amount p \<and> p_amount p < decimal_limit"
  by (auto simp: Let_def quantize_text_def split: option.splits sum.splits if_splits prod.splits)

lemma price_add_comm: "price_add a b = Inr c \<Longrightarrow> price_add b a = Inr c"
  by (auto simp: price_add_def rbind_Inr_iff add.commute split: if_splits)

lemma price_sub_add:
  "price_add a b = Inr c \<Longrightarrow> \<bar>p_amount a\<bar> < decimal_limit \<Longrightarrow> price_sub c b = Inr a"
  by (auto simp: price_add_def price_sub_def rbind_Inr_iff split: if_splits)

lemma digits_val_append:
  "digits_val (xs @ ys) = digits_val xs * 10 ^ length ys + digits_val ys"
proof (induction ys rule: rev_induct)
  case (snoc y ys)
  have "digits_val (xs @ ys @ [y]) = 10 * digits_val (xs @ ys) + digit_val y"
    by (metis append_assoc digits_val_snoc)
  with snoc show ?case by (simp add: algebra_simps)
qed simp

lemma digits_val_zeros [simp]: "digits_val (replicate k (CHR ''0'')) = 0"
  by (induction k) (simp_all add: digits_val_append [of "[CHR ''0'']", simplified] digits_val_def)

lemma digits_val_leading_zeros: "digits_val (replicate k (CHR ''0'') @ ds) = digits_val ds"
  by (simp add: digits_val_append)

lemma nat_str_length_le: "0 < k \<Longrightarrow> n < 10 ^ k \<Longrightarrow> length (nat_str n) \<le> k"
proof (induction n arbitrary: k rule: nat_str.induct)
  case (1 n)
  show ?case
  proof (cases "n < 10")
    case True
    with 1 show ?thesis by (simp add: nat_str.simps [of n])
  next
    case False
    with 1 obtain j where k: "k = Suc j" by (cases k) auto
    with False 1 have "0 < j" by (cases j) auto
    moreover have "n div 10 < 10 ^ j" using 1 k by auto
    ultimately show ?thesis using False "1.IH" k by (simp add: nat_str.simps [of n])
  qed
qed

lemma nat_str_length_ge: "10 ^ k \<le> n \<Longrightarrow> k < length (nat_str n)"
proof (induction n arbitrary: k rule: nat_str.induct)
  case (1 n)
  show ?case
  proof (cases k)
    case 0
    then show ?thesis using nat_str_ne [of n] by (cases "nat_str n") auto
  next
    case (Suc j)
    have "1 \<le> (10 :: nat) ^ j" by simp
    then have "10 * 1 \<le> 10 * (10 :: nat) ^ j" by (rule mult_le_mono2)
    moreover have "10 * 10 ^ j \<le> n" using "1.prems" Suc by simp
    ultimately have "10 * 10 ^ j \<le> n" "10 \<le> n" by linarith+
    then have "\<not> n < 10" "10 ^ j \<le> n div 10" by auto
    with "1.IH" [of j] Suc show ?thesis by (simp add: nat_str.simps [of n])
  qed
qed

lemma digit_classes:
  assumes "is_digit c"
  shows "\<not> is_space c" "symbol_currency c = None" "c \<noteq> CHR ''.''" "\<not> is_alpha c"
proof -
  have n: "48 \<le> (of_char c :: nat)" "(of_char c :: nat) \<le> 57" using assms by (auto simp: is_digit_def Let_def)
  then show "\<not> is_space c" "\<not> is_alpha c" by (auto simp: is_space_def is_alpha_def Let_def)
  have "of_char (CHR ''$'') = (36 :: nat)" "of_char pound_sign = (163 :: nat)" "of_char (CHR ''.'') = (46 :: nat)"
    by (code_simp)+
  with n show "symbol_currency c = None" "c \<noteq> CHR ''.''" by (auto simp: symbol_currency_def)
qed

lemma alpha_classes: "is_alpha c \<Longrightarrow> \<not> is_space c \<and> \<not> is_digit c"
  by (auto simp: is_alpha_def is_space_def is_digit_def Let_def)

lemma space_classes: "is_space (CHR '' '')" "\<not> is_digit (CHR '' '')" "\<not> is_digit (CHR ''.'')"
    "\<not> is_space (CHR ''E'')" "\<not> is_digit (CHR ''E'')" "\<not> is_alpha (CHR ''-'')"
  by code_simp+

lemma span_digits:
  assumes "\<forall>c \<in> set ds. is_digit c" "\<not> is_digit c"
  shows "takeWhile is_digit (ds @ c # r) = ds" "dropWhile is_digit (ds @ c # r) = c # r"
  using assms by (induction ds) auto

lemma match_plain:
  assumes ip: "ip \<noteq> []" "\<forall>c \<in> set ip. is_digit c" and fp: "fp \<noteq> []" "\<forall>c \<in> set fp. is_digit c"
    and cur: "length cur = 3" "list_all is_alpha cur"
  shows "match_price (ip @ CHR ''.'' # fp @ CHR '' '' # cur) = Some (None, ip, fp, Some cur)"
proof -
  obtain d ds where d: "ip = d # ds" "is_digit d" using ip by (cases ip) auto
  obtain e es where e: "cur = e # es" "is_alpha e" using cur by (cases cur) auto
  have "scan_symbol (dropWhile is_space (ip @ x)) = (None, ip @ x)" for x
    using d digit_classes [OF d(2)] by (simp add: scan_symbol_def)
  moreover have "p_frac (CHR ''.'' # fp @ CHR '' '' # cur) = (Some fp, CHR '' '' # cur)"
    using fp span_digits [OF fp(2) space_classes(2)] by (simp add: p_frac_def)
  moreover have "scan_code (dropWhile is_space (CHR '' '' # cur)) = Some (Some cur)"
    using e alpha_classes [OF e(2)] cur space_classes by (simp add: scan_code_def)
  ultimately show ?thesis
    using ip span_digits [OF ip(2) space_classes(3)] by (simp add: match_price_def)
qed

lemma decimal_str_shape:
  assumes "100 \<le> u"
  obtains ip fp where "decimal_str u = ip @ CHR ''.'' # fp" "ip \<noteq> []" "\<forall>c \<in> set ip. is_digit c"
    "length fp = 8" "\<forall>c \<in> set fp. is_digit c" "digits_val (ip @ fp) = nat u"
proof -
  define ds where "ds = nat_str (nat u)"
  have dig: "\<forall>c \<in> set ds. is_digit c" unfolding ds_def by (rule nat_str_digits)
  have v: "digits_val ds = nat u" by (simp add: ds_def)
  have len: "3 \<le> length ds" using nat_str_length_ge [of 2 "nat u"] assms by (simp add: ds_def le_nat_iff)
  show thesis
  proof (cases "9 \<le> length ds")
    case True
    let ?n = "length ds - 8"
    show thesis
    proof (rule that [of "take ?n ds" "drop ?n ds"])
      show "decimal_str u = take ?n ds @ CHR ''.'' # drop ?n ds"
        using True assms by (simp add: decimal_str_def ds_def Let_def)
    qed (use True dig v in \<open>auto dest: in_set_takeD in_set_dropD\<close>)
  next
    case False
    show thesis
    proof (rule that [of "''0''" "replicate (8 - length ds) (CHR ''0'') @ ds"])
      show "decimal_str u = ''0'' @ CHR ''.'' # (replicate (8 - length ds) (CHR ''0'') @ ds)"
        using False len assms by (simp add: decimal_str_def ds_def Let_def)
      show "digits_val (''0'' @ replicate (8 - length ds) (CHR ''0'') @ ds) = nat u"
        using v digits_val_leading_zeros [of "Suc (8 - length ds)" ds] by simp
    qed (use False dig in auto)
  qed
qed

text \<open>A quantised amount of at least \<open>10^-6\<close> is read back from its text.\<close>

lemma parse_decimal_str:
  assumes "100 \<le> u" "u < decimal_limit" "length cur = 3" "list_all is_alpha cur"
  shows "parse_price (ArgText (decimal_str u @ '' '' @ cur)) d
       = Inr \<lparr> p_amount = u, p_currency = str_upper cur \<rparr>"
proof -
  obtain ip fp where s: "decimal_str u = ip @ CHR ''.'' # fp" "ip \<noteq> []" "\<forall>c \<in> set ip. is_digit c"
    "length fp = 8" "\<forall>c \<in> set fp. is_digit c" "digits_val (ip @ fp) = nat u"
    using decimal_str_shape [OF assms(1)] by blast
  have "match_price (decimal_str u @ '' '' @ cur) = Some (None, ip, fp, Some cur)"
    using match_plain [OF s(2,3) _ s(5) assms(3,4)] s(1,4) by (cases fp) auto
  moreover have "quantize_text ip fp = Inr u"
    using s(4,6) assms(1,2) by (simp add: quantize_text_def round_units_def check_digits_def)
  ultimately show ?thesis using assms(1) by simp
qed

text \<open>Below \<open>10^-6\<close> the text is in scientific notation, which \<open>_PRICE\<close> does not match.\<close>

lemma parse_decimal_str_tiny:
  assumes "0 \<le> u" "u < 100"
  shows "parse_price (ArgText (decimal_str u @ '' '' @ cur)) d = Inl UnreadablePrice"
proof -
  define ds where "ds = nat_str (nat u)"
  have dig: "\<forall>c \<in> set ds. is_digit c" unfolding ds_def by (rule nat_str_digits)
  have "length ds \<le> 2" using nat_str_length_le [of 2 "nat u"] assms by (simp add: ds_def)
  moreover have "ds \<noteq> []" by (simp add: ds_def)
  ultimately consider a where "ds = [a]" | a b where "ds = [a, b]"
    by (cases ds; cases "tl ds") auto
  then have "match_price (decimal_str u @ '' '' @ cur) = None"
  proof cases
    case (1 a)
    then have "is_digit a" using dig by simp
    note c = digit_classes [OF this] this
    have "decimal_str u = a # CHR ''E'' # CHR ''-'' # nat_str 8"
      using 1 assms by (simp add: decimal_str_def ds_def [symmetric] Let_def)
    then show ?thesis
      using c space_classes by (simp add: match_price_def scan_symbol_def p_frac_def scan_code_def)
  next
    case (2 a b)
    then have "is_digit a" "is_digit b" using dig by simp_all
    note c = digit_classes [OF this(1)] this
    have "decimal_str u = a # CHR ''.'' # b # CHR ''E'' # CHR ''-'' # nat_str 7"
      using 2 assms by (simp add: decimal_str_def ds_def [symmetric] Let_def)
    then show ?thesis
      using c space_classes by (simp add: match_price_def scan_symbol_def p_frac_def scan_code_def)
  qed
  then show ?thesis by simp
qed

end
