(* ===== verification/Payments.thy ===== *)
theory Payments
  imports PyValues Price
begin

text \<open>
  \<open>payments/challenge.py\<close>, \<open>payments/proof.py\<close> and \<open>payments/keyring.py\<close>: what a server asks for in
  a 402 answer, the signed engagement that answers it, and the directory of the payers' keys.  Clocks
  and nonces are arguments: \<open>now\<close> for \<open>now_ms()\<close>, \<open>nonce\<close> for \<open>secrets.token_urlsafe\<close>.
\<close>

section \<open>Challenges\<close>

record challenge =
  ch_amount :: string
  ch_currency :: string
  ch_pay_to :: string
  ch_resource :: string
  ch_nonce :: string
  ch_expires_at :: int
  ch_ledger :: "string option"

definition default_ttl :: rat where
  "default_ttl = 120"

definition challenge_create ::
  "price_arg \<Rightarrow> string \<Rightarrow> string \<Rightarrow> string option \<Rightarrow> rat \<Rightarrow> string \<Rightarrow> int \<Rightarrow> price_error + challenge" where
  "challenge_create price pay_to resource ledger ttl nonce now =
     rbind (parse_price price ''USD'') (\<lambda>parsed. Inr
       \<lparr> ch_amount = decimal_str (p_amount parsed), ch_currency = p_currency parsed,
         ch_pay_to = pay_to, ch_resource = resource, ch_nonce = nonce,
         ch_expires_at = now + seconds_to_ms ttl, ch_ledger = ledger \<rparr>)"

definition challenge_price :: "challenge \<Rightarrow> price_error + price" where
  "challenge_price c = parse_price (ArgText (ch_amount c @ '' '' @ ch_currency c)) ''USD''"

definition challenge_is_expired :: "challenge \<Rightarrow> int \<Rightarrow> bool" where
  "challenge_is_expired c now = (now > ch_expires_at c)"

definition challenge_to_dict :: "challenge \<Rightarrow> (string \<times> json) list" where
  "challenge_to_dict c =
     [(''amount'', JStr (ch_amount c)), (''currency'', JStr (ch_currency c)),
      (''pay_to'', JStr (ch_pay_to c)), (''resource'', JStr (ch_resource c)),
      (''nonce'', JStr (ch_nonce c)), (''expires_at'', JInt (ch_expires_at c))] @
     (case ch_ledger c of
        None \<Rightarrow> []
      | Some l \<Rightarrow> if l = [] then [] else [(''ledger'', JStr l)])"

datatype challenge_error = MissingFields "string list" | BadField py_exc

definition mandatory_challenge_fields :: "string list" where
  "mandatory_challenge_fields = [''amount'', ''currency'', ''nonce'', ''pay_to'', ''resource'']"

text \<open>\<open>data["k"]\<close>, after the check that the key is there.\<close>

definition field_str :: "('sk, 'pk) runtime \<Rightarrow> (string \<times> json) list \<Rightarrow> string \<Rightarrow> string" where
  "field_str rt d k = py_str rt (py_get d k)"

text \<open>A ledger that is not text is kept by the code and never read; the model drops it.\<close>

definition challenge_from_dict ::
  "('sk, 'pk) runtime \<Rightarrow> int \<Rightarrow> (string \<times> json) list \<Rightarrow> challenge_error + challenge" where
  "challenge_from_dict rt now d =
     (let missing = List.filter (\<lambda>k. map_of d k = None) mandatory_challenge_fields
      in if missing \<noteq> [] then Inl (MissingFields missing)
         else
           (case (case map_of d ''expires_at'' of
                    None \<Rightarrow> Inr (now + seconds_to_ms default_ttl) | Some v \<Rightarrow> py_int v) of
              Inl e \<Rightarrow> Inl (BadField e)
            | Inr expires \<Rightarrow> Inr
                \<lparr> ch_amount = field_str rt d ''amount'', ch_currency = field_str rt d ''currency'',
                  ch_pay_to = field_str rt d ''pay_to'', ch_resource = field_str rt d ''resource'',
                  ch_nonce = field_str rt d ''nonce'', ch_expires_at = expires,
                  ch_ledger = (case map_of d ''ledger'' of Some (JStr l) \<Rightarrow> Some l | _ \<Rightarrow> None) \<rparr>))"

lemma challenge_create_Inr:
  assumes "challenge_create price pay_to resource ledger ttl nonce now = Inr c"
  shows "\<exists>p. parse_price price ''USD'' = Inr p \<and> ch_amount c = decimal_str (p_amount p) \<and>
    ch_currency c = p_currency p \<and> ch_pay_to c = pay_to \<and> ch_resource c = resource \<and>
    ch_nonce c = nonce \<and> ch_expires_at c = now + seconds_to_ms ttl \<and> ch_ledger c = ledger"
  using assms by (auto simp: challenge_create_def rbind_Inr_iff)

lemma challenge_dict_roundtrip:
  assumes "ch_ledger c \<noteq> Some []"
  shows "challenge_from_dict rt now (challenge_to_dict c) = Inr c"
proof (cases "ch_ledger c")
  case None
  then show ?thesis
    by (simp add: challenge_from_dict_def challenge_to_dict_def mandatory_challenge_fields_def
        field_str_def py_get_def)
next
  case (Some l)
  with assms show ?thesis
    by (simp add: challenge_from_dict_def challenge_to_dict_def mandatory_challenge_fields_def
        field_str_def py_get_def)
qed

section \<open>Proofs of payment\<close>

record payment_proof =
  pp_payer :: string
  pp_amount :: string
  pp_currency :: string
  pp_pay_to :: string
  pp_resource :: string
  pp_nonce :: string
  pp_issued_at :: int
  pp_expires_at :: int

definition proof_version :: string where
  "proof_version = ''im1''"

definition proof_payload :: "payment_proof \<Rightarrow> json" where
  "proof_payload p = JObj
     [(''v'', JStr proof_version), (''payer'', JStr (pp_payer p)), (''amount'', JStr (pp_amount p)),
      (''currency'', JStr (pp_currency p)), (''pay_to'', JStr (pp_pay_to p)),
      (''resource'', JStr (pp_resource p)), (''nonce'', JStr (pp_nonce p)),
      (''issued_at'', JInt (pp_issued_at p)), (''expires_at'', JInt (pp_expires_at p))]"

definition proof_is_expired :: "payment_proof \<Rightarrow> int \<Rightarrow> bool" where
  "proof_is_expired p now = (now > pp_expires_at p)"

definition proof_for :: "challenge \<Rightarrow> string \<Rightarrow> int \<Rightarrow> payment_proof" where
  "proof_for c payer now =
     \<lparr> pp_payer = payer, pp_amount = ch_amount c, pp_currency = ch_currency c,
       pp_pay_to = ch_pay_to c, pp_resource = ch_resource c, pp_nonce = ch_nonce c,
       pp_issued_at = now, pp_expires_at = ch_expires_at c \<rparr>"

definition sign_proof ::
  "('sk, 'pk) runtime \<Rightarrow> challenge \<Rightarrow> string \<Rightarrow> 'sk \<Rightarrow> int \<Rightarrow> canonical_error + string" where
  "sign_proof rt c payer key now =
     rbind (canonical_bytes (float_repr rt) True (proof_payload (proof_for c payer now)))
       (\<lambda>body. Inr (b64 body @ ''.'' @ b64 (ed_sign rt key body)))"

text \<open>
  \<open>ProofError\<close> with its cause, and the exceptions that escape: \<open>payload.get\<close> on a value that is not an
  object, \<open>int()\<close> of an infinite float.
\<close>

datatype proof_error =
    ProofMalformed
  | ProofUnreadable
  | ProofVersion
  | ProofSignature
  | ProofIncomplete
  | ProofExpired
  | ProofMismatch string
  | ProofEscape py_exc

definition is_ProofError :: "proof_error \<Rightarrow> bool" where
  "is_ProofError e = (case e of ProofEscape x \<Rightarrow> False | _ \<Rightarrow> True)"

definition split_dot :: "string \<Rightarrow> string \<times> string" where
  "split_dot s = (takeWhile (\<lambda>c. c \<noteq> CHR ''.'') s, drop 1 (dropWhile (\<lambda>c. c \<noteq> CHR ''.'') s))"

definition proof_of_payload ::
  "('sk, 'pk) runtime \<Rightarrow> (string \<times> json) list \<Rightarrow> proof_error + payment_proof" where
  "proof_of_payload rt d =
     (if \<exists>k \<in> set [''payer'', ''amount'', ''currency'', ''pay_to'', ''resource'', ''nonce'',
                   ''issued_at'', ''expires_at'']. map_of d k = None
      then Inl ProofIncomplete
      else
        (case (py_int (py_get d ''issued_at''), py_int (py_get d ''expires_at'')) of
           (Inr issued, Inr expires) \<Rightarrow> Inr
             \<lparr> pp_payer = field_str rt d ''payer'', pp_amount = field_str rt d ''amount'',
               pp_currency = field_str rt d ''currency'', pp_pay_to = field_str rt d ''pay_to'',
               pp_resource = field_str rt d ''resource'', pp_nonce = field_str rt d ''nonce'',
               pp_issued_at = issued, pp_expires_at = expires \<rparr>
         | (Inl e, _) \<Rightarrow> Inl (if e = OverflowError then ProofEscape e else ProofIncomplete)
         | (Inr i, Inl e) \<Rightarrow> Inl (if e = OverflowError then ProofEscape e else ProofIncomplete)))"

definition challenge_fields :: "challenge \<Rightarrow> (string \<times> string) list" where
  "challenge_fields c =
     [(''amount'', ch_amount c), (''currency'', ch_currency c), (''pay_to'', ch_pay_to c),
      (''resource'', ch_resource c), (''nonce'', ch_nonce c)]"

definition proof_fields :: "payment_proof \<Rightarrow> (string \<times> string) list" where
  "proof_fields p =
     [(''amount'', pp_amount p), (''currency'', pp_currency p), (''pay_to'', pp_pay_to p),
      (''resource'', pp_resource p), (''nonce'', pp_nonce p)]"

text \<open>The loop over the five fields: the first that differs is reported.\<close>

fun first_mismatch :: "(string \<times> string) list \<Rightarrow> (string \<times> string) list \<Rightarrow> string option" where
  "first_mismatch ((k, a) # xs) ((k', b) # ys) = (if a \<noteq> b then Some k else first_mismatch xs ys)"
| "first_mismatch _ _ = None"

definition verify_proof ::
  "('sk, 'pk) runtime \<Rightarrow> string \<Rightarrow> 'pk \<Rightarrow> challenge option \<Rightarrow> int \<Rightarrow> proof_error + payment_proof" where
  "verify_proof rt header_value public_key challenge now =
     (if header_value = [] \<or> CHR ''.'' \<notin> set header_value then Inl ProofMalformed
      else
        (let (encoded_body, encoded_sig) = split_dot header_value in
         case (unb64 encoded_body, unb64 encoded_sig) of
           (Some body, Some signature) \<Rightarrow>
             (case loads_bytes body of
                None \<Rightarrow> Inl ProofUnreadable
              | Some (JObj payload) \<Rightarrow>
                  if map_of payload ''v'' \<noteq> Some (JStr proof_version) then Inl ProofVersion
                  else if \<not> ed_verify rt public_key signature body then Inl ProofSignature
                  else
                    rbind (proof_of_payload rt payload) (\<lambda>p.
                      if proof_is_expired p now then Inl ProofExpired
                      else (case challenge of
                              None \<Rightarrow> Inr p
                            | Some c \<Rightarrow>
                                (case first_mismatch (proof_fields p) (challenge_fields c) of
                                   Some k \<Rightarrow> Inl (ProofMismatch k)
                                 | None \<Rightarrow> Inr p)))
              | Some other \<Rightarrow> Inl (ProofEscape AttributeError))
         | _ \<Rightarrow> Inl ProofUnreadable))"

lemma split_dot_append: "CHR ''.'' \<notin> set a \<Longrightarrow> split_dot (a @ ''.'' @ b) = (a, b)"
proof -
  assume "CHR ''.'' \<notin> set a"
  then have "takeWhile (\<lambda>c. c \<noteq> CHR ''.'') (a @ CHR ''.'' # b) = a"
    "dropWhile (\<lambda>c. c \<noteq> CHR ''.'') (a @ CHR ''.'' # b) = CHR ''.'' # b"
    by (induction a) auto
  then show ?thesis by (simp add: split_dot_def)
qed

lemma first_mismatch_None:
  "first_mismatch (proof_fields p) (challenge_fields c) = None \<longleftrightarrow>
   pp_amount p = ch_amount c \<and> pp_currency p = ch_currency c \<and> pp_pay_to p = ch_pay_to c \<and>
   pp_resource p = ch_resource c \<and> pp_nonce p = ch_nonce c"
  by (simp add: proof_fields_def challenge_fields_def)

lemma proof_payload_plain [simp]: "no_float (proof_payload p)" "wf_json (proof_payload p)"
  by (simp_all add: proof_payload_def)

lemma proof_of_sorted_payload:
  assumes "sort_json (proof_payload p) = JObj d"
  shows "map_of d ''v'' = Some (JStr proof_version) \<and> proof_of_payload rt d = Inr p"
proof -
  obtain kvs where kvs: "proof_payload p = JObj kvs" and dist: "distinct (List.map fst kvs)"
    using proof_payload_plain(2) [of p] by (simp add: proof_payload_def)
  have "map_of d k = map_option sort_json (map_of kvs k)" for k
    using assms map_of_sorted [OF dist] by (auto simp: kvs)
  moreover have "kvs = [(''v'', JStr proof_version), (''payer'', JStr (pp_payer p)), (''amount'', JStr (pp_amount p)),
      (''currency'', JStr (pp_currency p)), (''pay_to'', JStr (pp_pay_to p)),
      (''resource'', JStr (pp_resource p)), (''nonce'', JStr (pp_nonce p)),
      (''issued_at'', JInt (pp_issued_at p)), (''expires_at'', JInt (pp_expires_at p))]"
    using kvs by (simp add: proof_payload_def)
  ultimately show ?thesis
    by (simp add: proof_of_payload_def field_str_def py_get_def)
qed

text \<open>What a signed header carries, as the verifier reads it.\<close>

lemma sign_proof_header:
  assumes "sign_proof rt c payer key now = Inr h"
  obtains body where
    "CHR ''.'' \<in> set h" "split_dot h = (b64 body, b64 (ed_sign rt key body))"
    "loads_bytes body = Some (sort_json (proof_payload (proof_for c payer now)))"
proof -
  obtain body where b: "canonical_bytes (float_repr rt) True (proof_payload (proof_for c payer now)) = Inr body"
    and h: "h = b64 body @ ''.'' @ b64 (ed_sign rt key body)"
    using assms by (auto simp: sign_proof_def rbind_Inr_iff)
  show thesis
  proof (rule that)
    show "CHR ''.'' \<in> set h" by (simp add: h)
    show "split_dot h = (b64 body, b64 (ed_sign rt key body))"
      unfolding h by (rule split_dot_append [OF b64_no_dot])
    show "loads_bytes body = Some (sort_json (proof_payload (proof_for c payer now)))"
      using loads_bytes_canonical [OF b] by simp
  qed
qed

lemma sort_proof_payload_obj: "\<exists>d. sort_json (proof_payload p) = JObj d"
  by (simp add: proof_payload_def)

theorem sign_verify:
  assumes "runtime_ok rt" "sign_proof rt c payer key issued = Inr h" "now \<le> ch_expires_at c"
  shows "verify_proof rt h (ed_public rt key) (Some c) now = Inr (proof_for c payer issued)"
proof -
  obtain body where b: "CHR ''.'' \<in> set h" "split_dot h = (b64 body, b64 (ed_sign rt key body))"
    "loads_bytes body = Some (sort_json (proof_payload (proof_for c payer issued)))"
    using sign_proof_header [OF assms(2)] by blast
  obtain d where d: "sort_json (proof_payload (proof_for c payer issued)) = JObj d"
    using sort_proof_payload_obj by blast
  have "\<not> proof_is_expired (proof_for c payer issued) now"
    using assms(3) by (simp add: proof_is_expired_def proof_for_def)
  moreover have "first_mismatch (proof_fields (proof_for c payer issued)) (challenge_fields c) = None"
    by (simp add: first_mismatch_None proof_for_def)
  ultimately show ?thesis
    using assms(1) b d proof_of_sorted_payload [OF d, of rt]
    by (auto simp: verify_proof_def b64_roundtrip runtime_ok_def)
qed

text \<open>What an accepted header guarantees.\<close>

theorem verify_proof_sound:
  assumes "verify_proof rt h pk (Some c) now = Inr p"
  shows "\<exists>body signature payload.
      unb64 (fst (split_dot h)) = Some body \<and> unb64 (snd (split_dot h)) = Some signature \<and>
      ed_verify rt pk signature body \<and> loads_bytes body = Some (JObj payload) \<and>
      map_of payload ''v'' = Some (JStr proof_version) \<and> proof_of_payload rt payload = Inr p \<and>
      now \<le> pp_expires_at p \<and> pp_amount p = ch_amount c \<and> pp_currency p = ch_currency c \<and>
      pp_pay_to p = ch_pay_to c \<and> pp_resource p = ch_resource c \<and> pp_nonce p = ch_nonce c"
  using assms
  by (auto simp: verify_proof_def rbind_Inr_iff proof_is_expired_def first_mismatch_None
      split: if_splits option.splits prod.splits json.splits)

section \<open>Keyrings\<close>

text \<open>
  \<open>kr_lookup\<close> is the callable source (\<open>None\<close> everywhere when there is none).  The cache of parsed keys
  is part of the state: reading a key fills it.
\<close>

record 'pk keyring =
  kr_lookup :: "string \<Rightarrow> string option"
  kr_keys :: "(string \<times> string) list"
  kr_parsed :: "(string \<times> 'pk) list"

datatype key_error = UnknownPayer | KeyUnreadable

definition keyring_new :: "(string \<Rightarrow> string option) \<Rightarrow> (string \<times> string) list \<Rightarrow> 'pk keyring" where
  "keyring_new lookup keys = \<lparr> kr_lookup = lookup, kr_keys = keys, kr_parsed = [] \<rparr>"

definition keyring_add ::
  "('sk, 'pk) runtime \<Rightarrow> string \<Rightarrow> string \<Rightarrow> 'pk keyring \<Rightarrow> signing_error + (string \<times> 'pk keyring)" where
  "keyring_add rt agent pem kr =
     (case load_public_pem rt pem of
        Inl e \<Rightarrow> Inl e
      | Inr _ \<Rightarrow> Inr (key_fingerprint rt pem,
          kr\<lparr>kr_keys := dict_set agent pem (kr_keys kr), kr_parsed := dict_del agent (kr_parsed kr)\<rparr>))"

definition keyring_public_pem :: "'pk keyring \<Rightarrow> string \<Rightarrow> string option" where
  "keyring_public_pem kr agent =
     (case map_of (kr_keys kr) agent of Some pem \<Rightarrow> Some pem | None \<Rightarrow> kr_lookup kr agent)"

definition keyring_public_key ::
  "('sk, 'pk) runtime \<Rightarrow> string \<Rightarrow> 'pk keyring \<Rightarrow> (key_error + 'pk) \<times> 'pk keyring" where
  "keyring_public_key rt agent kr =
     (case map_of (kr_parsed kr) agent of
        Some key \<Rightarrow> (Inr key, kr)
      | None \<Rightarrow>
          (case keyring_public_pem kr agent of
             None \<Rightarrow> (Inl UnknownPayer, kr)
           | Some pem \<Rightarrow>
               if pem = [] then (Inl UnknownPayer, kr)
               else (case load_public_pem rt pem of
                       Inl e \<Rightarrow> (Inl KeyUnreadable, kr)
                     | Inr key \<Rightarrow> (Inr key, kr\<lparr>kr_parsed := dict_set agent key (kr_parsed kr)\<rparr>))))"

definition keyring_contains :: "'pk keyring \<Rightarrow> string \<Rightarrow> bool" where
  "keyring_contains kr agent = (keyring_public_pem kr agent \<noteq> None)"

text \<open>The directory without a cache: what the cached one is to compute.\<close>

definition directory_key :: "('sk, 'pk) runtime \<Rightarrow> 'pk keyring \<Rightarrow> string \<Rightarrow> key_error + 'pk" where
  "directory_key rt kr agent =
     (case keyring_public_pem kr agent of
        None \<Rightarrow> Inl UnknownPayer
      | Some pem \<Rightarrow> if pem = [] then Inl UnknownPayer
          else (case load_public_pem rt pem of Inl e \<Rightarrow> Inl KeyUnreadable | Inr key \<Rightarrow> Inr key))"

text \<open>The cache only holds keys that the directory itself would give.\<close>

definition keyring_coherent :: "('sk, 'pk) runtime \<Rightarrow> 'pk keyring \<Rightarrow> bool" where
  "keyring_coherent rt kr \<longleftrightarrow>
     (\<forall>agent key. map_of (kr_parsed kr) agent = Some key \<longrightarrow> directory_key rt kr agent = Inr key)"

lemma keyring_new_coherent: "keyring_coherent rt (keyring_new lookup keys)"
  by (simp add: keyring_coherent_def keyring_new_def)

lemma directory_key_parsed [simp]:
  "directory_key rt (kr\<lparr>kr_parsed := c\<rparr>) agent = directory_key rt kr agent"
  by (simp add: directory_key_def keyring_public_pem_def cong: option.case_cong)

lemma directory_key_other:
  "agent' \<noteq> agent \<Longrightarrow>
   directory_key rt (kr\<lparr>kr_keys := dict_set agent pem (kr_keys kr)\<rparr>) agent' = directory_key rt kr agent'"
  by (simp add: directory_key_def keyring_public_pem_def update_conv' cong: option.case_cong)

lemma directory_key_add:
  "pem \<noteq> [] \<Longrightarrow> load_public_pem rt pem = Inr key \<Longrightarrow>
   directory_key rt (kr\<lparr>kr_keys := dict_set agent pem (kr_keys kr)\<rparr>) agent = Inr key"
  by (simp add: directory_key_def keyring_public_pem_def update_conv')

lemma keyring_add_coherent:
  assumes "keyring_coherent rt kr" "keyring_add rt agent pem kr = Inr (fp, kr')"
  shows "keyring_coherent rt kr'"
proof -
  have kr': "kr' = (kr\<lparr>kr_keys := dict_set agent pem (kr_keys kr)\<rparr>)\<lparr>kr_parsed := dict_del agent (kr_parsed kr)\<rparr>"
    using assms(2) by (simp add: keyring_add_def split: sum.splits)
  show ?thesis
    unfolding keyring_coherent_def kr' directory_key_parsed
  proof (intro allI impI)
    fix a key
    assume "map_of (kr_parsed (kr\<lparr>kr_keys := dict_set agent pem (kr_keys kr),
      kr_parsed := dict_del agent (kr_parsed kr)\<rparr>)) a = Some key"
    then have "a \<noteq> agent" "map_of (kr_parsed kr) a = Some key"
      by (auto simp: delete_conv' split: if_splits)
    with assms(1) show "directory_key rt (kr\<lparr>kr_keys := dict_set agent pem (kr_keys kr)\<rparr>) a = Inr key"
      by (simp add: directory_key_other keyring_coherent_def)
  qed
qed

lemma keyring_public_key_cases:
  "keyring_public_key rt agent kr =
     (case map_of (kr_parsed kr) agent of
        Some key \<Rightarrow> (Inr key, kr)
      | None \<Rightarrow> (directory_key rt kr agent,
          (case directory_key rt kr agent of
             Inl e \<Rightarrow> kr | Inr key \<Rightarrow> kr\<lparr>kr_parsed := dict_set agent key (kr_parsed kr)\<rparr>)))"
  by (auto simp: keyring_public_key_def directory_key_def split: option.splits sum.splits)

lemma keyring_public_key_coherent:
  assumes "keyring_coherent rt kr"
  shows "keyring_coherent rt (snd (keyring_public_key rt agent kr))"
  using assms unfolding keyring_public_key_cases keyring_coherent_def
  by (auto simp: update_conv' split: option.splits sum.splits if_splits)

lemma keyring_public_key_directory:
  assumes "keyring_coherent rt kr"
  shows "fst (keyring_public_key rt agent kr) = directory_key rt kr agent"
  using assms by (auto simp: keyring_public_key_cases keyring_coherent_def split: option.splits)

lemma keyring_public_key_frame:
  "kr_keys (snd (keyring_public_key rt agent kr)) = kr_keys kr"
  "kr_lookup (snd (keyring_public_key rt agent kr)) = kr_lookup kr"
  by (auto simp: keyring_public_key_def split: option.splits sum.splits)

lemma directory_key_after_read [simp]:
  "directory_key rt (snd (keyring_public_key rt agent kr)) agent' = directory_key rt kr agent'"
  by (simp add: directory_key_def keyring_public_pem_def keyring_public_key_frame cong: option.case_cong)

section \<open>Properties of the component\<close>

lemma is_alpha_upper [simp]: "is_alpha c \<Longrightarrow> is_alpha (upper_char c)"
  by (auto simp: is_alpha_def upper_char_def Let_def)

lemma scan_code_alpha: "scan_code s = Some (Some code) \<Longrightarrow> length code = 3 \<and> list_all is_alpha code"
  by (auto simp: scan_code_def split: if_splits)

lemma symbol_currency_alpha:
  "symbol_currency c = Some cur \<Longrightarrow> length cur = 3 \<and> list_all is_alpha cur \<and> str_upper cur = cur" (is "_ \<Longrightarrow> ?thesis")
proof -
  have "list_all is_alpha ''USD''" "str_upper ''USD'' = ''USD''" "list_all is_alpha ''GBP''" "str_upper ''GBP'' = ''GBP''"
    by code_simp+
  then have a: "length ''USD'' = 3 \<and> list_all is_alpha ''USD'' \<and> str_upper ''USD'' = ''USD''"
    "length ''GBP'' = 3 \<and> list_all is_alpha ''GBP'' \<and> str_upper ''GBP'' = ''GBP''" by simp_all
  assume "symbol_currency c = Some cur"
  then have "cur = ''USD'' \<or> cur = ''GBP''"
    unfolding symbol_currency_def by (metis option.distinct(1) option.inject)
  with a show ?thesis by blast
qed

lemma match_price_code:
  "match_price raw = Some (symbol, ip, fp, Some code) \<Longrightarrow> length code = 3 \<and> list_all is_alpha code"
  by (auto simp: match_price_def Let_def dest: scan_code_alpha split: prod.splits if_splits option.splits)

lemma parse_price_currency:
  assumes "parse_price (ArgText raw) ''USD'' = Inr p"
  shows "length (p_currency p) = 3 \<and> list_all is_alpha (p_currency p) \<and> str_upper (p_currency p) = p_currency p"
proof -
  obtain symbol ip fp code where m: "match_price raw = Some (symbol, ip, fp, code)"
    using assms by (cases "match_price raw") auto
  define sc where "sc = (case symbol of None \<Rightarrow> None | Some c \<Rightarrow> symbol_currency c)"
  have p: "p_currency p = (case sc of Some c \<Rightarrow> c
      | None \<Rightarrow> (case code of Some c \<Rightarrow> str_upper c | None \<Rightarrow> ''USD''))"
    using assms by (auto simp: m sc_def [symmetric] Let_def split: sum.splits if_splits)
  have usd: "list_all is_alpha ''USD''" "str_upper ''USD'' = ''USD''" by code_simp+
  show ?thesis
  proof (cases sc)
    case (Some cur)
    then obtain c where "symbol_currency c = Some cur" by (auto simp: sc_def split: option.splits)
    from symbol_currency_alpha [OF this] show ?thesis by (simp add: p Some)
  next
    case None
    show ?thesis
    proof (cases code)
      case (Some c)
      then have "length c = 3 \<and> list_all is_alpha c" using match_price_code m by blast
      then show ?thesis by (simp add: p None Some) (simp add: str_upper_def list_all_iff)
    next
      case None
      with \<open>sc = None\<close> show ?thesis using usd by (simp add: p)
    qed
  qed
qed

lemma challenge_price_read:
  assumes "challenge_create (ArgText raw) pay_to resource ledger ttl nonce now = Inr c"
  shows "\<exists>p. parse_price (ArgText raw) ''USD'' = Inr p \<and>
    challenge_price c = (if p_amount p < 100 then Inl UnreadablePrice else Inr p)"
proof -
  obtain p where p: "parse_price (ArgText raw) ''USD'' = Inr p" "ch_amount c = decimal_str (p_amount p)"
    "ch_currency c = p_currency p"
    using challenge_create_Inr [OF assms] by blast
  note n = parse_price_nonneg [OF p(1)] and cur = parse_price_currency [OF p(1)]
  have "challenge_price c = (if p_amount p < 100 then Inl UnreadablePrice else Inr p)"
  proof (cases "p_amount p < 100")
    case True
    then show ?thesis
      using parse_decimal_str_tiny n by (simp add: challenge_price_def p del: parse_price.simps)
  next
    case False
    then show ?thesis
      using parse_decimal_str [of "p_amount p" "p_currency p" "''USD''"] n cur
      by (simp add: challenge_price_def p del: parse_price.simps)
  qed
  with p(1) show ?thesis by blast
qed

text \<open>A challenge states its price so that the client reads the very amount and currency back, unless
  the amount is below a millionth: then the text is in scientific notation and no client can read it.\<close>

theorem challenge_price_readable:
  assumes "challenge_create (ArgText raw) pay_to resource ledger ttl nonce now = Inr c"
  shows "\<exists>p. parse_price (ArgText raw) ''USD'' = Inr p \<and>
    challenge_price c = (if p_amount p < 100 then Inl UnreadablePrice else Inr p)"
  by (rule challenge_price_read [OF assms])

theorem challenge_price_readable_witness:
  "\<exists>c. challenge_create (ArgText ''0.5 USD'') ''bob'' ''/r'' None 120 ''n'' 0 = Inr c \<and>
    challenge_price c = Inr \<lparr> p_amount = 50000000, p_currency = ''USD'' \<rparr>"
proof -
  have m: "match_price ''0.5 USD'' = Some (None, ''0'', ''5'', Some ''USD'')" "digits_val ''05'' = 5"
    "str_upper ''USD'' = ''USD''"
    by code_simp+
  then have p: "parse_price (ArgText ''0.5 USD'') ''USD'' = Inr \<lparr> p_amount = 50000000, p_currency = ''USD'' \<rparr>"
    by (simp add: quantize_text_def round_units_def check_digits_def decimal_limit_def)
  obtain c where c: "challenge_create (ArgText ''0.5 USD'') ''bob'' ''/r'' None 120 ''n'' 0 = Inr c"
    unfolding challenge_create_def p by simp
  from challenge_price_readable [OF c] show ?thesis
    using c p by (auto simp del: parse_price.simps)
qed

lemma first_mismatch_key: "first_mismatch xs ys = Some k \<Longrightarrow> k \<in> fst ` set xs"
  by (induction xs ys rule: first_mismatch.induct) (auto split: if_splits)

lemma first_mismatch_Some:
  "List.map fst xs = List.map fst ys \<Longrightarrow> distinct (List.map fst xs) \<Longrightarrow> xs \<noteq> ys \<Longrightarrow>
   \<exists>k. first_mismatch xs ys = Some k \<and> map_of ys k \<noteq> map_of xs k"
proof (induction xs ys rule: first_mismatch.induct)
  case (1 k a xs k' b ys)
  show ?case
  proof (cases "a = b")
    case True
    then obtain j where j: "first_mismatch xs ys = Some j" "map_of ys j \<noteq> map_of xs j" using 1 by auto
    have "k \<notin> fst ` set xs" using "1.prems"(2) by simp
    with first_mismatch_key [OF j(1)] have "j \<noteq> k" by metis
    with j True 1 show ?thesis by auto
  qed (use 1 in auto)
qed auto

text \<open>A proof is good for its own challenge only: presented for a challenge with another amount, currency,
  payee, resource or nonce it is refused, and the error names a field that differs.\<close>

theorem proof_bound_to_challenge:
  assumes "runtime_ok rt" "sign_proof rt c payer key issued = Inr h" "now \<le> ch_expires_at c"
    "challenge_fields c' \<noteq> challenge_fields c"
  shows "\<exists>k. verify_proof rt h (ed_public rt key) (Some c') now = Inl (ProofMismatch k) \<and>
    map_of (challenge_fields c') k \<noteq> map_of (challenge_fields c) k"
proof -
  obtain body where b: "CHR ''.'' \<in> set h" "split_dot h = (b64 body, b64 (ed_sign rt key body))"
    "loads_bytes body = Some (sort_json (proof_payload (proof_for c payer issued)))"
    using sign_proof_header [OF assms(2)] by blast
  obtain d where d: "sort_json (proof_payload (proof_for c payer issued)) = JObj d"
    using sort_proof_payload_obj by blast
  have e: "\<not> proof_is_expired (proof_for c payer issued) now"
    using assms(3) by (simp add: proof_is_expired_def proof_for_def)
  obtain k where k: "first_mismatch (proof_fields (proof_for c payer issued)) (challenge_fields c') = Some k"
    "map_of (challenge_fields c') k \<noteq> map_of (challenge_fields c) k"
    using first_mismatch_Some [of "challenge_fields c" "challenge_fields c'"] assms(4)
    by (auto simp: proof_fields_def challenge_fields_def proof_for_def simp del: first_mismatch.simps)
  then have "verify_proof rt h (ed_public rt key) (Some c') now = Inl (ProofMismatch k)"
    using assms(1) b d e proof_of_sorted_payload [OF d, of rt]
    by (auto simp: verify_proof_def b64_roundtrip runtime_ok_def)
  with k(2) show ?thesis by blast
qed

theorem proof_bound_to_challenge_witness:
  "\<exists>h k. verify_proof toy_runtime h ''key''
     (Some \<lparr> ch_amount = ''9'', ch_currency = ''USD'', ch_pay_to = ''bob'', ch_resource = ''/r'',
       ch_nonce = ''n'', ch_expires_at = 9, ch_ledger = None \<rparr>) 5 = Inl (ProofMismatch k)"
proof -
  let ?c = "\<lparr> ch_amount = ''1'', ch_currency = ''USD'', ch_pay_to = ''bob'', ch_resource = ''/r'',
       ch_nonce = ''n'', ch_expires_at = 9, ch_ledger = None \<rparr>"
  obtain h where h: "sign_proof toy_runtime ?c ''alice'' ''key'' 0 = Inr h"
    by (simp add: sign_proof_def rbind_Inr_iff canonical_bytes_Inr)
  have "ed_public toy_runtime ''key'' = ''key''" by (simp add: toy_runtime_def)
  moreover have "5 \<le> ch_expires_at ?c" by simp
  ultimately show ?thesis
    using proof_bound_to_challenge [OF toy_runtime_ok h, of 5
      "?c\<lparr>ch_amount := ''9''\<rparr>"] by (auto simp: challenge_fields_def)
qed

end
