(* ===== verification/Consumable.thy ===== *)
theory Consumable
  imports Main
begin

text \<open>
  Things that may be used a bounded number of times: a payment nonce (once), a human approval (once per
  grant).  A provider gives its operations, the token an operation spends in a state, how often a
  token may still be spent, and what an operation grants.  The one law says that spending is
  accounted for; the theorem says that over any run a token is spent at most as often as it was
  available at the start plus granted on the way.
\<close>

fun spends :: "('op \<Rightarrow> 's \<Rightarrow> 's) \<Rightarrow> ('op \<Rightarrow> 's \<Rightarrow> 't option) \<Rightarrow> 's \<Rightarrow> 'op list \<Rightarrow> 't list" where
  "spends exec used s [] = []"
| "spends exec used s (op # ops) =
     (case used op s of None \<Rightarrow> [] | Some t \<Rightarrow> [t]) @ spends exec used (exec op s) ops"

fun granted_by :: "('op \<Rightarrow> 't \<Rightarrow> nat) \<Rightarrow> 'op list \<Rightarrow> 't \<Rightarrow> nat" where
  "granted_by granted [] t = 0"
| "granted_by granted (op # ops) t = granted op t + granted_by granted ops t"

lemma granted_by_zero: "(\<And>op. granted op t = 0) \<Longrightarrow> granted_by granted ops t = 0"
  by (induction ops) auto

lemma distinct_count_list: "(\<And>t. count_list xs t \<le> 1) \<Longrightarrow> distinct xs"
proof (induction xs)
  case (Cons x xs)
  have "count_list xs x = 0" using Cons.prems [of x] by simp
  moreover have "count_list xs t \<le> 1" for t using Cons.prems [of t] by (simp split: if_splits)
  ultimately show ?case using Cons.IH by (simp add: count_list_0_iff)
qed simp

locale consumable =
  fixes exec :: "'op \<Rightarrow> 's \<Rightarrow> 's"
    and used :: "'op \<Rightarrow> 's \<Rightarrow> 't option"
    and avail :: "'s \<Rightarrow> 't \<Rightarrow> nat"
    and granted :: "'op \<Rightarrow> 't \<Rightarrow> nat"
    and inv :: "'s \<Rightarrow> bool"
  assumes accounted: "inv s \<Longrightarrow>
      (if used op s = Some t then 1 else 0) + avail (exec op s) t \<le> avail s t + granted op t"
    and inv_exec: "inv s \<Longrightarrow> inv (exec op s)"
begin

theorem spends_bounded:
  "inv s \<Longrightarrow> count_list (spends exec used s ops) t \<le> avail s t + granted_by granted ops t"
proof (induction ops arbitrary: s)
  case (Cons op ops)
  have IH: "count_list (spends exec used (exec op s) ops) t
      \<le> avail (exec op s) t + granted_by granted ops t"
    using Cons.prems inv_exec by (intro Cons.IH) auto
  have "count_list (spends exec used s (op # ops)) t
      = (if used op s = Some t then 1 else 0) + count_list (spends exec used (exec op s) ops) t"
    by (auto split: option.splits)
  also have "\<dots> \<le> avail s t + granted_by granted (op # ops) t"
    using IH accounted [OF Cons.prems, of op t] by simp
  finally show ?case .
qed simp

corollary spends_distinct:
  assumes "inv s" "\<And>t. avail s t \<le> 1" "\<And>op t. granted op t = 0"
  shows "distinct (spends exec used s ops)"
proof (rule distinct_count_list)
  fix t
  show "count_list (spends exec used s ops) t \<le> 1"
    using spends_bounded [OF assms(1), of ops t] assms(2) [of t] granted_by_zero assms(3)
    by (metis add.right_neutral le_trans)
qed

end

end
