(* ===== verification/Ledger.thy ===== *)
theory Ledger
  imports Journal Payments Consumable
begin

text \<open>
  \<open>payments/ledger.py\<close>: accounts, charges and the sealed journal.  An operation takes the clocks it
  reads (\<open>clock\<close> for \<open>time.time()\<close> of the journal, \<open>now\<close> for \<open>now_ms()\<close>) and returns its result and
  the new ledger, so that what a raising operation has already changed is visible.  The callback
  \<open>on_change\<close> belongs to the relay and is not part of the state.
\<close>

section \<open>Decimal texts\<close>

text \<open>
  \<open>Decimal(text)\<close> for the texts an exported ledger holds: \<open>0\<close>, the balance of an account that was never
  charged, and texts whose exponent is the scale of the ledger.  The flag tells the two apart, as
  \<open>str\<close> writes them differently.  Texts of other exponents are not read (\<open>None\<close>).
\<close>

definition decimal_of_text :: "string \<Rightarrow> (int \<times> bool) option" where
  "decimal_of_text s =
     (if s = ''0'' then Some (0, True)
      else
        (let (neg, t) = p_sign s; ip = takeWhile is_digit t;
             (fr, r) = p_frac (dropWhile is_digit t); (ex, r2) = p_exp r;
             fp = (case fr of None \<Rightarrow> [] | Some f \<Rightarrow> f); e = (case ex of None \<Rightarrow> 0 | Some e \<Rightarrow> e);
             u = int (digits_val (ip @ fp))
         in if ip = [] \<or> r2 \<noteq> [] \<or> e - int (length fp) \<noteq> - 8 then None
            else Some (if neg then - u else u, False)))"

definition signed :: "bool \<Rightarrow> int \<Rightarrow> int" where
  "signed neg u = (if neg then - u else u)"

lemma digit_signs: "is_digit c \<Longrightarrow> c \<noteq> CHR ''-'' \<and> c \<noteq> CHR ''+''"
proof -
  assume "is_digit c"
  moreover have "\<not> is_digit (CHR ''-'')" "\<not> is_digit (CHR ''+'')" by code_simp+
  ultimately show ?thesis by auto
qed

lemma decimal_of_text_plain:
  assumes ip: "ip \<noteq> []" "\<forall>c \<in> set ip. is_digit c" and fp: "length fp = 8" "\<forall>c \<in> set fp. is_digit c"
  shows "decimal_of_text ((if neg then ''-'' else []) @ ip @ CHR ''.'' # fp)
       = Some (signed neg (int (digits_val (ip @ fp))), False)"
proof -
  obtain d ds where d: "ip = d # ds" "is_digit d" using ip by (cases ip) auto
  have s: "p_sign ((if neg then ''-'' else []) @ ip @ x) = (neg, ip @ x)" for x
    using d digit_signs [OF d(2)] by (cases neg) (simp_all add: p_sign_def)
  have f: "takeWhile is_digit fp = fp" "dropWhile is_digit fp = []" using fp(2) by simp_all
  have "fp \<noteq> []" using fp(1) by auto
  then have "p_frac (CHR ''.'' # fp) = (Some fp, [])" by (simp add: p_frac_def f)
  moreover have "(if neg then ''-'' else []) @ ip @ CHR ''.'' # fp \<noteq> ''0''"
    using d fp(1) by (cases neg; cases ds) auto
  ultimately show ?thesis
    using s [of "CHR ''.'' # fp"] ip span_digits [OF ip(2) space_classes(3)] fp
    by (simp add: decimal_of_text_def p_exp_def signed_def)
qed

lemma decimal_str_neg: "u < 0 \<Longrightarrow> decimal_str u = CHR ''-'' # decimal_str (- u)"
  by (simp add: decimal_str_def Let_def)

lemma decimal_of_text_tiny:
  assumes "0 \<le> u" "u < 100"
  shows "decimal_of_text ((if neg then ''-'' else []) @ decimal_str u) = Some (signed neg u, False)"
proof -
  define ds where "ds = nat_str (nat u)"
  have dig: "\<forall>c \<in> set ds. is_digit c" unfolding ds_def by (rule nat_str_digits)
  have val: "digits_val ds = nat u" by (simp add: ds_def)
  have e8: "p_exp (CHR ''E'' # CHR ''-'' # nat_str 8) = (Some (- 8), [])"
    and e7: "p_exp (CHR ''E'' # CHR ''-'' # nat_str 7) = (Some (- 7), [])"
    by code_simp+
  have "length ds \<le> 2" using nat_str_length_le [of 2 "nat u"] assms by (simp add: ds_def)
  moreover have "ds \<noteq> []" by (simp add: ds_def)
  ultimately consider a where "ds = [a]" | a b where "ds = [a, b]"
    by (cases ds; cases "tl ds") auto
  then show ?thesis
  proof cases
    case (1 a)
    then have a: "is_digit a" using dig by simp
    have t: "decimal_str u = a # CHR ''E'' # CHR ''-'' # nat_str 8"
      using 1 assms by (simp add: decimal_str_def ds_def [symmetric] Let_def)
    have "p_sign ((if neg then ''-'' else []) @ decimal_str u) = (neg, decimal_str u)"
      using digit_signs [OF a] by (cases neg) (simp_all add: p_sign_def t)
    moreover have "p_frac (CHR ''E'' # CHR ''-'' # nat_str 8) = (None, CHR ''E'' # CHR ''-'' # nat_str 8)"
      by (simp add: p_frac_def)
    moreover have "(if neg then ''-'' else []) @ decimal_str u \<noteq> ''0''" by (cases neg) (simp_all add: t)
    ultimately show ?thesis
      using a space_classes e8 val 1 assms
      by (simp add: decimal_of_text_def signed_def t)
  next
    case (2 a b)
    then have ab: "is_digit a" "is_digit b" using dig by simp_all
    have t: "decimal_str u = a # CHR ''.'' # b # CHR ''E'' # CHR ''-'' # nat_str 7"
      using 2 assms by (simp add: decimal_str_def ds_def [symmetric] Let_def)
    have "10 * digits_val [a] + digit_val b = nat u"
      using val 2 digits_val_snoc [of "[a]" b] by simp
    then have v: "10 * int (digits_val [a]) + int (digit_val b) = u" using assms by linarith
    have "p_sign ((if neg then ''-'' else []) @ decimal_str u) = (neg, decimal_str u)"
      using digit_signs [OF ab(1)] by (cases neg) (simp_all add: p_sign_def t)
    moreover have "p_frac (CHR ''.'' # b # CHR ''E'' # CHR ''-'' # nat_str 7) = (Some [b], CHR ''E'' # CHR ''-'' # nat_str 7)"
      using ab space_classes by (simp add: p_frac_def)
    moreover have "(if neg then ''-'' else []) @ decimal_str u \<noteq> ''0''" by (cases neg) (simp_all add: t)
    ultimately show ?thesis
      using ab space_classes e7 v
      by (simp add: decimal_of_text_def signed_def t)
  qed
qed

lemma decimal_of_text_str [simp]: "decimal_of_text (decimal_str u) = Some (u, False)"
proof -
  have pos: "decimal_of_text ((if neg then ''-'' else []) @ decimal_str v) = Some (signed neg v, False)"
    if "0 \<le> v" for neg v
  proof (cases "v < 100")
    case True
    with that show ?thesis by (rule decimal_of_text_tiny)
  next
    case False
    then have "100 \<le> v" by simp
    then obtain ip fp where s: "decimal_str v = ip @ CHR ''.'' # fp" "ip \<noteq> []" "\<forall>c \<in> set ip. is_digit c"
      "length fp = 8" "\<forall>c \<in> set fp. is_digit c" "digits_val (ip @ fp) = nat v"
      using decimal_str_shape by blast
    show ?thesis
      using decimal_of_text_plain [OF s(2,3,4,5), of neg] s(6) that by (simp only: s(1)) simp
  qed
  show ?thesis
  proof (cases "u < 0")
    case True
    then show ?thesis using pos [of "- u" True] decimal_str_neg [OF True] by (simp add: signed_def)
  next
    case False
    then show ?thesis using pos [of u False] by (simp add: signed_def)
  qed
qed

section \<open>Accounts and charges\<close>

text \<open>
  \<open>ac_fresh\<close>: the balance is still the \<open>Decimal("0")\<close> of the opening, which \<open>str\<close> writes \<open>0\<close>; every other
  balance is quantised.
\<close>

record account =
  ac_agent :: string
  ac_currency :: string
  ac_limit :: int
  ac_balance :: int
  ac_fresh :: bool

definition balance_str :: "account \<Rightarrow> string" where
  "balance_str a = (if ac_fresh a then ''0'' else decimal_str (ac_balance a))"

definition account_available :: "account \<Rightarrow> price_error + int" where
  "account_available a = quantize_sum (ac_balance a) (ac_limit a)"

definition account_to_dict :: "account \<Rightarrow> json" where
  "account_to_dict a = JObj
     [(''agent_id'', JStr (ac_agent a)), (''currency'', JStr (ac_currency a)),
      (''credit_limit'', JStr (decimal_str (ac_limit a))), (''balance'', JStr (balance_str a))]"

record charge =
  cg_payer :: string
  cg_payee :: string
  cg_amount :: int
  cg_currency :: string
  cg_resource :: string
  cg_nonce :: string
  cg_at :: int

definition charge_to_dict :: "charge \<Rightarrow> json" where
  "charge_to_dict c = JObj
     [(''payer'', JStr (cg_payer c)), (''payee'', JStr (cg_payee c)),
      (''amount'', JStr (decimal_str (cg_amount c))), (''currency'', JStr (cg_currency c)),
      (''resource'', JStr (cg_resource c)), (''nonce'', JStr (cg_nonce c)), (''at'', JInt (cg_at c))]"

section \<open>The ledger\<close>

record ledger =
  lg_currency :: string
  lg_accounts :: "(string \<times> account) list"
  lg_charges :: "charge list"
  lg_seen :: "string set"
  lg_audit :: "audit_entry list"

text \<open>\<open>PriceFailure\<close> is no \<open>LedgerError\<close>: a \<open>PriceError\<close> or an \<open>InvalidOperation\<close> that escapes.\<close>

datatype ledger_error =
    PriceFailure price_error
  | ForeignCurrency
  | NotPositive
  | NoAccount string
  | OverLimit
  | SpentNonce

definition is_LedgerError :: "ledger_error \<Rightarrow> bool" where
  "is_LedgerError e = (case e of PriceFailure p \<Rightarrow> False | _ \<Rightarrow> True)"

definition ledger_new :: "('sk, 'pk) runtime \<Rightarrow> rat \<Rightarrow> string \<Rightarrow> ledger" where
  "ledger_new rt clock currency =
     \<lparr> lg_currency = currency, lg_accounts = [], lg_charges = [], lg_seen = {},
       lg_audit = audit_new rt clock \<rparr>"

definition default_credit_limit :: price_arg where
  "default_credit_limit = ArgText ''10.00''"

definition open_account ::
  "('sk, 'pk) runtime \<Rightarrow> rat \<Rightarrow> string \<Rightarrow> price_arg \<Rightarrow> ledger \<Rightarrow> (ledger_error + account) \<times> ledger" where
  "open_account rt clock agent credit_limit L =
     (case map_of (lg_accounts L) agent of
        Some a \<Rightarrow> (Inr a, L)
      | None \<Rightarrow>
          (case parse_price credit_limit (lg_currency L) of
             Inl e \<Rightarrow> (Inl (PriceFailure e), L)
           | Inr limit \<Rightarrow>
               if p_currency limit \<noteq> lg_currency L then (Inl ForeignCurrency, L)
               else
                 (let a = \<lparr> ac_agent = agent, ac_currency = lg_currency L, ac_limit = p_amount limit,
                            ac_balance = 0, ac_fresh = True \<rparr>
                  in (Inr a, L\<lparr>lg_accounts := dict_set agent a (lg_accounts L),
                        lg_audit := audit_log rt clock ''ACCOUNT_OPENED'' agent None
                          (JObj [(''credit_limit'', JStr (decimal_str (p_amount limit))),
                                 (''currency'', JStr (lg_currency L))]) (lg_audit L)\<rparr>))))"

definition ledger_account :: "ledger \<Rightarrow> string \<Rightarrow> ledger_error + account" where
  "ledger_account L agent =
     (case map_of (lg_accounts L) agent of None \<Rightarrow> Inl (NoAccount agent) | Some a \<Rightarrow> Inr a)"

definition ledger_balance :: "ledger \<Rightarrow> string \<Rightarrow> ledger_error + price" where
  "ledger_balance L agent =
     rbind (ledger_account L agent)
       (\<lambda>a. Inr \<lparr> p_amount = ac_balance a, p_currency = lg_currency L \<rparr>)"

text \<open>What \<open>charge\<close> checks before it writes: the amount, the payer and the payee.\<close>

definition charge_checks :: "payment_proof \<Rightarrow> ledger \<Rightarrow> ledger_error + int \<times> account \<times> account" where
  "charge_checks proof L =
     (if pp_nonce proof \<in> lg_seen L then Inl SpentNonce
      else
        (case parse_price (ArgText (pp_amount proof @ '' '' @ pp_currency proof)) ''USD'' of
           Inl e \<Rightarrow> Inl (PriceFailure e)
         | Inr amount \<Rightarrow>
             if p_currency amount \<noteq> lg_currency L then Inl ForeignCurrency
             else if p_amount amount \<le> 0 then Inl NotPositive
             else
               rbind (ledger_account L (pp_payer proof)) (\<lambda>payer.
               rbind (ledger_account L (pp_pay_to proof)) (\<lambda>payee.
                 (case account_available payer of
                    Inl e \<Rightarrow> Inl (PriceFailure e)
                  | Inr available \<Rightarrow>
                      if p_amount amount > available then Inl OverLimit
                      else Inr (p_amount amount, payer, payee))))))"

definition put_balance :: "account \<Rightarrow> int \<Rightarrow> ledger \<Rightarrow> ledger" where
  "put_balance a b L =
     L\<lparr>lg_accounts := dict_set (ac_agent a) (a\<lparr>ac_balance := b, ac_fresh := False\<rparr>) (lg_accounts L)\<rparr>"

definition charge_of :: "payment_proof \<Rightarrow> int \<Rightarrow> int \<Rightarrow> ledger \<Rightarrow> charge" where
  "charge_of proof amount now L =
     \<lparr> cg_payer = pp_payer proof, cg_payee = pp_pay_to proof, cg_amount = amount,
       cg_currency = lg_currency L, cg_resource = pp_resource proof, cg_nonce = pp_nonce proof,
       cg_at = now \<rparr>"

definition record_charge :: "('sk, 'pk) runtime \<Rightarrow> rat \<Rightarrow> charge \<Rightarrow> ledger \<Rightarrow> ledger" where
  "record_charge rt clock c L =
     L\<lparr>lg_charges := lg_charges L @ [c], lg_seen := insert (cg_nonce c) (lg_seen L),
       lg_audit := audit_log rt clock ''CHARGE'' (cg_payer c) (Some (cg_payee c)) (charge_to_dict c)
                     (lg_audit L)\<rparr>"

definition ledger_charge ::
  "('sk, 'pk) runtime \<Rightarrow> rat \<Rightarrow> payment_proof \<Rightarrow> int \<Rightarrow> ledger \<Rightarrow> (ledger_error + charge) \<times> ledger" where
  "ledger_charge rt clock proof now L =
     (case charge_checks proof L of
        Inl e \<Rightarrow> (Inl e, L)
      | Inr (amount, payer, payee) \<Rightarrow>
          (case quantize_sum (ac_balance payer) (- amount) of
             Inl e \<Rightarrow> (Inl (PriceFailure e), L)
           | Inr b \<Rightarrow>
               (let L1 = put_balance payer b L in
                case quantize_sum (ac_balance payee) amount of
                  Inl e \<Rightarrow> (Inl (PriceFailure e), L1)
                | Inr b' \<Rightarrow>
                    (let c = charge_of proof amount now L
                     in (Inr c, record_charge rt clock c (put_balance payee b' L1))))))"

definition ledger_settle ::
  "('sk, 'pk) runtime \<Rightarrow> rat \<Rightarrow> string \<Rightarrow> price_arg \<Rightarrow> ledger \<Rightarrow> (ledger_error + account) \<times> ledger" where
  "ledger_settle rt clock agent amount L =
     (case parse_price amount (lg_currency L) of
        Inl e \<Rightarrow> (Inl (PriceFailure e), L)
      | Inr received \<Rightarrow>
          if p_currency received \<noteq> lg_currency L then (Inl ForeignCurrency, L)
          else if p_amount received \<le> 0 then (Inl NotPositive, L)
          else
            (case ledger_account L agent of
               Inl e \<Rightarrow> (Inl e, L)
             | Inr a \<Rightarrow>
                 (case quantize_sum (ac_balance a) (p_amount received) of
                    Inl e \<Rightarrow> (Inl (PriceFailure e), L)
                  | Inr b \<Rightarrow>
                      (let a' = a\<lparr>ac_balance := b, ac_fresh := False\<rparr>
                       in (Inr a', L\<lparr>lg_accounts := dict_set agent a' (lg_accounts L),
                             lg_audit := audit_log rt clock ''SETTLEMENT'' agent None
                               (JObj [(''amount'', JStr (decimal_str (p_amount received))),
                                      (''currency'', JStr (lg_currency L)),
                                      (''balance'', JStr (balance_str a'))]) (lg_audit L)\<rparr>)))))"

definition statement ::
  "ledger \<Rightarrow> string \<Rightarrow> int option \<Rightarrow> int option \<Rightarrow> charge list" where
  "statement L agent since until = List.filter (\<lambda>c.
     (cg_payer c = agent \<or> cg_payee c = agent) \<and>
     (case since of None \<Rightarrow> True | Some s \<Rightarrow> cg_at c \<ge> s) \<and>
     (case until of None \<Rightarrow> True | Some u \<Rightarrow> cg_at c < u)) (lg_charges L)"

definition total_owed ::
  "ledger \<Rightarrow> string \<Rightarrow> int option \<Rightarrow> int option \<Rightarrow> price_error + price" where
  "total_owed L agent since until =
     rbind (quantize_sum 0 (sum_list (List.map cg_amount
              (List.filter (\<lambda>c. cg_payer c = agent) (statement L agent since until)))))
       (\<lambda>t. Inr \<lparr> p_amount = t, p_currency = lg_currency L \<rparr>)"

definition ledger_verify_integrity :: "('sk, 'pk) runtime \<Rightarrow> ledger \<Rightarrow> bool" where
  "ledger_verify_integrity rt L = verify_integrity rt (lg_audit L)"

section \<open>Export and import\<close>

definition ledger_export :: "ledger \<Rightarrow> (string \<times> json) list" where
  "ledger_export L =
     [(''currency'', JStr (lg_currency L)),
      (''accounts'', JList (List.map (account_to_dict \<circ> snd) (lg_accounts L))),
      (''charges'', JList (List.map charge_to_dict (lg_charges L))),
      (''audit'', JList (List.map audit_entry_to_dict (lg_audit L)))]"

text \<open>Rows whose fields have the types the export gives them; \<open>None\<close> otherwise.\<close>

definition account_of_row :: "json \<Rightarrow> account option" where
  "account_of_row row = (case row of
     JObj d \<Rightarrow>
       (case (map_of d ''agent_id'', map_of d ''currency'', map_of d ''credit_limit'', map_of d ''balance'') of
          (Some (JStr i), Some (JStr c), Some (JStr l), Some (JStr b)) \<Rightarrow>
            (case (decimal_of_text l, decimal_of_text b) of
               (Some (limit, False), Some (balance, fresh)) \<Rightarrow> Some
                 \<lparr> ac_agent = i, ac_currency = c, ac_limit = limit, ac_balance = balance, ac_fresh = fresh \<rparr>
             | _ \<Rightarrow> None)
        | _ \<Rightarrow> None)
   | _ \<Rightarrow> None)"

definition charge_of_row :: "json \<Rightarrow> charge option" where
  "charge_of_row row = (case row of
     JObj d \<Rightarrow>
       (case (map_of d ''payer'', map_of d ''payee'', map_of d ''amount'', map_of d ''currency'',
              map_of d ''resource'', map_of d ''nonce'', map_of d ''at'') of
          (Some (JStr p), Some (JStr q), Some (JStr a), Some (JStr c), Some (JStr r), Some (JStr n),
           Some (JInt t)) \<Rightarrow>
            (case decimal_of_text a of
               Some (amount, False) \<Rightarrow> Some
                 \<lparr> cg_payer = p, cg_payee = q, cg_amount = amount, cg_currency = c, cg_resource = r,
                   cg_nonce = n, cg_at = t \<rparr>
             | _ \<Rightarrow> None)
        | _ \<Rightarrow> None)
   | _ \<Rightarrow> None)"

definition rows_of :: "json option \<Rightarrow> json list option" where
  "rows_of v = (case v of None \<Rightarrow> Some [] | Some (JList rows) \<Rightarrow> Some rows | _ \<Rightarrow> None)"

definition ledger_import :: "('sk, 'pk) runtime \<Rightarrow> rat \<Rightarrow> (string \<times> json) list \<Rightarrow> ledger option" where
  "ledger_import rt clock state =
     (case (case map_of state ''currency'' of
              None \<Rightarrow> Some ''USD'' | Some (JStr c) \<Rightarrow> Some c | _ \<Rightarrow> None,
            Option.bind (rows_of (map_of state ''audit'')) (audit_open rt clock),
            Option.bind (rows_of (map_of state ''accounts'')) (\<lambda>rows. those (List.map account_of_row rows)),
            Option.bind (rows_of (map_of state ''charges'')) (\<lambda>rows. those (List.map charge_of_row rows))) of
        (Some currency, Some audit, Some accounts, Some charges) \<Rightarrow> Some
          \<lparr> lg_currency = currency,
            lg_accounts = foldl (\<lambda>d a. dict_set (ac_agent a) a d) [] accounts,
            lg_charges = charges, lg_seen = set (List.map cg_nonce charges), lg_audit = audit \<rparr>
      | _ \<Rightarrow> None)"

section \<open>The invariant of the ledger\<close>

definition account_ok :: "string \<Rightarrow> string \<Rightarrow> account \<Rightarrow> bool" where
  "account_ok currency k a \<longleftrightarrow>
     ac_agent a = k \<and> ac_currency a = currency \<and>
     0 \<le> ac_limit a \<and> ac_limit a < decimal_limit \<and> \<bar>ac_balance a\<bar> < decimal_limit \<and>
     0 \<le> ac_balance a + ac_limit a \<and> (ac_fresh a \<longrightarrow> ac_balance a = 0)"

text \<open>
  Keys agree with the accounts they hold, no account is further in debt than its limit, the nonces
  seen are those of the charges and none occurs twice, every charge is positive, the journal is sound.
\<close>

definition ledger_ok :: "('sk, 'pk) runtime \<Rightarrow> ledger \<Rightarrow> bool" where
  "ledger_ok rt L \<longleftrightarrow>
     distinct (List.map fst (lg_accounts L)) \<and>
     (\<forall>k a. map_of (lg_accounts L) k = Some a \<longrightarrow> account_ok (lg_currency L) k a) \<and>
     lg_seen L = set (List.map cg_nonce (lg_charges L)) \<and>
     distinct (List.map cg_nonce (lg_charges L)) \<and>
     (\<forall>c \<in> set (lg_charges L). 0 < cg_amount c) \<and>
     audit_sound rt (lg_audit L)"

definition price_arg_ok :: "price_arg \<Rightarrow> bool" where
  "price_arg_ok a = (case a of ArgPrice p \<Rightarrow> 0 \<le> p_amount p \<and> p_amount p < decimal_limit | _ \<Rightarrow> True)"

definition balance_of :: "ledger \<Rightarrow> string \<Rightarrow> int" where
  "balance_of L agent = (case map_of (lg_accounts L) agent of None \<Rightarrow> 0 | Some a \<Rightarrow> ac_balance a)"

declare parse_price.simps(3) [simp del]

lemma parse_price_bounds:
  "price_arg_ok a \<Longrightarrow> parse_price a d = Inr p \<Longrightarrow> 0 \<le> p_amount p \<and> p_amount p < decimal_limit"
  by (cases a) (auto simp: price_arg_ok_def dest: parse_price_nonneg)

lemma ledger_ok_account:
  "ledger_ok rt L \<Longrightarrow> map_of (lg_accounts L) k = Some a \<Longrightarrow> account_ok (lg_currency L) k a"
  by (simp add: ledger_ok_def)

lemma ledger_account_Inr [simp]:
  "ledger_account L agent = Inr a \<longleftrightarrow> map_of (lg_accounts L) agent = Some a"
  by (simp add: ledger_account_def split: option.split)

lemma account_available_Inr [simp]:
  "account_available a = Inr v \<longleftrightarrow>
   v = ac_balance a + ac_limit a \<and> \<bar>ac_balance a + ac_limit a\<bar> < decimal_limit"
  by (simp add: account_available_def)

lemma decimal_limit_pos: "0 < decimal_limit"
  by (simp add: decimal_limit_def)

lemma ledger_new_ok: "ledger_ok rt (ledger_new rt clock currency)"
  by (simp add: ledger_ok_def ledger_new_def)

lemma ledger_ok_put:
  assumes "ledger_ok rt L" "account_ok (lg_currency L) k a" "audit_sound rt au"
  shows "ledger_ok rt (L\<lparr>lg_accounts := dict_set k a (lg_accounts L), lg_audit := au\<rparr>)"
  using assms by (simp add: ledger_ok_def distinct_update update_conv')

lemma open_account_ok:
  assumes "ledger_ok rt L" "price_arg_ok limit"
  shows "ledger_ok rt (snd (open_account rt clock agent limit L))"
proof -
  have "audit_sound rt (audit_log rt clock ev s t m (lg_audit L))" for ev s t m
    using assms(1) by (simp add: ledger_ok_def audit_log_sound)
  moreover have "account_ok (lg_currency L) agent \<lparr> ac_agent = agent, ac_currency = lg_currency L,
      ac_limit = p_amount p, ac_balance = 0, ac_fresh = True \<rparr>"
    if "parse_price limit (lg_currency L) = Inr p" for p
    using parse_price_bounds [OF assms(2) that] decimal_limit_pos by (simp add: account_ok_def)
  ultimately show ?thesis
    using assms(1) by (auto simp: open_account_def Let_def intro!: ledger_ok_put split: option.splits sum.splits)
qed

lemma ledger_settle_cases:
  "ledger_settle rt clock agent amount L = (r, L') \<Longrightarrow>
   (\<exists>e. r = Inl e) \<and> L' = L \<or>
   (\<exists>p a m. parse_price amount (lg_currency L) = Inr p \<and> p_currency p = lg_currency L \<and> 0 < p_amount p \<and>
      map_of (lg_accounts L) agent = Some a \<and> \<bar>ac_balance a + p_amount p\<bar> < decimal_limit \<and>
      r = Inr (a\<lparr>ac_balance := ac_balance a + p_amount p, ac_fresh := False\<rparr>) \<and>
      L' = L\<lparr>lg_accounts := dict_set agent (a\<lparr>ac_balance := ac_balance a + p_amount p, ac_fresh := False\<rparr>)
               (lg_accounts L), lg_audit := audit_log rt clock ''SETTLEMENT'' agent None m (lg_audit L)\<rparr>)"
  by (auto simp: ledger_settle_def ledger_account_def Let_def split: sum.splits if_splits option.splits)

lemma ledger_settle_ok:
  assumes "ledger_ok rt L"
  shows "ledger_ok rt (snd (ledger_settle rt clock agent amount L))"
proof -
  obtain r L' where s: "ledger_settle rt clock agent amount L = (r, L')" by fastforce
  from ledger_settle_cases [OF s] show ?thesis
  proof (elim disjE exE conjE)
    fix p a m
    assume a: "map_of (lg_accounts L) agent = Some a" "0 < p_amount p"
      "\<bar>ac_balance a + p_amount p\<bar> < decimal_limit"
      and L': "L' = L\<lparr>lg_accounts := dict_set agent (a\<lparr>ac_balance := ac_balance a + p_amount p, ac_fresh := False\<rparr>)
               (lg_accounts L), lg_audit := audit_log rt clock ''SETTLEMENT'' agent None m (lg_audit L)\<rparr>"
    have "account_ok (lg_currency L) agent (a\<lparr>ac_balance := ac_balance a + p_amount p, ac_fresh := False\<rparr>)"
      using ledger_ok_account [OF assms a(1)] a(2,3) by (simp add: account_ok_def)
    then show ?thesis
      unfolding s L' snd_conv using assms
      by (intro ledger_ok_put audit_log_sound) (auto simp: ledger_ok_def)
  qed (simp add: s assms)
qed

lemma charge_checks_Inr:
  assumes "charge_checks proof L = Inr (amt, payer, payee)"
  shows "pp_nonce proof \<notin> lg_seen L \<and> 0 < amt \<and> amt < decimal_limit \<and>
    map_of (lg_accounts L) (pp_payer proof) = Some payer \<and>
    map_of (lg_accounts L) (pp_pay_to proof) = Some payee \<and>
    amt \<le> ac_balance payer + ac_limit payer"
proof -
  obtain p where p: "parse_price (ArgText (pp_amount proof @ '' '' @ pp_currency proof)) ''USD'' = Inr p"
    using assms by (cases "parse_price (ArgText (pp_amount proof @ '' '' @ pp_currency proof)) ''USD''")
       (auto simp: charge_checks_def split: if_splits)
  then obtain payer' payee' where c: "pp_nonce proof \<notin> lg_seen L" "0 < p_amount p"
      "map_of (lg_accounts L) (pp_payer proof) = Some payer'"
      "map_of (lg_accounts L) (pp_pay_to proof) = Some payee'"
    and a: "(case account_available payer' of Inl e \<Rightarrow> Inl (PriceFailure e)
             | Inr available \<Rightarrow> if p_amount p > available then Inl OverLimit
                 else Inr (p_amount p, payer', payee')) = Inr (amt, payer, payee)"
    using assms by (auto simp: charge_checks_def rbind_Inr_iff split: if_splits)
  from a obtain "amt = p_amount p" "payer = payer'" "payee = payee'"
    "amt \<le> ac_balance payer + ac_limit payer"
    by (cases "account_available payer'") (auto split: if_splits)
  with c p parse_price_nonneg [OF p] show ?thesis by simp
qed

text \<open>The ledger after a charge that went through.\<close>

definition charged :: "('sk, 'pk) runtime \<Rightarrow> rat \<Rightarrow> charge \<Rightarrow> account \<Rightarrow> account \<Rightarrow> ledger \<Rightarrow> ledger" where
  "charged rt clock c payer payee L =
     record_charge rt clock c
       (put_balance payee (ac_balance payee + cg_amount c)
         (put_balance payer (ac_balance payer - cg_amount c) L))"

lemma ledger_charge_cases:
  assumes "ledger_charge rt clock proof now L = (r, L')"
  obtains (refused) e where "charge_checks proof L = Inl e" "r = Inl e" "L' = L"
  | (underflow) amt payer payee where "charge_checks proof L = Inr (amt, payer, payee)"
      "r = Inl (PriceFailure InvalidOperation)" "L' = L" "\<not> \<bar>ac_balance payer - amt\<bar> < decimal_limit"
  | (overflow) amt payer payee where "charge_checks proof L = Inr (amt, payer, payee)"
      "r = Inl (PriceFailure InvalidOperation)" "L' = put_balance payer (ac_balance payer - amt) L"
      "\<bar>ac_balance payer - amt\<bar> < decimal_limit" "\<not> \<bar>ac_balance payee + amt\<bar> < decimal_limit"
  | (passed) amt payer payee where "charge_checks proof L = Inr (amt, payer, payee)"
      "r = Inr (charge_of proof amt now L)" "L' = charged rt clock (charge_of proof amt now L) payer payee L"
      "\<bar>ac_balance payer - amt\<bar> < decimal_limit" "\<bar>ac_balance payee + amt\<bar> < decimal_limit"
proof (cases "charge_checks proof L")
  case (Inl e)
  then show thesis using assms by (intro refused [OF Inl]) (simp_all add: ledger_charge_def)
next
  case (Inr x)
  then obtain amt payer payee where x: "charge_checks proof L = Inr (amt, payer, payee)" by (cases x) auto
  note eq = assms [unfolded ledger_charge_def quantize_sum_def check_digits_def x, simplified]
  show thesis
  proof (cases "\<bar>ac_balance payer - amt\<bar> < decimal_limit")
    case False
    show thesis by (rule underflow [OF x]) (use eq False in simp_all)
  next
    case lo: True
    show thesis
    proof (cases "\<bar>ac_balance payee + amt\<bar> < decimal_limit")
      case False
      show thesis by (rule overflow [OF x]) (use eq lo False in \<open>simp_all add: Let_def\<close>)
    next
      case True
      show thesis
        by (rule passed [OF x]) (use eq lo True in \<open>simp_all add: Let_def charged_def charge_of_def\<close>)
    qed
  qed
qed

lemma balance_of_put [simp]:
  "balance_of (put_balance a b L) agent = (if agent = ac_agent a then b else balance_of L agent)"
  by (simp add: balance_of_def put_balance_def update_conv')

lemma balance_of_record [simp]: "balance_of (record_charge rt clock c L) agent = balance_of L agent"
  by (simp add: balance_of_def record_charge_def)

lemma balance_of_audit [simp]: "balance_of (L\<lparr>lg_audit := au\<rparr>) agent = balance_of L agent"
  by (simp add: balance_of_def)

lemma put_balance_fields [simp]:
  "lg_currency (put_balance a b L) = lg_currency L" "lg_charges (put_balance a b L) = lg_charges L"
  "lg_seen (put_balance a b L) = lg_seen L" "lg_audit (put_balance a b L) = lg_audit L"
  by (simp_all add: put_balance_def)

lemma record_charge_fields [simp]:
  "lg_currency (record_charge rt clock c L) = lg_currency L"
  "lg_accounts (record_charge rt clock c L) = lg_accounts L"
  "lg_charges (record_charge rt clock c L) = lg_charges L @ [c]"
  "lg_seen (record_charge rt clock c L) = insert (cg_nonce c) (lg_seen L)"
  by (simp_all add: record_charge_def)

lemma charge_of_fields [simp]:
  "cg_payer (charge_of proof amt now L) = pp_payer proof"
  "cg_payee (charge_of proof amt now L) = pp_pay_to proof"
  "cg_amount (charge_of proof amt now L) = amt"
  "cg_nonce (charge_of proof amt now L) = pp_nonce proof"
  "cg_resource (charge_of proof amt now L) = pp_resource proof"
  by (simp_all add: charge_of_def)

lemma put_balance_ok:
  assumes "ledger_ok rt L" "account_ok (lg_currency L) k a" "\<bar>b\<bar> < decimal_limit" "0 \<le> b + ac_limit a"
  shows "ledger_ok rt (put_balance a b L)"
proof -
  have "put_balance a b L = L\<lparr>lg_accounts := dict_set k (a\<lparr>ac_balance := b, ac_fresh := False\<rparr>) (lg_accounts L),
      lg_audit := lg_audit L\<rparr>"
    using assms(2) by (simp add: put_balance_def account_ok_def)
  moreover have "account_ok (lg_currency L) k (a\<lparr>ac_balance := b, ac_fresh := False\<rparr>)"
    using assms(2-4) by (simp add: account_ok_def)
  moreover have "audit_sound rt (lg_audit L)" using assms(1) by (simp add: ledger_ok_def)
  ultimately show ?thesis using ledger_ok_put [OF assms(1)] by metis
qed

lemma record_charge_ok:
  assumes "ledger_ok rt L" "0 < cg_amount c" "cg_nonce c \<notin> lg_seen L"
  shows "ledger_ok rt (record_charge rt clock c L)"
  using assms by (simp add: ledger_ok_def audit_log_sound record_charge_def)

lemma charge_accounts_ok:
  assumes "ledger_ok rt L" "charge_checks proof L = Inr (amt, payer, payee)"
  shows "account_ok (lg_currency L) (pp_payer proof) payer" "account_ok (lg_currency L) (pp_pay_to proof) payee"
  using charge_checks_Inr [OF assms(2)] ledger_ok_account [OF assms(1)] by simp_all

lemma ledger_charge_ok:
  assumes ok: "ledger_ok rt L"
  shows "ledger_ok rt (snd (ledger_charge rt clock proof now L))"
proof -
  obtain r L' where s: "ledger_charge rt clock proof now L = (r, L')" by fastforce
  then show ?thesis
  proof (cases rule: ledger_charge_cases)
    case (overflow amt payer payee)
    then show ?thesis
      using charge_accounts_ok [OF ok overflow(1)] charge_checks_Inr [OF overflow(1)]
      by (simp add: s put_balance_ok [OF ok])
  next
    case (passed amt payer payee)
    note a = charge_accounts_ok [OF ok passed(1)] and c = charge_checks_Inr [OF passed(1)]
    have 1: "ledger_ok rt (put_balance payer (ac_balance payer - amt) L)"
      using a c passed by (intro put_balance_ok [OF ok]) auto
    have 2: "ledger_ok rt (put_balance payee (ac_balance payee + amt) (put_balance payer (ac_balance payer - amt) L))"
      using a c passed by (intro put_balance_ok [OF 1, of "pp_pay_to proof"]) (auto simp: account_ok_def)
    show ?thesis
      using c record_charge_ok [OF 2] by (simp add: s passed(3) charged_def)
  qed (simp_all add: s ok)
qed

section \<open>Runs of the ledger\<close>

datatype ledger_op =
    OpOpen rat string price_arg
  | OpCharge rat payment_proof int
  | OpSettle rat string price_arg

fun ledger_exec :: "('sk, 'pk) runtime \<Rightarrow> ledger_op \<Rightarrow> ledger \<Rightarrow> ledger" where
  "ledger_exec rt (OpOpen clock agent limit) L = snd (open_account rt clock agent limit L)"
| "ledger_exec rt (OpCharge clock proof now) L = snd (ledger_charge rt clock proof now L)"
| "ledger_exec rt (OpSettle clock agent amount) L = snd (ledger_settle rt clock agent amount L)"

definition ledger_run :: "('sk, 'pk) runtime \<Rightarrow> ledger_op list \<Rightarrow> ledger \<Rightarrow> ledger" where
  "ledger_run rt ops L = fold (ledger_exec rt) ops L"

text \<open>A credit limit given as a ready \<open>Price\<close> is not checked by the code.\<close>

fun ledger_op_ok :: "ledger_op \<Rightarrow> bool" where
  "ledger_op_ok (OpOpen clock agent limit) = price_arg_ok limit"
| "ledger_op_ok _ = True"

lemma ledger_exec_ok: "ledger_ok rt L \<Longrightarrow> ledger_op_ok op \<Longrightarrow> ledger_ok rt (ledger_exec rt op L)"
  by (cases op) (simp_all add: open_account_ok ledger_charge_ok ledger_settle_ok)

lemma ledger_run_ok: "ledger_ok rt L \<Longrightarrow> list_all ledger_op_ok ops \<Longrightarrow> ledger_ok rt (ledger_run rt ops L)"
  unfolding ledger_run_def by (induction ops arbitrary: L) (simp_all add: ledger_exec_ok)

text \<open>The nonce an operation spends: the one of a charge that goes through.\<close>

definition spent_nonce :: "('sk, 'pk) runtime \<Rightarrow> ledger_op \<Rightarrow> ledger \<Rightarrow> string option" where
  "spent_nonce rt op L = (case op of
     OpCharge clock proof now \<Rightarrow>
       (case fst (ledger_charge rt clock proof now L) of Inl e \<Rightarrow> None | Inr c \<Rightarrow> Some (cg_nonce c))
   | _ \<Rightarrow> None)"

lemma open_account_seen [simp]: "lg_seen (snd (open_account rt clock agent limit L)) = lg_seen L"
  by (simp add: open_account_def Let_def split: option.split sum.split)

lemma ledger_settle_seen [simp]: "lg_seen (snd (ledger_settle rt clock agent amount L)) = lg_seen L"
  by (simp add: ledger_settle_def Let_def split: sum.split)

lemma ledger_charge_spends:
  assumes "ledger_charge rt clock proof now L = (r, L')"
  shows "lg_seen L \<subseteq> lg_seen L' \<and> (\<forall>c. r = Inr c \<longrightarrow> cg_nonce c \<notin> lg_seen L \<and> cg_nonce c \<in> lg_seen L')"
  using assms
proof (cases rule: ledger_charge_cases)
  case (passed amt payer payee)
  then show ?thesis using charge_checks_Inr [OF passed(1)] by (auto simp: charged_def)
qed auto

definition nonce_avail :: "ledger \<Rightarrow> string \<Rightarrow> nat" where
  "nonce_avail L n = (if n \<in> lg_seen L then 0 else 1)"

interpretation nonces: consumable "ledger_exec rt" "spent_nonce rt" nonce_avail "\<lambda>op n. 0" "\<lambda>L. True" for rt
proof
  fix op :: ledger_op and L :: ledger and n :: string
  show "(if spent_nonce rt op L = Some n then 1 else 0) + nonce_avail (ledger_exec rt op L) n \<le> nonce_avail L n + 0"
  proof (cases op)
    case (OpCharge clock pr t)
    obtain r L' where s: "ledger_charge rt clock pr t L = (r, L')" by fastforce
    show ?thesis
      using ledger_charge_spends [OF s]
      by (auto simp: OpCharge s spent_nonce_def nonce_avail_def split: sum.splits)
  qed (simp_all add: spent_nonce_def nonce_avail_def)
qed simp

text \<open>What a single charge adds to the balance of an account.\<close>

definition charge_effect :: "string \<Rightarrow> charge \<Rightarrow> int" where
  "charge_effect agent c =
     (if cg_payee c = agent then cg_amount c else if cg_payer c = agent then - cg_amount c else 0)"

lemma charged_balance:
  assumes "ac_agent payer = cg_payer c" "ac_agent payee = cg_payee c"
    "map_of (lg_accounts L) (cg_payer c) = Some payer" "map_of (lg_accounts L) (cg_payee c) = Some payee"
  shows "balance_of (charged rt clock c payer payee L) agent = balance_of L agent + charge_effect agent c"
  using assms by (auto simp: charged_def charge_effect_def) (auto simp: balance_of_def)

lemma charged_fields [simp]:
  "lg_charges (charged rt clock c payer payee L) = lg_charges L @ [c]"
  "lg_seen (charged rt clock c payer payee L) = insert (cg_nonce c) (lg_seen L)"
  by (simp_all add: charged_def)

lemma passed_balance:
  assumes "ledger_ok rt L" "charge_checks proof L = Inr (amt, payer, payee)"
  shows "balance_of (charged rt clock (charge_of proof amt now L) payer payee L) agent
       = balance_of L agent + charge_effect agent (charge_of proof amt now L)"
  using charge_accounts_ok [OF assms] charge_checks_Inr [OF assms(2)]
  by (intro charged_balance) (simp_all add: account_ok_def)

text \<open>What the settlements of a run paid to an account.\<close>

fun settled :: "('sk, 'pk) runtime \<Rightarrow> ledger_op list \<Rightarrow> ledger \<Rightarrow> string \<Rightarrow> int" where
  "settled rt [] L agent = 0"
| "settled rt (op # ops) L agent =
     (case op of
        OpSettle clock a amount \<Rightarrow>
          (case (fst (ledger_settle rt clock a amount L), parse_price amount (lg_currency L)) of
             (Inr _, Inr p) \<Rightarrow> if a = agent then p_amount p else 0 | _ \<Rightarrow> 0)
      | _ \<Rightarrow> 0) + settled rt ops (ledger_exec rt op L) agent"

text \<open>No charge of the run leaves the digits of the decimal context.\<close>

fun within_digits :: "('sk, 'pk) runtime \<Rightarrow> ledger_op list \<Rightarrow> ledger \<Rightarrow> bool" where
  "within_digits rt [] L = True"
| "within_digits rt (op # ops) L =
     ((case op of
         OpCharge clock proof now \<Rightarrow> fst (ledger_charge rt clock proof now L) \<noteq> Inl (PriceFailure InvalidOperation)
       | _ \<Rightarrow> True) \<and> within_digits rt ops (ledger_exec rt op L))"

lemma open_account_balance:
  "balance_of (snd (open_account rt clock a limit L)) agent = balance_of L agent \<and>
   lg_charges (snd (open_account rt clock a limit L)) = lg_charges L"
  by (simp add: open_account_def Let_def balance_of_def update_conv' split: option.split sum.split)

lemma settle_balance:
  "balance_of (snd (ledger_settle rt clock a amount L)) agent = balance_of L agent +
     (case (fst (ledger_settle rt clock a amount L), parse_price amount (lg_currency L)) of
        (Inr _, Inr p) \<Rightarrow> if a = agent then p_amount p else 0 | _ \<Rightarrow> 0) \<and>
   lg_charges (snd (ledger_settle rt clock a amount L)) = lg_charges L"
proof -
  obtain r L' where s: "ledger_settle rt clock a amount L = (r, L')" by fastforce
  from ledger_settle_cases [OF s] show ?thesis
    by (auto simp: s balance_of_def update_conv')
qed

lemma charge_balance:
  assumes "ledger_ok rt L" "fst (ledger_charge rt clock proof now L) \<noteq> Inl (PriceFailure InvalidOperation)"
  shows "\<exists>new. lg_charges (snd (ledger_charge rt clock proof now L)) = lg_charges L @ new \<and>
     balance_of (snd (ledger_charge rt clock proof now L)) agent
       = balance_of L agent + sum_list (List.map (charge_effect agent) new)"
proof -
  obtain r L' where s: "ledger_charge rt clock proof now L = (r, L')" by fastforce
  then show ?thesis
  proof (cases rule: ledger_charge_cases)
    case (passed amt payer payee)
    then show ?thesis
      using passed_balance [OF assms(1) passed(1)]
      by (intro exI [of _ "[charge_of proof amt now L]"]) (simp add: s charged_def)
  qed (use assms(2) in \<open>auto simp: s\<close>)
qed

lemma ledger_run_balance:
  assumes "ledger_ok rt L" "list_all ledger_op_ok ops" "within_digits rt ops L"
  shows "\<exists>new. lg_charges (ledger_run rt ops L) = lg_charges L @ new \<and>
     balance_of (ledger_run rt ops L) agent
       = balance_of L agent + settled rt ops L agent + sum_list (List.map (charge_effect agent) new)"
  using assms
proof (induction ops arbitrary: L)
  case (Cons op ops)
  let ?L = "ledger_exec rt op L"
  let ?s = "case op of OpSettle clock a amount \<Rightarrow>
          (case (fst (ledger_settle rt clock a amount L), parse_price amount (lg_currency L)) of
             (Inr _, Inr p) \<Rightarrow> if a = agent then p_amount p else 0 | _ \<Rightarrow> 0)
      | _ \<Rightarrow> 0"
  obtain new where n: "lg_charges ?L = lg_charges L @ new"
    "balance_of ?L agent = balance_of L agent + ?s + sum_list (List.map (charge_effect agent) new)"
  proof (cases op)
    case (OpOpen clock a limit)
    then show thesis using open_account_balance [of rt clock a limit L agent] by (intro that [of "[]"]) simp_all
  next
    case (OpCharge clock pr t)
    then show thesis using charge_balance [OF Cons.prems(1), of clock pr t agent] Cons.prems(3) that by auto
  next
    case (OpSettle clock a amount)
    then show thesis using settle_balance [of rt clock a amount L agent] by (intro that [of "[]"]) simp_all
  qed
  obtain new' where n': "lg_charges (ledger_run rt ops ?L) = lg_charges ?L @ new'"
    "balance_of (ledger_run rt ops ?L) agent = balance_of ?L agent + settled rt ops ?L agent +
       sum_list (List.map (charge_effect agent) new')"
    using Cons.IH [of ?L] Cons.prems ledger_exec_ok [of rt L op] by auto
  have "ledger_run rt (op # ops) L = ledger_run rt ops ?L" by (simp add: ledger_run_def)
  with n n' show ?case by (intro exI [of _ "new @ new'"]) simp
qed (simp add: ledger_run_def)

section \<open>Export and import\<close>

lemma decimal_of_text_zero [simp]: "decimal_of_text ''0'' = Some (0, True)"
  by (simp add: decimal_of_text_def)

lemma account_row_roundtrip [simp]: "ac_fresh a \<longrightarrow> ac_balance a = 0 \<Longrightarrow> account_of_row (account_to_dict a) = Some a"
  by (cases "ac_fresh a") (auto simp: account_of_row_def account_to_dict_def balance_str_def)

lemma charge_row_roundtrip [simp]: "charge_of_row (charge_to_dict c) = Some c"
  by (simp add: charge_of_row_def charge_to_dict_def)

lemma foldl_dict_set:
  assumes "distinct (List.map fst (d @ xs))" "\<forall>x \<in> set xs. ac_agent (snd x) = fst x"
  shows "foldl (\<lambda>d a. dict_set (ac_agent a) a d) d (List.map snd xs) = d @ xs"
  using assms
proof (induction xs arbitrary: d)
  case (Cons x xs)
  obtain k a where x: "x = (k, a)" by (cases x)
  have "dict_set k a d = d @ [(k, a)]"
    using Cons.prems(1) x by (induction d) auto
  then show ?case using Cons.IH [of "d @ [(k, a)]"] Cons.prems by (simp add: x)
qed simp

lemma ledger_ok_accounts:
  assumes "ledger_ok rt L" "x \<in> set (lg_accounts L)"
  shows "account_ok (lg_currency L) (fst x) (snd x)"
proof -
  have "map_of (lg_accounts L) (fst x) = Some (snd x)"
    using assms by (intro map_of_is_SomeI) (auto simp: ledger_ok_def)
  then show ?thesis by (rule ledger_ok_account [OF assms(1)])
qed

lemma sum_list_filter_split:
  fixes f :: "'a \<Rightarrow> int"
  assumes "\<And>x. P x \<longleftrightarrow> Q x \<or> R x" "\<And>x. \<not> (Q x \<and> R x)"
  shows "sum_list (List.map f (List.filter P xs))
       = sum_list (List.map f (List.filter Q xs)) + sum_list (List.map f (List.filter R xs))"
  using assms by (induction xs) auto

section \<open>Properties of the component\<close>


text \<open>A charge that is refused leaves the ledger as it was, unless the payee's balance would leave the
  digits of the decimal context; that is the one error that is no refusal and it leaves the payer debited.\<close>

theorem ledger_charge_refused:
  assumes "ledger_ok rt L" "ledger_charge rt clock proof now L = (Inl e, L')"
  shows "L' = L \<or>
    (e = PriceFailure InvalidOperation \<and>
     (\<exists>amt. 0 < amt \<and> decimal_limit \<le> balance_of L (pp_pay_to proof) + amt \<and>
        (\<forall>agent. balance_of L' agent = balance_of L agent - (if agent = pp_payer proof then amt else 0))))"
  using assms(2)
proof (cases rule: ledger_charge_cases)
  case (overflow amt payer payee)
  then show ?thesis
    using charge_checks_Inr [OF overflow(1)] charge_accounts_ok [OF assms(1) overflow(1)]
    by (intro disjI2 conjI exI [of _ amt]) (auto simp: balance_of_def [of L] account_ok_def)
qed simp_all

text \<open>C22: whatever is opened, charged and settled, in whatever order and however much of it is refused: no
  account owes more than its credit limit, no two charges carry the same nonce, every charge is
  positive and the journal passes its integrity check.\<close>

theorem ledger_run_invariant:
  assumes "list_all ledger_op_ok ops"
  shows "(\<forall>k a. map_of (lg_accounts (ledger_run rt ops (ledger_new rt clock currency))) k = Some a
            \<longrightarrow> 0 \<le> ac_balance a + ac_limit a) \<and>
     distinct (List.map cg_nonce (lg_charges (ledger_run rt ops (ledger_new rt clock currency)))) \<and>
     (\<forall>c \<in> set (lg_charges (ledger_run rt ops (ledger_new rt clock currency))). 0 < cg_amount c) \<and>
     ledger_verify_integrity rt (ledger_run rt ops (ledger_new rt clock currency))"
  using ledger_run_ok [OF ledger_new_ok [of rt clock currency] assms]
  by (auto simp: ledger_ok_def account_ok_def ledger_verify_integrity_def audit_sound_def)

text \<open>Over any run, from any ledger, a nonce pays for at most one charge, and a nonce already seen pays
  for none.\<close>

theorem ledger_nonce_once:
  "distinct (spends (ledger_exec rt) (spent_nonce rt) L ops) \<and>
   lg_seen L \<inter> set (spends (ledger_exec rt) (spent_nonce rt) L ops) = {}"
proof -
  have "count_list (spends (ledger_exec rt) (spent_nonce rt) L ops) n \<le> nonce_avail L n" for n
    using nonces.spends_bounded [where rt = rt and s = L and ops = ops and t = n] granted_by_zero [of "\<lambda>op n. 0" n ops] by simp
  then have "\<forall>n \<in> lg_seen L. count_list (spends (ledger_exec rt) (spent_nonce rt) L ops) n = 0"
    by (metis (mono_tags) le_zero_eq nonce_avail_def)
  moreover have "distinct (spends (ledger_exec rt) (spent_nonce rt) L ops)"
    by (rule nonces.spends_distinct) (auto simp: nonce_avail_def)
  ultimately show ?thesis by (auto simp: count_list_0_iff)
qed

text \<open>The balance of an account is what was settled for it plus what it earned minus what it was
  charged: the list of charges and the settlements explain every balance of a ledger.\<close>

theorem ledger_balances_explained:
  assumes "list_all ledger_op_ok ops" "within_digits rt ops (ledger_new rt clock currency)"
  shows "balance_of (ledger_run rt ops (ledger_new rt clock currency)) agent
     = settled rt ops (ledger_new rt clock currency) agent
       + sum_list (List.map (charge_effect agent) (lg_charges (ledger_run rt ops (ledger_new rt clock currency))))"
  using ledger_run_balance [OF ledger_new_ok [of rt clock currency] assms, of agent]
  by (auto simp: ledger_new_def balance_of_def)

text \<open>A proof whose payer is its own payee is honoured by crediting the account: the debit is
  overwritten, so the charge creates the amount out of nothing.\<close>

theorem ledger_self_charge_mints:
  assumes "ledger_ok rt L" "ledger_charge rt clock proof now L = (Inr c, L')"
    "pp_payer proof = pp_pay_to proof"
  shows "balance_of L' (pp_payer proof) = balance_of L (pp_payer proof) + cg_amount c \<and> 0 < cg_amount c"
  using assms(2)
proof (cases rule: ledger_charge_cases)
  case (passed amt payer payee)
  then show ?thesis
    using charge_checks_Inr [OF passed(1)] passed_balance [OF assms(1) passed(1)] assms(3)
    by (simp add: charge_effect_def)
qed simp_all

text \<open>Billing periods tile: what an agent owes over two adjacent periods is what it owes over the whole,
  no charge counted twice and none lost.\<close>

theorem total_owed_tiles:
  assumes "ledger_ok rt L" "since \<le> mid" "mid \<le> until"
    "total_owed L agent (Some since) (Some until) = Inr t"
  shows "\<exists>t1 t2. total_owed L agent (Some since) (Some mid) = Inr t1 \<and>
     total_owed L agent (Some mid) (Some until) = Inr t2 \<and> p_amount t = p_amount t1 + p_amount t2"
proof -
  define owed where "owed s u = sum_list (List.map cg_amount
    (List.filter (\<lambda>c. cg_payer c = agent) (statement L agent (Some s) (Some u))))" for s u
  have "owed since until = owed since mid + owed mid until"
    unfolding owed_def statement_def using assms(2,3) by (simp, intro sum_list_filter_split) auto
  moreover have "0 \<le> owed s u" for s u
    unfolding owed_def statement_def using assms(1)
    by (intro sum_list_nonneg) (auto simp: ledger_ok_def intro: less_imp_le)
  then have "0 \<le> owed since mid" "0 \<le> owed mid until" by simp_all
  ultimately show ?thesis
    using assms(4) by (auto simp: total_owed_def owed_def [symmetric] rbind_Inr_iff)
qed

text \<open>A ledger written out with \<open>export_state\<close> and read back is the same ledger: accounts, charges,
  nonces seen and journal.\<close>

theorem ledger_export_import:
  assumes "ledger_ok rt L" "\<forall>e \<in> set (lg_audit L). ae_timestamp e \<noteq> 0 \<and> ae_hash e \<noteq> []"
  shows "ledger_import rt clock (ledger_export L) = Some L"
proof -
  have "audit_open rt clock (List.map audit_entry_to_dict (lg_audit L)) = Some (lg_audit L)"
    using assms by (intro audit_open_roundtrip) (auto simp: ledger_ok_def audit_sound_def)
  moreover have "those (List.map account_of_row (List.map account_to_dict (List.map snd (lg_accounts L))))
      = Some (List.map snd (lg_accounts L))"
    using ledger_ok_accounts [OF assms(1)] by (intro those_map_Some) (auto simp: account_ok_def)
  moreover have "those (List.map charge_of_row (List.map charge_to_dict (lg_charges L))) = Some (lg_charges L)"
    by (intro those_map_Some) simp
  moreover have "foldl (\<lambda>d a. dict_set (ac_agent a) a d) [] (List.map snd (lg_accounts L)) = lg_accounts L"
    using foldl_dict_set [of "[]" "lg_accounts L"] assms(1) ledger_ok_accounts [OF assms(1)]
    by (auto simp: ledger_ok_def account_ok_def)
  ultimately show ?thesis
    using assms(1) by (simp add: ledger_import_def ledger_export_def rows_of_def comp_def ledger_ok_def)
qed

section \<open>Concrete instances\<close>

definition toy_account :: "string \<Rightarrow> int \<Rightarrow> account" where
  "toy_account agent b =
     \<lparr> ac_agent = agent, ac_currency = ''USD'', ac_limit = 1000000000, ac_balance = b, ac_fresh = False \<rparr>"

definition toy_charge :: charge where
  "toy_charge = \<lparr> cg_payer = ''alice'', cg_payee = ''bob'', cg_amount = 100000, cg_currency = ''USD'',
     cg_resource = ''/r'', cg_nonce = ''n0'', cg_at = 5 \<rparr>"

definition toy_ledger :: ledger where
  "toy_ledger = \<lparr> lg_currency = ''USD'',
     lg_accounts = [(''alice'', toy_account ''alice'' (- 100000)), (''bob'', toy_account ''bob'' 100000)],
     lg_charges = [toy_charge], lg_seen = {''n0''},
     lg_audit = [(genesis_block toy_runtime 0)\<lparr>ae_timestamp := 7, ae_hash := ''ab''\<rparr>] \<rparr>"

definition toy_proof :: "string \<Rightarrow> string \<Rightarrow> payment_proof" where
  "toy_proof payee amount = \<lparr> pp_payer = ''alice'', pp_amount = amount, pp_currency = ''USD'',
     pp_pay_to = payee, pp_resource = ''/r'', pp_nonce = ''n1'', pp_issued_at = 0, pp_expires_at = 9 \<rparr>"

lemma toy_accounts:
  "map_of (lg_accounts toy_ledger) ''alice'' = Some (toy_account ''alice'' (- 100000))"
  "map_of (lg_accounts toy_ledger) ''bob'' = Some (toy_account ''bob'' 100000)"
  "lg_currency toy_ledger = ''USD''" "lg_seen toy_ledger = {''n0''}"
  by (simp_all add: toy_ledger_def)

lemma toy_account_ok:
  "\<bar>b\<bar> < decimal_limit \<Longrightarrow> - 1000000000 \<le> b \<Longrightarrow> account_ok ''USD'' k (toy_account k b)"
  by (simp add: account_ok_def toy_account_def decimal_limit_def)

lemma toy_audit_sound:
  "audit_sound toy_runtime [(genesis_block toy_runtime 0)\<lparr>ae_timestamp := 7, ae_hash := ''ab''\<rparr>]"
  by (simp add: audit_sound_def verify_integrity_def audit_indexed_def genesis_block_def del: One_nat_def)

lemma toy_ledger_ok: "ledger_ok toy_runtime toy_ledger"
proof -
  have "account_ok ''USD'' ''alice'' (toy_account ''alice'' (- 100000))"
    "account_ok ''USD'' ''bob'' (toy_account ''bob'' 100000)"
    by (rule toy_account_ok; simp add: decimal_limit_def)+
  then have "account_ok (lg_currency toy_ledger) k a" if "map_of (lg_accounts toy_ledger) k = Some a" for k a
    using that unfolding toy_accounts(3) by (auto simp: toy_ledger_def split: if_splits)
  moreover have "audit_sound toy_runtime (lg_audit toy_ledger)"
    unfolding toy_ledger_def ledger.simps by (rule toy_audit_sound)
  moreover have "distinct (List.map fst (lg_accounts toy_ledger))" by (simp add: toy_ledger_def)
  moreover have "lg_charges toy_ledger = [toy_charge]" by (simp add: toy_ledger_def)
  moreover have "cg_nonce toy_charge = ''n0''" "0 < cg_amount toy_charge" by (simp_all add: toy_charge_def)
  ultimately show ?thesis
    unfolding ledger_ok_def toy_accounts(4) by simp
qed

lemma toy_matches:
  "match_price ''0.5 USD'' = Some (None, ''0'', ''5'', Some ''USD'')"
  "match_price ''50 USD'' = Some (None, ''50'', [], Some ''USD'')"
  by code_simp+

lemma toy_digits: "digits_val ''05'' = 5" "digits_val ''50'' = 50" "str_upper ''USD'' = ''USD''"
  by code_simp+

lemma toy_prices:
  "parse_price (ArgText ''0.5 USD'') ''USD'' = Inr \<lparr> p_amount = 50000000, p_currency = ''USD'' \<rparr>"
  "parse_price (ArgText ''50 USD'') ''USD'' = Inr \<lparr> p_amount = 5000000000, p_currency = ''USD'' \<rparr>"
  by (simp_all add: parse_price.simps(3) toy_matches toy_digits quantize_text_def round_units_def
      check_digits_def decimal_limit_def)

lemma toy_proof_fields:
  "pp_payer (toy_proof payee x) = ''alice''" "pp_pay_to (toy_proof payee x) = payee"
  "pp_amount (toy_proof payee x) = x" "pp_currency (toy_proof payee x) = ''USD''"
  "pp_nonce (toy_proof payee x) = ''n1''"
  by (simp_all add: toy_proof_def)

lemma toy_available: "account_available (toy_account ''alice'' (- 100000)) = Inr 999900000"
  by (simp add: account_available_def toy_account_def quantize_sum_def check_digits_def decimal_limit_def)

lemma toy_checks:
  "charge_checks (toy_proof ''bob'' ''0.5'') toy_ledger
     = Inr (50000000, toy_account ''alice'' (- 100000), toy_account ''bob'' 100000)"
  "charge_checks (toy_proof ''alice'' ''0.5'') toy_ledger
     = Inr (50000000, toy_account ''alice'' (- 100000), toy_account ''alice'' (- 100000))"
  "charge_checks (toy_proof ''bob'' ''50'') toy_ledger = Inl OverLimit"
  by (simp_all add: charge_checks_def toy_proof_fields toy_accounts toy_prices toy_available ledger_account_def)

lemma toy_balances: "ac_balance (toy_account agent b) = b"
  by (simp add: toy_account_def)

lemma toy_charge_passes:
  "\<exists>c L'. ledger_charge toy_runtime 0 (toy_proof ''bob'' ''0.5'') 5 toy_ledger = (Inr c, L')"
  "\<exists>c L'. ledger_charge toy_runtime 0 (toy_proof ''alice'' ''0.5'') 5 toy_ledger = (Inr c, L')"
  unfolding ledger_charge_def toy_checks
  by (simp_all add: toy_balances quantize_sum_def check_digits_def decimal_limit_def Let_def)

lemma toy_charge_refused:
  "ledger_charge toy_runtime 0 (toy_proof ''bob'' ''50'') 5 toy_ledger = (Inl OverLimit, toy_ledger)"
  by (simp add: ledger_charge_def toy_checks)


theorem ledger_charge_refused_witness:
  "toy_ledger = toy_ledger \<or> OverLimit = PriceFailure InvalidOperation"
  using ledger_charge_refused [OF toy_ledger_ok toy_charge_refused] by blast

theorem ledger_run_invariant_witness:
  "ledger_verify_integrity toy_runtime
     (ledger_run toy_runtime [OpOpen 0 ''alice'' (ArgText ''10.00''), OpSettle 1 ''alice'' (ArgText ''5'')]
       (ledger_new toy_runtime 0 ''USD''))"
  by (intro ledger_run_invariant [THEN conjunct2, THEN conjunct2, THEN conjunct2])
     (simp add: price_arg_ok_def)

theorem ledger_balances_explained_witness:
  "balance_of (ledger_run toy_runtime [OpSettle 1 ''alice'' (ArgText ''5'')] (ledger_new toy_runtime 0 ''USD'')) ''alice''
   = settled toy_runtime [OpSettle 1 ''alice'' (ArgText ''5'')] (ledger_new toy_runtime 0 ''USD'') ''alice''
     + sum_list (List.map (charge_effect ''alice'')
         (lg_charges (ledger_run toy_runtime [OpSettle 1 ''alice'' (ArgText ''5'')] (ledger_new toy_runtime 0 ''USD''))))"
  by (rule ledger_balances_explained) simp_all

theorem ledger_self_charge_mints_witness:
  "\<exists>c L'. ledger_charge toy_runtime 0 (toy_proof ''alice'' ''0.5'') 5 toy_ledger = (Inr c, L') \<and>
     balance_of L' ''alice'' > balance_of toy_ledger ''alice''"
proof -
  obtain c L' where r: "ledger_charge toy_runtime 0 (toy_proof ''alice'' ''0.5'') 5 toy_ledger = (Inr c, L')"
    using toy_charge_passes by blast
  then show ?thesis
    using ledger_self_charge_mints [OF toy_ledger_ok r] by (simp add: toy_proof_fields)
qed

lemma toy_total_owed: "\<exists>t. total_owed toy_ledger ''alice'' (Some 0) (Some 9) = Inr t"
  by (simp add: total_owed_def statement_def toy_ledger_def toy_charge_def quantize_sum_def
      check_digits_def decimal_limit_def)

theorem total_owed_tiles_witness:
  "\<exists>t1 t2. total_owed toy_ledger ''alice'' (Some 0) (Some 5) = Inr t1 \<and>
           total_owed toy_ledger ''alice'' (Some 5) (Some 9) = Inr t2"
proof -
  obtain t where "total_owed toy_ledger ''alice'' (Some 0) (Some 9) = Inr t" using toy_total_owed by blast
  then show ?thesis
    using total_owed_tiles [OF toy_ledger_ok, of 0 5 9] by auto
qed

theorem ledger_export_import_witness:
  "ledger_import toy_runtime 3 (ledger_export toy_ledger) = Some toy_ledger"
  by (rule ledger_export_import [OF toy_ledger_ok]) (simp add: toy_ledger_def)

end
