(* ===== verification/Gate.thy ===== *)
theory Gate
  imports Ledger
begin

text \<open>
  \<open>server/gate.py\<close> and the handler of \<open>server/fastapi.py\<close>: the challenges a server has issued and not
  yet seen paid, and the decision on a request.  \<open>clock\<close> is \<open>time.time()\<close> of the journal, \<open>issue\<close> is
  \<open>now_ms()\<close> when a challenge is issued, \<open>now\<close> the moment at which a proof is judged, \<open>nonce\<close> the fresh
  nonce of a challenge.  The texts of the messages are not modelled, their causes are.
\<close>

record 'pk gate =
  gt_ledger :: ledger
  gt_keyring :: "'pk keyring"
  gt_payee :: string
  gt_ledger_url :: "string option"
  gt_ttl :: rat
  gt_pending :: "(string \<times> challenge) list"

definition pending_grace :: int where
  "pending_grace = 60000"

datatype reject_reason =
    RejectUnknownPayer
  | RejectProof proof_error
  | RejectNonce
  | RejectPayee
  | RejectLedger ledger_error

text \<open>\<open>PaymentRequired\<close>, \<open>PaymentRejected\<close>, and the exceptions that neither handler catches.\<close>

datatype gate_error =
    Required challenge
  | Rejected reject_reason
  | EscapePrice price_error
  | EscapeKey
  | EscapeProof proof_error
  | EscapePy py_exc

record settled_payment =
  sp_proof :: payment_proof
  sp_amount :: price

definition gate_new ::
  "ledger \<Rightarrow> 'pk keyring \<Rightarrow> string \<Rightarrow> string option \<Rightarrow> rat \<Rightarrow> 'pk gate" where
  "gate_new ledger keyring payee url ttl =
     \<lparr> gt_ledger = ledger, gt_keyring = keyring, gt_payee = payee, gt_ledger_url = url,
       gt_ttl = ttl, gt_pending = [] \<rparr>"

definition evict :: "int \<Rightarrow> 'pk gate \<Rightarrow> 'pk gate" where
  "evict now g =
     g\<lparr>gt_pending := List.filter (\<lambda>(n, c). \<not> ch_expires_at c + pending_grace < now) (gt_pending g)\<rparr>"

definition challenge_for ::
  "int \<Rightarrow> string \<Rightarrow> string \<Rightarrow> price_arg \<Rightarrow> 'pk gate \<Rightarrow> (price_error + challenge) \<times> 'pk gate" where
  "challenge_for now nonce resource price g =
     (let g1 = evict now g in
      case challenge_create price (gt_payee g) resource (gt_ledger_url g) (gt_ttl g) nonce now of
        Inl e \<Rightarrow> (Inl e, g1)
      | Inr c \<Rightarrow> (Inr c, g1\<lparr>gt_pending := dict_set (ch_nonce c) c (gt_pending g1)\<rparr>))"

text \<open>\<open>_peek\<close>: a field of the payload before any check of the signature; \<open>None\<close> is \<open>ProofError\<close>.\<close>

definition peek :: "('sk, 'pk) runtime \<Rightarrow> string \<Rightarrow> string \<Rightarrow> string option" where
  "peek rt header_value field =
     (if header_value = [] \<or> CHR ''.'' \<notin> set header_value then None
      else
        (case unb64 (fst (split_dot header_value)) of
           None \<Rightarrow> None
         | Some raw \<Rightarrow>
             (case loads_bytes raw of
                Some (JObj d) \<Rightarrow> map_option (py_str rt) (map_of d field)
              | _ \<Rightarrow> None)))"

definition drop_pending :: "string \<Rightarrow> 'pk gate \<Rightarrow> 'pk gate" where
  "drop_pending n g = g\<lparr>gt_pending := dict_del n (gt_pending g)\<rparr>"

text \<open>\<open>admit\<close> from the verified proof on: the payee, the ledger, the pending challenge.\<close>

definition admit_charge ::
  "('sk, 'pk) runtime \<Rightarrow> rat \<Rightarrow> int \<Rightarrow> challenge \<Rightarrow> payment_proof \<Rightarrow> 'pk gate \<Rightarrow>
   (gate_error + settled_payment) \<times> 'pk gate" where
  "admit_charge rt clock now c p g =
     (if pp_pay_to p \<noteq> gt_payee g then (Inl (Rejected RejectPayee), g)
      else
        (case ledger_charge rt clock p now (gt_ledger g) of
           (Inl e, L) \<Rightarrow>
             (case e of
                PriceFailure x \<Rightarrow> (Inl (EscapePrice x), g\<lparr>gt_ledger := L\<rparr>)
              | _ \<Rightarrow> (Inl (Rejected (RejectLedger e)), drop_pending (ch_nonce c) (g\<lparr>gt_ledger := L\<rparr>)))
         | (Inr ch, L) \<Rightarrow>
             (Inr \<lparr> sp_proof = p, sp_amount = \<lparr> p_amount = cg_amount ch, p_currency = cg_currency ch \<rparr> \<rparr>,
              drop_pending (ch_nonce c) (g\<lparr>gt_ledger := L\<rparr>))))"

text \<open>\<open>admit\<close> once the payer's key is known: the pending challenge, the proof.\<close>

definition admit_keyed ::
  "('sk, 'pk) runtime \<Rightarrow> rat \<Rightarrow> int \<Rightarrow> string \<Rightarrow> 'pk \<Rightarrow> 'pk gate \<Rightarrow>
   (gate_error + settled_payment) \<times> 'pk gate" where
  "admit_keyed rt clock now h key g =
     (case peek rt h ''nonce'' of
        None \<Rightarrow> (Inl (EscapeProof ProofUnreadable), g)
      | Some n \<Rightarrow>
          (case map_of (gt_pending g) n of
             None \<Rightarrow> (Inl (Rejected RejectNonce), g)
           | Some c \<Rightarrow>
               (case verify_proof rt h key (Some c) now of
                  Inl e \<Rightarrow> (Inl (case e of ProofEscape x \<Rightarrow> EscapePy x | _ \<Rightarrow> Rejected (RejectProof e)), g)
                | Inr p \<Rightarrow> admit_charge rt clock now c p g)))"

text \<open>\<open>admit\<close> on a header that is present.\<close>

definition admit_header ::
  "('sk, 'pk) runtime \<Rightarrow> rat \<Rightarrow> int \<Rightarrow> string \<Rightarrow> 'pk gate \<Rightarrow>
   (gate_error + settled_payment) \<times> 'pk gate" where
  "admit_header rt clock now h g =
     (case peek rt h ''payer'' of
        None \<Rightarrow> (Inl (Rejected (RejectProof ProofUnreadable)), g)
      | Some payer \<Rightarrow>
          (case keyring_public_key rt payer (gt_keyring g) of
             (Inl e, kr) \<Rightarrow>
               (Inl (case e of UnknownPayer \<Rightarrow> Rejected RejectUnknownPayer | KeyUnreadable \<Rightarrow> EscapeKey),
                g\<lparr>gt_keyring := kr\<rparr>)
           | (Inr key, kr) \<Rightarrow> admit_keyed rt clock now h key (g\<lparr>gt_keyring := kr\<rparr>)))"

text \<open>\<open>not header_value\<close> holds of \<open>None\<close> and of the empty text.\<close>

definition header_text :: "string option \<Rightarrow> string" where
  "header_text header_value = (case header_value of None \<Rightarrow> [] | Some h \<Rightarrow> h)"

definition admit ::
  "('sk, 'pk) runtime \<Rightarrow> rat \<Rightarrow> int \<Rightarrow> string \<Rightarrow> int \<Rightarrow> string \<Rightarrow> price_arg \<Rightarrow> string option \<Rightarrow> 'pk gate \<Rightarrow>
   (gate_error + settled_payment) \<times> 'pk gate" where
  "admit rt clock issue nonce now resource price header_value g =
     (if header_text header_value = [] then
        (case challenge_for issue nonce resource price g of
           (Inl e, g') \<Rightarrow> (Inl (EscapePrice e), g')
         | (Inr c, g') \<Rightarrow> (Inl (Required c), g'))
      else admit_header rt clock now (header_text header_value) g)"

definition pending_count :: "'pk gate \<Rightarrow> nat" where
  "pending_count g = length (gt_pending g)"

section \<open>The handler of the web framework\<close>

text \<open>
  What \<open>require_payment\<close> does with a request: run the handler, answer 402 with a body, or let an
  exception through (a server error).  \<open>route\<close> is the \<open>resource\<close> argument of the decorator.
\<close>

datatype guard_outcome =
    Served settled_payment
  | Answer402 "(string \<times> json) list"
  | Refused402 reject_reason
  | ServerError gate_error

definition required_body :: "challenge \<Rightarrow> (string \<times> json) list" where
  "required_body c = (''error'', JStr ''payment_required'') # challenge_to_dict c"

definition guard_request ::
  "('sk, 'pk) runtime \<Rightarrow> rat \<Rightarrow> int \<Rightarrow> string \<Rightarrow> string option \<Rightarrow> string \<Rightarrow> price_arg \<Rightarrow> string option \<Rightarrow>
   'pk gate \<Rightarrow> guard_outcome \<times> 'pk gate" where
  "guard_request rt clock now nonce route path price header_value g =
     (let target = (case route of Some r \<Rightarrow> if r = [] then path else r | None \<Rightarrow> path) in
      case admit rt clock now nonce now target price header_value g of
        (Inr s, g') \<Rightarrow> (Served s, g')
      | (Inl (Required c), g') \<Rightarrow> (Answer402 (required_body c), g')
      | (Inl (Rejected r), g') \<Rightarrow> (Refused402 r, g')
      | (Inl e, g') \<Rightarrow> (ServerError e, g'))"

section \<open>Invariant\<close>

text \<open>A pending challenge is filed under its own nonce and asks for payment to this server.\<close>

definition gate_ok :: "('sk, 'pk) runtime \<Rightarrow> 'pk gate \<Rightarrow> bool" where
  "gate_ok rt g \<longleftrightarrow>
     distinct (List.map fst (gt_pending g)) \<and>
     (\<forall>n c. map_of (gt_pending g) n = Some c \<longrightarrow> ch_nonce c = n \<and> ch_pay_to c = gt_payee g) \<and>
     keyring_coherent rt (gt_keyring g) \<and> ledger_ok rt (gt_ledger g)"

lemma gate_ok_pending:
  "gate_ok rt g \<Longrightarrow> map_of (gt_pending g) n = Some c \<Longrightarrow> ch_nonce c = n \<and> ch_pay_to c = gt_payee g"
  unfolding gate_ok_def by blast

lemma map_of_filter_snd:
  "distinct (List.map fst xs) \<Longrightarrow>
   map_of (List.filter P xs) k = (case map_of xs k of None \<Rightarrow> None | Some v \<Rightarrow> if P (k, v) then Some v else None)"
proof (induction xs)
  case (Cons x xs)
  have "k \<notin> fst ` set xs \<Longrightarrow> map_of (List.filter P xs) k = None"
    by (auto simp: map_of_eq_None_iff)
  with Cons show ?case by (cases x) (auto simp: map_of_eq_None_iff)
qed simp

lemma distinct_map_filter_fst: "distinct (List.map fst xs) \<Longrightarrow> distinct (List.map fst (List.filter P xs))"
  by (induction xs) auto

lemma evict_ok: "gate_ok rt g \<Longrightarrow> gate_ok rt (evict now g)"
  by (auto simp: gate_ok_def evict_def distinct_map_filter_fst map_of_filter_snd split: option.splits if_splits)

lemma challenge_for_ok:
  assumes "gate_ok rt g"
  shows "gate_ok rt (snd (challenge_for now nonce resource price g))"
proof -
  have "gate_ok rt (evict now g)" by (rule evict_ok [OF assms])
  moreover have "gt_payee (evict now g) = gt_payee g" by (simp add: evict_def)
  ultimately show ?thesis
    by (auto simp: challenge_for_def Let_def gate_ok_def update_conv' distinct_update
        simp del: map_of_eq_Some_iff dest!: challenge_create_Inr split: sum.split if_splits)
qed

lemma drop_pending_ok: "gate_ok rt g \<Longrightarrow> gate_ok rt (drop_pending n g)"
  by (auto simp: gate_ok_def drop_pending_def delete_conv' distinct_delete split: if_splits)

lemma gate_ok_ledger: "gate_ok rt g \<Longrightarrow> ledger_ok rt L \<Longrightarrow> gate_ok rt (g\<lparr>gt_ledger := L\<rparr>)"
  by (simp add: gate_ok_def)

lemma gate_ok_keyring: "gate_ok rt g \<Longrightarrow> keyring_coherent rt kr \<Longrightarrow> gate_ok rt (g\<lparr>gt_keyring := kr\<rparr>)"
  by (simp add: gate_ok_def)

lemma admit_charge_ok:
  assumes "gate_ok rt g"
  shows "gate_ok rt (snd (admit_charge rt clock now c p g))"
proof -
  obtain r L where s: "ledger_charge rt clock p now (gt_ledger g) = (r, L)" by fastforce
  have "ledger_ok rt L"
    using ledger_charge_ok [of rt "gt_ledger g" clock p now] assms by (simp add: s gate_ok_def)
  then have "gate_ok rt (g\<lparr>gt_ledger := L\<rparr>)" by (rule gate_ok_ledger [OF assms])
  then show ?thesis
    using assms by (auto simp: admit_charge_def s drop_pending_ok split: sum.split ledger_error.split)
qed

lemma admit_keyed_ok: "gate_ok rt g \<Longrightarrow> gate_ok rt (snd (admit_keyed rt clock now h key g))"
  by (simp add: admit_keyed_def admit_charge_ok split: sum.split option.split)

lemma admit_header_ok:
  assumes "gate_ok rt g"
  shows "gate_ok rt (snd (admit_header rt clock now h g))"
proof (cases "peek rt h ''payer''")
  case (Some payer)
  obtain r kr where s: "keyring_public_key rt payer (gt_keyring g) = (r, kr)" by fastforce
  have "keyring_coherent rt kr"
    using keyring_public_key_coherent [of rt "gt_keyring g" payer] assms by (simp add: s gate_ok_def)
  then have g1: "gate_ok rt (g\<lparr>gt_keyring := kr\<rparr>)" by (rule gate_ok_keyring [OF assms])
  then show ?thesis
    by (simp add: admit_header_def Some s admit_keyed_ok split: sum.split)
qed (simp add: admit_header_def assms)

lemma admit_ok:
  assumes "gate_ok rt g"
  shows "gate_ok rt (snd (admit rt clock issue nonce now resource price header_value g))"
  using challenge_for_ok [OF assms, of issue nonce resource price] admit_header_ok [OF assms]
  by (auto simp: admit_def split: prod.split sum.split)

section \<open>What an admitted request went through\<close>

lemma admit_charge_Inr:
  assumes "admit_charge rt clock now c p g = (Inr s, g')"
  obtains ch L where "pp_pay_to p = gt_payee g" "ledger_charge rt clock p now (gt_ledger g) = (Inr ch, L)"
    "s = \<lparr> sp_proof = p, sp_amount = \<lparr> p_amount = cg_amount ch, p_currency = cg_currency ch \<rparr> \<rparr>"
    "g' = drop_pending (ch_nonce c) (g\<lparr>gt_ledger := L\<rparr>)"
proof -
  obtain r L where l: "ledger_charge rt clock p now (gt_ledger g) = (r, L)" by fastforce
  show thesis
  proof (cases r)
    case (Inl e)
    then show thesis using assms by (cases e) (auto simp: admit_charge_def l split: if_splits)
  next
    case (Inr ch)
    then show thesis using assms that l by (auto simp: admit_charge_def split: if_splits)
  qed
qed

lemma admit_keyed_Inr:
  assumes "admit_keyed rt clock now h key g = (Inr s, g')"
  obtains n c p where "peek rt h ''nonce'' = Some n" "map_of (gt_pending g) n = Some c"
    "verify_proof rt h key (Some c) now = Inr p" "admit_charge rt clock now c p g = (Inr s, g')"
  using assms by (auto simp: admit_keyed_def split: option.splits sum.splits)

lemma admit_header_Inr:
  assumes "admit_header rt clock now h g = (Inr s, g')"
  obtains payer key kr where "peek rt h ''payer'' = Some payer"
    "keyring_public_key rt payer (gt_keyring g) = (Inr key, kr)"
    "admit_keyed rt clock now h key (g\<lparr>gt_keyring := kr\<rparr>) = (Inr s, g')"
  using assms by (auto simp: admit_header_def split: option.splits prod.splits sum.splits)

lemma admit_Inr:
  assumes "admit rt clock issue nonce now resource price header_value g = (Inr s, g')"
  shows "admit_header rt clock now (header_text header_value) g = (Inr s, g')"
  using assms by (auto simp: admit_def split: if_splits prod.splits sum.splits)

text \<open>The field read before the check of the signature is the field of the proof that passes it.\<close>

lemma peek_agrees:
  assumes "verify_proof rt h key (Some c) now = Inr p"
  shows "peek rt h ''payer'' = Some v \<Longrightarrow> v = pp_payer p" "peek rt h ''nonce'' = Some v \<Longrightarrow> v = pp_nonce p"
proof -
  obtain body payload where b: "unb64 (fst (split_dot h)) = Some body" "loads_bytes body = Some (JObj payload)"
    "proof_of_payload rt payload = Inr p"
    using verify_proof_sound [OF assms] by blast
  have "pp_payer p = py_str rt (py_get payload ''payer'')" "pp_nonce p = py_str rt (py_get payload ''nonce'')"
    using b(3) by (auto simp: proof_of_payload_def field_str_def split: sum.splits if_splits)
  then show "peek rt h ''payer'' = Some v \<Longrightarrow> v = pp_payer p" "peek rt h ''nonce'' = Some v \<Longrightarrow> v = pp_nonce p"
    using b(1,2) by (auto simp: peek_def py_get_def split: if_splits)
qed

text \<open>What a request may change in the ledger, whatever its outcome.\<close>

lemma admit_charge_seen:
  assumes "admit_charge rt clock now c p g = (r, g')"
  shows "lg_seen (gt_ledger g) \<subseteq> lg_seen (gt_ledger g') \<and>
    (\<forall>s. r = Inr s \<longrightarrow> pp_nonce (sp_proof s) \<notin> lg_seen (gt_ledger g) \<and>
                     pp_nonce (sp_proof s) \<in> lg_seen (gt_ledger g'))"
proof -
  obtain x L where l: "ledger_charge rt clock p now (gt_ledger g) = (x, L)" by fastforce
  have "cg_nonce ch = pp_nonce p" if "x = Inr ch" for ch
    using l unfolding that by (cases rule: ledger_charge_cases) simp_all
  with ledger_charge_spends [OF l] assms show ?thesis
    by (auto simp: admit_charge_def l drop_pending_def split: if_splits sum.splits ledger_error.splits)
qed

lemma admit_keyed_seen:
  assumes "admit_keyed rt clock now h key g = (r, g')"
  shows "lg_seen (gt_ledger g) \<subseteq> lg_seen (gt_ledger g') \<and>
    (\<forall>s. r = Inr s \<longrightarrow> pp_nonce (sp_proof s) \<notin> lg_seen (gt_ledger g) \<and>
                     pp_nonce (sp_proof s) \<in> lg_seen (gt_ledger g'))"
  using assms by (auto simp: admit_keyed_def dest: admit_charge_seen split: option.splits sum.splits)

lemma challenge_for_ledger [simp]: "gt_ledger (snd (challenge_for now nonce resource price g)) = gt_ledger g"
  by (simp add: challenge_for_def evict_def Let_def split: sum.split)

lemma admit_header_seen:
  assumes "admit_header rt clock now h g = (r, g')"
  shows "lg_seen (gt_ledger g) \<subseteq> lg_seen (gt_ledger g') \<and>
    (\<forall>s. r = Inr s \<longrightarrow> pp_nonce (sp_proof s) \<notin> lg_seen (gt_ledger g) \<and>
                     pp_nonce (sp_proof s) \<in> lg_seen (gt_ledger g'))"
proof (cases "peek rt h ''payer''")
  case (Some payer)
  obtain x kr where s: "keyring_public_key rt payer (gt_keyring g) = (x, kr)" by fastforce
  show ?thesis
  proof (cases x)
    case (Inr key)
    then have "admit_keyed rt clock now h key (g\<lparr>gt_keyring := kr\<rparr>) = (r, g')"
      using assms by (simp add: admit_header_def Some s)
    from admit_keyed_seen [OF this] show ?thesis by simp
  qed (use assms in \<open>auto simp: admit_header_def Some s\<close>)
qed (use assms in \<open>auto simp: admit_header_def\<close>)

lemma admit_seen:
  assumes "admit rt clock issue nonce now resource price header_value g = (r, g')"
  shows "lg_seen (gt_ledger g) \<subseteq> lg_seen (gt_ledger g') \<and>
    (\<forall>s. r = Inr s \<longrightarrow> pp_nonce (sp_proof s) \<notin> lg_seen (gt_ledger g) \<and>
                     pp_nonce (sp_proof s) \<in> lg_seen (gt_ledger g'))"
proof (cases "header_text header_value = []")
  case True
  obtain x g1 where c: "challenge_for issue nonce resource price g = (x, g1)" by fastforce
  then have "gt_ledger g1 = gt_ledger g" using challenge_for_ledger [of issue nonce resource price g] by simp
  then show ?thesis using assms True c by (cases x) (auto simp: admit_def)
next
  case False
  then have "admit_header rt clock now (header_text header_value) g = (r, g')"
    using assms by (simp add: admit_def)
  then show ?thesis by (rule admit_header_seen)
qed

section \<open>Runs of a server\<close>

text \<open>Requests, and whatever others do to the ledger they share with the server.\<close>

datatype gate_op =
    Request rat int string int string price_arg "string option"
  | OnLedger ledger_op

fun gate_exec :: "('sk, 'pk) runtime \<Rightarrow> gate_op \<Rightarrow> 'pk gate \<Rightarrow> 'pk gate" where
  "gate_exec rt (Request clock issue nonce now resource price h) g =
     snd (admit rt clock issue nonce now resource price h g)"
| "gate_exec rt (OnLedger op) g = g\<lparr>gt_ledger := ledger_exec rt op (gt_ledger g)\<rparr>"

text \<open>The nonce with which a request was served.\<close>

fun served_nonce :: "('sk, 'pk) runtime \<Rightarrow> gate_op \<Rightarrow> 'pk gate \<Rightarrow> string option" where
  "served_nonce rt (Request clock issue nonce now resource price h) g =
     (case fst (admit rt clock issue nonce now resource price h g) of
        Inl e \<Rightarrow> None | Inr s \<Rightarrow> Some (pp_nonce (sp_proof s)))"
| "served_nonce rt (OnLedger op) g = None"

lemma ledger_exec_seen: "lg_seen L \<subseteq> lg_seen (ledger_exec rt op L)"
proof (cases op)
  case (OpCharge clock pr t)
  obtain r L' where "ledger_charge rt clock pr t L = (r, L')" by fastforce
  with ledger_charge_spends [OF this] show ?thesis by (simp add: OpCharge)
qed simp_all

interpretation served: consumable "gate_exec rt" "served_nonce rt" "\<lambda>g. nonce_avail (gt_ledger g)"
    "\<lambda>op n. 0" "\<lambda>g. True" for rt :: "('sk, 'pk) runtime"
proof
  fix op :: gate_op and g :: "'pk gate" and n :: string
  show "(if served_nonce rt op g = Some n then 1 else 0) + nonce_avail (gt_ledger (gate_exec rt op g)) n
      \<le> nonce_avail (gt_ledger g) n + 0"
  proof (cases op)
    case (Request clock issue nonce t resource price h)
    obtain r g' where s: "admit rt clock issue nonce t resource price h g = (r, g')" by fastforce
    show ?thesis
      using admit_seen [OF s] by (auto simp: Request s nonce_avail_def split: sum.splits)
  next
    case (OnLedger op')
    then show ?thesis using ledger_exec_seen [of "gt_ledger g" rt op'] by (auto simp: nonce_avail_def)
  qed
qed simp

section \<open>Refusals\<close>

lemma ledger_charge_refusal:
  assumes "ledger_charge rt clock p now L = (Inl e, L')" "is_LedgerError e"
  shows "L' = L"
  using assms(1)
proof (cases rule: ledger_charge_cases)
  case (overflow amt payer payee)
  then show ?thesis using assms(2) by (simp add: is_LedgerError_def)
qed simp_all

lemma admit_charge_rejected:
  assumes "admit_charge rt clock now c p g = (Inl (Rejected r), g')"
  shows "gt_ledger g' = gt_ledger g \<and> set (gt_pending g') \<subseteq> set (gt_pending g)"
proof (cases "pp_pay_to p = gt_payee g")
  case True
  obtain x L where l: "ledger_charge rt clock p now (gt_ledger g) = (x, L)" by fastforce
  with assms True obtain e where e: "x = Inl e" "is_LedgerError e"
    "g' = drop_pending (ch_nonce c) (g\<lparr>gt_ledger := L\<rparr>)"
    by (auto simp: admit_charge_def is_LedgerError_def split: sum.splits ledger_error.splits)
  then show ?thesis
    using ledger_charge_refusal [of rt clock p now "gt_ledger g" e L] l
      set_dict_del [of "ch_nonce c" "gt_pending g"]
    by (simp add: drop_pending_def)
qed (use assms in \<open>simp add: admit_charge_def\<close>)

lemma admit_header_rejected:
  assumes "admit_header rt clock now h g = (Inl (Rejected r), g')"
  shows "gt_ledger g' = gt_ledger g \<and> set (gt_pending g') \<subseteq> set (gt_pending g)"
proof -
  have "admit_keyed rt clock now h key g1 = (Inl (Rejected r), g') \<Longrightarrow>
      gt_ledger g' = gt_ledger g1 \<and> set (gt_pending g') \<subseteq> set (gt_pending g1)" for key g1
    by (auto simp: admit_keyed_def dest: admit_charge_rejected split: option.splits sum.splits proof_error.splits)
  then show ?thesis
    using assms by (fastforce simp: admit_header_def split: option.splits prod.splits sum.splits key_error.splits)
qed

text \<open>The way of an honest payer through \<open>admit\<close>.\<close>

lemma honest_payer_served:
  assumes "runtime_ok rt" "gate_ok rt g" "map_of (gt_pending g) (ch_nonce c) = Some c"
    "directory_key rt (gt_keyring g) payer = Inr (ed_public rt key)"
    "sign_proof rt c payer key issued = Inr h" "now \<le> ch_expires_at c"
    "fst (ledger_charge rt clock (proof_for c payer issued) now (gt_ledger g)) = Inr ch"
  shows "fst (admit rt clock issue nonce now resource price (Some h) g)
     = Inr \<lparr> sp_proof = proof_for c payer issued,
             sp_amount = \<lparr> p_amount = cg_amount ch, p_currency = cg_currency ch \<rparr> \<rparr>"
proof -
  obtain body where b: "CHR ''.'' \<in> set h" "split_dot h = (b64 body, b64 (ed_sign rt key body))"
    "loads_bytes body = Some (sort_json (proof_payload (proof_for c payer issued)))"
    using sign_proof_header [OF assms(5)] by blast
  obtain d where d: "sort_json (proof_payload (proof_for c payer issued)) = JObj d"
    using sort_proof_payload_obj by blast
  have v: "verify_proof rt h (ed_public rt key) (Some c) now = Inr (proof_for c payer issued)"
    by (rule sign_verify [OF assms(1,5,6)])
  have look: "peek rt h k = map_option (py_str rt) (map_of d k)" for k
    using b d by (auto simp: peek_def b64_roundtrip)
  have "proof_of_payload rt d = Inr (proof_for c payer issued)"
    using proof_of_sorted_payload [OF d, of rt] by simp
  then have "map_of d ''payer'' \<noteq> None" "map_of d ''nonce'' \<noteq> None"
    by (auto simp: proof_of_payload_def split: if_splits)
  then obtain v1 v2 where vs: "peek rt h ''payer'' = Some v1" "peek rt h ''nonce'' = Some v2"
    using look by auto
  then have pk: "peek rt h ''payer'' = Some payer" "peek rt h ''nonce'' = Some (ch_nonce c)"
    using peek_agrees [OF v] by (simp_all add: proof_for_def)
  obtain kr where kr: "keyring_public_key rt payer (gt_keyring g) = (Inr (ed_public rt key), kr)"
    using keyring_public_key_directory [of rt "gt_keyring g" payer] assms(2,4)
    by (cases "keyring_public_key rt payer (gt_keyring g)") (simp add: gate_ok_def)
  have to: "pp_pay_to (proof_for c payer issued) = gt_payee g"
    using gate_ok_pending [OF assms(2,3)] by (simp add: proof_for_def)
  obtain L where l: "ledger_charge rt clock (proof_for c payer issued) now (gt_ledger g) = (Inr ch, L)"
    using assms(7) by (cases "ledger_charge rt clock (proof_for c payer issued) now (gt_ledger g)") simp
  have "header_text (Some h) = h" "h \<noteq> []" using b(1) by (auto simp: header_text_def)
  then show ?thesis
    by (simp add: admit_def admit_header_def admit_keyed_def admit_charge_def pk kr assms(3) v to l)
qed

section \<open>Properties of the component\<close>


text \<open>C23: over any run of requests, interleaved with anything else done to the ledger, a nonce serves at most
  one request, and one the ledger has already seen serves none.\<close>

theorem gate_nonce_once:
  "distinct (spends (gate_exec rt) (served_nonce rt) g ops) \<and>
   lg_seen (gt_ledger g) \<inter> set (spends (gate_exec rt) (served_nonce rt) g ops) = {}"
proof -
  have "count_list (spends (gate_exec rt) (served_nonce rt) g ops) n \<le> nonce_avail (gt_ledger g) n" for n
    using served.spends_bounded [where rt = rt and s = g and ops = ops and t = n]
      granted_by_zero [of "\<lambda>op n. 0" n ops] by simp
  then have "\<forall>n \<in> lg_seen (gt_ledger g). count_list (spends (gate_exec rt) (served_nonce rt) g ops) n = 0"
    by (metis (mono_tags) le_zero_eq nonce_avail_def)
  moreover have "distinct (spends (gate_exec rt) (served_nonce rt) g ops)"
    by (rule served.spends_distinct) (auto simp: nonce_avail_def)
  ultimately show ?thesis by (auto simp: count_list_0_iff)
qed

text \<open>A rejected request charges nobody and earns no new challenge: the ledger is unchanged and every
  challenge still pending was pending before.\<close>

theorem gate_rejection_is_free:
  assumes "admit rt clock issue nonce now resource price header_value g = (Inl (Rejected r), g')"
  shows "gt_ledger g' = gt_ledger g \<and> set (gt_pending g') \<subseteq> set (gt_pending g)"
  using assms by (auto simp: admit_def dest: admit_header_rejected split: if_splits prod.splits sum.splits)

text \<open>The honest payer is served: a header signed with the registered key, for a pending challenge that
  has not expired, is admitted whenever the ledger accepts the charge.\<close>

theorem gate_serves_honest_payer:
  assumes "runtime_ok rt" "gate_ok rt g" "map_of (gt_pending g) (ch_nonce c) = Some c"
    "directory_key rt (gt_keyring g) payer = Inr (ed_public rt key)"
    "sign_proof rt c payer key issued = Inr h" "now \<le> ch_expires_at c"
    "fst (ledger_charge rt clock (proof_for c payer issued) now (gt_ledger g)) = Inr ch"
  shows "fst (admit rt clock issue nonce now resource price (Some h) g)
     = Inr \<lparr> sp_proof = proof_for c payer issued,
             sp_amount = \<lparr> p_amount = cg_amount ch, p_currency = cg_currency ch \<rparr> \<rparr>"
  by (rule honest_payer_served [OF assms])

text \<open>A request that carries a header is decided without looking at the resource it asks for or at its
  price: a proof bought for one resource opens any other, at whatever price.\<close>

theorem gate_ignores_resource_and_price:
  assumes "header_text header_value \<noteq> []"
  shows "admit rt clock issue nonce now resource price header_value g
       = admit rt clock issue' nonce' now resource' price' header_value g"
  using assms by (simp add: admit_def)

text \<open>A header that names a known payer and no nonce is a server error, not a refusal.\<close>

lemma missing_nonce_is_server_error:
  assumes "peek rt h ''payer'' = Some payer" "keyring_public_key rt payer (gt_keyring g) = (Inr key, kr)"
    "peek rt h ''nonce'' = None"
  shows "fst (guard_request rt clock now nonce route path price (Some h) g) = ServerError (EscapeProof ProofUnreadable)"
proof -
  have "h \<noteq> []" using assms(1) by (auto simp: peek_def split: if_splits)
  then show ?thesis
    using assms by (simp add: guard_request_def admit_def header_text_def admit_header_def admit_keyed_def Let_def)
qed

section \<open>Concrete instances\<close>

lemma sign_proof_total: "\<exists>h. sign_proof rt c payer key now = Inr h"
  by (simp add: sign_proof_def rbind_Inr_iff canonical_bytes_Inr)

definition toy_challenge :: challenge where
  "toy_challenge = \<lparr> ch_amount = ''0.5'', ch_currency = ''USD'', ch_pay_to = ''bob'', ch_resource = ''/r'',
     ch_nonce = ''n1'', ch_expires_at = 9, ch_ledger = None \<rparr>"

definition toy_gate :: "string gate" where
  "toy_gate = \<lparr> gt_ledger = toy_ledger, gt_keyring = keyring_new (\<lambda>a. None) [(''alice'', ''PEM k'')],
     gt_payee = ''bob'', gt_ledger_url = None, gt_ttl = 120, gt_pending = [(''n1'', toy_challenge)] \<rparr>"

lemma toy_gate_ok: "gate_ok toy_runtime toy_gate"
  using toy_ledger_ok keyring_new_coherent
  by (simp add: gate_ok_def toy_gate_def toy_challenge_def)

lemma toy_gate_key: "directory_key toy_runtime (gt_keyring toy_gate) ''alice'' = Inr (ed_public toy_runtime ''k'')"
  by (simp add: directory_key_def keyring_public_pem_def keyring_new_def toy_gate_def load_public_pem_def
      toy_runtime_def)

lemma toy_proof_for: "proof_for toy_challenge ''alice'' 0 = toy_proof ''bob'' ''0.5''"
  by (simp add: proof_for_def toy_challenge_def toy_proof_def)

lemma toy_gate_charge: "\<exists>ch. fst (ledger_charge toy_runtime 0 (proof_for toy_challenge ''alice'' 0) 5 (gt_ledger toy_gate)) = Inr ch"
  using toy_charge_passes(1) by (auto simp: toy_proof_for toy_gate_def)

lemma toy_gate_pending: "map_of (gt_pending toy_gate) (ch_nonce toy_challenge) = Some toy_challenge"
  "5 \<le> ch_expires_at toy_challenge"
  by (simp_all add: toy_gate_def toy_challenge_def)


theorem gate_rejection_is_free_witness:
  "gt_ledger (snd (admit toy_runtime 0 0 ''n2'' 5 ''/r'' (ArgText ''0.5'') (Some ''x'') toy_gate)) = toy_ledger"
proof -
  have r: "admit toy_runtime 0 0 ''n2'' 5 ''/r'' (ArgText ''0.5'') (Some ''x'') toy_gate
      = (Inl (Rejected (RejectProof ProofUnreadable)), toy_gate)"
    by (simp add: admit_def header_text_def admit_header_def peek_def)
  have "gt_ledger toy_gate = toy_ledger" by (simp add: toy_gate_def)
  then show ?thesis using gate_rejection_is_free [OF r] by (simp add: r)
qed

theorem gate_serves_honest_payer_witness:
  "\<exists>h s. sign_proof toy_runtime toy_challenge ''alice'' ''k'' 0 = Inr h \<and>
     fst (admit toy_runtime 0 0 ''n2'' 5 ''/r'' (ArgText ''0.5'') (Some h) toy_gate) = Inr s"
proof -
  obtain h where h: "sign_proof toy_runtime toy_challenge ''alice'' ''k'' 0 = Inr h"
    using sign_proof_total [of toy_runtime toy_challenge "''alice''" "''k''" 0] by (elim exE) (rule that)
  obtain ch where "fst (ledger_charge toy_runtime 0 (proof_for toy_challenge ''alice'' 0) 5 (gt_ledger toy_gate)) = Inr ch"
    using toy_gate_charge by blast
  from gate_serves_honest_payer [OF toy_runtime_ok toy_gate_ok toy_gate_pending(1) toy_gate_key h toy_gate_pending(2) this]
  show ?thesis using h by blast
qed

theorem gate_ignores_resource_and_price_witness:
  "admit toy_runtime 0 0 ''n2'' 5 ''/cheap'' (ArgText ''0.5'') (Some ''x.y'') toy_gate
     = admit toy_runtime 0 0 ''n2'' 5 ''/gold'' (ArgText ''5000'') (Some ''x.y'') toy_gate"
  by (rule gate_ignores_resource_and_price) (simp add: header_text_def)

end
