(* ===== verification/Wallet.thy ===== *)
theory Wallet
  imports Gate
begin

text \<open>
  \<open>client/wallet.py\<close> and \<open>client/http.py\<close>: what signs a challenge and what refuses to, and the interceptor
  that answers a 402 once.  The function that sends a request is a parameter: it takes the extra
  headers and the state of the world outside.
\<close>

section \<open>The wallet\<close>

record 'sk wallet =
  w_agent :: string
  w_key :: 'sk
  w_currency :: string
  w_max_price :: price
  w_budget :: "price option"
  w_spent :: int

text \<open>\<open>PaymentRefused\<close> and its subclasses, and the exceptions that are none.\<close>

datatype wallet_error =
    WrongCurrency
  | AlreadyExpired
  | PriceTooHigh
  | BudgetExceeded
  | EscapeWalletPrice price_error
  | EscapeSign canonical_error

definition is_PaymentRefused :: "wallet_error \<Rightarrow> bool" where
  "is_PaymentRefused e = (case e of EscapeWalletPrice x \<Rightarrow> False | EscapeSign x \<Rightarrow> False | _ \<Rightarrow> True)"

text \<open>An absent and an empty budget are both no budget.\<close>

definition wallet_new ::
  "string \<Rightarrow> 'sk \<Rightarrow> price_arg \<Rightarrow> price_arg option \<Rightarrow> string \<Rightarrow> price_error + 'sk wallet" where
  "wallet_new agent key max_price budget currency =
     rbind (parse_price max_price currency) (\<lambda>m.
     rbind (if budget = None \<or> budget = Some (ArgText []) then Inr None
            else map_sum id Some (parse_price (the budget) currency)) (\<lambda>b.
       Inr \<lparr> w_agent = agent, w_key = key, w_currency = currency, w_max_price = m,
             w_budget = b, w_spent = 0 \<rparr>))"

definition wallet_from_secret ::
  "('sk, 'pk) runtime \<Rightarrow> string \<Rightarrow> string \<Rightarrow> price_arg \<Rightarrow> price_arg option \<Rightarrow> string \<Rightarrow>
   price_error + 'sk wallet" where
  "wallet_from_secret rt agent secret max_price budget currency =
     wallet_new agent (derive_signing_key rt secret) max_price budget currency"

definition wallet_spent :: "'sk wallet \<Rightarrow> price_error + price" where
  "wallet_spent w = rbind (quantize_sum (w_spent w) 0)
     (\<lambda>u. Inr \<lparr> p_amount = u, p_currency = w_currency w \<rparr>)"

definition wallet_remaining :: "'sk wallet \<Rightarrow> price_error + price option" where
  "wallet_remaining w = (case w_budget w of
     None \<Rightarrow> Inr None
   | Some b \<Rightarrow> rbind (quantize_sum (p_amount b) (- w_spent w))
       (\<lambda>u. Inr (Some \<lparr> p_amount = u, p_currency = w_currency w \<rparr>)))"

definition over_budget :: "'sk wallet \<Rightarrow> int \<Rightarrow> bool" where
  "over_budget w amount =
     (case w_budget w of None \<Rightarrow> False | Some b \<Rightarrow> w_spent w + amount > p_amount b)"

definition authorize ::
  "('sk, 'pk) runtime \<Rightarrow> int \<Rightarrow> challenge \<Rightarrow> 'sk wallet \<Rightarrow> (wallet_error + string) \<times> 'sk wallet" where
  "authorize rt now c w =
     (case challenge_price c of
        Inl e \<Rightarrow> (Inl (EscapeWalletPrice e), w)
      | Inr price \<Rightarrow>
          if p_currency price \<noteq> w_currency w then (Inl WrongCurrency, w)
          else if challenge_is_expired c now then (Inl AlreadyExpired, w)
          else if p_amount price > p_amount (w_max_price w) then (Inl PriceTooHigh, w)
          else if over_budget w (p_amount price) then (Inl BudgetExceeded, w)
          else
            (case sign_proof rt c (w_agent w) (w_key w) now of
               Inl e \<Rightarrow> (Inl (EscapeSign e), w)
             | Inr header \<Rightarrow>
                 (case quantize_sum (w_spent w) (p_amount price) of
                    Inl e \<Rightarrow> (Inl (EscapeWalletPrice e), w)
                  | Inr spent \<Rightarrow> (Inr header, w\<lparr>w_spent := spent\<rparr>))))"

section \<open>The interceptor\<close>

text \<open>A response body: bytes or text, a dictionary, something else.\<close>

datatype http_body = BodyBytes string | BodyDict "(string \<times> json) list" | BodyOther

datatype pay_error =
    PaymentFailed
  | WalletFailed wallet_error
  | EscapeBody py_exc

definition body_dict :: "http_body \<Rightarrow> (string \<times> json) list option" where
  "body_dict body = (case body of
     BodyBytes raw \<Rightarrow> (case loads_bytes raw of Some (JObj d) \<Rightarrow> Some d | _ \<Rightarrow> None)
   | BodyDict d \<Rightarrow> Some d
   | BodyOther \<Rightarrow> None)"

text \<open>A missing field and an \<open>int()\<close> of an unreadable text are \<open>ValueError\<close>s, and caught.\<close>

definition challenge_from_response ::
  "('sk, 'pk) runtime \<Rightarrow> int \<Rightarrow> http_body \<Rightarrow> pay_error + challenge" where
  "challenge_from_response rt now body =
     (case body_dict body of
        None \<Rightarrow> Inl PaymentFailed
      | Some d \<Rightarrow>
          (case challenge_from_dict rt now d of
             Inl (MissingFields ks) \<Rightarrow> Inl PaymentFailed
           | Inl (BadField e) \<Rightarrow> Inl (if e = ValueError then PaymentFailed else EscapeBody e)
           | Inr c \<Rightarrow> Inr c))"

definition payment_header :: string where
  "payment_header = ''X-InterMesh-Payment''"

definition pay_and_retry ::
  "('sk, 'pk) runtime \<Rightarrow> int \<Rightarrow> ((string \<times> string) list \<Rightarrow> 'w \<Rightarrow> 'r \<times> 'w) \<Rightarrow> ('r \<Rightarrow> int) \<Rightarrow> ('r \<Rightarrow> http_body) \<Rightarrow>
   'sk wallet \<Rightarrow> 'w \<Rightarrow> (pay_error + 'r) \<times> 'sk wallet \<times> 'w" where
  "pay_and_retry rt now send status_of body_of w world =
     (let (response, world1) = send [] world in
      if status_of response \<noteq> 402 then (Inr response, w, world1)
      else
        (case challenge_from_response rt now (body_of response) of
           Inl e \<Rightarrow> (Inl e, w, world1)
         | Inr c \<Rightarrow>
             (case authorize rt now c w of
                (Inl e, w1) \<Rightarrow> (Inl (WalletFailed e), w1, world1)
              | (Inr header, w1) \<Rightarrow>
                  (let (retried, world2) = send [(payment_header, header)] world1 in
                   if status_of retried = 402 then (Inl PaymentFailed, w1, world2)
                   else (Inr retried, w1, world2)))))"

text \<open>
  \<open>PaymentClient.request\<close>: the headers of the user are popped from the arguments by the first call of
  \<open>send\<close>, so the second one finds none.  The client's transport takes the headers of one request.
\<close>

definition client_send ::
  "((string \<times> string) list \<Rightarrow> 'w \<Rightarrow> 'r \<times> 'w) \<Rightarrow> (string \<times> string) list \<Rightarrow>
   (string \<times> string) list option \<times> 'w \<Rightarrow> 'r \<times> ((string \<times> string) list option \<times> 'w)" where
  "client_send transport extra = (\<lambda>(user, world).
     (let (r, world') = transport
        (foldl (\<lambda>d (k, v). dict_set k v d) (case user of None \<Rightarrow> [] | Some hs \<Rightarrow> hs) extra) world
      in (r, (None, world'))))"

definition client_request ::
  "('sk, 'pk) runtime \<Rightarrow> int \<Rightarrow> ((string \<times> string) list \<Rightarrow> 'w \<Rightarrow> 'r \<times> 'w) \<Rightarrow> ('r \<Rightarrow> int) \<Rightarrow> ('r \<Rightarrow> http_body) \<Rightarrow>
   (string \<times> string) list option \<Rightarrow> 'sk wallet \<Rightarrow> 'w \<Rightarrow> (pay_error + 'r) \<times> 'sk wallet \<times> 'w" where
  "client_request rt now transport status_of body_of user w world =
     (case pay_and_retry rt now (client_send transport) status_of body_of w (user, world) of
        (r, w', (rest, world')) \<Rightarrow> (r, w', world'))"

section \<open>The limits of the wallet\<close>

lemma authorize_cases:
  assumes "authorize rt now c w = (r, w')"
  obtains (refused) e where "r = Inl e" "w' = w"
  | (signed) price header where "r = Inr header" "challenge_price c = Inr price"
      "p_currency price = w_currency w" "now \<le> ch_expires_at c"
      "p_amount price \<le> p_amount (w_max_price w)" "\<not> over_budget w (p_amount price)"
      "sign_proof rt c (w_agent w) (w_key w) now = Inr header"
      "w' = w\<lparr>w_spent := w_spent w + p_amount price\<rparr>"
proof (cases "challenge_price c")
  case (Inl e)
  show thesis by (rule refused [of "EscapeWalletPrice e"]) (use assms Inl in \<open>simp_all add: authorize_def\<close>)
next
  case p: (Inr price)
  note eq = assms [unfolded authorize_def p sum.case]
  show thesis
  proof (cases "p_currency price = w_currency w \<and> now \<le> ch_expires_at c \<and>
      p_amount price \<le> p_amount (w_max_price w) \<and> \<not> over_budget w (p_amount price)")
    case False
    then have "\<exists>e. r = Inl e \<and> w' = w"
      using eq by (auto simp: challenge_is_expired_def simp del: not_le split: if_splits)
    then show thesis using refused by blast
  next
    case True
    show thesis
    proof (cases "sign_proof rt c (w_agent w) (w_key w) now")
      case (Inl e)
      show thesis by (rule refused [of "EscapeSign e"]) (use eq True Inl in \<open>simp_all add: challenge_is_expired_def\<close>)
    next
      case h: (Inr header)
      show thesis
      proof (cases "quantize_sum (w_spent w) (p_amount price)")
        case (Inl e)
        show thesis by (rule refused [of "EscapeWalletPrice e"]) (use eq True h Inl in \<open>simp_all add: challenge_is_expired_def\<close>)
      next
        case (Inr spent)
        show thesis
          by (rule signed [OF _ p]) (use eq True h Inr in \<open>simp_all add: challenge_is_expired_def\<close>)
      qed
    qed
  qed
qed

lemma challenge_price_nonneg: "challenge_price c = Inr p \<Longrightarrow> 0 \<le> p_amount p"
  unfolding challenge_price_def by (drule parse_price_nonneg) simp

definition signed_amount :: "challenge \<Rightarrow> int" where
  "signed_amount c = (case challenge_price c of Inl e \<Rightarrow> 0 | Inr p \<Rightarrow> p_amount p)"

text \<open>A session: the challenges a wallet is shown, and the amounts it signs.\<close>

fun authorize_run ::
  "('sk, 'pk) runtime \<Rightarrow> (int \<times> challenge) list \<Rightarrow> 'sk wallet \<Rightarrow> int list \<times> 'sk wallet" where
  "authorize_run rt [] w = ([], w)"
| "authorize_run rt ((now, c) # cs) w =
     (case authorize rt now c w of
        (Inl e, w1) \<Rightarrow> authorize_run rt cs w1
      | (Inr h, w1) \<Rightarrow> (case authorize_run rt cs w1 of (amounts, w2) \<Rightarrow> (signed_amount c # amounts, w2)))"

definition within_budget :: "'sk wallet \<Rightarrow> bool" where
  "within_budget w = (case w_budget w of None \<Rightarrow> True | Some b \<Rightarrow> w_spent w \<le> p_amount b)"

lemma authorize_run_spent:
  assumes "within_budget w" "authorize_run rt cs w = (amounts, w')"
  shows "within_budget w' \<and> w_budget w' = w_budget w \<and> w_max_price w' = w_max_price w \<and>
    w_spent w' = w_spent w + sum_list amounts \<and> (\<forall>a \<in> set amounts. 0 \<le> a \<and> a \<le> p_amount (w_max_price w))"
  using assms
proof (induction rt cs w arbitrary: amounts w' rule: authorize_run.induct)
  case (2 rt t c cs w)
  obtain r w1 where a: "authorize rt t c w = (r, w1)" by fastforce
  then show ?case
  proof (cases rule: authorize_cases)
    case (refused e)
    then have "authorize_run rt cs w = (amounts, w')" using "2.prems"(2) a by simp
    then show ?thesis using "2.IH"(1) [OF a [symmetric] refused(1) _ ] refused(2) "2.prems"(1) by simp
  next
    case (signed price header)
    obtain as w2 where r: "authorize_run rt cs w1 = (as, w2)" by fastforce
    have "within_budget w1"
      using signed by (auto simp: within_budget_def over_budget_def split: option.splits)
    then have IH: "within_budget w2 \<and> w_budget w2 = w_budget w1 \<and> w_max_price w2 = w_max_price w1 \<and>
        w_spent w2 = w_spent w1 + sum_list as \<and> (\<forall>a \<in> set as. 0 \<le> a \<and> a \<le> p_amount (w_max_price w1))"
      using "2.IH"(2) [OF a [symmetric] signed(1) _ r] by simp
    have "amounts = p_amount price # as" "w' = w2"
      using "2.prems"(2) signed(1,2) r a by (simp_all add: signed_amount_def)
    then show ?thesis using IH signed challenge_price_nonneg [OF signed(2)] by simp
  qed
qed simp

section \<open>Traces of the interceptor\<close>

text \<open>A transport that keeps the headers of the requests it has sent.\<close>

definition logged ::
  "('h \<Rightarrow> 'w \<Rightarrow> 'r \<times> 'w) \<Rightarrow> 'h \<Rightarrow> 'w \<times> 'h list \<Rightarrow> 'r \<times> ('w \<times> 'h list)" where
  "logged send h = (\<lambda>(world, sent). case send h world of (r, world') \<Rightarrow> (r, (world', sent @ [h])))"

lemma pay_and_retry_cases:
  assumes "pay_and_retry rt now send status_of body_of w world = (r, w', world')"
  obtains (once) response where "send [] world = (response, world')" "w' = w"
  | (twice) response world1 c header retried where "send [] world = (response, world1)"
      "status_of response = 402" "challenge_from_response rt now (body_of response) = Inr c"
      "authorize rt now c w = (Inr header, w')"
      "send [(payment_header, header)] world1 = (retried, world')"
      "r = (if status_of retried = 402 then Inl PaymentFailed else Inr retried)"
proof -
  obtain response world1 where s: "send [] world = (response, world1)" by fastforce
  show thesis
  proof (cases "status_of response = 402")
    case False
    then show thesis using assms once s by (auto simp: pay_and_retry_def)
  next
    case st: True
    show thesis
    proof (cases "challenge_from_response rt now (body_of response)")
      case (Inl e)
      then show thesis using assms once s st by (auto simp: pay_and_retry_def)
    next
      case c: (Inr c)
      obtain a w1 where a: "authorize rt now c w = (a, w1)" by fastforce
      then show thesis
      proof (cases rule: authorize_cases)
        case (refused e)
        then show thesis using assms once s st c a by (auto simp: pay_and_retry_def)
      next
        case (signed price header)
        obtain retried world2 where s2: "send [(payment_header, header)] world1 = (retried, world2)" by fastforce
        then show thesis using assms twice s st c a signed(1) by (auto simp: pay_and_retry_def split: if_splits)
      qed
    qed
  qed
qed

section \<open>Client and server together\<close>

definition guard_status :: "guard_outcome \<Rightarrow> int" where
  "guard_status o' = (case o' of Served s \<Rightarrow> 200 | ServerError e \<Rightarrow> 500 | _ \<Rightarrow> 402)"

definition guard_body :: "guard_outcome \<Rightarrow> http_body" where
  "guard_body o' = (case o' of Answer402 b \<Rightarrow> BodyDict b
     | Refused402 r \<Rightarrow> BodyDict [(''error'', JStr ''payment_rejected'')] | _ \<Rightarrow> BodyOther)"

text \<open>A server behind a transport without faults.\<close>

definition server_send ::
  "('sk, 'pk) runtime \<Rightarrow> rat \<Rightarrow> int \<Rightarrow> string \<Rightarrow> string option \<Rightarrow> string \<Rightarrow> price_arg \<Rightarrow>
   (string \<times> string) list \<Rightarrow> 'pk gate \<Rightarrow> guard_outcome \<times> 'pk gate" where
  "server_send rt clock now nonce route path price headers g =
     guard_request rt clock now nonce route path price (map_of headers payment_header) g"

lemma ledger_charge_succeeds:
  assumes "pp_nonce pr \<notin> lg_seen L"
    "parse_price (ArgText (pp_amount pr @ '' '' @ pp_currency pr)) ''USD'' = Inr p"
    "p_currency p = lg_currency L" "0 < p_amount p"
    "map_of (lg_accounts L) (pp_payer pr) = Some a" "map_of (lg_accounts L) (pp_pay_to pr) = Some b"
    "p_amount p \<le> ac_balance a + ac_limit a" "ac_balance a + ac_limit a < decimal_limit"
    "\<bar>ac_balance a - p_amount p\<bar> < decimal_limit" "\<bar>ac_balance b + p_amount p\<bar> < decimal_limit"
  shows "fst (ledger_charge rt clock pr now L) = Inr (charge_of pr (p_amount p) now L)"
proof -
  have "charge_checks pr L = Inr (p_amount p, a, b)"
    using assms by (simp add: charge_checks_def ledger_account_def account_available_def quantize_sum_def
        check_digits_def)
  then show ?thesis
    using assms(9,10) by (simp add: ledger_charge_def quantize_sum_def check_digits_def Let_def)
qed

lemma challenge_from_required_body:
  assumes "ch_ledger c \<noteq> Some []"
  shows "challenge_from_dict rt now (required_body c) = Inr c"
proof (cases "ch_ledger c")
  case None
  then show ?thesis
    by (simp add: challenge_from_dict_def required_body_def challenge_to_dict_def
        mandatory_challenge_fields_def field_str_def py_get_def)
next
  case (Some l)
  with assms show ?thesis
    by (simp add: challenge_from_dict_def required_body_def challenge_to_dict_def
        mandatory_challenge_fields_def field_str_def py_get_def)
qed

lemma seconds_to_ms_nonneg: "0 \<le> s \<Longrightarrow> 0 \<le> seconds_to_ms s"
  by (simp add: seconds_to_ms_def)

section \<open>Properties of the component\<close>

text \<open>C29: a wallet that starts within its budget never signs its way out of it: over any sequence of
  challenges, what it has spent is exactly what it signed, stays within the budget, and no single
  signature exceeds the price cap.\<close>

theorem wallet_never_overspends:
  assumes "within_budget w" "authorize_run rt cs w = (amounts, w')"
  shows "w_spent w' = w_spent w + sum_list amounts \<and>
    (\<forall>b. w_budget w = Some b \<longrightarrow> w_spent w + sum_list amounts \<le> p_amount b) \<and>
    (\<forall>a \<in> set amounts. 0 \<le> a \<and> a \<le> p_amount (w_max_price w))"
  using authorize_run_spent [OF assms] by (auto simp: within_budget_def)

text \<open>A request is sent at most twice. The second time it carries a header that the wallet signed for
  the challenge of the first answer, within its limits; otherwise nothing was signed.\<close>

theorem at_most_one_paid_retry:
  assumes "pay_and_retry rt now (logged send) status_of body_of w (world, []) = (r, w', (world', sent))"
  shows "sent = [[]] \<and> w' = w \<or>
    (\<exists>c header p. sent = [[], [(payment_header, header)]] \<and>
       challenge_from_response rt now (body_of (fst (send [] world))) = Inr c \<and>
       sign_proof rt c (w_agent w) (w_key w) now = Inr header \<and> challenge_price c = Inr p \<and>
       p_amount p \<le> p_amount (w_max_price w) \<and> \<not> over_budget w (p_amount p) \<and>
       w_spent w' = w_spent w + p_amount p)"
  using assms
proof (cases rule: pay_and_retry_cases)
  case (twice response world1 c header retried)
  from twice(4) show ?thesis
  proof (cases rule: authorize_cases)
    case (signed price h)
    then show ?thesis using twice by (auto simp: logged_def split: prod.splits)
  qed simp
qed (auto simp: logged_def split: prod.splits)

text \<open>The paid retry of \<open>PaymentClient\<close> is not the request it repeats: it carries the payment header alone,
  the headers of the user are gone.\<close>

theorem client_retry_loses_headers:
  assumes "client_request rt now (logged transport) status_of body_of (Some hs) w (world, []) = (r, w', (world', sent))"
  shows "sent = [hs] \<or> (\<exists>header. sent = [hs, [(payment_header, header)]])"
proof -
  obtain r0 w0 rest where p: "pay_and_retry rt now (client_send (logged transport)) status_of body_of w (Some hs, (world, []))
      = (r0, w0, (rest, (world', sent)))"
    using assms by (auto simp: client_request_def split: prod.splits)
  then show ?thesis
    by (cases rule: pay_and_retry_cases) (auto simp: client_send_def logged_def split: prod.splits)
qed

text \<open>C16: an honest client gets what it asks for: with a key the server knows, accounts opened, credit, cap and
  budget sufficient and a price of at least a millionth, the 402 is paid and the request is served, for
  exactly the price the server asked.\<close>

theorem honest_client_is_served:
  assumes "runtime_ok rt" "gate_ok rt g" "parse_price (ArgText raw) ''USD'' = Inr p" "100 \<le> p_amount p"
    "p_currency p = w_currency w" "p_currency p = lg_currency (gt_ledger g)"
    "p_amount p \<le> p_amount (w_max_price w)" "\<not> over_budget w (p_amount p)"
    "\<bar>w_spent w + p_amount p\<bar> < decimal_limit"
    "directory_key rt (gt_keyring g) (w_agent w) = Inr (ed_public rt (w_key w))"
    "nonce \<notin> lg_seen (gt_ledger g)" "0 \<le> gt_ttl g" "gt_ledger_url g \<noteq> Some []"
    "map_of (lg_accounts (gt_ledger g)) (w_agent w) = Some a"
    "map_of (lg_accounts (gt_ledger g)) (gt_payee g) = Some b"
    "p_amount p \<le> ac_balance a + ac_limit a" "ac_balance a + ac_limit a < decimal_limit"
    "\<bar>ac_balance b + p_amount p\<bar> < decimal_limit"
  shows "\<exists>s w' g'. pay_and_retry rt now (server_send rt clock now nonce route path (ArgText raw))
           guard_status guard_body w g = (Inr (Served s), w', g') \<and>
         sp_amount s = p \<and> pp_payer (sp_proof s) = w_agent w \<and> w_spent w' = w_spent w + p_amount p"
proof -
  let ?target = "case route of Some r \<Rightarrow> if r = [] then path else r | None \<Rightarrow> path"
  obtain c where c: "challenge_create (ArgText raw) (gt_payee g) ?target (gt_ledger_url g) (gt_ttl g) nonce now = Inr c"
    by (simp add: challenge_create_def assms(3) del: parse_price.simps)
  note cc = challenge_create_Inr [OF c]
  have price: "challenge_price c = Inr p" using challenge_price_read [OF c] assms(3,4) by auto
  obtain g1 where g1: "challenge_for now nonce ?target (ArgText raw) g = (Inr c, g1)"
    and g1_pending: "map_of (gt_pending g1) (ch_nonce c) = Some c"
    and g1_same: "gt_ledger g1 = gt_ledger g" "gt_keyring g1 = gt_keyring g"
    using c by (simp add: challenge_for_def Let_def evict_def update_conv')
  have ok1: "gate_ok rt g1"
    using challenge_for_ok [OF assms(2), of now nonce ?target "ArgText raw"] by (simp add: g1)
  have first: "server_send rt clock now nonce route path (ArgText raw) [] g = (Answer402 (required_body c), g1)"
    by (simp add: server_send_def guard_request_def admit_def header_text_def g1)
  have resp: "challenge_from_response rt now (guard_body (Answer402 (required_body c))) = Inr c"
  proof -
    have "ch_ledger c \<noteq> Some []" using cc assms(13) by auto
    from challenge_from_required_body [OF this, of rt now] show ?thesis
      by (simp add: challenge_from_response_def guard_body_def body_dict_def)
  qed
  obtain h where h: "sign_proof rt c (w_agent w) (w_key w) now = Inr h"
    using sign_proof_total [of rt c "w_agent w" "w_key w" now] by (elim exE) (rule that)
  have exp: "now \<le> ch_expires_at c" using cc seconds_to_ms_nonneg [OF assms(12)] by auto
  have auth: "authorize rt now c w = (Inr h, w\<lparr>w_spent := w_spent w + p_amount p\<rparr>)"
    using assms(5,7,8,9) exp price h by (simp add: authorize_def challenge_is_expired_def quantize_sum_def check_digits_def)
  let ?pr = "proof_for c (w_agent w) now"
  have "\<bar>ac_balance a - p_amount p\<bar> < decimal_limit"
    using ledger_ok_account [of rt "gt_ledger g" "w_agent w" a] assms(2,4,14,16)
    by (auto simp: gate_ok_def account_ok_def)
  then have charge: "fst (ledger_charge rt clock ?pr now (gt_ledger g1)) = Inr (charge_of ?pr (p_amount p) now (gt_ledger g1))"
    using price cc assms
    by (intro ledger_charge_succeeds [where p = p and a = a and b = b])
       (auto simp: proof_for_def challenge_price_def g1_same simp del: parse_price.simps)
  have served: "fst (admit rt clock now nonce now ?target (ArgText raw) (Some h) g1)
      = Inr \<lparr> sp_proof = ?pr, sp_amount = \<lparr> p_amount = p_amount p, p_currency = lg_currency (gt_ledger g1) \<rparr> \<rparr>"
    using honest_payer_served [OF assms(1) ok1 g1_pending _ h exp charge] assms(10) g1_same
    by (simp add: charge_of_def)
  then obtain g2 where "admit rt clock now nonce now ?target (ArgText raw) (Some h) g1
      = (Inr \<lparr> sp_proof = ?pr, sp_amount = p \<rparr>, g2)"
    using assms(6) g1_same by (cases "admit rt clock now nonce now ?target (ArgText raw) (Some h) g1") simp
  then have second: "server_send rt clock now nonce route path (ArgText raw) [(payment_header, h)] g1
      = (Served \<lparr> sp_proof = ?pr, sp_amount = p \<rparr>, g2)"
    by (simp add: server_send_def guard_request_def)
  show ?thesis
    by (simp add: pay_and_retry_def first resp auth second guard_status_def proof_for_def)
qed

section \<open>Concrete instances\<close>

definition toy_wallet :: "string wallet" where
  "toy_wallet = \<lparr> w_agent = ''alice'', w_key = ''k'', w_currency = ''USD'',
     w_max_price = \<lparr> p_amount = 100000000, p_currency = ''USD'' \<rparr>,
     w_budget = Some \<lparr> p_amount = 500000000, p_currency = ''USD'' \<rparr>, w_spent = 0 \<rparr>"

theorem wallet_never_overspends_witness:
  "\<exists>amounts w'. authorize_run toy_runtime [(5, toy_challenge), (6, toy_challenge)] toy_wallet = (amounts, w') \<and>
     w_spent toy_wallet + sum_list amounts \<le> 500000000"
proof -
  obtain amounts w' where r: "authorize_run toy_runtime [(5, toy_challenge), (6, toy_challenge)] toy_wallet = (amounts, w')"
    by fastforce
  have "within_budget toy_wallet" by (simp add: within_budget_def toy_wallet_def)
  from wallet_never_overspends [OF this r] show ?thesis using r by (simp add: toy_wallet_def)
qed

theorem at_most_one_paid_retry_witness:
  "snd (snd (snd (pay_and_retry toy_runtime 0 (logged (\<lambda>h w. (200, w))) (\<lambda>r. r) (\<lambda>r. BodyOther) toy_wallet ((), []))))
     = [[]]"
proof -
  have r: "pay_and_retry toy_runtime 0 (logged (\<lambda>h w. (200, w))) (\<lambda>r. r) (\<lambda>r. BodyOther) toy_wallet ((), [])
      = (Inr 200, toy_wallet, ((), [[]]))"
    by (simp add: pay_and_retry_def logged_def)
  from at_most_one_paid_retry [OF r] show ?thesis by (simp add: r)
qed

theorem client_retry_loses_headers_witness:
  "snd (snd (snd (client_request toy_runtime 0 (logged (\<lambda>h w. (200, w))) (\<lambda>r. r) (\<lambda>r. BodyOther)
     (Some [(''Accept'', ''text/plain'')]) toy_wallet ((), [])))) = [[(''Accept'', ''text/plain'')]]"
proof -
  have r: "client_request toy_runtime 0 (logged (\<lambda>h w. (200, w))) (\<lambda>r. r) (\<lambda>r. BodyOther)
     (Some [(''Accept'', ''text/plain'')]) toy_wallet ((), [])
      = (Inr 200, toy_wallet, ((), [[(''Accept'', ''text/plain'')]]))"
    by (simp add: client_request_def pay_and_retry_def logged_def client_send_def)
  from client_retry_loses_headers [OF r] show ?thesis by (simp add: r)
qed

lemma toy_price: "parse_price (ArgText ''0.5 USD'') ''USD'' = Inr \<lparr> p_amount = 50000000, p_currency = ''USD'' \<rparr>"
  by (rule toy_prices(1))

lemma toy_gate_fields:
  "gt_ledger toy_gate = toy_ledger" "gt_payee toy_gate = ''bob''" "gt_ttl toy_gate = 120"
  "gt_ledger_url toy_gate = None"
  by (simp_all add: toy_gate_def)

theorem honest_client_is_served_witness:
  "\<exists>s w' g'. pay_and_retry toy_runtime 3 (server_send toy_runtime 0 3 ''n2'' None ''/r'' (ArgText ''0.5 USD''))
     guard_status guard_body toy_wallet toy_gate = (Inr (Served s), w', g') \<and> w_spent w' = 50000000"
proof -
  have "\<exists>s w' g'. pay_and_retry toy_runtime 3 (server_send toy_runtime 0 3 ''n2'' None ''/r'' (ArgText ''0.5 USD''))
     guard_status guard_body toy_wallet toy_gate = (Inr (Served s), w', g') \<and>
     sp_amount s = \<lparr> p_amount = 50000000, p_currency = ''USD'' \<rparr> \<and>
     pp_payer (sp_proof s) = w_agent toy_wallet \<and> w_spent w' = w_spent toy_wallet + p_amount \<lparr> p_amount = 50000000, p_currency = ''USD'' \<rparr>"
  proof (rule honest_client_is_served [OF toy_runtime_ok toy_gate_ok toy_price,
        where a = "toy_account ''alice'' (- 100000)" and b = "toy_account ''bob'' 100000"])
    show "directory_key toy_runtime (gt_keyring toy_gate) (w_agent toy_wallet)
        = Inr (ed_public toy_runtime (w_key toy_wallet))"
      using toy_gate_key by (simp add: toy_wallet_def)
  qed (simp_all add: toy_gate_fields toy_accounts toy_wallet_def over_budget_def toy_account_def decimal_limit_def)
  then show ?thesis by (auto simp: toy_wallet_def)
qed

end
