(* ===== verification/RiskPolicy.thy ===== *)
theory RiskPolicy
  imports HashChain PyValues
begin

text \<open>
  \<open>assurance/risk.py\<close> and \<open>assurance/policy.py\<close>: the six risk levels and the first-match rule engine.

  \<open>rx\<close> stands for the regular expressions of the rules: \<open>rx p\<close> is \<open>None\<close> when \<open>re.compile\<close> refuses \<open>p\<close>
  and otherwise the test \<open>re.search\<close> performs.  \<open>urlsplit\<close> follows the standard library up to two
  checks of the host it makes on top: the syntax of a bracketed address and the normalisation of
  characters beyond ASCII.
\<close>

section \<open>Risk levels\<close>

datatype risk_level = R0 | R1 | R2 | R3 | R4 | R5

fun risk_val :: "risk_level \<Rightarrow> int" where
  "risk_val R0 = 0" | "risk_val R1 = 1" | "risk_val R2 = 2"
| "risk_val R3 = 3" | "risk_val R4 = 4" | "risk_val R5 = 5"

lemma risk_val_inj [simp]: "risk_val a = risk_val b \<longleftrightarrow> a = b"
  by (cases a; cases b) simp_all

instantiation risk_level :: linorder
begin

definition less_eq_risk_level :: "risk_level \<Rightarrow> risk_level \<Rightarrow> bool" where
  "less_eq_risk_level a b = (risk_val a \<le> risk_val b)"

definition less_risk_level :: "risk_level \<Rightarrow> risk_level \<Rightarrow> bool" where
  "less_risk_level a b = (risk_val a < risk_val b)"

instance
  by standard (auto simp: less_eq_risk_level_def less_risk_level_def)

end

definition all_levels :: "risk_level list" where
  "all_levels = [R0, R1, R2, R3, R4, R5]"

definition risk_str :: "risk_level \<Rightarrow> string" where
  "risk_str r = CHR ''R'' # int_str (risk_val r)"

definition default_evidence_threshold :: risk_level where
  "default_evidence_threshold = R2"

text \<open>\<open>RiskLevel.parse\<close> of a level and of a JSON value; \<open>None\<close> is \<open>ValueError\<close>.\<close>

definition risk_of_text :: "string \<Rightarrow> risk_level option" where
  "risk_of_text raw =
     (let text = str_upper (str_strip raw);
          digits = (if str_prefix ''R'' text then drop 1 text else text)
      in if digits \<noteq> [] \<and> list_all is_digit digits \<and> digits_val digits \<le> 5
         then Some (all_levels ! digits_val digits) else None)"

definition risk_parse :: "('sk, 'pk) runtime \<Rightarrow> json \<Rightarrow> risk_level option" where
  "risk_parse rt raw = risk_of_text (py_str rt raw)"

section \<open>Splitting a URL\<close>

definition scheme_char :: "char \<Rightarrow> bool" where
  "scheme_char c = (let n = of_char c :: nat in
     (65 \<le> n \<and> n \<le> 90) \<or> (97 \<le> n \<and> n \<le> 122) \<or> (48 \<le> n \<and> n \<le> 57) \<or> c \<in> {CHR ''+'', CHR ''-'', CHR ''.''})"

definition ascii_alpha :: "char \<Rightarrow> bool" where
  "ascii_alpha c = (let n = of_char c :: nat in (65 \<le> n \<and> n \<le> 90) \<or> (97 \<le> n \<and> n \<le> 122))"

text \<open>\<open>s.split(sep, 1)\<close>: the text before the first separator and the text after it, if there is one.\<close>

definition split_at :: "(char \<Rightarrow> bool) \<Rightarrow> string \<Rightarrow> string \<times> string option" where
  "split_at P s = (case dropWhile (\<lambda>c. \<not> P c) s of
     [] \<Rightarrow> (s, None) | c # r \<Rightarrow> (takeWhile (\<lambda>c. \<not> P c) s, Some r))"

definition url_clean :: "string \<Rightarrow> string" where
  "url_clean url = List.filter (\<lambda>c. of_char c \<notin> ({9, 10, 13} :: nat set))
     (dropWhile (\<lambda>c. of_char c \<le> (32 :: nat)) url)"

definition drop_scheme :: "string \<Rightarrow> string \<times> string" where
  "drop_scheme url = (case split_at (\<lambda>c. c = CHR '':'') url of
     (s, Some rest) \<Rightarrow>
       if s \<noteq> [] \<and> ascii_alpha (hd s) \<and> list_all scheme_char s then (str_lower s, rest) else ([], url)
   | (s, None) \<Rightarrow> ([], url))"

record split_url =
  su_scheme :: string
  su_netloc :: string
  su_path :: string
  su_query :: string

text \<open>\<open>None\<close> is the \<open>ValueError\<close> of an unbalanced bracket in the host.\<close>

definition urlsplit :: "string \<Rightarrow> split_url option" where
  "urlsplit url =
     (let (scheme, rest) = drop_scheme (url_clean url);
          authority = str_prefix ''//'' rest;
          delim = (\<lambda>c. c \<in> {CHR ''/'', CHR ''?'', CHR ''#''});
          netloc = (if authority then takeWhile (\<lambda>c. \<not> delim c) (drop 2 rest) else []);
          tail = (if authority then dropWhile (\<lambda>c. \<not> delim c) (drop 2 rest) else rest);
          (path, q) = split_at (\<lambda>c. c = CHR ''?'') (fst (split_at (\<lambda>c. c = CHR ''#'') tail))
      in if (CHR ''['' \<in> set netloc) \<noteq> (CHR '']'' \<in> set netloc) then None
         else Some \<lparr> su_scheme = scheme, su_netloc = netloc, su_path = path,
                     su_query = (case q of None \<Rightarrow> [] | Some x \<Rightarrow> x) \<rparr>)"

section \<open>Rules\<close>

datatype decision = Allow | Block | NeedsApproval

fun decision_str :: "decision \<Rightarrow> string" where
  "decision_str Allow = ''allow''"
| "decision_str Block = ''block''"
| "decision_str NeedsApproval = ''approval''"

definition decision_of :: "string \<Rightarrow> decision option" where
  "decision_of s = (if s = ''allow'' then Some Allow else if s = ''block'' then Some Block
     else if s = ''approval'' then Some NeedsApproval else None)"

record rule =
  rl_name :: string
  rl_risk :: risk_level
  rl_decision :: decision
  rl_method :: "string option"
  rl_host :: "string option"
  rl_path_contains :: "string option"
  rl_path_regex :: "string option"
  rl_reason :: string

text \<open>
  \<open>PolicyEscape\<close> is an exception that is no \<open>PolicyError\<close>.  \<open>ForeignCriterion\<close>: a criterion that is neither
  text nor absent; the code keeps it and fails when it first compares it.
\<close>

datatype policy_error =
    RuleUnnamed
  | UnknownDecision string
  | NoCriterion string
  | BadRegex string
  | BadMatch
  | BadRisk
  | NotAnObject
  | NoRules
  | DuplicateRule string
  | ForeignCriterion
  | PolicyEscape py_exc

definition present :: "string option \<Rightarrow> bool" where
  "present s = (case s of None \<Rightarrow> False | Some x \<Rightarrow> x \<noteq> [])"

definition the_text :: "string option \<Rightarrow> string" where
  "the_text s = (case s of None \<Rightarrow> [] | Some x \<Rightarrow> x)"

text \<open>\<open>__post_init__\<close>.\<close>

definition make_rule ::
  "(string \<Rightarrow> (string \<Rightarrow> bool) option) \<Rightarrow> string \<Rightarrow> risk_level \<Rightarrow> string \<Rightarrow> string option \<Rightarrow> string option \<Rightarrow>
   string option \<Rightarrow> string option \<Rightarrow> string \<Rightarrow> policy_error + rule" where
  "make_rule rx name risk decision method host path_contains path_regex reason =
     (if name = [] then Inl RuleUnnamed
      else
        (case decision_of decision of
           None \<Rightarrow> Inl (UnknownDecision decision)
         | Some d \<Rightarrow>
             if \<not> (present method \<or> present host \<or> present path_contains \<or> present path_regex)
             then Inl (NoCriterion name)
             else if present path_regex \<and> rx (the_text path_regex) = None then Inl (BadRegex name)
             else Inr \<lparr> rl_name = name, rl_risk = risk, rl_decision = d, rl_method = method, rl_host = host,
                        rl_path_contains = path_contains, rl_path_regex = path_regex, rl_reason = reason \<rparr>))"

definition rule_matches ::
  "(string \<Rightarrow> (string \<Rightarrow> bool) option) \<Rightarrow> rule \<Rightarrow> string \<Rightarrow> string \<Rightarrow> string \<Rightarrow> bool" where
  "rule_matches rx r method host path =
     (if present (rl_method r) \<and> str_upper (the_text (rl_method r)) \<noteq> str_upper method then False
      else if present (rl_host r) \<and> \<not> str_in (str_lower (the_text (rl_host r))) (str_lower host) then False
      else if present (rl_path_contains r) \<and> \<not> str_in (the_text (rl_path_contains r)) path then False
      else if present (rl_path_regex r) \<and>
              (case rx (the_text (rl_path_regex r)) of Some search \<Rightarrow> \<not> search path | None \<Rightarrow> False) then False
      else True)"

definition criterion :: "json option \<Rightarrow> policy_error + string option" where
  "criterion v = (case v of
     None \<Rightarrow> Inr None | Some JNull \<Rightarrow> Inr None | Some (JStr s) \<Rightarrow> Inr (Some s)
   | Some w \<Rightarrow> Inl ForeignCriterion)"

text \<open>\<open>d.get(k, default)\<close>.\<close>

definition get_or :: "(string \<times> json) list \<Rightarrow> string \<Rightarrow> json \<Rightarrow> json" where
  "get_or d k v = (case map_of d k of None \<Rightarrow> v | Some x \<Rightarrow> x)"

definition match_of :: "(string \<times> json) list \<Rightarrow> policy_error + (string \<times> json) list" where
  "match_of d = (if \<not> py_true (py_get d ''match'') then Inr []
     else (case py_get d ''match'' of JObj m \<Rightarrow> Inr m | _ \<Rightarrow> Inl BadMatch))"

definition rule_from_dict ::
  "('sk, 'pk) runtime \<Rightarrow> (string \<Rightarrow> (string \<Rightarrow> bool) option) \<Rightarrow> json \<Rightarrow> policy_error + rule" where
  "rule_from_dict rt rx raw = (case raw of
     JObj d \<Rightarrow>
       rbind (match_of d) (\<lambda>m.
         (case risk_parse rt (get_or d ''risk'' (JStr ''R0'')) of
            None \<Rightarrow> Inl BadRisk
          | Some risk \<Rightarrow>
              rbind (criterion (map_of m ''method'')) (\<lambda>method.
              rbind (criterion (map_of m ''host'')) (\<lambda>host.
              rbind (criterion (map_of m ''path_contains'')) (\<lambda>contains.
              rbind (criterion (map_of m ''path_regex'')) (\<lambda>regex.
                make_rule rx (py_str rt (get_or d ''name'' (JStr []))) risk
                  (str_lower (py_str rt (get_or d ''decision'' (JStr ''allow''))))
                  method host contains regex (py_str rt (get_or d ''reason'' (JStr []))))))))) 
   | _ \<Rightarrow> Inl (PolicyEscape AttributeError))"

section \<open>Policies\<close>

record verdict =
  vd_decision :: decision
  vd_risk :: risk_level
  vd_rule :: string
  vd_reason :: string

record policy =
  pl_name :: string
  pl_rules :: "rule list"
  pl_default_decision :: decision
  pl_default_risk :: risk_level
  pl_threshold :: risk_level

definition needs_evidence_default :: "verdict \<Rightarrow> bool" where
  "needs_evidence_default v = (vd_risk v \<ge> default_evidence_threshold)"

definition verdict_of_rule :: "rule \<Rightarrow> verdict" where
  "verdict_of_rule r = \<lparr> vd_decision = rl_decision r, vd_risk = rl_risk r, vd_rule = rl_name r,
                         vd_reason = rl_reason r \<rparr>"

definition default_verdict :: "policy \<Rightarrow> verdict" where
  "default_verdict p = \<lparr> vd_decision = pl_default_decision p, vd_risk = pl_default_risk p,
     vd_rule = ''default'', vd_reason = ''aucune r'' @ [CHR 0xE8] @ ''gle ne correspond'' \<rparr>"

fun first_match ::
  "(string \<Rightarrow> (string \<Rightarrow> bool) option) \<Rightarrow> rule list \<Rightarrow> string \<Rightarrow> string \<Rightarrow> string \<Rightarrow> rule option" where
  "first_match rx [] method host path = None"
| "first_match rx (r # rs) method host path =
     (if rule_matches rx r method host path then Some r else first_match rx rs method host path)"

text \<open>The host and the path that \<open>evaluate\<close> reads in a URL.\<close>

definition host_and_path :: "string \<Rightarrow> (string \<times> string) option" where
  "host_and_path url =
     map_option (\<lambda>u. let path = (if su_path u = [] then ''/'' else su_path u) in
         (su_netloc u, if su_query u = [] then path else path @ ''?'' @ su_query u))
       (urlsplit (if str_in ''//'' url then url else ''//'' @ url))"

definition evaluate ::
  "(string \<Rightarrow> (string \<Rightarrow> bool) option) \<Rightarrow> policy \<Rightarrow> string \<Rightarrow> string \<Rightarrow> verdict option" where
  "evaluate rx p method url =
     (case host_and_path url of
        None \<Rightarrow> None
      | Some (host, path) \<Rightarrow>
          Some (case first_match rx (pl_rules p) method host path of
                  Some r \<Rightarrow> verdict_of_rule r
                | None \<Rightarrow> default_verdict p))"

definition requires_evidence :: "policy \<Rightarrow> risk_level \<Rightarrow> bool" where
  "requires_evidence p risk = (risk \<ge> pl_threshold p)"

text \<open>The first name that occurs twice.\<close>

fun repeated_name :: "string list \<Rightarrow> string list \<Rightarrow> string option" where
  "repeated_name seen [] = None"
| "repeated_name seen (n # ns) = (if n \<in> set seen then Some n else repeated_name (n # seen) ns)"

definition default_of :: "(string \<times> json) list \<Rightarrow> policy_error + (string \<times> json) list" where
  "default_of d = (if \<not> py_true (py_get d ''default'') then Inr []
     else (case py_get d ''default'' of JObj m \<Rightarrow> Inr m | _ \<Rightarrow> Inl (PolicyEscape AttributeError)))"

definition load_rules ::
  "('sk, 'pk) runtime \<Rightarrow> (string \<Rightarrow> (string \<Rightarrow> bool) option) \<Rightarrow> json list \<Rightarrow> policy_error + rule list" where
  "load_rules rt rx rows =
     rbind (rmap_list (rule_from_dict rt rx) rows) (\<lambda>rules.
       (case repeated_name [] (List.map rl_name rules) of
          Some n \<Rightarrow> Inl (DuplicateRule n) | None \<Rightarrow> Inr rules))"

text \<open>The decision and the risk of the \<open>default\<close> block, and the evidence threshold.\<close>

definition load_defaults ::
  "('sk, 'pk) runtime \<Rightarrow> (string \<times> json) list \<Rightarrow> policy_error + decision \<times> risk_level \<times> risk_level" where
  "load_defaults rt d =
     rbind (default_of d) (\<lambda>dflt.
       (let dec = str_lower (py_str rt (get_or dflt ''decision'' (JStr ''block'')))
        in case decision_of dec of
             None \<Rightarrow> Inl (UnknownDecision dec)
           | Some decision \<Rightarrow>
               (case (risk_parse rt (get_or dflt ''risk'' (JStr ''R3'')),
                      risk_parse rt (get_or d ''evidence_threshold'' (JStr (risk_str default_evidence_threshold)))) of
                  (Some default_risk, Some threshold) \<Rightarrow> Inr (decision, default_risk, threshold)
                | _ \<Rightarrow> Inl BadRisk)))"

definition policy_from_dict ::
  "('sk, 'pk) runtime \<Rightarrow> (string \<Rightarrow> (string \<Rightarrow> bool) option) \<Rightarrow> json \<Rightarrow> policy_error + policy" where
  "policy_from_dict rt rx raw = (case raw of
     JObj d \<Rightarrow>
       (case py_get d ''rules'' of
          JList rows \<Rightarrow>
            if rows = [] then Inl NoRules
            else
              rbind (load_defaults rt d) (\<lambda>(decision, default_risk, threshold).
              rbind (load_rules rt rx rows) (\<lambda>rules. Inr
                \<lparr> pl_name = py_str rt (get_or d ''name'' (JStr ''sans-nom'')), pl_rules = rules,
                  pl_default_decision = decision, pl_default_risk = default_risk, pl_threshold = threshold \<rparr>))
        | _ \<Rightarrow> Inl NoRules)
   | _ \<Rightarrow> Inl NotAnObject)"

definition rule_row :: "rule \<Rightarrow> json" where
  "rule_row r = JList [JStr (rl_name r), JInt (risk_val (rl_risk r)), JStr (decision_str (rl_decision r)),
     JStr (the_text (rl_method r)), JStr (the_text (rl_host r)),
     JStr (the_text (rl_path_contains r)), JStr (the_text (rl_path_regex r))]"

definition policy_content :: "policy \<Rightarrow> json" where
  "policy_content p = JObj
     [(''name'', JStr (pl_name p)),
      (''default'', JList [JStr (decision_str (pl_default_decision p)), JInt (risk_val (pl_default_risk p))]),
      (''threshold'', JInt (risk_val (pl_threshold p))),
      (''rules'', JList (List.map rule_row (pl_rules p)))]"

definition policy_fingerprint :: "('sk, 'pk) runtime \<Rightarrow> policy \<Rightarrow> canonical_error + string" where
  "policy_fingerprint rt p = rbind (canonical_hash rt (policy_content p)) (\<lambda>h. Inr (take 16 h))"

definition version_label :: "('sk, 'pk) runtime \<Rightarrow> policy \<Rightarrow> canonical_error + string" where
  "version_label rt p = rbind (policy_fingerprint rt p) (\<lambda>f. Inr (pl_name p @ ''@'' @ f))"

section \<open>Lemmas\<close>

lemma risk_str_parse: "risk_of_text (risk_str r) = Some r"
proof -
  have "risk_of_text (risk_str R0) = Some R0" "risk_of_text (risk_str R1) = Some R1"
    "risk_of_text (risk_str R2) = Some R2" "risk_of_text (risk_str R3) = Some R3"
    "risk_of_text (risk_str R4) = Some R4" "risk_of_text (risk_str R5) = Some R5"
    by code_simp+
  then show ?thesis by (cases r) simp_all
qed

lemma decision_of_str [simp]: "decision_of (decision_str d) = Some d"
  by (cases d) (simp_all add: decision_of_def)

lemma decision_str_inj [simp]: "decision_str a = decision_str b \<longleftrightarrow> a = b"
  using decision_of_str by (metis option.inject)

lemma present_iff: "present s \<longleftrightarrow> the_text s \<noteq> []"
  by (cases s) (simp_all add: present_def the_text_def)

lemma first_match_Some:
  "first_match rx rs method host path = Some r \<longleftrightarrow>
   (\<exists>pre post. rs = pre @ r # post \<and> (\<forall>q \<in> set pre. \<not> rule_matches rx q method host path) \<and>
               rule_matches rx r method host path)"
proof (induction rs)
  case (Cons a rs)
  show ?case
  proof (cases "rule_matches rx a method host path")
    case True
    then show ?thesis by (auto simp: Cons_eq_append_conv)
  next
    case False
    show ?thesis
    proof
      assume "first_match rx (a # rs) method host path = Some r"
      then obtain pre post where "rs = pre @ r # post" "\<forall>q \<in> set pre. \<not> rule_matches rx q method host path"
        "rule_matches rx r method host path" using False Cons by auto
      then show "\<exists>pre post. a # rs = pre @ r # post \<and> (\<forall>q \<in> set pre. \<not> rule_matches rx q method host path) \<and>
          rule_matches rx r method host path"
        using False by (intro exI [of _ "a # pre"] exI [of _ post]) simp
    next
      assume "\<exists>pre post. a # rs = pre @ r # post \<and> (\<forall>q \<in> set pre. \<not> rule_matches rx q method host path) \<and>
          rule_matches rx r method host path"
      then show "first_match rx (a # rs) method host path = Some r"
        using False Cons by (auto simp: Cons_eq_append_conv)
    qed
  qed
qed simp

lemma first_match_None:
  "first_match rx rs method host path = None \<longleftrightarrow> (\<forall>r \<in> set rs. \<not> rule_matches rx r method host path)"
  by (induction rs) auto

text \<open>What a rule that was accepted satisfies.\<close>

definition rule_ok :: "(string \<Rightarrow> (string \<Rightarrow> bool) option) \<Rightarrow> rule \<Rightarrow> bool" where
  "rule_ok rx r \<longleftrightarrow> rl_name r \<noteq> [] \<and>
     (present (rl_method r) \<or> present (rl_host r) \<or> present (rl_path_contains r) \<or> present (rl_path_regex r)) \<and>
     (present (rl_path_regex r) \<longrightarrow> rx (the_text (rl_path_regex r)) \<noteq> None)"

lemma make_rule_ok: "make_rule rx n k d m h c x rs = Inr r \<Longrightarrow> rule_ok rx r"
  by (auto simp: make_rule_def rule_ok_def split: option.splits if_splits)

lemma rule_from_dict_ok: "rule_from_dict rt rx raw = Inr r \<Longrightarrow> rule_ok rx r"
  by (auto simp: rule_from_dict_def rbind_Inr_iff dest: make_rule_ok split: json.splits option.splits)

lemma repeated_name_None: "repeated_name seen ns = None \<longleftrightarrow> distinct ns \<and> set ns \<inter> set seen = {}"
  by (induction ns arbitrary: seen) auto

lemma load_rules_Inr:
  "load_rules rt rx rows = Inr rules \<longleftrightarrow>
   rmap_list (rule_from_dict rt rx) rows = Inr rules \<and> repeated_name [] (List.map rl_name rules) = None"
  by (auto simp: load_rules_def rbind_Inr_iff split: option.splits)

lemma policy_from_dict_Inr:
  assumes "policy_from_dict rt rx raw = Inr p"
  obtains rows where "rows \<noteq> []" "load_rules rt rx rows = Inr (pl_rules p)"
proof -
  obtain d where d: "raw = JObj d" using assms by (cases raw) (simp_all add: policy_from_dict_def)
  obtain rows where rows: "py_get d ''rules'' = JList rows" "rows \<noteq> []"
    using assms by (cases "py_get d ''rules''") (auto simp: policy_from_dict_def d split: if_splits)
  then show thesis
    using assms that [OF rows(2)] by (auto simp: policy_from_dict_def d rbind_Inr_iff)
qed

text \<open>What the fingerprint of a policy fixes.\<close>

lemma sort_rule_row [simp]: "sort_json (rule_row r) = rule_row r"
  by (simp add: rule_row_def)

lemma sort_elems_rows [simp]: "sort_elems (List.map rule_row rs) = List.map rule_row rs"
  by (induction rs) simp_all

lemma no_float_rows [simp]: "no_float_elems (List.map rule_row rs)" "wf_elems (List.map rule_row rs)"
  by (induction rs) (simp_all add: rule_row_def)

lemma policy_content_plain: "no_float (policy_content p)" "wf_json (policy_content p)"
  by (simp_all add: policy_content_def)

lemma policy_content_eq:
  assumes "sort_json (policy_content p) = sort_json (policy_content q)"
  shows "List.map rule_row (pl_rules p) = List.map rule_row (pl_rules q) \<and>
    pl_default_decision p = pl_default_decision q \<and> pl_default_risk p = pl_default_risk q \<and>
    pl_threshold p = pl_threshold q \<and> pl_name p = pl_name q"
proof -
  have look: "map_option sort_json (map_of kvs k) = map_option sort_json (map_of kvs' k)"
    if "policy_content p = JObj kvs" "policy_content q = JObj kvs'" for kvs kvs' k
    using that assms policy_content_plain(2) [of p] policy_content_plain(2) [of q]
    by (intro sort_json_obj_lookup) auto
  show ?thesis
    using look [OF policy_content_def policy_content_def, of "''name''"]
      look [OF policy_content_def policy_content_def, of "''default''"]
      look [OF policy_content_def policy_content_def, of "''threshold''"]
      look [OF policy_content_def policy_content_def, of "''rules''"]
    by simp
qed

lemma rule_row_matches:
  assumes "rule_row a = rule_row b"
  shows "rule_matches rx a = rule_matches rx b \<and> rl_decision a = rl_decision b \<and> rl_risk a = rl_risk b \<and>
    rl_name a = rl_name b"
  using assms by (auto simp: rule_row_def rule_matches_def present_iff fun_eq_iff)

definition decided :: "verdict \<Rightarrow> decision \<times> risk_level \<times> string" where
  "decided v = (vd_decision v, vd_risk v, vd_rule v)"

lemma first_match_rows:
  "List.map rule_row rs = List.map rule_row ss \<Longrightarrow>
   map_option rule_row (first_match rx rs method host path) = map_option rule_row (first_match rx ss method host path)"
proof (induction rs arbitrary: ss)
  case (Cons r rs)
  then obtain t ts where "ss = t # ts" "rule_row r = rule_row t" "List.map rule_row rs = List.map rule_row ts" by auto
  with Cons.IH [of ts] rule_row_matches [of r t rx] show ?case by simp
qed simp

lemma same_content_same_decisions:
  assumes "List.map rule_row (pl_rules p) = List.map rule_row (pl_rules q)"
    "pl_default_decision p = pl_default_decision q" "pl_default_risk p = pl_default_risk q"
  shows "map_option decided (evaluate rx p method url) = map_option decided (evaluate rx q method url)"
proof (cases "host_and_path url")
  case (Some hp)
  obtain host path where hp: "hp = (host, path)" by (cases hp)
  have m: "map_option rule_row (first_match rx (pl_rules p) method host path)
      = map_option rule_row (first_match rx (pl_rules q) method host path)"
    by (rule first_match_rows [OF assms(1)])
  then consider "first_match rx (pl_rules p) method host path = None" "first_match rx (pl_rules q) method host path = None"
    | a b where "first_match rx (pl_rules p) method host path = Some a"
      "first_match rx (pl_rules q) method host path = Some b" "rule_row a = rule_row b"
    by (cases "first_match rx (pl_rules p) method host path"; cases "first_match rx (pl_rules q) method host path") auto
  then show ?thesis
  proof cases
    case 1
    then show ?thesis using assms by (simp add: evaluate_def Some hp decided_def default_verdict_def)
  next
    case (2 a b)
    then show ?thesis using rule_row_matches [OF 2(3), of rx]
      by (simp add: evaluate_def Some hp decided_def verdict_of_rule_def)
  qed
qed (simp add: evaluate_def)

section \<open>Properties of the component\<close>

text \<open>The order of the file is the order of evaluation: the verdict is that of the first rule that matches
  method, host and path, whatever comes after it, and the declared default when none does.\<close>

theorem policy_first_match:
  assumes "evaluate rx p method url = Some v"
  shows "\<exists>host path. host_and_path url = Some (host, path) \<and>
    ((\<exists>pre r post. pl_rules p = pre @ r # post \<and> (\<forall>q \<in> set pre. \<not> rule_matches rx q method host path) \<and>
        rule_matches rx r method host path \<and> v = verdict_of_rule r) \<or>
     ((\<forall>r \<in> set (pl_rules p). \<not> rule_matches rx r method host path) \<and> v = default_verdict p))"
proof -
  obtain host path where hp: "host_and_path url = Some (host, path)"
    using assms by (cases "host_and_path url") (auto simp: evaluate_def)
  show ?thesis
  proof (cases "first_match rx (pl_rules p) method host path")
    case None
    then have "\<forall>r \<in> set (pl_rules p). \<not> rule_matches rx r method host path" by (simp add: first_match_None)
    moreover have "v = default_verdict p" using assms hp None by (simp add: evaluate_def)
    ultimately show ?thesis using hp by blast
  next
    case (Some r)
    then obtain pre post where "pl_rules p = pre @ r # post"
      "\<forall>q \<in> set pre. \<not> rule_matches rx q method host path" "rule_matches rx r method host path"
      using first_match_Some by metis
    moreover have "v = verdict_of_rule r" using assms hp Some by (simp add: evaluate_def)
    ultimately show ?thesis using hp by blast
  qed
qed

text \<open>A policy that loads has at least one rule, no two rules of the same name, and every rule has a name, a
  criterion, and an expression that compiles if it has one.\<close>

theorem policy_loaded_is_well_formed:
  assumes "policy_from_dict rt rx raw = Inr p"
  shows "pl_rules p \<noteq> [] \<and> distinct (List.map rl_name (pl_rules p)) \<and> list_all (rule_ok rx) (pl_rules p)"
proof -
  obtain rows where "rows \<noteq> []" "load_rules rt rx rows = Inr (pl_rules p)"
    using policy_from_dict_Inr [OF assms] by blast
  then have r: "rows \<noteq> []" "rmap_list (rule_from_dict rt rx) rows = Inr (pl_rules p)"
    "repeated_name [] (List.map rl_name (pl_rules p)) = None"
    by (simp_all add: load_rules_Inr)
  have "length (pl_rules p) = length rows" using rmap_list_Inr [OF r(2)] by simp
  with r show ?thesis
    using rmap_list_set [OF r(2)] rule_from_dict_ok
    by (fastforce simp: repeated_name_None list_all_iff)
qed

text \<open>The fingerprint cited by a record pins the policy: two policies with the same fingerprint decide every
  request alike (decision, risk and rule), or the truncated hash has a collision on their contents.\<close>

theorem policy_fingerprint_pins_decisions:
  assumes "policy_fingerprint rt p = Inr f" "policy_fingerprint rt q = Inr f"
  shows "map_option decided (evaluate rx p method url) = map_option decided (evaluate rx q method url) \<or>
    (\<exists>a b. canonical_bytes (float_repr rt) True (policy_content p) = Inr a \<and>
           canonical_bytes (float_repr rt) True (policy_content q) = Inr b \<and>
           hash_collision (take 16 \<circ> sha256_hex rt) {a, b})"
proof -
  obtain a b where ab: "canonical_bytes (float_repr rt) True (policy_content p) = Inr a"
    "canonical_bytes (float_repr rt) True (policy_content q) = Inr b"
    "take 16 (sha256_hex rt a) = f" "take 16 (sha256_hex rt b) = f"
    using assms by (auto simp: policy_fingerprint_def canonical_hash_def rbind_Inr_iff)
  show ?thesis
  proof (cases "a = b")
    case True
    then have "sort_json (policy_content p) = sort_json (policy_content q)"
      using canonical_bytes_inj [OF ab(1) _ policy_content_plain(2) policy_content_plain(2)] ab(2) by blast
    from policy_content_eq [OF this] show ?thesis
      using same_content_same_decisions by blast
  next
    case False
    then show ?thesis using ab by (auto simp: hash_collision_def)
  qed
qed

section \<open>Concrete instances\<close>

definition toy_rule :: rule where
  "toy_rule = \<lparr> rl_name = ''pay'', rl_risk = R4, rl_decision = NeedsApproval, rl_method = Some ''post'',
     rl_host = Some ''bank'', rl_path_contains = None, rl_path_regex = None, rl_reason = [] \<rparr>"

definition toy_policy :: policy where
  "toy_policy = \<lparr> pl_name = ''p'', pl_rules = [toy_rule], pl_default_decision = Block, pl_default_risk = R3,
     pl_threshold = R2 \<rparr>"

lemma toy_evaluate:
  "evaluate (\<lambda>p. None) toy_policy ''POST'' ''http://bank.example/x?y=1'' = Some (verdict_of_rule toy_rule)"
  by code_simp

theorem policy_first_match_witness:
  "\<exists>host path. host_and_path ''http://bank.example/x?y=1'' = Some (host, path)"
  using policy_first_match [OF toy_evaluate] by blast

theorem policy_loaded_is_well_formed_witness:
  "\<exists>p. policy_from_dict toy_runtime (\<lambda>p. None)
     (JObj [(''rules'', JList [JObj [(''name'', JStr ''a''), (''match'', JObj [(''method'', JStr ''GET'')])]])]) = Inr p \<and>
     pl_rules p \<noteq> []"
proof -
  have "isl (policy_from_dict toy_runtime (\<lambda>p. None)
     (JObj [(''rules'', JList [JObj [(''name'', JStr ''a''), (''match'', JObj [(''method'', JStr ''GET'')])]])])) = False"
    by code_simp
  then obtain p where p: "policy_from_dict toy_runtime (\<lambda>p. None)
     (JObj [(''rules'', JList [JObj [(''name'', JStr ''a''), (''match'', JObj [(''method'', JStr ''GET'')])]])]) = Inr p"
    by (metis isl_def obj_sumE)
  then show ?thesis using policy_loaded_is_well_formed [OF p] by blast
qed

theorem policy_fingerprint_pins_decisions_witness:
  "\<exists>f. policy_fingerprint toy_runtime toy_policy = Inr f \<and>
     (map_option decided (evaluate (\<lambda>p. None) toy_policy ''GET'' ''//h/x'')
        = map_option decided (evaluate (\<lambda>p. None) toy_policy ''GET'' ''//h/x'') \<or>
      (\<exists>a b. hash_collision (take 16 \<circ> sha256_hex toy_runtime) {a, b}))"
proof -
  obtain f where f: "policy_fingerprint toy_runtime toy_policy = Inr f"
    using policy_content_plain(1) [of toy_policy]
    by (simp add: policy_fingerprint_def canonical_hash_def canonical_bytes_Inr rbind_Inr_iff)
  from policy_fingerprint_pins_decisions [OF f f] show ?thesis using f by blast
qed

end
