(* ===== verification/Evidence.thy ===== *)
theory Evidence
  imports RiskPolicy
begin

text \<open>
  \<open>assurance/evidence.py\<close>: the record of one action, its hash, its signature, and the two verifiers, of
  one record and of a chain.  The identifier (\<open>uuid4\<close>) and the time of a record are arguments.  A signed
  record is the JSON object that is written and transmitted; the verifiers take any JSON value.
\<close>

section \<open>Records\<close>

type_synonym fields = "(string \<times> json) list"

record evidence =
  ev_agent :: string
  ev_org :: string
  ev_action :: fields
  ev_risk :: fields
  ev_authorization :: fields
  ev_execution :: fields
  ev_action_id :: string
  ev_timestamp :: int
  ev_prev_hash :: string
  ev_version :: string

definition spec_version :: string where
  "spec_version = ''0.1''"

definition genesis :: string where
  "genesis = replicate 64 (CHR ''0'')"

definition clean :: "fields \<Rightarrow> fields" where
  "clean d = List.filter (\<lambda>(k, v). v \<noteq> JNull) d"

definition json_opt :: "string option \<Rightarrow> json" where
  "json_opt s = (case s of None \<Rightarrow> JNull | Some x \<Rightarrow> JStr x)"

text \<open>\<open>{**a, **b}\<close>.\<close>

definition merge :: "fields \<Rightarrow> fields \<Rightarrow> fields" where
  "merge a b = foldl (\<lambda>d (k, v). dict_set k v d) a b"

definition evidence_build ::
  "string \<Rightarrow> int \<Rightarrow> string \<Rightarrow> string \<Rightarrow> string \<Rightarrow> string \<Rightarrow> risk_level \<Rightarrow> decision \<Rightarrow> string \<Rightarrow> string option \<Rightarrow>
   string option \<Rightarrow> string \<Rightarrow> int option \<Rightarrow> string option \<Rightarrow> string \<Rightarrow> fields \<Rightarrow> evidence" where
  "evidence_build action_id now agent org method target risk decision policy rule payload_hash status
     response_status response_hash prev_hash extra =
     \<lparr> ev_agent = agent, ev_org = org,
       ev_action = [(''method'', JStr (str_upper method)), (''target'', JStr target),
                    (''type'', JStr ''http_request''), (''payload_hash'', json_opt payload_hash)],
       ev_risk = [(''level'', JStr (risk_str risk)), (''label'', JStr (risk_str risk)),
                  (''value'', JInt (risk_val risk))],
       ev_authorization = [(''policy'', JStr policy), (''rule'', json_opt rule),
                           (''decision'', JStr (decision_str decision))],
       ev_execution = clean (merge
         [(''status'', JStr status),
          (''response_status'', case response_status of None \<Rightarrow> JNull | Some i \<Rightarrow> JInt i),
          (''response_hash'', json_opt response_hash)] extra),
       ev_action_id = action_id, ev_timestamp = now, ev_prev_hash = prev_hash,
       ev_version = spec_version \<rparr>"

definition evidence_body :: "evidence \<Rightarrow> fields" where
  "evidence_body e =
     [(''version'', JStr (ev_version e)), (''action_id'', JStr (ev_action_id e)),
      (''timestamp'', JInt (ev_timestamp e)), (''agent_id'', JStr (ev_agent e)),
      (''organization_id'', JStr (ev_org e)), (''action'', JObj (clean (ev_action e))),
      (''risk'', JObj (ev_risk e)), (''authorization'', JObj (clean (ev_authorization e))),
      (''execution'', JObj (clean (ev_execution e))), (''prev_hash'', JStr (ev_prev_hash e))]"

definition evidence_hash :: "('sk, 'pk) runtime \<Rightarrow> evidence \<Rightarrow> canonical_error + string" where
  "evidence_hash rt e = canonical_hash rt (JObj (evidence_body e))"

definition evidence_envelope :: "('sk, 'pk) runtime \<Rightarrow> 'sk \<Rightarrow> string \<Rightarrow> string \<Rightarrow> fields" where
  "evidence_envelope rt key digest issuer =
     [(''hash'', JStr digest), (''algorithm'', JStr ''Ed25519''),
      (''signature'', JStr (b64 (ed_sign rt key digest))), (''issuer'', JStr issuer),
      (''public_key'', JStr (public_pem rt key)),
      (''key_fingerprint'', JStr (key_fingerprint rt (public_pem rt key)))]"

text \<open>\<open>issuer or self.organization_id\<close>.\<close>

definition evidence_sign ::
  "('sk, 'pk) runtime \<Rightarrow> 'sk \<Rightarrow> string option \<Rightarrow> evidence \<Rightarrow> canonical_error + fields" where
  "evidence_sign rt key issuer e =
     rbind (evidence_hash rt e) (\<lambda>digest. Inr
       (evidence_body e @ [(''evidence'', JObj (evidence_envelope rt key digest
          (if present issuer then the_text issuer else ev_org e)))]))"

definition payload_digest :: "('sk, 'pk) runtime \<Rightarrow> string \<Rightarrow> string option" where
  "payload_digest rt raw = (if raw = [] then None else Some (sha256_hex rt raw))"

section \<open>Verification\<close>

definition required_fields :: "string list" where
  "required_fields = [''version'', ''action_id'', ''timestamp'', ''agent_id'', ''organization_id'',
     ''action'', ''risk'', ''authorization'', ''execution'', ''prev_hash'']"

datatype evidence_error =
    EvNotObject
  | EvMissing "string list"
  | EvUnserialisable
  | EvContentChanged
  | EvNoKey
  | EvBadKey
  | EvBadSignature
  | EvChainBroken

record report =
  rp_schema :: bool
  rp_integrity :: bool
  rp_signature :: bool
  rp_errors :: "(nat option \<times> evidence_error) list"
  rp_decision :: json
  rp_risk :: json
  rp_action_id :: json
  rp_issuer :: json
  rp_key_fingerprint :: json

definition empty_report :: report where
  "empty_report = \<lparr> rp_schema = False, rp_integrity = False, rp_signature = False, rp_errors = [],
     rp_decision = JNull, rp_risk = JNull, rp_action_id = JNull, rp_issuer = JNull,
     rp_key_fingerprint = JNull \<rparr>"

definition report_valid :: "report \<Rightarrow> bool" where
  "report_valid r = (rp_schema r \<and> rp_integrity r \<and> rp_signature r)"

definition add_error :: "evidence_error \<Rightarrow> report \<Rightarrow> report" where
  "add_error e r = r\<lparr>rp_errors := rp_errors r @ [(None, e)]\<rparr>"

text \<open>\<open>(d.get(k) or {}).get(f)\<close>: \<open>None\<close> is \<open>AttributeError\<close>, for a value that is true and no object.\<close>

definition sub_get :: "fields \<Rightarrow> string \<Rightarrow> string \<Rightarrow> json option" where
  "sub_get d k f = (if \<not> py_true (py_get d k) then Some JNull
     else (case py_get d k of JObj m \<Rightarrow> Some (py_get m f) | _ \<Rightarrow> None))"

definition body_of_record :: "fields \<Rightarrow> json" where
  "body_of_record d = JObj (List.map (\<lambda>f. (f, py_get d f)) required_fields)"

definition missing_fields :: "fields \<Rightarrow> string list" where
  "missing_fields d = List.filter (\<lambda>f. map_of d f = None) required_fields @
     (case py_get d ''evidence'' of JObj m \<Rightarrow> [] | _ \<Rightarrow> [''evidence''])"

definition envelope_of :: "fields \<Rightarrow> fields" where
  "envelope_of d = (case py_get d ''evidence'' of JObj m \<Rightarrow> m | _ \<Rightarrow> [])"

text \<open>The key to verify with: the trusted one, or the one the record carries.\<close>

definition verifying_key ::
  "('sk, 'pk) runtime \<Rightarrow> 'pk option \<Rightarrow> fields \<Rightarrow> evidence_error + 'pk" where
  "verifying_key rt trusted env = (case trusted of
     Some k \<Rightarrow> Inr k
   | None \<Rightarrow>
       if \<not> py_true (py_get env ''public_key'') then Inl EvNoKey
       else (case py_get env ''public_key'' of
               JStr pem \<Rightarrow> (case load_public_pem rt pem of Inl e \<Rightarrow> Inl EvBadKey | Inr k \<Rightarrow> Inr k)
             | _ \<Rightarrow> Inl EvBadKey))"

definition is_ascii :: "string \<Rightarrow> bool" where
  "is_ascii s = list_all (\<lambda>c. of_char c < (128 :: nat)) s"

text \<open>Decoding, encoding and verification fail with a \<open>ValueError\<close> or \<open>InvalidSignature\<close>, all caught.\<close>

definition signature_holds :: "('sk, 'pk) runtime \<Rightarrow> 'pk \<Rightarrow> fields \<Rightarrow> bool" where
  "signature_holds rt key env =
     (case unb64 (py_str rt (get_or env ''signature'' (JStr []))) of
        None \<Rightarrow> False
      | Some sig \<Rightarrow> is_ascii (py_str rt (py_get env ''hash'')) \<and>
                    ed_verify rt key sig (py_str rt (py_get env ''hash'')))"

text \<open>The checks after the schema: content, key, signature.\<close>

definition verify_content ::
  "('sk, 'pk) runtime \<Rightarrow> 'pk option \<Rightarrow> fields \<Rightarrow> report \<Rightarrow> report" where
  "verify_content rt trusted d r =
     (case canonical_hash rt (body_of_record d) of
        Inl e \<Rightarrow> add_error EvUnserialisable r
      | Inr recomputed \<Rightarrow>
          (let env = envelope_of d;
               r1 = (if py_get env ''hash'' \<noteq> JStr recomputed then add_error EvContentChanged r
                     else r\<lparr>rp_integrity := True\<rparr>)
           in case verifying_key rt trusted env of
                Inl e \<Rightarrow> add_error e r1
              | Inr key \<Rightarrow> if signature_holds rt key env then r1\<lparr>rp_signature := True\<rparr>
                           else add_error EvBadSignature r1))"

text \<open>\<open>None\<close> is the \<open>AttributeError\<close> of a record whose authorization or risk is no object.\<close>

definition verify_evidence ::
  "('sk, 'pk) runtime \<Rightarrow> 'pk option \<Rightarrow> json \<Rightarrow> report option" where
  "verify_evidence rt trusted record = (case record of
     JObj d \<Rightarrow>
       if missing_fields d \<noteq> [] then Some (add_error (EvMissing (missing_fields d)) empty_report)
       else
         (case (sub_get d ''authorization'' ''decision'', sub_get d ''risk'' ''level'') of
            (Some decision, Some level) \<Rightarrow>
              Some (verify_content rt trusted d
                (empty_report\<lparr>rp_schema := True, rp_action_id := py_get d ''action_id'', rp_decision := decision,
                   rp_risk := level, rp_issuer := py_get (envelope_of d) ''issuer'',
                   rp_key_fingerprint := py_get (envelope_of d) ''key_fingerprint''\<rparr>))
          | _ \<Rightarrow> None)
   | _ \<Rightarrow> Some (add_error EvNotObject empty_report))"

definition verify_step :: "nat \<Rightarrow> json \<Rightarrow> json \<Rightarrow> report \<Rightarrow> report \<Rightarrow> report \<times> json" where
  "verify_step i rec previous single r =
     (if \<not> report_valid single then
        (r\<lparr>rp_schema := rp_schema r \<and> rp_schema single, rp_integrity := rp_integrity r \<and> rp_integrity single,
           rp_signature := rp_signature r \<and> rp_signature single,
           rp_errors := rp_errors r @ List.map (\<lambda>(x, e). (Some i, e)) (rp_errors single)\<rparr>, previous)
      else
        (let d = (case rec of JObj m \<Rightarrow> m | _ \<Rightarrow> []);
             r1 = (if py_get d ''prev_hash'' \<noteq> previous
                   then r\<lparr>rp_integrity := False, rp_errors := rp_errors r @ [(Some i, EvChainBroken)]\<rparr> else r)
         in (r1, get_or (envelope_of d) ''hash'' (JStr genesis))))"

fun verify_from ::
  "('sk, 'pk) runtime \<Rightarrow> nat \<Rightarrow> json \<Rightarrow> report \<Rightarrow> json list \<Rightarrow> report option" where
  "verify_from rt i previous r [] = Some r"
| "verify_from rt i previous r (rec # recs) =
     (case verify_evidence rt None rec of
        None \<Rightarrow> None
      | Some single \<Rightarrow>
          (case verify_step i rec previous single r of
             (r1, previous1) \<Rightarrow> verify_from rt (Suc i) previous1 r1 recs))"

text \<open>The final \<open>action_id\<close> of the report, the count of records as text, is left out.\<close>

definition verify_chain :: "('sk, 'pk) runtime \<Rightarrow> json list \<Rightarrow> report option" where
  "verify_chain rt records =
     verify_from rt 0 (JStr genesis)
       (empty_report\<lparr>rp_schema := True, rp_integrity := True, rp_signature := True\<rparr>) records"

section \<open>What a valid record is\<close>

lemma verify_content_valid:
  assumes "rp_schema r" "\<not> rp_integrity r" "\<not> rp_signature r"
  shows "report_valid (verify_content rt trusted d r) \<longleftrightarrow>
    (\<exists>h key. canonical_hash rt (body_of_record d) = Inr h \<and> py_get (envelope_of d) ''hash'' = JStr h \<and>
       verifying_key rt trusted (envelope_of d) = Inr key \<and> signature_holds rt key (envelope_of d))"
  using assms
  by (auto simp: verify_content_def report_valid_def add_error_def Let_def split: sum.splits)

definition record_valid :: "('sk, 'pk) runtime \<Rightarrow> 'pk option \<Rightarrow> fields \<Rightarrow> bool" where
  "record_valid rt trusted d =
     (case verify_evidence rt trusted (JObj d) of None \<Rightarrow> False | Some r \<Rightarrow> report_valid r)"

lemma not_valid_empty [simp]: "\<not> report_valid (add_error e empty_report)"
  by (simp add: report_valid_def add_error_def empty_report_def)

lemma record_valid_iff:
  "record_valid rt trusted d \<longleftrightarrow>
   missing_fields d = [] \<and> sub_get d ''authorization'' ''decision'' \<noteq> None \<and> sub_get d ''risk'' ''level'' \<noteq> None \<and>
   (\<exists>h key. canonical_hash rt (body_of_record d) = Inr h \<and> py_get (envelope_of d) ''hash'' = JStr h \<and>
      verifying_key rt trusted (envelope_of d) = Inr key \<and> signature_holds rt key (envelope_of d))"
proof (cases "missing_fields d = [] \<and> sub_get d ''authorization'' ''decision'' \<noteq> None \<and> sub_get d ''risk'' ''level'' \<noteq> None")
  case True
  then obtain x y where "sub_get d ''authorization'' ''decision'' = Some x" "sub_get d ''risk'' ''level'' = Some y" by auto
  then show ?thesis
    using True by (simp add: record_valid_def verify_evidence_def verify_content_valid empty_report_def)
next
  case False
  then show ?thesis
    by (auto simp: record_valid_def verify_evidence_def split: option.splits)
qed

definition stored_hash :: "fields \<Rightarrow> string" where
  "stored_hash d = (case py_get (envelope_of d) ''hash'' of JStr h \<Rightarrow> h | _ \<Rightarrow> [])"

definition prev_of :: "fields \<Rightarrow> string" where
  "prev_of d = (case py_get d ''prev_hash'' of JStr h \<Rightarrow> h | _ \<Rightarrow> [])"

definition signed_text :: "('sk, 'pk) runtime \<Rightarrow> fields \<Rightarrow> string" where
  "signed_text rt d = utf8_encode (dumps_sorted (canonical_format (float_repr rt)) (body_of_record d))"

definition record_content :: "fields \<Rightarrow> json" where
  "record_content d = sort_json (body_of_record d)"

text \<open>Objects as Python has them: no repeated key, at any depth; and no float.\<close>

definition record_plain :: "fields \<Rightarrow> bool" where
  "record_plain d \<longleftrightarrow> wf_json (body_of_record d) \<and> no_float (body_of_record d)"

lemma distinct_required: "distinct (List.map fst (List.map (\<lambda>f. (f, py_get d f)) required_fields))"
  by (simp add: required_fields_def)

lemma canonical_hash_Inr:
  "canonical_hash rt v = Inr h \<longleftrightarrow>
   no_float v \<and> h = sha256_hex rt (utf8_encode (dumps_sorted (canonical_format (float_repr rt)) v))"
  by (auto simp: canonical_hash_def rbind_Inr_iff canonical_bytes_Inr)

lemma record_valid_stored: "record_valid rt trusted d \<Longrightarrow> stored_hash d = sha256_hex rt (signed_text rt d)"
  by (auto simp: record_valid_iff stored_hash_def signed_text_def canonical_hash_Inr)

lemma signed_text_determines:
  assumes "record_plain d" "record_plain d'" "signed_text rt d = signed_text rt d'"
  shows "prev_of d = prev_of d' \<and> record_content d = record_content d'"
proof -
  have c: "canonical_bytes (float_repr rt) True (body_of_record d) = Inr (signed_text rt d)"
    "canonical_bytes (float_repr rt) True (body_of_record d') = Inr (signed_text rt d)"
    using assms by (simp_all add: canonical_bytes_Inr record_plain_def signed_text_def)
  have eq: "sort_json (body_of_record d) = sort_json (body_of_record d')"
    using canonical_bytes_inj [OF c] assms by (simp add: record_plain_def)
  have "map_option sort_json (map_of (List.map (\<lambda>f. (f, py_get d f)) required_fields) ''prev_hash'')
      = map_option sort_json (map_of (List.map (\<lambda>f. (f, py_get d' f)) required_fields) ''prev_hash'')"
    using eq by (intro sort_json_obj_lookup distinct_required) (simp add: body_of_record_def)
  then have "sort_json (py_get d ''prev_hash'') = sort_json (py_get d' ''prev_hash'')"
    by (simp add: required_fields_def)
  then have "prev_of d = prev_of d'"
    by (cases "py_get d ''prev_hash''"; cases "py_get d' ''prev_hash''") (simp_all add: prev_of_def)
  then show ?thesis using eq by (simp add: record_content_def)
qed

interpretation evidence_chain: hash_chain "sha256_hex rt" "signed_text rt" prev_of stored_hash
    "record_valid rt None" record_content record_plain for rt :: "('sk, 'pk) runtime"
  by unfold_locales (auto simp: record_valid_stored dest: signed_text_determines)

section \<open>What a valid chain is\<close>

lemma verify_step_keeps_failure: "\<not> report_valid r \<Longrightarrow> \<not> report_valid (fst (verify_step i rec p single r))"
  by (auto simp: verify_step_def report_valid_def Let_def)

lemma verify_from_keeps_failure:
  "verify_from rt i p r recs = Some r' \<Longrightarrow> \<not> report_valid r \<Longrightarrow> \<not> report_valid r'"
proof (induction rt i p r recs rule: verify_from.induct)
  case (2 rt i p r rec recs)
  then obtain single where s: "verify_evidence rt None rec = Some single"
    by (auto split: option.splits)
  obtain r1 p1 where st: "verify_step i rec p single r = (r1, p1)" by fastforce
  then have "\<not> report_valid r1" using verify_step_keeps_failure [OF 2(3), of i rec p single] by simp
  then show ?case using 2 s st by auto
qed auto

lemma valid_record_obj: "verify_evidence rt None rec = Some single \<Longrightarrow> report_valid single \<Longrightarrow> \<exists>d. rec = JObj d"
  by (cases rec) (auto simp: verify_evidence_def)

lemma verify_from_valid:
  "verify_from rt i (JStr h) r recs = Some r' \<Longrightarrow> report_valid r' \<Longrightarrow>
   \<exists>ds. recs = List.map JObj ds \<and> chained prev_of stored_hash (record_valid rt None) h ds"
proof (induction recs arbitrary: i h r)
  case (Cons rec recs)
  obtain single where s: "verify_evidence rt None rec = Some single"
    using Cons.prems(1) by (auto split: option.splits)
  obtain r1 p1 where st: "verify_step i rec (JStr h) single r = (r1, p1)" by fastforce
  have rest: "verify_from rt (Suc i) p1 r1 recs = Some r'" using Cons.prems(1) s st by simp
  have r1: "report_valid r1" using verify_from_keeps_failure [OF rest] Cons.prems(2) by blast
  have valid: "report_valid single" "report_valid r"
    using st r1 verify_step_keeps_failure [of r i rec "JStr h" single]
    by (auto simp: verify_step_def report_valid_def split: if_splits)
  obtain d where d: "rec = JObj d" using valid_record_obj [OF s valid(1)] by blast
  have rv: "record_valid rt None d" using s valid by (simp add: record_valid_def d)
  then have hash: "py_get (envelope_of d) ''hash'' = JStr (stored_hash d)"
    by (auto simp: record_valid_iff stored_hash_def)
  have "py_get d ''prev_hash'' = JStr h"
    using st r1 valid by (auto simp: verify_step_def d report_valid_def Let_def split: if_splits)
  then have "prev_of d = h" by (simp add: prev_of_def)
  moreover have "p1 = JStr (stored_hash d)"
    using st valid hash by (auto simp: verify_step_def d Let_def get_or_def py_get_def split: option.splits)
  ultimately obtain ds where "recs = List.map JObj ds" "chained prev_of stored_hash (record_valid rt None) (stored_hash d) ds"
    "prev_of d = h"
    using Cons.IH [of "Suc i" "stored_hash d" r1] rest Cons.prems(2) by auto
  then show ?case using rv by (intro exI [of _ "d # ds"]) (simp add: d)
qed simp

lemma verify_chain_valid:
  assumes "verify_chain rt recs = Some r" "report_valid r"
  obtains ds where "recs = List.map JObj ds" "chained prev_of stored_hash (record_valid rt None) genesis ds"
  using verify_from_valid [of rt 0 genesis _ recs r] assms by (auto simp: verify_chain_def)

lemma verify_from_complete:
  "chained prev_of stored_hash (record_valid rt None) h ds \<Longrightarrow> report_valid r \<Longrightarrow>
   \<forall>d \<in> set ds. \<exists>p. py_get d ''prev_hash'' = JStr p \<Longrightarrow>
   \<exists>r'. verify_from rt i (JStr h) r (List.map JObj ds) = Some r' \<and> report_valid r' \<and> rp_errors r' = rp_errors r"
proof (induction ds arbitrary: i h r)
  case (Cons d ds)
  obtain single where s: "verify_evidence rt None (JObj d) = Some single" "report_valid single"
    using Cons.prems(1) by (auto simp: record_valid_def split: option.splits)
  have hash: "py_get (envelope_of d) ''hash'' = JStr (stored_hash d)"
    using Cons.prems(1) by (auto simp: record_valid_iff stored_hash_def)
  have "py_get d ''prev_hash'' = JStr h"
    using Cons.prems(1,3) by (auto simp: prev_of_def)
  then have "verify_step i (JObj d) (JStr h) single r = (r, JStr (stored_hash d))"
    using s(2) hash by (auto simp: verify_step_def Let_def get_or_def py_get_def split: option.splits)
  then show ?case using Cons s by simp
qed simp

section \<open>Signed records\<close>

lemma hex_ascii: "is_ascii (sha256_hex rt raw)"
proof -
  have "of_char (hex_chr d) < (128 :: nat)" if "d < 16" for d
    using that by (auto simp: hex_chr_def of_char_of)
  then have "\<forall>c \<in> set (hex2 x). of_char c < (128 :: nat)" for x
    using of_char_less [of x] by (auto simp: hex2_def less_mult_imp_div_less)
  then show ?thesis by (auto simp: is_ascii_def sha256_hex_def list_all_iff)
qed

lemma signed_record_fields:
  assumes "evidence_sign rt key issuer e = Inr d"
  obtains digest iss where "evidence_hash rt e = Inr digest"
    "envelope_of d = evidence_envelope rt key digest iss" "body_of_record d = JObj (evidence_body e)"
    "missing_fields d = []" "py_get d ''prev_hash'' = JStr (ev_prev_hash e)"
    "sub_get d ''authorization'' ''decision'' \<noteq> None" "sub_get d ''risk'' ''level'' \<noteq> None"
    "py_get d ''action_id'' = JStr (ev_action_id e)"
proof -
  obtain digest where g: "evidence_hash rt e = Inr digest"
    and d: "d = evidence_body e @ [(''evidence'', JObj (evidence_envelope rt key digest
          (if present issuer then the_text issuer else ev_org e)))]"
    using assms by (auto simp: evidence_sign_def rbind_Inr_iff)
  show thesis
    by (rule that [OF g, of "if present issuer then the_text issuer else ev_org e"])
       (simp_all add: d envelope_of_def py_get_def evidence_body_def body_of_record_def required_fields_def
          missing_fields_def sub_get_def)
qed

lemma signed_record_valid:
  assumes "runtime_ok rt" "evidence_sign rt key issuer e = Inr d" "trusted = None \<or> trusted = Some (ed_public rt key)"
  shows "record_valid rt trusted d"
proof -
  obtain digest iss where f: "evidence_hash rt e = Inr digest"
    "envelope_of d = evidence_envelope rt key digest iss" "body_of_record d = JObj (evidence_body e)"
    "missing_fields d = []"
    "sub_get d ''authorization'' ''decision'' \<noteq> None" "sub_get d ''risk'' ''level'' \<noteq> None"
    using signed_record_fields [OF assms(2)] by metis
  have h: "canonical_hash rt (body_of_record d) = Inr digest" using f(1,3) by (simp add: evidence_hash_def)
  then have "is_ascii digest" by (auto simp: canonical_hash_Inr hex_ascii)
  then have s: "signature_holds rt (ed_public rt key) (envelope_of d)"
    using assms(1) by (simp add: signature_holds_def f(2) evidence_envelope_def get_or_def py_get_def
        b64_roundtrip runtime_ok_def)
  have "verifying_key rt trusted (envelope_of d) = Inr (ed_public rt key)"
    using assms(1,3) by (auto simp: verifying_key_def f(2) evidence_envelope_def py_get_def py_true_def
        public_pem_def load_public_pem_def runtime_ok_def)
  moreover have "py_get (envelope_of d) ''hash'' = JStr digest"
    by (simp add: f(2) evidence_envelope_def py_get_def)
  ultimately show ?thesis using f(4-6) h s by (simp add: record_valid_iff)
qed

lemma signed_record_chain_fields:
  assumes "evidence_sign rt key issuer e = Inr d"
  shows "prev_of d = ev_prev_hash e \<and> evidence_hash rt e = Inr (stored_hash d) \<and>
    py_get d ''prev_hash'' = JStr (ev_prev_hash e)"
proof -
  obtain digest iss where f: "evidence_hash rt e = Inr digest"
    "envelope_of d = evidence_envelope rt key digest iss" "py_get d ''prev_hash'' = JStr (ev_prev_hash e)"
    using signed_record_fields [OF assms] by metis
  then show ?thesis by (simp add: prev_of_def stored_hash_def evidence_envelope_def py_get_def)
qed

section \<open>Properties of the component\<close>

text \<open>A record that was signed verifies, with the signer's key as the trusted one and with the key it
  carries, without any error.\<close>

theorem evidence_sign_verify:
  assumes "runtime_ok rt" "evidence_sign rt key issuer e = Inr d" "trusted \<in> {None, Some (ed_public rt key)}"
  shows "\<exists>r. verify_evidence rt trusted (JObj d) = Some r \<and> report_valid r \<and>
    rp_action_id r = JStr (ev_action_id e)"
proof -
  have v: "record_valid rt trusted d" using signed_record_valid [OF assms(1,2)] assms(3) by auto
  obtain r where r: "verify_evidence rt trusted (JObj d) = Some r" "report_valid r"
    using v by (auto simp: record_valid_def split: option.splits)
  have keep: "rp_action_id (verify_content rt trusted d r0) = rp_action_id r0" for r0
    by (simp add: verify_content_def add_error_def Let_def split: sum.split)
  have "missing_fields d = []" using v by (simp add: record_valid_iff)
  moreover have "py_get d ''action_id'' = JStr (ev_action_id e)"
    using signed_record_fields [OF assms(2)] by metis
  ultimately have "rp_action_id r = JStr (ev_action_id e)"
    using r(1) by (auto simp: verify_evidence_def keep split: option.splits)
  with r show ?thesis by blast
qed

text \<open>C31: a record accepted under a trusted key carries a signature of that key over the digest of its content:
  nothing of the content can differ from what was signed, up to a SHA-256 collision.\<close>

theorem evidence_accepted_is_signed:
  assumes "verify_evidence rt (Some key) (JObj d) = Some r" "report_valid r"
  shows "\<exists>sig. unb64 (py_str rt (get_or (envelope_of d) ''signature'' (JStr []))) = Some sig \<and>
    ed_verify rt key sig (stored_hash d) \<and> stored_hash d = sha256_hex rt (signed_text rt d) \<and>
    (\<forall>d'. record_plain d \<and> record_plain d' \<and> record_valid rt None d' \<and> stored_hash d' = stored_hash d \<longrightarrow>
        record_content d' = record_content d \<or> hash_collision (sha256_hex rt) {signed_text rt d, signed_text rt d'})"
proof -
  have v: "record_valid rt (Some key) d" using assms by (simp add: record_valid_def)
  note st = record_valid_stored [OF v]
  obtain h where h: "py_get (envelope_of d) ''hash'' = JStr h" "signature_holds rt key (envelope_of d)"
    using v by (auto simp: record_valid_iff verifying_key_def)
  then obtain sig where "unb64 (py_str rt (get_or (envelope_of d) ''signature'' (JStr []))) = Some sig"
    "ed_verify rt key sig (stored_hash d)"
    by (auto simp: signature_holds_def stored_hash_def split: option.splits)
  moreover have "record_content d' = record_content d \<or> hash_collision (sha256_hex rt) {signed_text rt d, signed_text rt d'}"
    if "record_plain d" "record_plain d'" "record_valid rt None d'" "stored_hash d' = stored_hash d" for d'
  proof (cases "signed_text rt d = signed_text rt d'")
    case True
    then show ?thesis using signed_text_determines [OF that(1,2) True] by simp
  next
    case False
    moreover have "sha256_hex rt (signed_text rt d) = sha256_hex rt (signed_text rt d')"
      using st record_valid_stored [OF that(3)] that(4) by simp
    ultimately show ?thesis by (auto simp: hash_collision_def)
  qed
  ultimately show ?thesis using st by blast
qed

text \<open>Two chains of records that the verifier accepts, of the same length and ending in the same digest, agree
  on the content of every record, or a SHA-256 collision is at hand: nothing can be altered, removed or
  inserted before a digest one has kept.\<close>

theorem evidence_chain_tamper_evident:
  assumes "verify_chain rt (List.map JObj xs) = Some r" "report_valid r"
    "verify_chain rt (List.map JObj ys) = Some r'" "report_valid r'"
    "\<forall>d \<in> set xs \<union> set ys. record_plain d" "length xs = length ys"
    "chain_head stored_hash genesis xs = chain_head stored_hash genesis ys"
  shows "List.map record_content xs = List.map record_content ys \<or>
    hash_collision (sha256_hex rt) (signed_text rt ` (set xs \<union> set ys))"
proof -
  have inj: "List.map JObj a = List.map JObj b \<Longrightarrow> a = b" for a b
    by (rule map_injective) (auto simp: inj_def)
  have "chained prev_of stored_hash (record_valid rt None) genesis xs"
    using verify_chain_valid [OF assms(1,2)] inj by metis
  moreover have "chained prev_of stored_hash (record_valid rt None) genesis ys"
    using verify_chain_valid [OF assms(3,4)] inj by metis
  ultimately show ?thesis
    using evidence_chain.tamper_evident [of rt genesis xs genesis ys] assms(5-7) by blast
qed

section \<open>Concrete instances\<close>

definition toy_evidence :: evidence where
  "toy_evidence = evidence_build ''id1'' 7 ''agent'' ''org'' ''get'' ''http://h/x'' R2 Allow ''p@0'' (Some ''r'') None
     ''executed'' (Some 200) None genesis []"

lemma toy_evidence_plain: "no_float (JObj (evidence_body toy_evidence))"
  by (simp add: toy_evidence_def evidence_build_def evidence_body_def clean_def merge_def json_opt_def)

lemma toy_signed: "\<exists>d. evidence_sign toy_runtime ''k'' None toy_evidence = Inr d"
  using toy_evidence_plain
  by (simp add: evidence_sign_def evidence_hash_def rbind_Inr_iff canonical_hash_Inr)

lemma toy_signed_plain:
  assumes "evidence_sign toy_runtime ''k'' None toy_evidence = Inr d" shows "record_plain d"
proof -
  have "body_of_record d = JObj (evidence_body toy_evidence)" using signed_record_fields [OF assms] by metis
  moreover have "wf_json (JObj (evidence_body toy_evidence))"
    by (simp add: toy_evidence_def evidence_build_def evidence_body_def clean_def merge_def json_opt_def)
  ultimately show ?thesis using toy_evidence_plain by (simp add: record_plain_def)
qed

theorem evidence_sign_verify_witness:
  "\<exists>d r. evidence_sign toy_runtime ''k'' None toy_evidence = Inr d \<and>
     verify_evidence toy_runtime None (JObj d) = Some r \<and> report_valid r"
proof -
  obtain d where d: "evidence_sign toy_runtime ''k'' None toy_evidence = Inr d" using toy_signed by blast
  from evidence_sign_verify [OF toy_runtime_ok d, of None] show ?thesis using d by auto
qed

theorem evidence_accepted_is_signed_witness:
  "\<exists>d sig. evidence_sign toy_runtime ''k'' None toy_evidence = Inr d \<and>
     ed_verify toy_runtime ''k'' sig (stored_hash d)"
proof -
  obtain d where d: "evidence_sign toy_runtime ''k'' None toy_evidence = Inr d" using toy_signed by blast
  have "record_valid toy_runtime (Some (ed_public toy_runtime ''k'')) d"
    using signed_record_valid [OF toy_runtime_ok d] by blast
  then obtain r where r: "verify_evidence toy_runtime (Some ''k'') (JObj d) = Some r" "report_valid r"
    by (auto simp: record_valid_def toy_runtime_def split: option.splits)
  from evidence_accepted_is_signed [OF r] d show ?thesis by blast
qed

theorem evidence_chain_tamper_evident_witness:
  "\<exists>d r. evidence_sign toy_runtime ''k'' None toy_evidence = Inr d \<and>
     verify_chain toy_runtime [JObj d] = Some r \<and>
     (List.map record_content [d] = List.map record_content [d] \<or>
      hash_collision (sha256_hex toy_runtime) {signed_text toy_runtime d})"
proof -
  obtain d where d: "evidence_sign toy_runtime ''k'' None toy_evidence = Inr d" using toy_signed by blast
  have "record_valid toy_runtime None d" using signed_record_valid [OF toy_runtime_ok d] by blast
  moreover have "prev_of d = genesis" "\<exists>p. py_get d ''prev_hash'' = JStr p"
    using signed_record_chain_fields [OF d] by (simp_all add: toy_evidence_def evidence_build_def)
  moreover have "report_valid (empty_report\<lparr>rp_schema := True, rp_integrity := True, rp_signature := True\<rparr>)"
    by (simp add: report_valid_def)
  ultimately obtain r where r: "verify_chain toy_runtime (List.map JObj [d]) = Some r" "report_valid r"
    using verify_from_complete [of toy_runtime genesis "[d]"
        "empty_report\<lparr>rp_schema := True, rp_integrity := True, rp_signature := True\<rparr>" 0]
    unfolding verify_chain_def by auto
  have "\<forall>x \<in> set [d] \<union> set [d]. record_plain x" using toy_signed_plain [OF d] by simp
  from evidence_chain_tamper_evident [OF r r this] d r(1) show ?thesis by auto
qed

end
