(* ===== verification/ActionApproval.thy ===== *)
theory ActionApproval
  imports Consumable PyValues
begin

text \<open>
  \<open>assurance/approval.py\<close>: the approvals a human has granted for single actions.  The file behind the
  store is represented by the list of dictionaries it holds.
\<close>

record approval =
  ap_action_id :: string
  ap_method :: string
  ap_target :: string
  ap_approved_by :: string
  ap_approved_at :: int
  ap_expires_at :: int
  ap_used_at :: "int option"

datatype approval_error = NotApproved | AlreadySpent | ApprovalExpired | OtherAction

type_synonym approvals = "(string \<times> approval) list"

definition approval_header :: string where
  "approval_header = ''X-InterMesh-Approval''"

definition default_ttl_ms :: int where
  "default_ttl_ms = 3600000"

definition approval_spent :: "approval \<Rightarrow> bool" where
  "approval_spent a = (ap_used_at a \<noteq> None)"

definition approval_is_expired :: "approval \<Rightarrow> int \<Rightarrow> bool" where
  "approval_is_expired a now = (now > ap_expires_at a)"

definition approval_to_dict :: "approval \<Rightarrow> json" where
  "approval_to_dict a = JObj
     [(''action_id'', JStr (ap_action_id a)), (''method'', JStr (ap_method a)),
      (''target'', JStr (ap_target a)), (''approved_by'', JStr (ap_approved_by a)),
      (''approved_at'', JInt (ap_approved_at a)), (''expires_at'', JInt (ap_expires_at a)),
      (''used_at'', case ap_used_at a of None \<Rightarrow> JNull | Some t \<Rightarrow> JInt t)]"

text \<open>A missing field, an unreadable number or a \<open>used_at\<close> that is no integer give \<open>None\<close>.\<close>

definition approval_from_dict :: "('sk, 'pk) runtime \<Rightarrow> json \<Rightarrow> approval option" where
  "approval_from_dict rt raw = (case raw of
     JObj d \<Rightarrow>
       if \<exists>k \<in> set [''action_id'', ''method'', ''target'', ''approved_by'', ''approved_at'', ''expires_at''].
            map_of d k = None
       then None
       else (case (py_int (py_get d ''approved_at''), py_int (py_get d ''expires_at''), py_get d ''used_at'') of
               (Inr given, Inr ex, JNull) \<Rightarrow> Some
                 \<lparr> ap_action_id = py_str rt (py_get d ''action_id''), ap_method = py_str rt (py_get d ''method''),
                   ap_target = py_str rt (py_get d ''target''), ap_approved_by = py_str rt (py_get d ''approved_by''),
                   ap_approved_at = given, ap_expires_at = ex, ap_used_at = None \<rparr>
             | (Inr given, Inr ex, JInt t) \<Rightarrow> Some
                 \<lparr> ap_action_id = py_str rt (py_get d ''action_id''), ap_method = py_str rt (py_get d ''method''),
                   ap_target = py_str rt (py_get d ''target''), ap_approved_by = py_str rt (py_get d ''approved_by''),
                   ap_approved_at = given, ap_expires_at = ex, ap_used_at = Some t \<rparr>
             | _ \<Rightarrow> None)
   | _ \<Rightarrow> None)"

definition approvals_saved :: "approvals \<Rightarrow> json list" where
  "approvals_saved st = List.map (approval_to_dict \<circ> snd) st"

definition approvals_load :: "('sk, 'pk) runtime \<Rightarrow> json list \<Rightarrow> approvals option" where
  "approvals_load rt rows =
     map_option (foldl (\<lambda>st a. dict_set (ap_action_id a) a st) []) (those (List.map (approval_from_dict rt) rows))"

definition grant_approval ::
  "int \<Rightarrow> string \<Rightarrow> string \<Rightarrow> string \<Rightarrow> string \<Rightarrow> int \<Rightarrow> approvals \<Rightarrow> approval \<times> approvals" where
  "grant_approval now action_id method target approved_by ttl_ms st =
     (let a = \<lparr> ap_action_id = action_id, ap_method = str_upper method, ap_target = target,
                ap_approved_by = approved_by, ap_approved_at = now, ap_expires_at = now + ttl_ms,
                ap_used_at = None \<rparr>
      in (a, dict_set action_id a st))"

definition consume_approval ::
  "int \<Rightarrow> string \<Rightarrow> string \<Rightarrow> string \<Rightarrow> approvals \<Rightarrow> (approval_error + approval) \<times> approvals" where
  "consume_approval now action_id method target st =
     (case map_of st action_id of
        None \<Rightarrow> (Inl NotApproved, st)
      | Some a \<Rightarrow>
          if approval_spent a then (Inl AlreadySpent, st)
          else if approval_is_expired a now then (Inl ApprovalExpired, st)
          else if ap_method a \<noteq> str_upper method \<or> ap_target a \<noteq> target then (Inl OtherAction, st)
          else (let a' = a\<lparr>ap_used_at := Some now\<rparr> in (Inr a', dict_set action_id a' st)))"

lemma consume_cases:
  assumes "consume_approval now i m t st = (r, st')"
  obtains (refused) e where "r = Inl e" "st' = st"
  | (consumed) a where "map_of st i = Some a" "ap_used_at a = None" "now \<le> ap_expires_at a"
      "ap_method a = str_upper m" "ap_target a = t" "r = Inr (a\<lparr>ap_used_at := Some now\<rparr>)"
      "st' = dict_set i (a\<lparr>ap_used_at := Some now\<rparr>) st"
proof (cases "map_of st i")
  case None
  then show thesis using assms by (intro refused [of NotApproved]) (simp_all add: consume_approval_def)
next
  case (Some a)
  show thesis
  proof (cases "approval_spent a \<or> approval_is_expired a now \<or> ap_method a \<noteq> str_upper m \<or> ap_target a \<noteq> t")
    case True
    then have "\<exists>e. r = Inl e \<and> st' = st"
      using assms Some by (auto simp: consume_approval_def split: if_splits)
    then show thesis using refused by blast
  next
    case False
    show thesis
      by (rule consumed [OF Some])
         (use assms Some False in \<open>simp_all add: consume_approval_def approval_spent_def approval_is_expired_def Let_def\<close>)
  qed
qed

section \<open>Each grant is used at most once\<close>

datatype approval_op =
    Grant int string string string string int
  | Consume int string string string

fun approval_exec :: "approval_op \<Rightarrow> approvals \<Rightarrow> approvals" where
  "approval_exec (Grant now i m t b ttl) st = snd (grant_approval now i m t b ttl st)"
| "approval_exec (Consume now i m t) st = snd (consume_approval now i m t st)"

fun approval_used :: "approval_op \<Rightarrow> approvals \<Rightarrow> string option" where
  "approval_used (Grant now i m t b ttl) st = None"
| "approval_used (Consume now i m t) st =
     (case fst (consume_approval now i m t st) of Inl e \<Rightarrow> None | Inr a \<Rightarrow> Some i)"

fun approval_granted :: "approval_op \<Rightarrow> string \<Rightarrow> nat" where
  "approval_granted (Grant now i m t b ttl) j = (if i = j then 1 else 0)"
| "approval_granted (Consume now i m t) j = 0"

definition approval_avail :: "approvals \<Rightarrow> string \<Rightarrow> nat" where
  "approval_avail st i = (case map_of st i of None \<Rightarrow> 0 | Some a \<Rightarrow> if approval_spent a then 0 else 1)"

interpretation approvals: consumable approval_exec approval_used approval_avail approval_granted "\<lambda>st. True"
proof
  fix op st i
  show "(if approval_used op st = Some i then 1 else 0) + approval_avail (approval_exec op st) i
      \<le> approval_avail st i + approval_granted op i"
  proof (cases op)
    case (Grant t j m tg b ttl)
    then show ?thesis
      by (auto simp: grant_approval_def Let_def approval_avail_def update_conv' approval_spent_def split: option.split)
  next
    case (Consume t j m tg)
    obtain r st' where c: "consume_approval t j m tg st = (r, st')" by fastforce
    then show ?thesis
    proof (cases rule: consume_cases)
      case (consumed a)
      then show ?thesis
        by (auto simp: Consume c approval_avail_def update_conv' approval_spent_def split: option.split)
    qed (simp add: Consume c)
  qed
qed simp

section \<open>Properties of the component\<close>

text \<open>An approval opens exactly the action it names, once, before it expires: consumption succeeds only for an
  unspent, unexpired approval of that method and target, and leaves it spent.\<close>

theorem approval_opens_its_action:
  assumes "consume_approval now i m t st = (Inr a, st')"
  shows "\<exists>g. map_of st i = Some g \<and> ap_used_at g = None \<and> now \<le> ap_expires_at g \<and>
    ap_method g = str_upper m \<and> ap_target g = t \<and>
    map_of st' i = Some (g\<lparr>ap_used_at := Some now\<rparr>) \<and>
    (\<forall>now' m' t'. fst (consume_approval now' i m' t' st') = Inl AlreadySpent)"
  using assms
proof (cases rule: consume_cases)
  case (consumed g)
  then have "fst (consume_approval now' i m' t' st') = Inl AlreadySpent" for now' m' t'
    by (simp add: consume_approval_def update_conv' approval_spent_def)
  with consumed show ?thesis by (simp add: update_conv')
qed simp

text \<open>Over any sequence of grants and consumptions from an empty store, an identifier is consumed at most as
  often as it was granted, so at most once when it was granted once.\<close>

theorem approvals_consumed_at_most_granted:
  "count_list (spends approval_exec approval_used [] ops) i \<le> granted_by approval_granted ops i"
  using approvals.spends_bounded [where s = "[]" and ops = ops and t = i] by (simp add: approval_avail_def)

text \<open>Saved approvals are read back unchanged, spent ones as spent.\<close>

theorem approvals_save_load:
  assumes "distinct (List.map fst st)" "\<forall>(k, a) \<in> set st. ap_action_id a = k"
  shows "approvals_load rt (approvals_saved st) = Some st"
proof -
  have one: "approval_from_dict rt (approval_to_dict a) = Some a" for a
    by (cases "ap_used_at a")
       (simp_all add: approval_from_dict_def approval_to_dict_def py_get_def)
  have all: "those (List.map (approval_from_dict rt) (approvals_saved xs)) = Some (List.map snd xs)" for xs
    by (induction xs) (simp_all add: approvals_saved_def one)
  show ?thesis
    using foldl_dict_set_by [of "[]" st ap_action_id] assms by (auto simp: approvals_load_def all split_beta)
qed

section \<open>Concrete instances\<close>

definition toy_approvals :: approvals where
  "toy_approvals = snd (grant_approval 0 ''a1'' ''post'' ''http://h/pay'' ''carol'' 100 [])"

lemma toy_consume:
  "consume_approval 5 ''a1'' ''POST'' ''http://h/pay'' toy_approvals
     = (Inr ((fst (grant_approval 0 ''a1'' ''post'' ''http://h/pay'' ''carol'' 100 []))\<lparr>ap_used_at := Some 5\<rparr>),
        [(''a1'', (fst (grant_approval 0 ''a1'' ''post'' ''http://h/pay'' ''carol'' 100 []))\<lparr>ap_used_at := Some 5\<rparr>)])"
proof -
  have "str_upper ''post'' = ''POST''" "str_upper ''POST'' = ''POST''" by code_simp+
  then show ?thesis
    by (simp add: consume_approval_def toy_approvals_def grant_approval_def approval_spent_def
        approval_is_expired_def Let_def)
qed

theorem approval_opens_its_action_witness:
  "fst (consume_approval 6 ''a1'' ''POST'' ''http://h/pay''
     (snd (consume_approval 5 ''a1'' ''POST'' ''http://h/pay'' toy_approvals))) = Inl AlreadySpent"
  unfolding toy_consume using approval_opens_its_action [OF toy_consume] by auto

theorem approvals_save_load_witness:
  "approvals_load toy_runtime (approvals_saved toy_approvals) = Some toy_approvals"
  by (rule approvals_save_load) (simp_all add: toy_approvals_def grant_approval_def Let_def)

end
