(* ===== verification/Escrow.thy ===== *)
theory Escrow
  imports Consumable PyValues "HOL-Library.Product_Lexorder"
begin

text \<open>
  \<open>escrow.py\<close>: funds held between two organisations while a task runs.  Balances are filed under
  (organisation, currency); a hold takes its amount from the payer and gives it to exactly one of the
  two parties.  Amounts are exact rationals where the code has floats; the identifier and the time of
  a hold are arguments.
\<close>

datatype escrow_status = Held | Released | Refunded

definition status_value :: "escrow_status \<Rightarrow> string" where
  "status_value s = (case s of Held \<Rightarrow> ''held'' | Released \<Rightarrow> ''released'' | Refunded \<Rightarrow> ''refunded'')"

definition escrow_status_of :: "string \<Rightarrow> escrow_status option" where
  "escrow_status_of v = List.find (\<lambda>s. status_value s = v) [Held, Released, Refunded]"

datatype escrow_error =
    AmountNotPositive
  | TaskIdRequired
  | DuplicateHold
  | InsufficientFunds
  | NoHold
  | AlreadyResolved escrow_status

record escrow_hold =
  eh_hold_id :: string
  eh_task_id :: string
  eh_payer :: string
  eh_payee :: string
  eh_amount :: rat
  eh_currency :: string
  eh_status :: escrow_status
  eh_auto_release :: bool
  eh_created_at :: rat
  eh_resolved_at :: json
  eh_metadata :: json

type_synonym balances = "((string \<times> string) \<times> rat) list"

record escrow =
  es_balances :: balances
  es_holds :: "escrow_hold dict"

section \<open>The simulated ledger\<close>

definition funds :: "balances \<Rightarrow> string \<Rightarrow> string \<Rightarrow> rat" where
  "funds b org cur = (case map_of b (org, cur) of None \<Rightarrow> 0 | Some a \<Rightarrow> a)"

definition credit :: "string \<Rightarrow> rat \<Rightarrow> string \<Rightarrow> balances \<Rightarrow> balances" where
  "credit org amount cur b = dict_set (org, cur) (funds b org cur + amount) b"

definition grant :: "string \<Rightarrow> rat \<Rightarrow> string \<Rightarrow> balances \<Rightarrow> escrow_error + balances" where
  "grant org amount cur b = (if amount \<le> 0 then Inl AmountNotPositive else Inr (credit org amount cur b))"

definition debit :: "string \<Rightarrow> rat \<Rightarrow> string \<Rightarrow> balances \<Rightarrow> bool \<times> balances" where
  "debit org amount cur b =
     (if funds b org cur < amount then (False, b)
      else (True, dict_set (org, cur) (funds b org cur - amount) b))"

definition balance_row :: "(string \<times> string) \<times> rat \<Rightarrow> json" where
  "balance_row kv = (case kv of ((org, cur), amount) \<Rightarrow>
     JObj [(''org_id'', JStr org), (''currency'', JStr cur), (''amount'', JFloat amount)])"

definition ledger_rows :: "balances \<Rightarrow> json list" where
  "ledger_rows b = List.map balance_row (sort_key fst b)"

text \<open>Rows whose identifiers are no strings are refused: the exporter writes none.\<close>

definition balance_of_row :: "json \<Rightarrow> ((string \<times> string) \<times> rat) option" where
  "balance_of_row r = (case r of
     JObj d \<Rightarrow>
       (case (map_of d ''org_id'', map_of d ''currency'', map_option py_float (map_of d ''amount'')) of
          (Some (JStr org), Some (JStr cur), Some (Inr a)) \<Rightarrow> Some ((org, cur), a)
        | _ \<Rightarrow> None)
   | _ \<Rightarrow> None)"

definition ledger_of_rows :: "json list \<Rightarrow> balances option" where
  "ledger_of_rows rows =
     map_option (foldl (\<lambda>b kv. dict_set (fst kv) (snd kv) b) []) (those (List.map balance_of_row rows))"

section \<open>The manager\<close>

definition escrow_new :: escrow where
  "escrow_new = \<lparr> es_balances = [], es_holds = [] \<rparr>"

definition create_hold ::
  "string \<Rightarrow> rat \<Rightarrow> string \<Rightarrow> string \<Rightarrow> string \<Rightarrow> rat \<Rightarrow> string \<Rightarrow> bool \<Rightarrow> json \<Rightarrow> escrow
    \<Rightarrow> (escrow_error + escrow_hold) \<times> escrow" where
  "create_hold hold_id now task_id payer payee amount cur auto metadata st =
     (if task_id = [] then (Inl TaskIdRequired, st)
      else if amount \<le> 0 then (Inl AmountNotPositive, st)
      else if map_of (es_holds st) task_id \<noteq> None then (Inl DuplicateHold, st)
      else (case debit payer amount cur (es_balances st) of
              (False, b) \<Rightarrow> (Inl InsufficientFunds, st)
            | (True, b) \<Rightarrow>
                (let h = \<lparr> eh_hold_id = hold_id, eh_task_id = task_id, eh_payer = payer, eh_payee = payee,
                           eh_amount = amount, eh_currency = cur, eh_status = Held, eh_auto_release = auto,
                           eh_created_at = now, eh_resolved_at = JNull,
                           eh_metadata = py_or metadata (JObj []) \<rparr>
                 in (Inr h, st\<lparr>es_balances := b, es_holds := dict_set task_id h (es_holds st)\<rparr>))))"

definition get_hold :: "escrow \<Rightarrow> string \<Rightarrow> escrow_hold option" where
  "get_hold st task_id = map_of (es_holds st) task_id"

definition list_holds :: "escrow \<Rightarrow> string option \<Rightarrow> escrow_hold list" where
  "list_holds st org = (case org of
     None \<Rightarrow> List.map snd (es_holds st)
   | Some o' \<Rightarrow> if o' = [] then List.map snd (es_holds st)
               else List.filter (\<lambda>h. o' \<in> {eh_payer h, eh_payee h}) (List.map snd (es_holds st)))"

definition require_held :: "escrow \<Rightarrow> string \<Rightarrow> escrow_error + escrow_hold" where
  "require_held st task_id = (case map_of (es_holds st) task_id of
     None \<Rightarrow> Inl NoHold
   | Some h \<Rightarrow> if eh_status h \<noteq> Held then Inl (AlreadyResolved (eh_status h)) else Inr h)"

definition release :: "rat \<Rightarrow> string \<Rightarrow> escrow \<Rightarrow> (escrow_error + escrow_hold) \<times> escrow" where
  "release now task_id st = (case require_held st task_id of
     Inl e \<Rightarrow> (Inl e, st)
   | Inr h \<Rightarrow>
       (let h' = h\<lparr>eh_status := Released, eh_resolved_at := JFloat now\<rparr>
        in (Inr h', st\<lparr>es_balances := credit (eh_payee h) (eh_amount h) (eh_currency h) (es_balances st),
                       es_holds := dict_set task_id h' (es_holds st)\<rparr>)))"

definition refund :: "rat \<Rightarrow> string \<Rightarrow> escrow \<Rightarrow> (escrow_error + escrow_hold) \<times> escrow" where
  "refund now task_id st = (case require_held st task_id of
     Inl e \<Rightarrow> (Inl e, st)
   | Inr h \<Rightarrow>
       (let h' = h\<lparr>eh_status := Refunded, eh_resolved_at := JFloat now\<rparr>
        in (Inr h', st\<lparr>es_balances := credit (eh_payer h) (eh_amount h) (eh_currency h) (es_balances st),
                       es_holds := dict_set task_id h' (es_holds st)\<rparr>)))"

definition hold_to_dict :: "escrow_hold \<Rightarrow> json" where
  "hold_to_dict h = JObj
     [(''hold_id'', JStr (eh_hold_id h)), (''task_id'', JStr (eh_task_id h)),
      (''payer_org'', JStr (eh_payer h)), (''payee_org'', JStr (eh_payee h)),
      (''amount'', JFloat (eh_amount h)), (''currency'', JStr (eh_currency h)),
      (''status'', JStr (status_value (eh_status h))), (''auto_release'', JBool (eh_auto_release h)),
      (''created_at'', JFloat (eh_created_at h)), (''resolved_at'', eh_resolved_at h),
      (''metadata'', eh_metadata h)]"

definition hold_of_row :: "json \<Rightarrow> escrow_hold option" where
  "hold_of_row r = (case r of
     JObj d \<Rightarrow>
       (case (map_of d ''hold_id'', map_of d ''task_id'', map_of d ''payer_org'', map_of d ''payee_org'',
              map_option py_float (map_of d ''amount''), map_of d ''currency'', map_of d ''status'',
              map_of d ''auto_release'', map_option py_float (map_of d ''created_at'')) of
          (Some (JStr i), Some (JStr t), Some (JStr p), Some (JStr q), Some (Inr a), Some (JStr c),
           Some (JStr s), Some auto, Some (Inr created)) \<Rightarrow>
            (case escrow_status_of s of
               None \<Rightarrow> None
             | Some st \<Rightarrow> Some \<lparr> eh_hold_id = i, eh_task_id = t, eh_payer = p, eh_payee = q, eh_amount = a,
                 eh_currency = c, eh_status = st, eh_auto_release = py_true auto, eh_created_at = created,
                 eh_resolved_at = py_get d ''resolved_at'',
                 eh_metadata = py_or (py_get d ''metadata'') (JObj []) \<rparr>)
        | _ \<Rightarrow> None)
   | _ \<Rightarrow> None)"

definition escrow_export :: "escrow \<Rightarrow> json" where
  "escrow_export st = JObj
     [(''ledger'', JList (ledger_rows (es_balances st))),
      (''holds'', JList (List.map (hold_to_dict \<circ> snd) (es_holds st)))]"

text \<open>\<open>state.get(k) or []\<close> as rows; anything else that is iterated makes the first row unreadable.\<close>

definition rows_at :: "(string \<times> json) list \<Rightarrow> string \<Rightarrow> json list option" where
  "rows_at state k = (let v = py_get state k in
     if \<not> py_true v then Some [] else (case v of JList vs \<Rightarrow> Some vs | _ \<Rightarrow> None))"

text \<open>The ledger is replaced before the holds are read, which stop at the first unreadable one:
  \<open>escrow_import\<close> returns whether it completed and what state it leaves.\<close>

fun import_holds :: "json list \<Rightarrow> escrow_hold dict \<Rightarrow> bool \<times> escrow_hold dict" where
  "import_holds [] d = (True, d)"
| "import_holds (r # rs) d =
     (case hold_of_row r of None \<Rightarrow> (False, d) | Some h \<Rightarrow> import_holds rs (dict_set (eh_task_id h) h d))"

definition escrow_import :: "(string \<times> json) list \<Rightarrow> escrow \<Rightarrow> bool \<times> escrow" where
  "escrow_import state st =
     (case Option.bind (rows_at state ''ledger'') ledger_of_rows of
        None \<Rightarrow> (False, st)
      | Some b \<Rightarrow>
          (case rows_at state ''holds'' of
             None \<Rightarrow> (False, \<lparr> es_balances = b, es_holds = [] \<rparr>)
           | Some rows \<Rightarrow>
               (let (ok, hs) = import_holds rows [] in (ok, \<lparr> es_balances = b, es_holds = hs \<rparr>))))"

section \<open>Runs\<close>

datatype escrow_op =
    Grant string rat string
  | CreateHold string rat string string string rat string bool json
  | Release rat string
  | Refund rat string

fun escrow_exec :: "escrow_op \<Rightarrow> escrow \<Rightarrow> escrow" where
  "escrow_exec (Grant org a cur) st =
     (case grant org a cur (es_balances st) of Inl e \<Rightarrow> st | Inr b \<Rightarrow> st\<lparr>es_balances := b\<rparr>)"
| "escrow_exec (CreateHold i now t p q a cur auto m) st = snd (create_hold i now t p q a cur auto m st)"
| "escrow_exec (Release now t) st = snd (release now t st)"
| "escrow_exec (Refund now t) st = snd (refund now t st)"

definition escrow_run :: "escrow_op list \<Rightarrow> escrow \<Rightarrow> escrow" where
  "escrow_run ops st = foldl (\<lambda>s op. escrow_exec op s) st ops"

text \<open>What a run put into circulation: the positive grants in the currency.\<close>

fun granted_in :: "string \<Rightarrow> escrow_op \<Rightarrow> rat" where
  "granted_in cur (Grant org a c) = (if c = cur \<and> 0 < a then a else 0)"
| "granted_in cur _ = 0"

definition held_amount :: "string \<Rightarrow> escrow_hold \<Rightarrow> rat" where
  "held_amount cur h = (if eh_status h = Held \<and> eh_currency h = cur then eh_amount h else 0)"

definition total_funds :: "string \<Rightarrow> escrow \<Rightarrow> rat" where
  "total_funds cur st =
     sum_list (List.map (\<lambda>kv. if snd (fst kv) = cur then snd kv else 0) (es_balances st)) +
     sum_list (List.map (\<lambda>kv. held_amount cur (snd kv)) (es_holds st))"

definition escrow_ok :: "escrow \<Rightarrow> bool" where
  "escrow_ok st \<longleftrightarrow>
     distinct (List.map fst (es_balances st)) \<and> distinct (List.map fst (es_holds st)) \<and>
     (\<forall>kv \<in> set (es_balances st). 0 \<le> snd kv) \<and>
     (\<forall>kv \<in> set (es_holds st). eh_task_id (snd kv) = fst kv \<and> 0 < eh_amount (snd kv) \<and>
        py_or (eh_metadata (snd kv)) (JObj []) = eh_metadata (snd kv))"

definition hold_avail :: "escrow \<Rightarrow> string \<Rightarrow> nat" where
  "hold_avail st t = (case map_of (es_holds st) t of None \<Rightarrow> 1 | Some h \<Rightarrow> if eh_status h = Held then 1 else 0)"

text \<open>The task whose hold an operation resolves.\<close>

fun resolves :: "escrow_op \<Rightarrow> escrow \<Rightarrow> string option" where
  "resolves (Release now t) st = (case fst (release now t st) of Inl e \<Rightarrow> None | Inr h \<Rightarrow> Some t)"
| "resolves (Refund now t) st = (case fst (refund now t st) of Inl e \<Rightarrow> None | Inr h \<Rightarrow> Some t)"
| "resolves _ st = None"


section \<open>Sums over dictionaries\<close>

lemma dict_set_sum:
  fixes f :: "'k \<times> 'v \<Rightarrow> rat"
  assumes "distinct (List.map fst d)"
  shows "sum_list (List.map f (dict_set k v d))
       = sum_list (List.map f d) - (case map_of d k of None \<Rightarrow> 0 | Some w \<Rightarrow> f (k, w)) + f (k, v)"
  using assms
proof (induction d)
  case (Cons x d)
  obtain k' w where x: "x = (k', w)" by (cases x)
  show ?case
  proof (cases "k' = k")
    case True
    then have "map_of d k = None" using Cons.prems x by (auto simp: map_of_eq_None_iff)
    then show ?thesis using True x by simp
  next
    case False
    then show ?thesis using Cons x by simp
  qed
qed simp

lemma dict_set_all:
  "distinct (List.map fst d) \<Longrightarrow> (\<forall>kv \<in> set (dict_set k v d). P kv) \<longleftrightarrow> (\<forall>kv \<in> set d. fst kv \<noteq> k \<longrightarrow> P kv) \<and> P (k, v)"
  by (induction d) (auto simp: image_iff)

lemma held_amount_simps:
  "eh_status h \<noteq> Held \<Longrightarrow> held_amount cur h = 0"
  "eh_status h = Held \<Longrightarrow> held_amount cur h = (if eh_currency h = cur then eh_amount h else 0)"
  by (simp_all add: held_amount_def)

lemma total_after_credit:
  assumes "distinct (List.map fst b)"
  shows "sum_list (List.map (\<lambda>kv. if snd (fst kv) = cur then snd kv else 0) (dict_set (org, c) (funds b org c + x) b))
       = sum_list (List.map (\<lambda>kv. if snd (fst kv) = cur then snd kv else 0) b) + (if c = cur then x else 0)"
  by (simp add: dict_set_sum [OF assms] funds_def split: option.split)

lemma total_after_hold:
  assumes "distinct (List.map fst hs)"
  shows "sum_list (List.map (\<lambda>kv. held_amount cur (snd kv)) (dict_set t h hs))
       = sum_list (List.map (\<lambda>kv. held_amount cur (snd kv)) hs)
         - (case map_of hs t of None \<Rightarrow> 0 | Some h' \<Rightarrow> held_amount cur h') + held_amount cur h"
  by (simp add: dict_set_sum [OF assms] split: option.split)

lemma funds_nonneg: "\<forall>kv \<in> set b. 0 \<le> snd kv \<Longrightarrow> 0 \<le> funds b org cur"
  by (force simp: funds_def dest: map_of_SomeD split: option.split)

section \<open>Each operation\<close>

lemma create_cases:
  obtains (refused) e where "create_hold i now t p q a cur auto m st = (Inl e, st)"
  | (held) h where "create_hold i now t p q a cur auto m st =
        (Inr h, st\<lparr>es_balances := dict_set (p, cur) (funds (es_balances st) p cur + (- a)) (es_balances st),
                   es_holds := dict_set t h (es_holds st)\<rparr>)"
      "t \<noteq> []" "0 < a" "map_of (es_holds st) t = None" "a \<le> funds (es_balances st) p cur"
      "eh_task_id h = t" "eh_amount h = a" "eh_currency h = cur" "eh_status h = Held" "eh_payer h = p"
      "eh_payee h = q" "eh_metadata h = py_or m (JObj [])"
proof (cases "t = [] \<or> a \<le> 0 \<or> map_of (es_holds st) t \<noteq> None \<or> funds (es_balances st) p cur < a")
  case True
  then have "\<exists>e. create_hold i now t p q a cur auto m st = (Inl e, st)"
    by (auto simp: create_hold_def debit_def)
  then show thesis using refused by blast
next
  case False
  show thesis
    by (rule held [of "\<lparr> eh_hold_id = i, eh_task_id = t, eh_payer = p, eh_payee = q,
          eh_amount = a, eh_currency = cur, eh_status = Held, eh_auto_release = auto,
          eh_created_at = now, eh_resolved_at = JNull, eh_metadata = py_or m (JObj []) \<rparr>"])
       (use False in \<open>simp_all add: create_hold_def debit_def Let_def\<close>)
qed

lemma require_held_iff: "require_held st t = Inr h \<longleftrightarrow> map_of (es_holds st) t = Some h \<and> eh_status h = Held"
  by (auto simp: require_held_def split: option.split)

text \<open>Release and refund share their shape: \<open>who\<close> is the party that is credited.\<close>

definition resolve_to :: "(escrow_hold \<Rightarrow> string) \<Rightarrow> escrow_status \<Rightarrow> rat \<Rightarrow> string \<Rightarrow> escrow \<Rightarrow> escrow_hold \<Rightarrow> escrow" where
  "resolve_to who s now t st h =
     st\<lparr>es_balances := dict_set (who h, eh_currency h)
          (funds (es_balances st) (who h) (eh_currency h) + eh_amount h) (es_balances st),
        es_holds := dict_set t (h\<lparr>eh_status := s, eh_resolved_at := JFloat now\<rparr>) (es_holds st)\<rparr>"

lemma release_eq: "release now t st = (case require_held st t of Inl e \<Rightarrow> (Inl e, st)
    | Inr h \<Rightarrow> (Inr (h\<lparr>eh_status := Released, eh_resolved_at := JFloat now\<rparr>), resolve_to eh_payee Released now t st h))"
  by (simp add: release_def resolve_to_def credit_def Let_def split: sum.split)

lemma refund_eq: "refund now t st = (case require_held st t of Inl e \<Rightarrow> (Inl e, st)
    | Inr h \<Rightarrow> (Inr (h\<lparr>eh_status := Refunded, eh_resolved_at := JFloat now\<rparr>), resolve_to eh_payer Refunded now t st h))"
  by (simp add: refund_def resolve_to_def credit_def Let_def split: sum.split)

lemma resolve_to_ok:
  assumes "escrow_ok st" "require_held st t = Inr h" "s \<noteq> Held"
  shows "escrow_ok (resolve_to who s now t st h) \<and> total_funds cur (resolve_to who s now t st h) = total_funds cur st"
proof -
  have h: "map_of (es_holds st) t = Some h" "eh_status h = Held" using assms(2) by (simp_all add: require_held_iff)
  then have in': "(t, h) \<in> set (es_holds st)" by (simp add: map_of_SomeD)
  have ok: "distinct (List.map fst (es_balances st))" "distinct (List.map fst (es_holds st))"
    "\<forall>kv \<in> set (es_balances st). 0 \<le> snd kv" using assms(1) by (simp_all add: escrow_ok_def)
  have hh: "eh_task_id h = t \<and> 0 < eh_amount h \<and> py_or (eh_metadata h) (JObj []) = eh_metadata h"
    using assms(1) in' by (auto simp: escrow_ok_def)
  from funds_nonneg [OF ok(3)] have "escrow_ok (resolve_to who s now t st h)"
    using assms(1) hh by (auto simp: escrow_ok_def resolve_to_def distinct_update dict_set_all ok)
  moreover have "total_funds cur (resolve_to who s now t st h) = total_funds cur st"
    using h assms(3)
    by (simp add: total_funds_def resolve_to_def total_after_credit ok total_after_hold held_amount_simps
        del: map_of_eq_Some_iff)
  ultimately show ?thesis by blast
qed

lemma py_or_idem [simp]: "py_or (py_or m (JObj [])) (JObj []) = py_or m (JObj [])"
  by (simp add: py_or_def)

lemma escrow_step:
  assumes "escrow_ok st"
  shows "escrow_ok (escrow_exec op st) \<and> total_funds cur (escrow_exec op st) = total_funds cur st + granted_in cur op"
proof (cases op)
  case (Grant org a c)
  have ok: "distinct (List.map fst (es_balances st))" "\<forall>kv \<in> set (es_balances st). 0 \<le> snd kv"
    using assms by (simp_all add: escrow_ok_def)
  from funds_nonneg [OF ok(2), of org c] Grant ok show ?thesis
    using assms
    by (auto simp: grant_def credit_def escrow_ok_def distinct_update dict_set_all total_funds_def total_after_credit)
next
  case (CreateHold i now t p q a c auto m)
  have ok: "distinct (List.map fst (es_balances st))" "distinct (List.map fst (es_holds st))"
    using assms by (simp_all add: escrow_ok_def)
  show ?thesis
  proof (cases rule: create_cases [of i now t p q a c auto m st])
    case (refused e)
    then show ?thesis using assms CreateHold by simp
  next
    case (held h)
    have "escrow_ok (escrow_exec op st)"
      using assms held by (auto simp: CreateHold escrow_ok_def distinct_update dict_set_all ok)
    moreover have "total_funds cur (escrow_exec op st) = total_funds cur st"
      using held by (simp add: CreateHold total_funds_def total_after_hold ok held_amount_simps
          total_after_credit del: add_uminus_conv_diff)
    ultimately show ?thesis by (simp add: CreateHold)
  qed
next
  case (Release now t)
  then show ?thesis using assms resolve_to_ok [OF assms, of t] by (simp add: release_eq split: sum.split)
next
  case (Refund now t)
  then show ?thesis using assms resolve_to_ok [OF assms, of t] by (simp add: refund_eq split: sum.split)
qed

lemma escrow_run_inv:
  "escrow_ok st \<Longrightarrow> escrow_ok (escrow_run ops st) \<and>
     total_funds cur (escrow_run ops st) = total_funds cur st + sum_list (List.map (granted_in cur) ops)"
proof (induction ops arbitrary: st)
  case (Cons op ops)
  then show ?case using escrow_step [OF Cons.prems, of op cur] by (simp add: escrow_run_def)
qed (simp add: escrow_run_def)

interpretation holds: consumable escrow_exec resolves hold_avail "\<lambda>op t. 0" "\<lambda>st. True"
proof
  fix op st t
  show "(if resolves op st = Some t then 1 else 0) + hold_avail (escrow_exec op st) t \<le> hold_avail st t + 0"
  proof (cases op)
    case (CreateHold i now t' p q a c auto m)
    show ?thesis
      by (cases rule: create_cases [of i now t' p q a c auto m st])
         (auto simp: CreateHold hold_avail_def update_conv' split: option.split)
  qed (auto simp: grant_def release_eq refund_eq resolve_to_def hold_avail_def update_conv' require_held_def
         split: option.split sum.split if_splits)
qed simp


lemma escrow_ok_new [simp]: "escrow_ok escrow_new"
  by (simp add: escrow_ok_def escrow_new_def)

lemma total_funds_new [simp]: "total_funds cur escrow_new = 0"
  by (simp add: total_funds_def escrow_new_def)

section \<open>Export and import\<close>

lemma balance_of_row_row [simp]: "balance_of_row (balance_row kv) = Some kv"
  by (cases kv) (auto simp: balance_row_def balance_of_row_def)

lemma ledger_rows_read:
  assumes "distinct (List.map fst b)"
  shows "ledger_of_rows (ledger_rows b) = Some (sort_key fst b)"
proof -
  have "those (List.map balance_of_row (List.map balance_row xs)) = Some xs" for xs
    by (induction xs) simp_all
  moreover have "distinct (List.map fst (sort_key fst b))"
    using assms by (simp add: distinct_fst_sort_key)
  then have "foldl (\<lambda>b kv. dict_set (fst kv) (snd kv) b) [] (sort_key fst b) = sort_key fst b"
    using foldl_dict_set_pairs [of "[]"] by simp
  ultimately show ?thesis by (simp add: ledger_of_rows_def ledger_rows_def)
qed

lemma escrow_status_of_value [simp]: "escrow_status_of (status_value s) = Some s"
  by (cases s) (simp_all add: escrow_status_of_def status_value_def)

lemma hold_of_row_dict: "py_or (eh_metadata h) (JObj []) = eh_metadata h \<Longrightarrow> hold_of_row (hold_to_dict h) = Some h"
  by (simp add: hold_of_row_def hold_to_dict_def py_get_def)

lemma import_holds_read:
  assumes "distinct (List.map fst (d @ hs))"
    "\<forall>kv \<in> set hs. eh_task_id (snd kv) = fst kv \<and> py_or (eh_metadata (snd kv)) (JObj []) = eh_metadata (snd kv)"
  shows "import_holds (List.map (hold_to_dict \<circ> snd) hs) d = (True, d @ hs)"
  using assms
proof (induction hs arbitrary: d)
  case (Cons x hs)
  then have "dict_set (fst x) (snd x) d = d @ [x]" by (simp add: dict_set_new)
  then show ?case using Cons.IH [of "d @ [x]"] Cons.prems by (simp add: hold_of_row_dict)
qed simp


lemma rows_at_list: "map_of state k = Some (JList vs) \<Longrightarrow> rows_at state k = Some vs"
  by (simp add: rows_at_def py_get_def)

lemma funds_sorted:
  assumes "distinct (List.map fst b)"
  shows "funds (sort_key fst b) org cur = funds b org cur"
proof -
  have "map_of (sort_key fst b) = map_of b"
    using assms by (intro map_of_inject_set [THEN iffD2]) (simp_all add: distinct_fst_sort_key)
  then show ?thesis by (simp add: funds_def)
qed

fun members_of :: "json \<Rightarrow> (string \<times> json) list" where
  "members_of (JObj kvs) = kvs"
| "members_of _ = []"

section \<open>Properties of the component\<close>

text \<open>After any run of grants, holds, releases and refunds, what the organisations own in a currency plus what
  is held in it is exactly what was granted in it, and no balance is negative.\<close>

theorem escrow_conserves_funds:
  "total_funds cur (escrow_run ops escrow_new) = sum_list (List.map (granted_in cur) ops) \<and>
   0 \<le> funds (es_balances (escrow_run ops escrow_new)) org cur"
proof -
  from escrow_run_inv [OF escrow_ok_new, of ops cur] show ?thesis
    by (auto simp: escrow_ok_def intro: funds_nonneg)
qed

text \<open>In any run the hold of a task is resolved at most once: it is never both released and refunded, and no
  second hold is created for a task that had one.\<close>

theorem escrow_resolved_once: "distinct (spends escrow_exec resolves escrow_new ops)"
  by (rule holds.spends_distinct) (auto simp: hold_avail_def escrow_new_def)

text \<open>A snapshot of a reachable escrow is read back with the same holds and, for every organisation and currency,
  the same funds.\<close>

theorem escrow_export_import:
  assumes "escrow_ok st"
  shows "\<exists>st'. escrow_import (members_of (escrow_export st)) st0 = (True, st') \<and>
    es_holds st' = es_holds st \<and> (\<forall>org cur. funds (es_balances st') org cur = funds (es_balances st) org cur)"
proof -
  have "import_holds (List.map (hold_to_dict \<circ> snd) (es_holds st)) [] = (True, es_holds st)"
    using assms import_holds_read [of "[]" "es_holds st"] by (simp add: escrow_ok_def)
  moreover have "ledger_of_rows (ledger_rows (es_balances st)) = Some (sort_key fst (es_balances st))"
    using assms by (simp add: escrow_ok_def ledger_rows_read)
  ultimately have "escrow_import (members_of (escrow_export st)) st0
      = (True, \<lparr> es_balances = sort_key fst (es_balances st), es_holds = es_holds st \<rparr>)"
    by (simp add: escrow_import_def escrow_export_def rows_at_list)
  then show ?thesis using assms by (simp add: funds_sorted escrow_ok_def)
qed

section \<open>Concrete instances\<close>

definition toy_escrow :: escrow where
  "toy_escrow = escrow_run [Grant ''acme'' 10 ''USD'',
     CreateHold ''h1'' 1 ''t1'' ''acme'' ''globex'' 4 ''USD'' True JNull, Release 2 ''t1''] escrow_new"

theorem escrow_export_import_witness:
  "\<exists>st'. escrow_import (members_of (escrow_export toy_escrow)) escrow_new = (True, st') \<and>
     es_holds st' = es_holds toy_escrow \<and>
     (\<forall>org cur. funds (es_balances st') org cur = funds (es_balances toy_escrow) org cur)"
proof (rule escrow_export_import)
  show "escrow_ok toy_escrow"
    using escrow_run_inv [OF escrow_ok_new] unfolding toy_escrow_def by blast
qed

end
