(* ===== verification/Throttle.thy ===== *)
theory Throttle
  imports PyValues
begin

text \<open>
  The two token buckets: \<open>ratelimit.py\<close> (one bucket per client of the gateway) and
  \<open>backpressure.py\<close> (one bucket for the submissions of a hub, behind two caps on its state).  Times are
  seconds, as exact rationals; the clock is an argument.
\<close>

section \<open>Metered services\<close>

text \<open>
  What both buckets promise: a service with some fuel, which grows with time at most at a given rate
  and of which every granted call takes one unit.  Over any window, the calls granted are bounded by
  the fuel at its start and the rate times its length.
\<close>

fun granted_calls :: "('call \<Rightarrow> 's \<Rightarrow> bool \<times> 's) \<Rightarrow> 's \<Rightarrow> 'call list \<Rightarrow> nat" where
  "granted_calls step s [] = 0"
| "granted_calls step s (c # cs) =
     (let (ok, s') = step c s in (if ok then 1 else 0) + granted_calls step s' cs)"

locale metered =
  fixes step :: "'call \<Rightarrow> 's \<Rightarrow> bool \<times> 's"
    and time :: "'call \<Rightarrow> rat"
    and fuel :: "'s \<Rightarrow> rat \<Rightarrow> rat"
    and rate :: rat
    and inv :: "rat \<Rightarrow> 's \<Rightarrow> bool"
  assumes later: "inv t s \<Longrightarrow> t \<le> now \<Longrightarrow> fuel s now \<le> fuel s t + (now - t) * rate"
    and take: "inv t s \<Longrightarrow> t \<le> time c \<Longrightarrow> step c s = (ok, s') \<Longrightarrow>
        inv (time c) s' \<and> fuel s' (time c) \<le> fuel s (time c) - (if ok then 1 else 0)"
    and nonneg: "inv t s \<Longrightarrow> 0 \<le> fuel s t"
    and rate_nonneg: "inv t s \<Longrightarrow> 0 \<le> rate"
begin

theorem window_bound:
  assumes "inv t s" "sorted (t # List.map time cs @ [e])"
  shows "of_nat (granted_calls step s cs) \<le> fuel s t + (e - t) * rate"
  using assms
proof (induction cs arbitrary: t s)
  case Nil
  have "0 \<le> (e - t) * rate" using Nil rate_nonneg [OF Nil(1)] by simp
  with nonneg [OF Nil(1)] show ?case by simp
next
  case (Cons c cs)
  obtain ok s' where st: "step c s = (ok, s')" by fastforce
  have tn: "t \<le> time c" using Cons.prems(2) by simp
  note tk = take [OF Cons.prems(1) tn st]
  have "of_nat (granted_calls step s' cs) \<le> fuel s' (time c) + (e - time c) * rate"
    using Cons.prems(2) tk by (intro Cons.IH) auto
  moreover have "fuel s (time c) \<le> fuel s t + (time c - t) * rate"
    by (rule later [OF Cons.prems(1) tn])
  ultimately show ?case using tk by (auto simp: st algebra_simps)
qed

end

section \<open>Rate limiter\<close>

record token_bucket =
  tb_rate :: rat
  tb_capacity :: rat
  tb_tokens :: rat
  tb_last_update :: rat

definition bucket_new :: "rat \<Rightarrow> rat \<Rightarrow> rat \<Rightarrow> token_bucket" where
  "bucket_new now rate capacity =
     \<lparr> tb_rate = rate, tb_capacity = capacity, tb_tokens = capacity, tb_last_update = now \<rparr>"

definition bucket_consume :: "rat \<Rightarrow> rat \<Rightarrow> token_bucket \<Rightarrow> bool \<times> token_bucket" where
  "bucket_consume now tokens b =
     (let elapsed = now - tb_last_update b;
          available = min (tb_capacity b) (tb_tokens b + elapsed * tb_rate b)
      in if available \<ge> tokens
         then (True, b\<lparr>tb_tokens := available - tokens, tb_last_update := now\<rparr>)
         else (False, b\<lparr>tb_tokens := available, tb_last_update := now\<rparr>))"

record rate_limiter =
  rl_default_rate :: rat
  rl_default_burst :: rat
  rl_buckets :: "token_bucket dict"

definition limiter_new :: "rat \<Rightarrow> rat \<Rightarrow> rate_limiter" where
  "limiter_new rate burst = \<lparr> rl_default_rate = rate, rl_default_burst = burst, rl_buckets = [] \<rparr>"

definition bucket_of :: "rat \<Rightarrow> string \<Rightarrow> rate_limiter \<Rightarrow> token_bucket" where
  "bucket_of now client l = (case map_of (rl_buckets l) client of
     None \<Rightarrow> bucket_new now (rl_default_rate l) (rl_default_burst l) | Some b \<Rightarrow> b)"

definition is_allowed :: "rat \<Rightarrow> string \<Rightarrow> rate_limiter \<Rightarrow> bool \<times> rate_limiter" where
  "is_allowed now client l =
     (let (ok, b) = bucket_consume now 1 (bucket_of now client l)
      in (ok, l\<lparr>rl_buckets := dict_set client b (rl_buckets l)\<rparr>))"

text \<open>A call is its time and its client; those of the client \<open>c\<close> are counted.\<close>

fun call_for :: "string \<Rightarrow> rat \<times> string \<Rightarrow> rate_limiter \<Rightarrow> bool \<times> rate_limiter" where
  "call_for c (now, client) l = (let (ok, l') = is_allowed now client l in (ok \<and> client = c, l'))"

definition available :: "rat \<Rightarrow> token_bucket \<Rightarrow> rat" where
  "available now b = min (tb_capacity b) (tb_tokens b + (now - tb_last_update b) * tb_rate b)"

definition bucket_ok :: "rat \<Rightarrow> rat \<Rightarrow> rat \<Rightarrow> token_bucket \<Rightarrow> bool" where
  "bucket_ok now rate burst b \<longleftrightarrow> tb_rate b = rate \<and> tb_capacity b = burst \<and>
     0 \<le> tb_tokens b \<and> tb_last_update b \<le> now"

definition limiter_ok :: "rat \<Rightarrow> rate_limiter \<Rightarrow> bool" where
  "limiter_ok now l \<longleftrightarrow> 0 \<le> rl_default_rate l \<and> 0 \<le> rl_default_burst l \<and>
     (\<forall>c b. map_of (rl_buckets l) c = Some b \<longrightarrow> bucket_ok now (rl_default_rate l) (rl_default_burst l) b)"

lemma limiter_ok_new [simp]: "0 \<le> rate \<Longrightarrow> 0 \<le> burst \<Longrightarrow> limiter_ok now (limiter_new rate burst)"
  by (simp add: limiter_ok_def limiter_new_def)

lemma bucket_consume_step:
  assumes "bucket_consume now 1 b = (ok, b')"
  shows "tb_rate b' = tb_rate b \<and> tb_capacity b' = tb_capacity b \<and> tb_last_update b' = now \<and>
    tb_tokens b' = available now b - (if ok then 1 else 0) \<and> (ok = (1 \<le> available now b))"
  using assms by (auto simp: bucket_consume_def available_def Let_def split: if_splits)

lemma available_nonneg: "bucket_ok t rate burst b \<Longrightarrow> t \<le> now \<Longrightarrow> 0 \<le> rate \<Longrightarrow> 0 \<le> burst \<Longrightarrow> 0 \<le> available now b"
  by (simp add: bucket_ok_def available_def)

lemma available_later:
  assumes "tb_rate b = rate" "0 \<le> rate" "now \<le> now'"
  shows "available now' b \<le> available now b + (now' - now) * rate"
proof -
  have "(now' - tb_last_update b) * rate = (now - tb_last_update b) * rate + (now' - now) * rate"
    by (simp add: algebra_simps)
  moreover have "0 \<le> (now' - now) * rate" using assms by simp
  ultimately show ?thesis using assms(1) by (simp add: available_def min_def)
qed

lemma bucket_of_ok:
  "limiter_ok t l \<Longrightarrow> t \<le> now \<Longrightarrow> bucket_ok now (rl_default_rate l) (rl_default_burst l) (bucket_of now c l)"
  by (force simp: limiter_ok_def bucket_of_def bucket_new_def bucket_ok_def split: option.split)

lemma limiter_ok_later: "limiter_ok t l \<Longrightarrow> t \<le> now \<Longrightarrow> limiter_ok now l"
  by (auto simp: limiter_ok_def bucket_ok_def intro: order.trans)

definition fuel_of :: "string \<Rightarrow> rate_limiter \<Rightarrow> rat \<Rightarrow> rat" where
  "fuel_of c l now = available now (bucket_of now c l)"

lemma fuel_of_burst: "limiter_ok t l \<Longrightarrow> t \<le> now \<Longrightarrow> fuel_of c l now \<le> rl_default_burst l"
  using bucket_of_ok [of t l now c] by (simp add: fuel_of_def available_def bucket_ok_def)

lemma fuel_of_nonneg: "limiter_ok t l \<Longrightarrow> t \<le> now \<Longrightarrow> 0 \<le> fuel_of c l now"
  using bucket_of_ok [of t l now c] available_nonneg [of now _ _ _ now]
  by (auto simp: fuel_of_def limiter_ok_def)

lemma fuel_of_later:
  assumes "limiter_ok t l" "t \<le> now" "now \<le> now'"
  shows "fuel_of c l now' \<le> fuel_of c l now + (now' - now) * rl_default_rate l"
proof (cases "map_of (rl_buckets l) c")
  case None
  then have "fuel_of c l x = rl_default_burst l" for x
    by (simp add: fuel_of_def bucket_of_def bucket_new_def available_def)
  then show ?thesis using assms by (simp add: limiter_ok_def)
next
  case (Some b)
  then show ?thesis
    using assms available_later [of b "rl_default_rate l" now now']
    by (auto simp: fuel_of_def bucket_of_def limiter_ok_def bucket_ok_def)
qed

lemma is_allowed_step:
  assumes ok: "limiter_ok t l" "t \<le> now" and step: "is_allowed now client l = (ok, l')"
  shows "limiter_ok now l' \<and> rl_default_rate l' = rl_default_rate l \<and> rl_default_burst l' = rl_default_burst l \<and>
    fuel_of c l' now = fuel_of c l now - (if ok \<and> client = c then 1 else 0)"
proof -
  define b where "b = bucket_of now client l"
  obtain b' where c: "bucket_consume now 1 b = (ok, b')"
    and l': "l' = l\<lparr>rl_buckets := dict_set client b' (rl_buckets l)\<rparr>"
    using step by (auto simp: is_allowed_def b_def split: prod.splits)
  note cs = bucket_consume_step [OF c]
  have bok: "bucket_ok now (rl_default_rate l) (rl_default_burst l) b"
    using bucket_of_ok [OF ok] by (simp add: b_def)
  have b'ok: "bucket_ok now (rl_default_rate l) (rl_default_burst l) b'"
    using cs bok available_nonneg [OF bok order.refl] ok(1) by (auto simp: bucket_ok_def limiter_ok_def)
  have "limiter_ok now l'"
    using limiter_ok_later [OF ok] b'ok by (auto simp: limiter_ok_def l' update_conv')
  moreover have "fuel_of c l' now = fuel_of c l now - (if ok \<and> client = c then 1 else 0)"
  proof (cases "client = c")
    case True
    have "fuel_of c l' now = available now b'"
      by (simp add: fuel_of_def bucket_of_def l' update_conv' True)
    also have "\<dots> = tb_tokens b'"
      using cs bok by (auto simp: available_def bucket_ok_def)
    finally show ?thesis using cs True by (simp add: fuel_of_def b_def)
  next
    case False
    then have "map_of (rl_buckets l') c = map_of (rl_buckets l) c" by (simp add: l' update_conv')
    moreover have "rl_default_rate l' = rl_default_rate l" "rl_default_burst l' = rl_default_burst l"
      by (simp_all add: l')
    ultimately have "bucket_of now c l' = bucket_of now c l" by (simp add: bucket_of_def cong: option.case_cong)
    then show ?thesis using False by (simp add: fuel_of_def)
  qed
  ultimately show ?thesis by (simp add: l')
qed

interpretation limiter: metered "call_for c" fst "fuel_of c" rate
    "\<lambda>t l. limiter_ok t l \<and> rl_default_rate l = rate \<and> rl_default_burst l = burst"
  for c rate burst
proof
  fix t l call ok l'
  assume inv: "limiter_ok t l \<and> rl_default_rate l = rate \<and> rl_default_burst l = burst" and t: "t \<le> fst call"
    and st: "call_for c call l = (ok, l')"
  obtain now client where call: "call = (now, client)" by (cases call)
  obtain ok' where st': "is_allowed now client l = (ok', l')" "ok = (ok' \<and> client = c)"
    using st by (auto simp: call split: prod.splits)
  show "(limiter_ok (fst call) l' \<and> rl_default_rate l' = rate \<and> rl_default_burst l' = burst) \<and>
      fuel_of c l' (fst call) \<le> fuel_of c l (fst call) - (if ok then 1 else 0)"
    using is_allowed_step [of t l now client ok' l' c] inv t st' call by auto
qed (use fuel_of_later [OF _ order.refl] fuel_of_nonneg [OF _ order.refl] in \<open>auto simp: limiter_ok_def\<close>)

section \<open>Back-pressure\<close>

text \<open>\<open>round(x)\<close>: to the nearest integer, ties to even.\<close>

definition py_round :: "rat \<Rightarrow> int" where
  "py_round x = (let f = \<lfloor>x\<rfloor>; d = x - of_int f
     in if d < 1 / 2 then f else if d > 1 / 2 then f + 1 else if even f then f else f + 1)"

lemma py_round_bounds: "x - 1 / 2 \<le> of_int (py_round x) \<and> of_int (py_round x) \<le> x + 1 / 2"
proof -
  have "of_int \<lfloor>x\<rfloor> \<le> x" "x < of_int \<lfloor>x\<rfloor> + 1" by linarith+
  moreover have "py_round x = \<lfloor>x\<rfloor> \<and> x - of_int \<lfloor>x\<rfloor> \<le> 1 / 2 \<or> py_round x = \<lfloor>x\<rfloor> + 1 \<and> 1 / 2 \<le> x - of_int \<lfloor>x\<rfloor>"
    unfolding py_round_def Let_def by (simp add: not_less)
  ultimately show ?thesis by linarith
qed

definition env_int :: "(string \<Rightarrow> string option) \<Rightarrow> string \<Rightarrow> int \<Rightarrow> int" where
  "env_int env name dflt = (case env name of
     None \<Rightarrow> dflt
   | Some raw \<Rightarrow>
       if str_strip raw = [] then dflt
       else (case int_of_text (str_strip raw) of None \<Rightarrow> dflt | Some v \<Rightarrow> if v \<ge> 0 then v else dflt))"

definition env_bool :: "(string \<Rightarrow> string option) \<Rightarrow> string \<Rightarrow> bool \<Rightarrow> bool" where
  "env_bool env name dflt = (case env name of
     None \<Rightarrow> dflt
   | Some raw \<Rightarrow> str_lower (str_strip raw) \<notin> set [''0'', ''false'', ''no'', ''off'', []])"

record bp_limits =
  bl_tasks_per_sec :: int
  bl_in_flight :: int
  bl_queue_depth :: int
  bl_enabled :: bool

definition limits_default :: bp_limits where
  "limits_default = \<lparr> bl_tasks_per_sec = 10, bl_in_flight = 200, bl_queue_depth = 100, bl_enabled = True \<rparr>"

definition limits_from_env :: "(string \<Rightarrow> string option) \<Rightarrow> bp_limits" where
  "limits_from_env env = \<lparr> bl_tasks_per_sec = env_int env ''INTERMESH_MAX_TASKS_PER_SEC'' 10,
     bl_in_flight = env_int env ''INTERMESH_MAX_TASKS_IN_FLIGHT'' 200,
     bl_queue_depth = env_int env ''INTERMESH_MAX_TASK_QUEUE_DEPTH'' 100,
     bl_enabled = env_bool env ''INTERMESH_BACKPRESSURE_ENABLED'' True \<rparr>"

datatype bp_reason = InFlightLimit | TaskQueueFull | RateLimited

definition bp_reason_text :: "bp_reason \<Rightarrow> string" where
  "bp_reason_text r = (case r of InFlightLimit \<Rightarrow> ''in_flight_limit'' | TaskQueueFull \<Rightarrow> ''task_queue_full''
     | RateLimited \<Rightarrow> ''rate_limited'')"

record bp_rejection =
  rj_reason :: bp_reason
  rj_retry_after_ms :: int
  rj_queue_depth :: int
  rj_in_flight :: int
  rj_limits :: bp_limits

definition rejection_to_dict :: "bp_rejection \<Rightarrow> json" where
  "rejection_to_dict r = JObj
     [(''code'', JStr ''HUB_SATURATED''), (''reason'', JStr (bp_reason_text (rj_reason r))),
      (''retry_after_ms'', JInt (rj_retry_after_ms r)), (''queue_depth'', JInt (rj_queue_depth r)),
      (''in_flight'', JInt (rj_in_flight r)),
      (''hub_tasks_per_sec_limit'', JInt (bl_tasks_per_sec (rj_limits r))),
      (''hub_in_flight_limit'', JInt (bl_in_flight (rj_limits r))),
      (''hub_queue_depth_limit'', JInt (bl_queue_depth (rj_limits r)))]"

record bp_gate =
  bg_limits :: bp_limits
  bg_tokens :: rat
  bg_last :: rat
  bg_accepted :: int
  bg_rejected :: int
  bg_by_reason :: "int dict"
  bg_last_logged :: "rat option"

definition bp_new :: "bp_limits option \<Rightarrow> rat \<Rightarrow> bp_gate" where
  "bp_new limits now =
     (let l = (case limits of None \<Rightarrow> limits_default | Some l \<Rightarrow> l)
      in \<lparr> bg_limits = l, bg_tokens = of_int (bl_tasks_per_sec l), bg_last = now, bg_accepted = 0,
           bg_rejected = 0, bg_by_reason = [], bg_last_logged = None \<rparr>)"

definition bp_refill :: "rat \<Rightarrow> bp_gate \<Rightarrow> bp_gate" where
  "bp_refill now g =
     (let elapsed = max 0 (now - bg_last g); capacity = of_int (bl_tasks_per_sec (bg_limits g))
      in g\<lparr>bg_last := now, bg_tokens := min capacity (bg_tokens g + elapsed * capacity)\<rparr>)"

definition retry_after_ms :: "bp_gate \<Rightarrow> int" where
  "retry_after_ms g =
     (let rate = bl_tasks_per_sec (bg_limits g)
      in if rate \<le> 0 then 1000
         else max 1 (py_round (max 0 (1 - bg_tokens g) / of_int rate * 1000)))"

definition bp_refuse :: "bp_reason \<Rightarrow> int \<Rightarrow> int \<Rightarrow> int \<Rightarrow> bp_gate \<Rightarrow> bp_rejection \<times> bp_gate" where
  "bp_refuse reason retry in_flight queue_depth g =
     (let k = bp_reason_text reason;
          n = (case map_of (bg_by_reason g) k of None \<Rightarrow> 0 | Some n \<Rightarrow> n)
      in (\<lparr> rj_reason = reason, rj_retry_after_ms = retry, rj_queue_depth = queue_depth,
            rj_in_flight = in_flight, rj_limits = bg_limits g \<rparr>,
          g\<lparr>bg_rejected := bg_rejected g + 1, bg_by_reason := dict_set k (n + 1) (bg_by_reason g)\<rparr>))"

definition bp_admit :: "int \<Rightarrow> int \<Rightarrow> rat \<Rightarrow> bp_gate \<Rightarrow> bp_rejection option \<times> bp_gate" where
  "bp_admit in_flight queue_depth now g =
     (let L = bg_limits g in
      if \<not> bl_enabled L then (None, g\<lparr>bg_accepted := bg_accepted g + 1\<rparr>)
      else if bl_in_flight L \<noteq> 0 \<and> in_flight \<ge> bl_in_flight L
        then map_prod Some id (bp_refuse InFlightLimit 1000 in_flight queue_depth g)
      else if bl_queue_depth L \<noteq> 0 \<and> queue_depth \<ge> bl_queue_depth L
        then map_prod Some id (bp_refuse TaskQueueFull 1000 in_flight queue_depth g)
      else
        (let g1 = bp_refill now g
         in if bl_tasks_per_sec L \<noteq> 0 \<and> bg_tokens g1 < 1
            then map_prod Some id (bp_refuse RateLimited (retry_after_ms g1) in_flight queue_depth g1)
            else (None, g1\<lparr>bg_tokens := bg_tokens g1 - 1, bg_accepted := bg_accepted g1 + 1\<rparr>)))"

definition note_rejection :: "rat \<Rightarrow> rat \<Rightarrow> bp_gate \<Rightarrow> bool \<times> bp_gate" where
  "note_rejection now window g =
     (if (case bg_last_logged g of None \<Rightarrow> True | Some t \<Rightarrow> now - t \<ge> window)
      then (True, g\<lparr>bg_last_logged := Some now\<rparr>) else (False, g))"

definition pct :: "int \<Rightarrow> int \<Rightarrow> int" where
  "pct v limit = (if limit = 0 then 0 else min 100 (py_round (100 * of_int v / of_int limit)))"

definition bp_snapshot :: "int \<Rightarrow> int \<Rightarrow> bp_gate \<Rightarrow> json" where
  "bp_snapshot in_flight queue_depth g =
     (let L = bg_limits g in JObj
       [(''enabled'', JBool (bl_enabled L)), (''in_flight'', JInt in_flight), (''queue_depth'', JInt queue_depth),
        (''accepted_total'', JInt (bg_accepted g)), (''rejected_total'', JInt (bg_rejected g)),
        (''rejected_by_reason'', JObj (List.map (\<lambda>(k, n). (k, JInt n)) (bg_by_reason g))),
        (''tokens_available'', JFloat (of_int (py_round (bg_tokens g * 100)) / 100)),
        (''limits'', JObj [(''tasks_per_sec'', JInt (bl_tasks_per_sec L)), (''in_flight'', JInt (bl_in_flight L)),
                           (''queue_depth'', JInt (bl_queue_depth L))]),
        (''saturation'', JObj [(''in_flight_pct'', JInt (pct in_flight (bl_in_flight L))),
                               (''queue_depth_pct'', JInt (pct queue_depth (bl_queue_depth L)))])])"


definition bp_ok :: "bp_limits \<Rightarrow> rat \<Rightarrow> bp_gate \<Rightarrow> bool" where
  "bp_ok L t g \<longleftrightarrow> bg_limits g = L \<and> bl_enabled L \<and> 0 < bl_tasks_per_sec L \<and> 0 \<le> bg_tokens g \<and> bg_last g \<le> t"

definition bp_fuel :: "bp_gate \<Rightarrow> rat \<Rightarrow> rat" where
  "bp_fuel g now = bg_tokens (bp_refill now g)"

text \<open>A submission: tasks in flight, queue depth and time.\<close>

fun bp_submit :: "int \<times> int \<times> rat \<Rightarrow> bp_gate \<Rightarrow> bool \<times> bp_gate" where
  "bp_submit (in_flight, queue_depth, now) g = map_prod (\<lambda>r. r = None) id (bp_admit in_flight queue_depth now g)"

lemma bp_refill_simps [simp]:
  "bg_limits (bp_refill now g) = bg_limits g" "bg_last (bp_refill now g) = now"
  "bg_accepted (bp_refill now g) = bg_accepted g" "bg_rejected (bp_refill now g) = bg_rejected g"
  "bg_by_reason (bp_refill now g) = bg_by_reason g"
  by (simp_all add: bp_refill_def Let_def)

lemma bp_fuel_eq:
  "bp_ok L t g \<Longrightarrow> t \<le> now \<Longrightarrow> bp_fuel g now = min (of_int (bl_tasks_per_sec L))
     (bg_tokens g + (now - bg_last g) * of_int (bl_tasks_per_sec L))"
  by (simp add: bp_fuel_def bp_refill_def bp_ok_def max_def Let_def)

lemma bp_fuel_nonneg: "bp_ok L t g \<Longrightarrow> t \<le> now \<Longrightarrow> 0 \<le> bp_fuel g now"
  by (simp add: bp_fuel_eq) (simp add: bp_ok_def)

lemma bp_admit_cases:
  assumes "bp_admit i q now g = (r, g')" "bl_enabled (bg_limits g)"
  obtains (state_cap) reason where "r = Some (fst (bp_refuse reason 1000 i q g))" "g' = snd (bp_refuse reason 1000 i q g)"
      "reason \<noteq> RateLimited"
  | (rate) "r = Some (fst (bp_refuse RateLimited (retry_after_ms (bp_refill now g)) i q (bp_refill now g)))"
      "g' = snd (bp_refuse RateLimited (retry_after_ms (bp_refill now g)) i q (bp_refill now g))"
      "bl_tasks_per_sec (bg_limits g) \<noteq> 0" "bp_fuel g now < 1"
  | (accepted) "r = None" "bl_tasks_per_sec (bg_limits g) = 0 \<or> 1 \<le> bp_fuel g now"
      "g' = (bp_refill now g)\<lparr>bg_tokens := bp_fuel g now - 1, bg_accepted := bg_accepted g + 1\<rparr>"
proof -
  let ?L = "bg_limits g"
  consider (a) "bl_in_flight ?L \<noteq> 0 \<and> i \<ge> bl_in_flight ?L"
    | (b) "\<not> (bl_in_flight ?L \<noteq> 0 \<and> i \<ge> bl_in_flight ?L)" "bl_queue_depth ?L \<noteq> 0 \<and> q \<ge> bl_queue_depth ?L"
    | (c) "\<not> (bl_in_flight ?L \<noteq> 0 \<and> i \<ge> bl_in_flight ?L)" "\<not> (bl_queue_depth ?L \<noteq> 0 \<and> q \<ge> bl_queue_depth ?L)"
    by blast
  then show thesis
  proof cases
    case a
    then show thesis using assms by (intro state_cap [of InFlightLimit]) (auto simp: bp_admit_def Let_def bp_refuse_def)
  next
    case b
    then show thesis using assms by (intro state_cap [of TaskQueueFull]) (auto simp: bp_admit_def Let_def bp_refuse_def)
  next
    case c
    show thesis
    proof (cases "bl_tasks_per_sec ?L \<noteq> 0 \<and> bp_fuel g now < 1")
      case True
      with c assms have "(r, g') = map_prod Some id
          (bp_refuse RateLimited (retry_after_ms (bp_refill now g)) i q (bp_refill now g))"
        unfolding bp_admit_def bp_fuel_def Let_def by auto
      with True show thesis by (intro rate) (auto simp: prod_eq_iff)
    next
      case False
      with c assms show thesis
        by (intro accepted) (auto simp: bp_admit_def Let_def bp_fuel_def not_less)
    qed
  qed
qed

interpretation backpressure: metered bp_submit "\<lambda>c. snd (snd c)" bp_fuel "of_int (bl_tasks_per_sec L)" "bp_ok L"
  for L
proof
  fix t g now
  assume inv: "bp_ok L t g" and t: "t \<le> now"
  have "(now - bg_last g) * of_int (bl_tasks_per_sec L)
      = (t - bg_last g) * of_int (bl_tasks_per_sec L) + (now - t) * rat_of_int (bl_tasks_per_sec L)"
    by (simp add: algebra_simps)
  moreover have "0 \<le> (now - t) * rat_of_int (bl_tasks_per_sec L)" using inv t by (simp add: bp_ok_def)
  ultimately show "bp_fuel g now \<le> bp_fuel g t + (now - t) * of_int (bl_tasks_per_sec L)"
    by (simp add: bp_fuel_eq [OF inv] t min_def)
next
  fix t g c ok g'
  assume inv: "bp_ok L t g" and t: "t \<le> snd (snd c)" and st: "bp_submit c g = (ok, g')"
  obtain i q now where c: "c = (i, q, now)" by (cases c)
  obtain r where r: "bp_admit i q now g = (r, g')" "ok = (r = None)" using st
    by (cases "bp_admit i q now g") (auto simp: c)
  have tn: "t \<le> now" using t c by simp
  have en: "bl_enabled (bg_limits g)" using inv by (simp add: bp_ok_def)
  have fuel0: "bp_fuel h now = bg_tokens h" if "bg_last h = now" "bg_tokens h \<le> of_int (bl_tasks_per_sec (bg_limits h))" for h
    using that by (simp add: bp_fuel_def bp_refill_def)
  have le: "bp_fuel g now \<le> of_int (bl_tasks_per_sec L)" using bp_fuel_eq [OF inv tn] by simp
  from r(1) en show "bp_ok L (snd (snd c)) g' \<and> bp_fuel g' (snd (snd c)) \<le> bp_fuel g (snd (snd c)) - (if ok then 1 else 0)"
  proof (cases rule: bp_admit_cases)
    case (state_cap reason)
    have "bp_fuel g' now = bp_fuel g now" by (simp add: state_cap bp_refuse_def Let_def bp_fuel_def bp_refill_def)
    then show ?thesis using inv tn by (auto simp: c r(2) state_cap bp_refuse_def Let_def bp_ok_def)
  next
    case rate
    have "bg_tokens g' = bp_fuel g now" "bg_last g' = now" "bg_limits g' = L"
      using inv by (simp_all add: rate bp_refuse_def Let_def bp_fuel_def bp_ok_def)
    then show ?thesis using inv bp_fuel_nonneg [OF inv tn] fuel0 [of g'] le
      by (auto simp: c r(2) rate bp_ok_def)
  next
    case accepted
    have "bg_tokens g' = bp_fuel g now - 1" "bg_last g' = now" "bg_limits g' = L"
      using inv by (simp_all add: accepted bp_ok_def)
    then show ?thesis using inv accepted(2) fuel0 [of g'] le
      by (auto simp: c r(2) accepted bp_ok_def)
  qed
qed (auto simp: bp_fuel_nonneg, simp add: bp_ok_def)


lemma bp_ok_new: "bl_enabled L \<Longrightarrow> 0 < bl_tasks_per_sec L \<Longrightarrow> bp_ok L now (bp_new (Some L) now)"
  by (simp add: bp_ok_def bp_new_def)

text \<open>The counters of a gate, over any calls.\<close>

definition bp_counted :: "bp_gate \<Rightarrow> bool" where
  "bp_counted g \<longleftrightarrow> distinct (List.map fst (bg_by_reason g)) \<and> sum_list (List.map snd (bg_by_reason g)) = bg_rejected g"

lemma sum_list_dict_set:
  fixes d :: "(string \<times> int) list"
  shows "distinct (List.map fst d) \<Longrightarrow> sum_list (List.map snd (dict_set k v d))
    = sum_list (List.map snd d) - (case map_of d k of None \<Rightarrow> 0 | Some n \<Rightarrow> n) + v"
proof (induction d)
  case (Cons x d)
  then have "fst x = k \<Longrightarrow> map_of d k = None" by (auto simp: map_of_eq_None_iff)
  with Cons show ?case by (cases x) auto
qed simp

lemma bp_refuse_counted:
  assumes "bp_counted g"
  shows "bp_counted (snd (bp_refuse reason ms i q g)) \<and> bg_accepted (snd (bp_refuse reason ms i q g)) = bg_accepted g \<and>
    bg_rejected (snd (bp_refuse reason ms i q g)) = bg_rejected g + 1"
  using assms
  by (auto simp: bp_refuse_def Let_def bp_counted_def distinct_update sum_list_dict_set split: option.split)

lemma bp_admit_counted:
  assumes "bp_counted g" "bp_admit i q now g = (r, g')"
  shows "bp_counted g' \<and> bg_accepted g' + bg_rejected g' = bg_accepted g + bg_rejected g + 1"
proof (cases "bl_enabled (bg_limits g)")
  case False
  then show ?thesis using assms by (auto simp: bp_admit_def Let_def bp_counted_def)
next
  case True
  have c: "bp_counted (bp_refill now g)" using assms(1) by (simp add: bp_counted_def)
  from assms(2) True show ?thesis
  proof (cases rule: bp_admit_cases)
    case (state_cap reason)
    then show ?thesis using bp_refuse_counted [OF assms(1)] by simp
  next
    case rate
    then show ?thesis using bp_refuse_counted [OF c] by simp
  next
    case accepted
    then show ?thesis using assms(1) by (simp add: bp_counted_def)
  qed
qed

lemma retry_enough:
  assumes "0 < rate" "t < 1"
  shows "1 \<le> t + of_int (max 1 (py_round (max 0 (1 - t) / of_int rate * 1000)) + 1) / 1000 * rat_of_int rate"
proof -
  let ?x = "(1 - t) / of_int rate * 1000" and ?r = "max 1 (py_round (max 0 (1 - t) / of_int rate * 1000))"
  have "?x \<le> of_int (py_round ?x) + 1" using py_round_bounds [of ?x] by linarith
  also have "of_int (py_round ?x) \<le> (of_int ?r :: rat)" using assms by (simp add: max_def)
  finally have "?x \<le> of_int (?r + 1)" by simp
  then have "?x / 1000 * of_int rate \<le> of_int (?r + 1) / 1000 * of_int rate"
    using assms(1) by (intro mult_right_mono divide_right_mono) auto
  then show ?thesis using assms(1) by simp
qed

section \<open>Properties of the component\<close>

text \<open>C34: in any window of time, whatever other clients do, a client is let through at most its burst plus the rate
  times the length of the window.\<close>

theorem rate_limit_window:
  assumes "0 \<le> rate" "0 \<le> burst" "sorted (start # List.map fst calls @ [e])"
  shows "of_nat (granted_calls (call_for c) (limiter_new rate burst) calls) \<le> burst + (e - start) * rate"
proof -
  have "limiter_ok start (limiter_new rate burst)" using assms by simp
  moreover have "fuel_of c (limiter_new rate burst) start = burst"
    by (simp add: fuel_of_def bucket_of_def limiter_new_def bucket_new_def available_def)
  ultimately show ?thesis
    using limiter.window_bound [where t = start and s = "limiter_new rate burst" and rate = rate and burst = burst
        and cs = calls and e = e and c = c] assms(3) by (simp add: limiter_new_def)
qed

text \<open>From any state the gate can be in, the submissions it accepts in a window are at most one second's worth plus
  the rate times the length of the window; every call is counted once, as accepted or under the reason of its refusal.\<close>

theorem backpressure_window:
  assumes "bp_ok L start g" "sorted (start # List.map (snd \<circ> snd) calls @ [e])"
    and "bp_counted g" "bp_admit i q now g = (r, g')"
  shows "of_nat (granted_calls bp_submit g calls) \<le> (1 + (e - start)) * of_int (bl_tasks_per_sec L) \<and>
    bp_counted g' \<and> bg_accepted g' + bg_rejected g' = bg_accepted g + bg_rejected g + 1"
proof -
  have "bp_fuel g start \<le> of_int (bl_tasks_per_sec L)" using bp_fuel_eq [OF assms(1) order.refl] by simp
  moreover have "of_nat (granted_calls bp_submit g calls) \<le> bp_fuel g start + (e - start) * of_int (bl_tasks_per_sec L)"
    using backpressure.window_bound [OF assms(1)] assms(2) by (simp add: comp_def)
  ultimately show ?thesis using bp_admit_counted [OF assms(3,4)] by (simp add: algebra_simps)
qed

text \<open>A submitter refused for its rate that waits one millisecond more than it was told is accepted, provided
  nobody else took the token and the state caps allow it.\<close>

theorem backpressure_retry_succeeds:
  assumes "bp_admit i q now g = (Some r, g')" "rj_reason r = RateLimited" "0 \<le> bl_tasks_per_sec (bg_limits g)"
    and "now + of_int (rj_retry_after_ms r + 1) / 1000 \<le> later"
    and "bl_in_flight (bg_limits g) = 0 \<or> i' < bl_in_flight (bg_limits g)"
    and "bl_queue_depth (bg_limits g) = 0 \<or> q' < bl_queue_depth (bg_limits g)"
  shows "fst (bp_admit i' q' later g') = None"
proof -
  have en: "bl_enabled (bg_limits g)" using assms(1) by (auto simp: bp_admit_def Let_def split: if_splits)
  let ?L = "bg_limits g" and ?g = "bp_refill now g"
  from assms(1) en have "g' = snd (bp_refuse RateLimited (retry_after_ms ?g) i q ?g) \<and>
      rj_retry_after_ms r = retry_after_ms ?g \<and> bl_tasks_per_sec ?L \<noteq> 0 \<and> bg_tokens ?g < 1"
    by (cases rule: bp_admit_cases) (use assms(2) in \<open>auto simp: bp_refuse_def Let_def bp_fuel_def\<close>)
  then have g': "bg_limits g' = ?L" "bg_last g' = now" "bg_tokens g' = bg_tokens ?g"
    and r: "rj_retry_after_ms r = retry_after_ms ?g" and pos: "0 < bl_tasks_per_sec ?L" and less: "bg_tokens ?g < 1"
    using assms(3) by (auto simp: bp_refuse_def Let_def)
  let ?w = "of_int (retry_after_ms ?g + 1) / (1000 :: rat)"
  have w: "?w \<le> max 0 (later - now)" using assms(4) unfolding r by linarith
  have "1 \<le> bg_tokens ?g + ?w * of_int (bl_tasks_per_sec ?L)"
    using retry_enough [OF pos less] pos by (simp add: retry_after_ms_def Let_def)
  also have "\<dots> \<le> bg_tokens ?g + max 0 (later - now) * of_int (bl_tasks_per_sec ?L)"
    using w pos by (intro add_left_mono mult_right_mono) auto
  finally have "1 \<le> bg_tokens (bp_refill later g')"
    using pos by (simp add: bp_refill_def Let_def g')
  then show ?thesis using assms(5,6) en by (auto simp: bp_admit_def Let_def g')
qed

section \<open>Concrete instances\<close>

theorem rate_limit_window_witness:
  "of_nat (granted_calls (call_for ''a'') (limiter_new 10 15) [(0, ''a''), (1 / 2, ''b''), (1, ''a'')])
     \<le> (15 :: rat) + (2 - 0) * 10"
  by (rule rate_limit_window) simp_all

definition toy_limits :: bp_limits where
  "toy_limits = \<lparr> bl_tasks_per_sec = 3, bl_in_flight = 5, bl_queue_depth = 0, bl_enabled = True \<rparr>"

definition toy_bp :: bp_gate where
  "toy_bp = \<lparr> bg_limits = toy_limits, bg_tokens = 0, bg_last = 0, bg_accepted = 3, bg_rejected = 0,
     bg_by_reason = [], bg_last_logged = None \<rparr>"

lemma toy_retry: "py_round (1 / 3 * 1000) = 333"
  by code_simp

lemma toy_refused:
  "bp_admit 0 0 0 toy_bp =
     (Some \<lparr> rj_reason = RateLimited, rj_retry_after_ms = 333, rj_queue_depth = 0, rj_in_flight = 0,
             rj_limits = toy_limits \<rparr>,
      toy_bp\<lparr>bg_rejected := 1, bg_by_reason := [(''rate_limited'', 1)]\<rparr>)"
  using toy_retry
  by (simp add: bp_admit_def toy_bp_def toy_limits_def bp_refill_def bp_refuse_def retry_after_ms_def Let_def
      bp_reason_text_def)

text \<open>Waiting exactly the advertised delay is not always enough: the delay is rounded to the nearest
  millisecond, here down from 333.3.\<close>

theorem backpressure_exact_retry_refused:
  "fst (bp_admit 0 0 (333 / 1000) (snd (bp_admit 0 0 0 toy_bp))) \<noteq> None"
  by (simp add: toy_refused, simp add: bp_admit_def toy_bp_def toy_limits_def bp_refill_def bp_refuse_def Let_def)

theorem backpressure_window_witness:
  "of_nat (granted_calls bp_submit toy_bp [(0, 0, 1), (0, 0, 2)]) \<le> (1 + (2 - 0)) * rat_of_int (bl_tasks_per_sec toy_limits)"
proof -
  have "bp_ok toy_limits 0 toy_bp" "bp_counted toy_bp"
    by (simp_all add: bp_ok_def bp_counted_def toy_bp_def toy_limits_def)
  from backpressure_window [OF this(1) _ this(2) toy_refused, where e = 2 and calls = "[(0, 0, 1), (0, 0, 2)]"]
  show ?thesis by simp
qed

theorem backpressure_retry_succeeds_witness:
  "fst (bp_admit 4 9 (334 / 1000) (snd (bp_admit 0 0 0 toy_bp))) = None"
  unfolding toy_refused snd_conv
  by (rule backpressure_retry_succeeds [OF toy_refused]) (simp_all add: toy_bp_def toy_limits_def)

end
