(* ===== verification/Guardrails.thy ===== *)
theory Guardrails
  imports PyValues
begin

text \<open>
  \<open>guardrails.py\<close>: what every task submission is checked against - the circuit breaker, the depth of
  the task cascade, the cost cap, the sliding rate window and the forbidden patterns.  Regular
  expression search, ignoring case, is the argument \<open>rx\<close>; the time of a call is an argument and is the
  same for all the checks of one submission.  The cache of compiled patterns is not represented: a
  policy is searched for its own patterns.
\<close>

record guardrail_policy =
  gp_name :: string
  gp_max_cascade_depth :: int
  gp_max_cost_per_task :: rat
  gp_max_tasks_per_minute :: int
  gp_circuit_breaker_threshold :: int
  gp_blocked_patterns :: "string list"

abbreviation backslash :: "string \<Rightarrow> string" where
  "backslash s \<equiv> CHR 0x5C # s"

definition guardrail_default :: guardrail_policy where
  "guardrail_default =
     \<lparr> gp_name = ''default_safety_policy'', gp_max_cascade_depth = 4, gp_max_cost_per_task = 100,
       gp_max_tasks_per_minute = 60, gp_circuit_breaker_threshold = 3,
       gp_blocked_patterns =
         [''rm'' @ backslash ''s+-rf'', ''DROP'' @ backslash ''s+DATABASE'', ''DROP'' @ backslash ''s+TABLE'',
          ''TRUNCATE'' @ backslash ''s+TABLE'', ''format'' @ backslash ''s+[c-z]:'', ''eval'' @ backslash ''('',
          ''exec'' @ backslash ''('', ''os'' @ backslash ''.system'' @ backslash ''('',
          ''subprocess'' @ backslash ''.Popen'' @ backslash ''('', ''sudo'' @ backslash ''s+'',
          ''chmod'' @ backslash ''s+777'',
          ''SELECT'' @ backslash ''s+.*'' @ backslash ''s+FROM'' @ backslash ''s+users.*password''] \<rparr>"

datatype violation = BreakerTripped | CascadeTooDeep | CostCapExceeded | RateExceeded | ForbiddenPattern string

record guardrail_engine =
  ge_policy :: guardrail_policy
  ge_depths :: "int dict"
  ge_parents :: "string dict"
  ge_threshold :: int
  ge_cooldown :: rat
  ge_violations :: "int dict"
  ge_tripped :: "rat dict"
  ge_window :: rat
  ge_events :: "rat list dict"
  ge_org_policies :: "guardrail_policy dict"

definition engine_new :: "guardrail_policy \<Rightarrow> guardrail_engine" where
  "engine_new p = \<lparr> ge_policy = p, ge_depths = [], ge_parents = [],
     ge_threshold = gp_circuit_breaker_threshold p, ge_cooldown = 60, ge_violations = [], ge_tripped = [],
     ge_window = 60, ge_events = [], ge_org_policies = [] \<rparr>"

section \<open>Trackers\<close>

definition register_task :: "string \<Rightarrow> string \<Rightarrow> guardrail_engine \<Rightarrow> int \<times> guardrail_engine" where
  "register_task task_id parent e =
     (let depth = (if parent = [] then 1
                   else (case map_of (ge_depths e) parent of None \<Rightarrow> 1 | Some d \<Rightarrow> d + 1));
          e1 = e\<lparr>ge_depths := dict_set task_id depth (ge_depths e)\<rparr>
      in (depth, if parent = [] then e1 else e1\<lparr>ge_parents := dict_set task_id parent (ge_parents e)\<rparr>))"

definition get_depth :: "string \<Rightarrow> guardrail_engine \<Rightarrow> int" where
  "get_depth task_id e = (case map_of (ge_depths e) task_id of None \<Rightarrow> 1 | Some d \<Rightarrow> d)"

definition count_recent :: "rat \<Rightarrow> string \<Rightarrow> guardrail_engine \<Rightarrow> nat \<times> guardrail_engine" where
  "count_recent now agent e = (case map_of (ge_events e) agent of
     None \<Rightarrow> (0, e)
   | Some window \<Rightarrow>
       if window = [] then (0, e)
       else (let w = dropWhile (\<lambda>t. t < now - ge_window e) window
             in (length w, e\<lparr>ge_events := dict_set agent w (ge_events e)\<rparr>)))"

definition record_event :: "rat \<Rightarrow> string \<Rightarrow> guardrail_engine \<Rightarrow> guardrail_engine" where
  "record_event now agent e =
     (let w = (case map_of (ge_events e) agent of None \<Rightarrow> [] | Some w \<Rightarrow> w)
      in e\<lparr>ge_events := dict_set agent (w @ [now]) (ge_events e)\<rparr>)"

definition record_violation :: "rat \<Rightarrow> string \<Rightarrow> guardrail_engine \<Rightarrow> bool \<times> guardrail_engine" where
  "record_violation now agent e =
     (let n = (case map_of (ge_violations e) agent of None \<Rightarrow> 0 | Some n \<Rightarrow> n) + 1;
          e1 = e\<lparr>ge_violations := dict_set agent n (ge_violations e)\<rparr>
      in if n \<ge> ge_threshold e
         then (True, e1\<lparr>ge_tripped := dict_set agent (now + ge_cooldown e) (ge_tripped e)\<rparr>)
         else (False, e1))"

definition is_tripped :: "rat \<Rightarrow> string \<Rightarrow> guardrail_engine \<Rightarrow> bool \<times> guardrail_engine" where
  "is_tripped now agent e = (case map_of (ge_tripped e) agent of
     None \<Rightarrow> (False, e)
   | Some t \<Rightarrow>
       if now < t then (True, e)
       else (False, e\<lparr>ge_tripped := dict_del agent (ge_tripped e),
                      ge_violations := dict_set agent 0 (ge_violations e)\<rparr>))"

section \<open>Policies\<close>

definition set_org_policy :: "string \<Rightarrow> guardrail_policy \<Rightarrow> guardrail_engine \<Rightarrow> guardrail_engine" where
  "set_org_policy org p e = e\<lparr>ge_org_policies := dict_set org p (ge_org_policies e)\<rparr>"

definition get_policy :: "string option \<Rightarrow> guardrail_engine \<Rightarrow> guardrail_policy" where
  "get_policy org e = (case org of
     None \<Rightarrow> ge_policy e
   | Some o' \<Rightarrow> if o' = [] then ge_policy e
               else (case map_of (ge_org_policies e) o' of None \<Rightarrow> ge_policy e | Some p \<Rightarrow> p))"

definition guardrail_to_dict :: "guardrail_policy \<Rightarrow> json" where
  "guardrail_to_dict p = JObj
     [(''name'', JStr (gp_name p)), (''max_cascade_depth'', JInt (gp_max_cascade_depth p)),
      (''max_cost_per_task'', JFloat (gp_max_cost_per_task p)),
      (''max_tasks_per_minute'', JInt (gp_max_tasks_per_minute p)),
      (''circuit_breaker_threshold'', JInt (gp_circuit_breaker_threshold p)),
      (''blocked_patterns'', JList (List.map JStr (gp_blocked_patterns p)))]"

text \<open>\<open>GuardrailPolicy(**d)\<close>: unknown names raise, missing ones take their defaults; values that are not of
  the declared type are outside the model and read as a failure.\<close>

definition int_kwarg :: "(string \<times> json) list \<Rightarrow> string \<Rightarrow> int \<Rightarrow> int option" where
  "int_kwarg d k dflt = (case map_of d k of None \<Rightarrow> Some dflt | Some (JInt i) \<Rightarrow> Some i | _ \<Rightarrow> None)"

definition strs_of :: "json list \<Rightarrow> string list option" where
  "strs_of vs = those (List.map opt_of_json vs)"

definition guardrail_of_dict :: "json \<Rightarrow> guardrail_policy option" where
  "guardrail_of_dict raw = (case raw of
     JObj d \<Rightarrow>
       let D = guardrail_default in
       if \<not> set (List.map fst d) \<subseteq> set [''name'', ''max_cascade_depth'', ''max_cost_per_task'', ''max_tasks_per_minute'',
            ''circuit_breaker_threshold'', ''blocked_patterns''] then None
       else
         (case (case map_of d ''name'' of None \<Rightarrow> Some (gp_name D) | Some v \<Rightarrow> opt_of_json v,
                int_kwarg d ''max_cascade_depth'' (gp_max_cascade_depth D),
                (case map_of d ''max_cost_per_task'' of None \<Rightarrow> Some (gp_max_cost_per_task D)
                 | Some (JFloat q) \<Rightarrow> Some q | Some (JInt i) \<Rightarrow> Some (of_int i) | _ \<Rightarrow> None),
                int_kwarg d ''max_tasks_per_minute'' (gp_max_tasks_per_minute D),
                int_kwarg d ''circuit_breaker_threshold'' (gp_circuit_breaker_threshold D),
                (case map_of d ''blocked_patterns'' of None \<Rightarrow> Some (gp_blocked_patterns D)
                 | Some (JList vs) \<Rightarrow> strs_of vs | _ \<Rightarrow> None)) of
            (Some n, Some dp, Some c, Some r, Some th, Some b) \<Rightarrow>
              Some \<lparr> gp_name = n, gp_max_cascade_depth = dp, gp_max_cost_per_task = c,
                     gp_max_tasks_per_minute = r, gp_circuit_breaker_threshold = th, gp_blocked_patterns = b \<rparr>
          | _ \<Rightarrow> None)
   | _ \<Rightarrow> None)"

definition export_policies :: "guardrail_engine \<Rightarrow> (string \<times> json) list" where
  "export_policies e =
     [(''default'', guardrail_to_dict (ge_policy e)),
      (''orgs'', JObj (List.map (\<lambda>(org, p). (org, guardrail_to_dict p)) (ge_org_policies e)))]"

text \<open>The default policy is replaced before the organisations' are read.\<close>

definition import_policies :: "(string \<times> json) list \<Rightarrow> guardrail_engine \<Rightarrow> bool \<times> guardrail_engine" where
  "import_policies state e =
     (case (if py_true (py_get state ''default'') then map_option Some (guardrail_of_dict (py_get state ''default''))
            else Some None) of
        None \<Rightarrow> (False, e)
      | Some new \<Rightarrow>
          (let e1 = (case new of None \<Rightarrow> e
                     | Some p \<Rightarrow> e\<lparr>ge_policy := p, ge_threshold := gp_circuit_breaker_threshold p\<rparr>)
           in case py_or (py_get state ''orgs'') (JObj []) of
                JObj orgs \<Rightarrow>
                  (case those (List.map (\<lambda>(org, raw). map_option (Pair org) (guardrail_of_dict raw)) orgs) of
                     None \<Rightarrow> (False, e1)
                   | Some ps \<Rightarrow> (True, e1\<lparr>ge_org_policies := ps\<rparr>))
              | _ \<Rightarrow> (False, e1)))"

section \<open>The checks of a submission\<close>

definition find_pattern :: "(string \<Rightarrow> string \<Rightarrow> bool) \<Rightarrow> guardrail_policy \<Rightarrow> string \<Rightarrow> string option" where
  "find_pattern rx p text = List.find (\<lambda>pat. rx pat text) (gp_blocked_patterns p)"

definition inspect_payload ::
  "(string \<Rightarrow> string \<Rightarrow> bool) \<Rightarrow> rat \<Rightarrow> string \<Rightarrow> string \<Rightarrow> string option \<Rightarrow> guardrail_engine
    \<Rightarrow> violation option \<times> guardrail_engine" where
  "inspect_payload rx now agent text org e =
     (case is_tripped now agent e of
        (True, e1) \<Rightarrow> (Some BreakerTripped, e1)
      | (False, e1) \<Rightarrow>
          (case find_pattern rx (get_policy org e1) text of
             None \<Rightarrow> (None, e1)
           | Some pat \<Rightarrow> (Some (ForbiddenPattern pat), snd (record_violation now agent e1))))"

definition violate :: "rat \<Rightarrow> string \<Rightarrow> violation \<Rightarrow> guardrail_engine \<Rightarrow> violation option \<times> guardrail_engine" where
  "violate now agent v e = (Some v, snd (record_violation now agent e))"

definition validate_task_submission ::
  "(string \<Rightarrow> string \<Rightarrow> bool) \<Rightarrow> rat \<Rightarrow> string \<Rightarrow> string \<Rightarrow> string \<Rightarrow> rat \<Rightarrow> string \<Rightarrow> string option
    \<Rightarrow> guardrail_engine \<Rightarrow> violation option \<times> guardrail_engine" where
  "validate_task_submission rx now agent task_id parent cost text org e =
     (case is_tripped now agent e of
        (True, e1) \<Rightarrow> (Some BreakerTripped, e1)
      | (False, e1) \<Rightarrow>
          let p = get_policy org e1; (depth, e2) = register_task task_id parent e1 in
          if depth > gp_max_cascade_depth p then violate now agent CascadeTooDeep e2
          else if cost > gp_max_cost_per_task p then violate now agent CostCapExceeded e2
          else
            let (n, e3) = count_recent now agent e2 in
            if int n \<ge> gp_max_tasks_per_minute p then violate now agent RateExceeded e3
            else if text \<noteq> [] then
              (case inspect_payload rx now agent text org e3 of
                 (None, e4) \<Rightarrow> (None, record_event now agent e4)
               | (Some v, e4) \<Rightarrow> (Some v, e4))
            else (None, record_event now agent e3))"


section \<open>What the helpers touch\<close>

definition events_of :: "guardrail_engine \<Rightarrow> string \<Rightarrow> rat list" where
  "events_of e a = (case map_of (ge_events e) a of None \<Rightarrow> [] | Some w \<Rightarrow> w)"

definition violations_of :: "guardrail_engine \<Rightarrow> string \<Rightarrow> int" where
  "violations_of e a = (case map_of (ge_violations e) a of None \<Rightarrow> 0 | Some n \<Rightarrow> n)"

definition same_rules :: "guardrail_engine \<Rightarrow> guardrail_engine \<Rightarrow> bool" where
  "same_rules e e' \<longleftrightarrow> ge_policy e' = ge_policy e \<and> ge_org_policies e' = ge_org_policies e \<and>
     ge_window e' = ge_window e \<and> ge_cooldown e' = ge_cooldown e \<and> ge_threshold e' = ge_threshold e"

abbreviation recent :: "guardrail_engine \<Rightarrow> rat \<Rightarrow> rat list \<Rightarrow> rat list" where
  "recent e now w \<equiv> dropWhile (\<lambda>t. t < now - ge_window e) w"

definition tripped_now :: "rat \<Rightarrow> string \<Rightarrow> guardrail_engine \<Rightarrow> bool" where
  "tripped_now now a e = (case map_of (ge_tripped e) a of None \<Rightarrow> False | Some t \<Rightarrow> now < t)"

lemma same_rules_refl [simp]: "same_rules e e"
  by (simp add: same_rules_def)

lemma same_rules_trans: "same_rules e f \<Longrightarrow> same_rules f g \<Longrightarrow> same_rules e g"
  by (simp add: same_rules_def)

lemma same_rules_policy: "same_rules e e' \<Longrightarrow> get_policy org e' = get_policy org e"
  by (cases org) (simp_all add: same_rules_def get_policy_def cong: option.case_cong if_cong)

lemma is_tripped_effect:
  assumes "is_tripped now a e = (b, e')"
  shows "b = tripped_now now a e \<and> ge_events e' = ge_events e \<and> ge_depths e' = ge_depths e \<and> same_rules e e' \<and>
    (b \<longrightarrow> e' = e) \<and> (\<not> b \<longrightarrow> \<not> tripped_now now a e' \<and> map_of (ge_tripped e') a = None)"
  using assms
  by (auto simp: is_tripped_def tripped_now_def same_rules_def delete_conv' split: option.splits if_splits)

lemma record_violation_effect:
  "ge_events (snd (record_violation now a e)) = ge_events e \<and> same_rules e (snd (record_violation now a e)) \<and>
   (violations_of e a + 1 \<ge> ge_threshold e \<longrightarrow>
      map_of (ge_tripped (snd (record_violation now a e))) a = Some (now + ge_cooldown e))"
  by (auto simp: record_violation_def Let_def same_rules_def violations_of_def update_conv')

lemma register_task_effect:
  assumes "register_task i parent e = (d, e')"
  shows "ge_events e' = ge_events e \<and> same_rules e e' \<and> ge_tripped e' = ge_tripped e \<and>
    ge_violations e' = ge_violations e \<and> d = (if parent = [] \<or> map_of (ge_depths e) parent = None then 1
      else get_depth parent e + 1) \<and> get_depth i e' = d"
  using assms
  by (auto simp: register_task_def Let_def same_rules_def get_depth_def update_conv' split: option.splits if_splits)

lemma count_recent_effect:
  assumes "count_recent now a e = (n, e')"
  shows "n = length (recent e now (events_of e a)) \<and> events_of e' a = recent e now (events_of e a) \<and>
    (b \<noteq> a \<longrightarrow> events_of e' b = events_of e b) \<and> same_rules e e' \<and> ge_tripped e' = ge_tripped e \<and>
    ge_violations e' = ge_violations e"
  using assms
  by (auto simp: count_recent_def events_of_def same_rules_def Let_def update_conv' split: option.splits if_splits)

lemma record_event_effect:
  "events_of (record_event now a e) a = events_of e a @ [now]"
  "b \<noteq> a \<Longrightarrow> events_of (record_event now a e) b = events_of e b"
  "same_rules e (record_event now a e)"
  by (auto simp: record_event_def events_of_def same_rules_def Let_def update_conv' split: option.splits)

lemma inspect_untripped:
  assumes "map_of (ge_tripped e) a = None"
  shows "inspect_payload rx now a text org e =
    (case find_pattern rx (get_policy org e) text of
       None \<Rightarrow> (None, e)
     | Some pat \<Rightarrow> (Some (ForbiddenPattern pat), snd (record_violation now a e)))"
  using assms by (simp add: inspect_payload_def is_tripped_def)

text \<open>The reference: the first of the five checks that fails, on the state as it was before the submission.\<close>

definition submission_verdict ::
  "(string \<Rightarrow> string \<Rightarrow> bool) \<Rightarrow> rat \<Rightarrow> string \<Rightarrow> string \<Rightarrow> rat \<Rightarrow> string \<Rightarrow> string option
    \<Rightarrow> guardrail_engine \<Rightarrow> violation option" where
  "submission_verdict rx now agent parent cost text org e =
     (let p = get_policy org e;
          depth = (if parent = [] \<or> map_of (ge_depths e) parent = None then 1 else get_depth parent e + 1)
      in if tripped_now now agent e then Some BreakerTripped
         else if gp_max_cascade_depth p < depth then Some CascadeTooDeep
         else if gp_max_cost_per_task p < cost then Some CostCapExceeded
         else if gp_max_tasks_per_minute p \<le> int (length (recent e now (events_of e agent))) then Some RateExceeded
         else if text \<noteq> [] then map_option ForbiddenPattern (find_pattern rx p text)
         else None)"

lemma validate_effect:
  assumes "validate_task_submission rx now a i parent cost text org e = (r, e')"
  shows "r = submission_verdict rx now a parent cost text org e \<and> same_rules e e' \<and>
    (b \<noteq> a \<longrightarrow> events_of e' b = events_of e b) \<and>
    (r = None \<longrightarrow> events_of e' a = recent e now (events_of e a) @ [now] \<and>
       int (length (recent e now (events_of e a))) < gp_max_tasks_per_minute (get_policy org e)) \<and>
    (r \<noteq> None \<longrightarrow> events_of e' a \<in> {events_of e a, recent e now (events_of e a)})"
proof -
  obtain tr e1 where tr: "is_tripped now a e = (tr, e1)" by fastforce
  note t = is_tripped_effect [OF tr]
  show ?thesis
  proof (cases tr)
    case True
    then show ?thesis using assms t by (auto simp: validate_task_submission_def tr submission_verdict_def)
  next
    case False
    let ?p = "get_policy org e"
    have p: "get_policy org e1 = ?p" using t same_rules_policy by blast
    obtain d e2 where rg: "register_task i parent e1 = (d, e2)" by fastforce
    note g = register_task_effect [OF rg]
    have dep: "get_depth parent e1 = get_depth parent e" using t by (simp add: get_depth_def)
    obtain n e3 where ct: "count_recent now a e2 = (n, e3)" by fastforce
    note c = count_recent_effect [OF ct, of b]
    have ev: "events_of e1 x = events_of e x" "events_of e2 x = events_of e x" for x
      using t g by (simp_all add: events_of_def)
    have win: "ge_window e2 = ge_window e" using t g False by (simp add: same_rules_def)
    have sr: "same_rules e e2" "same_rules e e3" using t g c same_rules_trans by blast+
    have untr: "map_of (ge_tripped e3) a = None" using t g c False by simp
    have p3: "get_policy org e3 = ?p" using sr same_rules_policy by blast
    have rv: "events_of (snd (record_violation now a f)) x = events_of f x"
      "same_rules f (snd (record_violation now a f))" for f x
      using record_violation_effect by (auto simp: events_of_def)
    have re: "same_rules e (record_event now a e3)" using sr(2) record_event_effect(3) same_rules_trans by blast
    have rv': "same_rules e (snd (record_violation now a e2))" "same_rules e (snd (record_violation now a e3))"
      using sr rv(2) same_rules_trans by blast+
    have r: "(r, e') = (if gp_max_cascade_depth ?p < d then violate now a CascadeTooDeep e2
        else if gp_max_cost_per_task ?p < cost then violate now a CostCapExceeded e2
        else if gp_max_tasks_per_minute ?p \<le> int n then violate now a RateExceeded e3
        else if text \<noteq> [] then
          (case find_pattern rx ?p text of None \<Rightarrow> (None, record_event now a e3)
           | Some pat \<Rightarrow> (Some (ForbiddenPattern pat), snd (record_violation now a e3)))
        else (None, record_event now a e3))"
      using assms False
      by (cases "find_pattern rx ?p text")
         (simp_all add: validate_task_submission_def tr rg ct p Let_def inspect_untripped [OF untr] p3 cong: if_cong)
    have v: "submission_verdict rx now a parent cost text org e =
        (if gp_max_cascade_depth ?p < d then Some CascadeTooDeep
         else if gp_max_cost_per_task ?p < cost then Some CostCapExceeded
         else if gp_max_tasks_per_minute ?p \<le> int n then Some RateExceeded
         else if text \<noteq> [] then map_option ForbiddenPattern (find_pattern rx ?p text) else None)"
      using t g c False by (simp add: submission_verdict_def Let_def dep ev win)
    show ?thesis
      using r c
      by (auto simp: v violate_def rv rv' re ev win record_event_effect split: if_splits option.splits)
  qed
qed


section \<open>The sliding window over runs\<close>

record submission =
  sb_now :: rat
  sb_agent :: string
  sb_task :: string
  sb_parent :: string
  sb_cost :: rat
  sb_text :: string
  sb_org :: "string option"

definition submit_checked ::
  "(string \<Rightarrow> string \<Rightarrow> bool) \<Rightarrow> submission \<Rightarrow> guardrail_engine \<Rightarrow> violation option \<times> guardrail_engine" where
  "submit_checked rx x e = validate_task_submission rx (sb_now x) (sb_agent x) (sb_task x) (sb_parent x)
     (sb_cost x) (sb_text x) (sb_org x) e"

text \<open>The times at which submissions of an agent pass.\<close>

fun passed_times :: "(string \<Rightarrow> string \<Rightarrow> bool) \<Rightarrow> string \<Rightarrow> submission list \<Rightarrow> guardrail_engine \<Rightarrow> rat list" where
  "passed_times rx a [] e = []"
| "passed_times rx a (x # xs) e =
     (let (r, e') = submit_checked rx x e
      in (if r = None \<and> sb_agent x = a then [sb_now x] else []) @ passed_times rx a xs e')"

lemma dropWhile_sorted: "sorted xs \<Longrightarrow> dropWhile (\<lambda>t. t < c) xs = List.filter (\<lambda>t. c \<le> t) (xs :: rat list)"
proof (induction xs)
  case (Cons x xs)
  then show ?case by (cases "x < c") (auto simp: not_less intro!: filter_True [symmetric])
qed simp

lemma filter_later: "c \<le> d \<Longrightarrow> List.filter (\<lambda>t. d \<le> t) (List.filter (\<lambda>t. c \<le> t) xs) = List.filter (\<lambda>t. d \<le> t) (xs :: rat list)"
  by (induction xs) auto

text \<open>\<open>paced\<close>: at each entry fewer than \<open>M\<close> earlier ones lie within the window before it.\<close>

definition paced :: "nat \<Rightarrow> rat \<Rightarrow> rat list \<Rightarrow> bool" where
  "paced M w xs \<longleftrightarrow> (\<forall>ys y zs. xs = ys @ y # zs \<longrightarrow> length (List.filter (\<lambda>t. y - w \<le> t) ys) < M)"

lemma paced_snoc: "paced M w (xs @ [x]) \<longleftrightarrow> paced M w xs \<and> length (List.filter (\<lambda>t. x - w \<le> t) xs) < M"
proof
  assume p: "paced M w xs \<and> length (List.filter (\<lambda>t. x - w \<le> t) xs) < M"
  show "paced M w (xs @ [x])"
    unfolding paced_def
  proof (intro allI impI)
    fix ys y zs
    assume "xs @ [x] = ys @ y # zs"
    then show "length (List.filter (\<lambda>t. y - w \<le> t) ys) < M"
      using p by (cases zs rule: rev_cases) (auto simp: paced_def)
  qed
qed (auto simp: paced_def)

lemma paced_window:
  "sorted xs \<Longrightarrow> paced M w xs \<Longrightarrow> length (List.filter (\<lambda>x. t - w \<le> x \<and> x \<le> t) xs) \<le> M"
proof (induction xs rule: rev_induct)
  case (snoc x xs)
  have IH: "length (List.filter (\<lambda>x. t - w \<le> x \<and> x \<le> t) xs) \<le> M"
    using snoc by (simp add: paced_snoc sorted_append)
  show ?case
  proof (cases "t - w \<le> x \<and> x \<le> t")
    case True
    have "length (List.filter (\<lambda>y. t - w \<le> y \<and> y \<le> t) xs) \<le> length (List.filter (\<lambda>y. x - w \<le> y) xs)"
      using True by (induction xs) auto
    with True snoc.prems show ?thesis by (simp add: paced_snoc)
  qed (use IH in auto)
qed simp

lemma passed_step:
  assumes "sorted (events_of e a)" "\<forall>t \<in> set (events_of e a). t \<le> now0"
    and "\<forall>u \<ge> now0. List.filter (\<lambda>t. u - ge_window e \<le> t) (events_of e a) = List.filter (\<lambda>t. u - ge_window e \<le> t) hist"
    and "sorted hist" "\<forall>t \<in> set hist. t \<le> now0" "paced M (ge_window e) hist"
    and "\<And>org. gp_max_tasks_per_minute (get_policy org e) \<le> int M"
    and "now0 \<le> sb_now x" "submit_checked rx x e = (r, e')"
    and "hist' = (if r = None \<and> sb_agent x = a then hist @ [sb_now x] else hist)"
  shows "sorted (events_of e' a) \<and> (\<forall>t \<in> set (events_of e' a). t \<le> sb_now x) \<and>
    (\<forall>u \<ge> sb_now x. List.filter (\<lambda>t. u - ge_window e' \<le> t) (events_of e' a) = List.filter (\<lambda>t. u - ge_window e' \<le> t) hist') \<and>
    sorted hist' \<and> (\<forall>t \<in> set hist'. t \<le> sb_now x) \<and> paced M (ge_window e') hist' \<and> same_rules e e'"
proof -
  define now where "now = sb_now x"
  have eff: "same_rules e e'" "sb_agent x \<noteq> a \<Longrightarrow> events_of e' a = events_of e a"
    "sb_agent x = a \<Longrightarrow> r \<noteq> None \<Longrightarrow> events_of e' a \<in> {events_of e a, recent e now (events_of e a)}"
    "sb_agent x = a \<Longrightarrow> r = None \<Longrightarrow> events_of e' a = recent e now (events_of e a) @ [now] \<and>
       int (length (recent e now (events_of e a))) < int M"
    using validate_effect [of rx now "sb_agent x" "sb_task x" "sb_parent x" "sb_cost x" "sb_text x" "sb_org x" e r e' a]
      assms(9) assms(7) [of "sb_org x"]
    by (auto simp: submit_checked_def now_def)
  have w: "ge_window e' = ge_window e" using eff(1) by (simp add: same_rules_def)
  have rec: "recent e now (events_of e a) = List.filter (\<lambda>t. now - ge_window e \<le> t) (events_of e a)"
    by (rule dropWhile_sorted [OF assms(1)])
  have keep: "List.filter (\<lambda>t. u - ge_window e \<le> t) (recent e now (events_of e a)) = List.filter (\<lambda>t. u - ge_window e \<le> t) hist"
    if "now \<le> u" for u
  proof -
    have "now0 \<le> u" using that assms(8) by (simp add: now_def)
    then show ?thesis using assms(3) filter_later [of "now - ge_window e" "u - ge_window e"] that unfolding rec by simp
  qed
  have le: "\<forall>t \<in> set (events_of e a). t \<le> now" "\<forall>t \<in> set hist. t \<le> now"
    using assms(2,5,8) by (auto simp: now_def)
  have srt: "sorted (recent e now (events_of e a))" using assms(1) by (simp add: rec sorted_wrt_filter)
  let ?cut = "\<lambda>u l. List.filter (\<lambda>t. u - ge_window e \<le> t) l"
  have goal: "sorted ev' \<and> (\<forall>t \<in> set ev'. t \<le> now) \<and> (\<forall>u \<ge> now. ?cut u ev' = ?cut u hist') \<and>
      sorted hist' \<and> (\<forall>t \<in> set hist'. t \<le> now) \<and> paced M (ge_window e) hist'" if ev': "ev' = events_of e' a" for ev'
  proof (cases "r = None \<and> sb_agent x = a")
    case True
    then have ev: "ev' = recent e now (events_of e a) @ [now]" and h: "hist' = hist @ [now]"
      using eff(4) assms(10) by (auto simp: now_def ev')
    have "length (?cut now hist) < M"
      using eff(4) True keep [of now] by (simp add: rec filter_later)
    then have "paced M (ge_window e) hist'" using assms(6) by (simp add: h paced_snoc)
    moreover have "sorted hist'" "\<forall>t \<in> set hist'. t \<le> now" using assms(4) le by (auto simp: h sorted_append)
    moreover have "sorted ev'" "\<forall>t \<in> set ev'. t \<le> now"
      using srt le(1) by (auto simp: ev sorted_append dest: set_dropWhileD)
    moreover have "?cut u ev' = ?cut u hist'" if "now \<le> u" for u
      using keep [OF that] by (simp add: ev h)
    ultimately show ?thesis by blast
  next
    case False
    then have h: "hist' = hist" using assms(10) by auto
    have base: "sorted hist'" "\<forall>t \<in> set hist'. t \<le> now" "paced M (ge_window e) hist'"
      using assms(4,6) le by (auto simp: h)
    from False eff(2,3) ev' have "ev' = events_of e a \<or> ev' = recent e now (events_of e a)" by blast
    then show ?thesis
    proof
      assume "ev' = events_of e a"
      moreover have "?cut u (events_of e a) = ?cut u hist" if "now \<le> u" for u
        using assms(3,8) that unfolding now_def by (metis order.trans)
      ultimately show ?thesis using assms(1) le(1) base h by blast
    next
      assume "ev' = recent e now (events_of e a)"
      moreover have "\<forall>t \<in> set (recent e now (events_of e a)). t \<le> now"
        using le(1) by (auto dest: set_dropWhileD)
      ultimately show ?thesis using srt keep base h by blast
    qed
  qed
  show ?thesis using goal [OF refl] eff(1) unfolding w now_def by blast
qed

lemma passed_times_paced:
  assumes "sorted (events_of e a)" "\<forall>t \<in> set (events_of e a). t \<le> now0"
    and "\<forall>u \<ge> now0. List.filter (\<lambda>t. u - ge_window e \<le> t) (events_of e a) = List.filter (\<lambda>t. u - ge_window e \<le> t) hist"
    and "sorted hist" "\<forall>t \<in> set hist. t \<le> now0" "paced M (ge_window e) hist"
    and "\<And>org. gp_max_tasks_per_minute (get_policy org e) \<le> int M"
    and "sorted (now0 # List.map sb_now xs)"
  shows "sorted (hist @ passed_times rx a xs e) \<and> paced M (ge_window e) (hist @ passed_times rx a xs e)"
  using assms
proof (induction xs arbitrary: e hist now0)
  case (Cons x xs)
  obtain r e' where st: "submit_checked rx x e = (r, e')" by fastforce
  define hist' where "hist' = (if r = None \<and> sb_agent x = a then hist @ [sb_now x] else hist)"
  have "now0 \<le> sb_now x" using Cons.prems(8) by simp
  note step = passed_step [OF Cons.prems(1-7) this st hist'_def]
  have sr: "same_rules e e'" using step by blast
  then have w: "ge_window e' = ge_window e" by (simp add: same_rules_def)
  have pol: "gp_max_tasks_per_minute (get_policy org e') \<le> int M" for org
    using Cons.prems(7) [of org] by (simp add: same_rules_policy [OF sr])
  have "sorted (hist' @ passed_times rx a xs e') \<and> paced M (ge_window e') (hist' @ passed_times rx a xs e')"
    by (rule Cons.IH [OF step [THEN conjunct1] step [THEN conjunct2, THEN conjunct1]
          step [THEN conjunct2, THEN conjunct2, THEN conjunct1] step [THEN conjunct2, THEN conjunct2, THEN conjunct2, THEN conjunct1]
          _ _ pol]) (use step Cons.prems(8) in simp_all)
  then show ?case by (cases "r = None \<and> sb_agent x = a") (auto simp: st hist'_def w)
qed simp

section \<open>Properties of the component\<close>

text \<open>C35: whatever the order of the trackers' updates inside the engine, a submission gets the verdict of the first
  failing check on the state before it: breaker, cascade depth, cost, rate, forbidden pattern.\<close>

theorem guardrail_verdict:
  "fst (validate_task_submission rx now a i parent cost text org e) = submission_verdict rx now a parent cost text org e"
  using validate_effect [of rx now a i parent cost "text" org e] by (metis prod.collapse)

text \<open>In no window of sixty seconds do more submissions of an agent pass than the largest per-minute cap of the
  policies in force.\<close>

theorem guardrail_rate_window:
  assumes "\<And>org. gp_max_tasks_per_minute (get_policy org (foldl (\<lambda>e (o', q). set_org_policy o' q e) (engine_new p) orgs)) \<le> int M"
    and "sorted (List.map sb_now xs)"
  shows "length (List.filter (\<lambda>x. t - 60 \<le> x \<and> x \<le> t)
    (passed_times rx a xs (foldl (\<lambda>e (o', q). set_org_policy o' q e) (engine_new p) orgs))) \<le> M"
proof -
  let ?e = "foldl (\<lambda>e (o', q). set_org_policy o' q e) (engine_new p) orgs"
  have init: "ge_events (foldl (\<lambda>e (o', q). set_org_policy o' q e) f orgs) = ge_events f \<and>
      ge_window (foldl (\<lambda>e (o', q). set_org_policy o' q e) f orgs) = ge_window f" for f
    by (induction orgs arbitrary: f) (auto simp: set_org_policy_def)
  then have e: "events_of ?e a = []" "ge_window ?e = 60" by (simp_all add: events_of_def engine_new_def)
  define now0 where "now0 = (if xs = [] then 0 else sb_now (hd xs))"
  have "sorted (now0 # List.map sb_now xs)" using assms(2) by (cases xs) (auto simp: now0_def)
  then have "sorted ([] @ passed_times rx a xs ?e) \<and> paced M (ge_window ?e) ([] @ passed_times rx a xs ?e)"
    by (intro passed_times_paced [of ?e a now0]) (use e assms(1) in \<open>auto simp: paced_def\<close>)
  then show ?thesis using paced_window [of "passed_times rx a xs ?e" M 60 t] e by simp
qed

text \<open>The violation that reaches the threshold isolates the agent: until the cooldown is over every submission of
  it is refused and leaves the engine as it is.\<close>

theorem guardrail_breaker_isolates:
  assumes "fst (record_violation now a e) = True" "later < now + ge_cooldown e"
  shows "validate_task_submission rx later a i parent cost text org (snd (record_violation now a e))
    = (Some BreakerTripped, snd (record_violation now a e)) \<and> violations_of e a + 1 \<ge> ge_threshold e"
proof -
  have n: "violations_of e a + 1 \<ge> ge_threshold e"
    using assms(1) by (auto simp: record_violation_def Let_def violations_of_def split: if_splits)
  then have "map_of (ge_tripped (snd (record_violation now a e))) a = Some (now + ge_cooldown e)"
    using record_violation_effect by blast
  then have "is_tripped later a (snd (record_violation now a e)) = (True, snd (record_violation now a e))"
    using assms(2) by (simp add: is_tripped_def)
  then show ?thesis using n by (simp add: validate_task_submission_def)
qed

section \<open>Policies survive a snapshot\<close>

lemma strs_of_JStr [simp]: "strs_of (List.map JStr xs) = Some xs"
  by (induction xs) (simp_all add: strs_of_def)

lemma guardrail_of_to_dict [simp]: "guardrail_of_dict (guardrail_to_dict p) = Some p"
  by (simp add: guardrail_of_dict_def guardrail_to_dict_def int_kwarg_def Let_def)

lemma py_or_obj: "py_or (JObj kvs) (JObj []) = JObj kvs"
  by (simp add: py_or_def)

lemma policies_roundtrip:
  "import_policies (export_policies e) f = (True, f\<lparr>ge_policy := ge_policy e,
     ge_threshold := gp_circuit_breaker_threshold (ge_policy e), ge_org_policies := ge_org_policies e\<rparr>)"
proof -
  have "those (List.map (\<lambda>(org, raw). map_option (Pair org) (guardrail_of_dict raw))
      (List.map (\<lambda>(org, p). (org, guardrail_to_dict p)) ps)) = Some ps" for ps :: "guardrail_policy dict"
    by (induction ps) auto
  moreover have "py_true (guardrail_to_dict p)" for p by (simp add: guardrail_to_dict_def)
  ultimately show ?thesis
    using py_or_obj
    by (simp add: import_policies_def export_policies_def py_get_def Let_def del: map_map)
qed

section \<open>Concrete instances\<close>

theorem guardrail_rate_window_witness:
  "length (List.filter (\<lambda>x. 60 - 60 \<le> x \<and> x \<le> 60)
     (passed_times (\<lambda>pat text. False) ''a''
       [\<lparr> sb_now = 1, sb_agent = ''a'', sb_task = ''t'', sb_parent = [], sb_cost = 0, sb_text = [], sb_org = None \<rparr>]
       (foldl (\<lambda>e (o', q). set_org_policy o' q e) (engine_new guardrail_default) []))) \<le> 60"
  by (rule guardrail_rate_window)
     (simp_all add: get_policy_def engine_new_def guardrail_default_def split: option.split)

theorem guardrail_breaker_isolates_witness:
  "fst (validate_task_submission (\<lambda>pat text. False) 30 ''a'' ''t'' [] 0 [] None
     (snd (record_violation 0 ''a'' (engine_new (guardrail_default\<lparr>gp_circuit_breaker_threshold := 1\<rparr>)))))
     = Some BreakerTripped"
proof -
  let ?e = "engine_new (guardrail_default\<lparr>gp_circuit_breaker_threshold := 1\<rparr>)"
  have "fst (record_violation 0 ''a'' ?e) = True" "30 < 0 + ge_cooldown ?e"
    by (simp_all add: record_violation_def engine_new_def Let_def)
  from guardrail_breaker_isolates [OF this] show ?thesis by simp
qed

end
