(* ===== verification/TaskApproval.thy ===== *)
theory TaskApproval
  imports PyValues
begin

text \<open>
  \<open>approval.py\<close>: which tasks are suspended until a human has looked at them.  \<open>rx\<close> stands for regular
  expressions ignoring case: \<open>rx p\<close> is \<open>None\<close> when \<open>re.compile\<close> refuses the pattern, otherwise its search.
\<close>

record task_rule =
  tr_name :: string
  tr_reason :: string
  tr_assignees :: "string list"
  tr_capabilities :: "string list"
  tr_pattern :: "string option"
  tr_min_cost :: "rat option"
  tr_cross_org_only :: bool

datatype task_rule_error =
    RuleWithoutName
  | RuleWithoutReason
  | RuleWithoutCriterion
  | RulePattern
  | RuleFieldMissing
  | ForeignField

definition any_star :: "string list" where
  "any_star = [''*'']"

definition check_rule :: "(string \<Rightarrow> (string \<Rightarrow> bool) option) \<Rightarrow> task_rule \<Rightarrow> task_rule_error + task_rule" where
  "check_rule rx r =
     (if tr_name r = [] then Inl RuleWithoutName
      else if tr_reason r = [] then Inl RuleWithoutReason
      else if \<not> (tr_assignees r \<noteq> any_star \<or> tr_capabilities r \<noteq> any_star \<or> tr_pattern r \<noteq> None \<or>
                 tr_min_cost r \<noteq> None \<or> tr_cross_org_only r) then Inl RuleWithoutCriterion
      else (case tr_pattern r of
              None \<Rightarrow> Inr r
            | Some p \<Rightarrow> if p \<noteq> [] \<and> rx p = None then Inl RulePattern else Inr r))"

text \<open>A cost is a number, or one of the floats that are none.\<close>

datatype cost = Finite rat | PosInf | NegInf | NotANumber

definition cost_below :: "cost \<Rightarrow> rat \<Rightarrow> bool" where
  "cost_below c m = (case c of Finite q \<Rightarrow> q < m | NegInf \<Rightarrow> True | _ \<Rightarrow> False)"

definition pattern_found :: "(string \<Rightarrow> (string \<Rightarrow> bool) option) \<Rightarrow> string option \<Rightarrow> string \<Rightarrow> bool" where
  "pattern_found rx p text = (case p of
     None \<Rightarrow> True
   | Some pat \<Rightarrow> if pat = [] then True else (case rx pat of None \<Rightarrow> True | Some search \<Rightarrow> search text))"

definition rule_holds_back ::
  "(string \<Rightarrow> (string \<Rightarrow> bool) option) \<Rightarrow> task_rule \<Rightarrow> string \<Rightarrow> string list \<Rightarrow> string \<Rightarrow> cost \<Rightarrow> bool \<Rightarrow> bool" where
  "rule_holds_back rx r assignee caps text cost cross =
     (if tr_cross_org_only r \<and> \<not> cross then False
      else if tr_assignees r \<noteq> any_star \<and> assignee \<notin> set (tr_assignees r) then False
      else if tr_capabilities r \<noteq> any_star \<and> \<not> list_ex (\<lambda>c. c \<in> set (tr_capabilities r)) caps then False
      else if (case tr_min_cost r of None \<Rightarrow> False | Some m \<Rightarrow> cost_below cost m) then False
      else pattern_found rx (tr_pattern r) text)"

section \<open>Reading and writing rules\<close>

text \<open>Lists of strings and optional fields as the rule declares them.  Values of another type, which the code
  keeps and trips over when it first uses them, are refused here as \<open>ForeignField\<close>.\<close>

definition str_list_field :: "(string \<times> json) list \<Rightarrow> string \<Rightarrow> task_rule_error + string list" where
  "str_list_field d k = (case map_of d k of
     None \<Rightarrow> Inr any_star
   | Some (JList vs) \<Rightarrow> (case those (List.map opt_of_json vs) of None \<Rightarrow> Inl ForeignField | Some ss \<Rightarrow> Inr ss)
   | _ \<Rightarrow> Inl ForeignField)"

definition opt_num :: "json \<Rightarrow> task_rule_error + rat option" where
  "opt_num v = (case v of JNull \<Rightarrow> Inr None | JInt i \<Rightarrow> Inr (Some (of_int i)) | JFloat q \<Rightarrow> Inr (Some q)
     | _ \<Rightarrow> Inl ForeignField)"

definition opt_text :: "json \<Rightarrow> task_rule_error + string option" where
  "opt_text v = (case v of JNull \<Rightarrow> Inr None | JStr s \<Rightarrow> Inr (Some s) | _ \<Rightarrow> Inl ForeignField)"

definition req_text :: "(string \<times> json) list \<Rightarrow> string \<Rightarrow> task_rule_error + string" where
  "req_text d k = (case map_of d k of None \<Rightarrow> Inl RuleFieldMissing | Some (JStr s) \<Rightarrow> Inr s | _ \<Rightarrow> Inl ForeignField)"

definition task_rule_of_dict ::
  "(string \<Rightarrow> (string \<Rightarrow> bool) option) \<Rightarrow> (string \<times> json) list \<Rightarrow> task_rule_error + task_rule" where
  "task_rule_of_dict rx d =
     rbind (req_text d ''name'') (\<lambda>n. rbind (req_text d ''reason'') (\<lambda>re.
     rbind (str_list_field d ''assignees'') (\<lambda>as. rbind (str_list_field d ''capabilities'') (\<lambda>cs.
     rbind (opt_text (py_get d ''pattern'')) (\<lambda>p. rbind (opt_num (py_get d ''min_cost'')) (\<lambda>c.
       check_rule rx \<lparr> tr_name = n, tr_reason = re, tr_assignees = as, tr_capabilities = cs, tr_pattern = p,
         tr_min_cost = c, tr_cross_org_only = py_true (py_get d ''cross_org_only'') \<rparr>))))))"

definition task_rule_to_dict :: "task_rule \<Rightarrow> (string \<times> json) list" where
  "task_rule_to_dict r =
     [(''name'', JStr (tr_name r)), (''reason'', JStr (tr_reason r)),
      (''assignees'', JList (List.map JStr (tr_assignees r))),
      (''capabilities'', JList (List.map JStr (tr_capabilities r))),
      (''pattern'', json_of_opt (tr_pattern r)),
      (''min_cost'', case tr_min_cost r of None \<Rightarrow> JNull | Some q \<Rightarrow> JFloat q),
      (''cross_org_only'', JBool (tr_cross_org_only r))]"

record task_policy =
  tp_name :: string
  tp_rules :: "task_rule list"

definition task_policy_of_dict ::
  "(string \<Rightarrow> (string \<Rightarrow> bool) option) \<Rightarrow> (string \<times> json) list \<Rightarrow> task_rule_error + task_policy" where
  "task_policy_of_dict rx d =
     (case (map_of d ''name'', map_of d ''rules'') of
        (n, rs) \<Rightarrow>
          rbind (case n of None \<Rightarrow> Inr ''unnamed'' | Some (JStr s) \<Rightarrow> Inr s | _ \<Rightarrow> Inl ForeignField) (\<lambda>name.
          rbind (case rs of None \<Rightarrow> Inr [] | Some (JList vs) \<Rightarrow> Inr vs | _ \<Rightarrow> Inl ForeignField) (\<lambda>rows.
          rbind (rmap_list (\<lambda>row. case row of JObj r \<Rightarrow> task_rule_of_dict rx r | _ \<Rightarrow> Inl ForeignField) rows) (\<lambda>rules.
            Inr \<lparr> tp_name = name, tp_rules = rules \<rparr>))))"

definition task_policy_to_dict :: "task_policy \<Rightarrow> (string \<times> json) list" where
  "task_policy_to_dict p =
     [(''name'', JStr (tp_name p)), (''rules'', JList (List.map (JObj \<circ> task_rule_to_dict) (tp_rules p)))]"

section \<open>The decision\<close>

definition payload_text :: "('sk, 'pk) runtime \<Rightarrow> (string \<times> json) list \<Rightarrow> string" where
  "payload_text rt task =
     (let title = py_str rt (py_or (py_get task ''title'') (JStr [])) in
      case py_get task ''input_data'' of
        JNull \<Rightarrow> title
      | JStr s \<Rightarrow> title @ [CHR 0x0A] @ s
      | v \<Rightarrow> title @ [CHR 0x0A] @ ser (readable_format (float_repr rt)) v)"

text \<open>\<open>float(v or 0.0)\<close>, or zero where it raises \<open>TypeError\<close> or \<open>ValueError\<close>.\<close>

definition cost_of_text :: "string \<Rightarrow> cost" where
  "cost_of_text s =
     (let (neg, u) = p_sign (str_lower (str_strip s)) in
      if u \<in> set [''inf'', ''infinity''] then (if neg then NegInf else PosInf)
      else if u = ''nan'' then NotANumber
      else (case float_of_text s of None \<Rightarrow> Finite 0 | Some q \<Rightarrow> Finite q))"

definition task_cost :: "(string \<times> json) list \<Rightarrow> cost" where
  "task_cost task = (case py_or (py_get task ''estimated_cost'') (JFloat 0) of
     JNonFinite s \<Rightarrow> (if s = ''NaN'' then NotANumber else if s = ''Infinity'' then PosInf else NegInf)
   | JStr s \<Rightarrow> cost_of_text s
   | v \<Rightarrow> (case py_float v of Inl e \<Rightarrow> Finite 0 | Inr q \<Rightarrow> Finite q))"

definition requires_approval ::
  "('sk, 'pk) runtime \<Rightarrow> (string \<Rightarrow> (string \<Rightarrow> bool) option) \<Rightarrow> (string \<times> json) list \<Rightarrow> task_policy option
    \<Rightarrow> string list \<Rightarrow> bool \<Rightarrow> task_rule option" where
  "requires_approval rt rx task policy caps cross = (case policy of
     None \<Rightarrow> None
   | Some p \<Rightarrow>
       let assignee = py_str rt (py_or (py_get task ''assignee'') (JStr []));
           cost = task_cost task; txt = payload_text rt task
       in List.find (\<lambda>r. rule_holds_back rx r assignee caps txt cost cross) (tp_rules p))"

section \<open>Lemmas\<close>

lemma str_list_field_strs [simp]:
  "map_of d k = Some (JList (List.map JStr ss)) \<Longrightarrow> str_list_field d k = Inr ss"
proof -
  have "those (List.map opt_of_json (List.map JStr ss)) = Some ss" by (induction ss) auto
  then show "map_of d k = Some (JList (List.map JStr ss)) \<Longrightarrow> str_list_field d k = Inr ss"
    by (simp add: str_list_field_def del: map_map)
qed

lemma task_rule_dict:
  "check_rule rx r = Inr r \<Longrightarrow> task_rule_of_dict rx (task_rule_to_dict r) = Inr r"
  by (cases r; cases "tr_pattern r"; cases "tr_min_cost r")
     (simp_all add: task_rule_of_dict_def task_rule_to_dict_def req_text_def py_get_def opt_text_def opt_num_def
        json_of_opt_def)

lemma check_rule_Inr: "check_rule rx r = Inr r' \<Longrightarrow> r' = r \<and> check_rule rx r = Inr r"
  by (auto simp: check_rule_def split: if_splits option.splits)

section \<open>Properties of the component\<close>

text \<open>A policy that was loaded is written out and loaded again unchanged.\<close>

theorem task_policy_roundtrip:
  assumes "task_policy_of_dict rx d = Inr p"
  shows "task_policy_of_dict rx (task_policy_to_dict p) = Inr p"
proof -
  obtain rows where rows: "rmap_list (\<lambda>row. case row of JObj r \<Rightarrow> task_rule_of_dict rx r | _ \<Rightarrow> Inl ForeignField) rows
      = Inr (tp_rules p)"
    using assms by (auto simp: task_policy_of_dict_def rbind_Inr_iff)
  have ok: "check_rule rx r = Inr r" if "r \<in> set (tp_rules p)" for r
  proof -
    from rmap_list_set [OF rows that] obtain row where "(case row of JObj r \<Rightarrow> task_rule_of_dict rx r | _ \<Rightarrow> Inl ForeignField) = Inr r"
      by blast
    then obtain kvs where "task_rule_of_dict rx kvs = Inr r" by (cases row) auto
    then show ?thesis by (auto simp: task_rule_of_dict_def rbind_Inr_iff dest: check_rule_Inr)
  qed
  have "rmap_list (\<lambda>row. case row of JObj r \<Rightarrow> task_rule_of_dict rx r | _ \<Rightarrow> Inl ForeignField)
      (List.map (JObj \<circ> task_rule_to_dict) rs) = Inr rs" if "set rs \<subseteq> set (tp_rules p)" for rs
    using that by (induction rs) (auto simp: task_rule_dict ok)
  then show ?thesis by (simp add: task_policy_of_dict_def task_policy_to_dict_def)
qed

text \<open>The guard of the constructor refuses a rule without any criterion, because it would suspend every task.  An
  empty pattern passes the guard and is no restriction: such a rule does suspend every task.\<close>

theorem empty_pattern_suspends_everything:
  fixes rt :: "('sk, 'pk) runtime"
  defines "r \<equiv> \<lparr> tr_name = ''r'', tr_reason = ''why'', tr_assignees = any_star, tr_capabilities = any_star,
    tr_pattern = Some [], tr_min_cost = None, tr_cross_org_only = False \<rparr>"
  shows "check_rule rx r = Inr r"
    and "requires_approval rt rx task (Some \<lparr> tp_name = ''p'', tp_rules = [r] \<rparr>) caps cross = Some r"
  by (simp_all add: r_def check_rule_def requires_approval_def rule_holds_back_def pattern_found_def Let_def)

theorem task_policy_roundtrip_witness:
  "task_policy_of_dict (\<lambda>p. Some (\<lambda>t. False)) (task_policy_to_dict \<lparr> tp_name = ''p'', tp_rules =
     [\<lparr> tr_name = ''r'', tr_reason = ''why'', tr_assignees = [''bob''], tr_capabilities = any_star,
        tr_pattern = None, tr_min_cost = Some 5, tr_cross_org_only = False \<rparr>] \<rparr>)
   = Inr \<lparr> tp_name = ''p'', tp_rules =
     [\<lparr> tr_name = ''r'', tr_reason = ''why'', tr_assignees = [''bob''], tr_capabilities = any_star,
        tr_pattern = None, tr_min_cost = Some 5, tr_cross_org_only = False \<rparr>] \<rparr>"
  by (rule task_policy_roundtrip [where d = "[(''name'', JStr ''p''), (''rules'', JList [JObj
        [(''name'', JStr ''r''), (''reason'', JStr ''why''), (''assignees'', JList [JStr ''bob'']),
         (''min_cost'', JInt 5)]])]"])
     (simp add: task_policy_of_dict_def task_rule_of_dict_def req_text_def str_list_field_def opt_text_def
        opt_num_def py_get_def check_rule_def any_star_def)

end
