(* ===== verification/Egress.thy ===== *)
theory Egress
  imports PyValues
begin

text \<open>
  \<open>egress.py\<close>: what an organisation lets out of its boundary.  The regular expressions, ignoring case,
  are an argument: \<open>rx_search p\<close> is \<open>None\<close> when \<open>re.compile\<close> refuses \<open>p\<close>, and \<open>rx_subn p repl text\<close> is
  the text after substitution with the number of substitutions.
\<close>

record regexes =
  rx_search :: "string \<Rightarrow> (string \<Rightarrow> bool) option"
  rx_subn :: "string \<Rightarrow> string \<Rightarrow> string \<Rightarrow> string \<times> nat"

datatype egress_action = Redact | Drop | BlockIt

definition egress_action_of :: "string \<Rightarrow> egress_action option" where
  "egress_action_of s = (if s = ''redact'' then Some Redact else if s = ''drop'' then Some Drop
     else if s = ''block'' then Some BlockIt else None)"

record egress_rule =
  er_name :: string
  er_action :: egress_action
  er_pattern :: "string option"
  er_field :: "string option"
  er_replacement :: string
  er_to_orgs :: "string list"

datatype egress_error =
    UnknownAction string
  | PatternRequired string
  | FieldRequired string
  | EgressPattern string
  | EgressFieldMissing
  | EgressForeign

definition some_text :: "string option \<Rightarrow> bool" where
  "some_text x = (case x of None \<Rightarrow> False | Some s \<Rightarrow> s \<noteq> [])"

definition check_egress_rule :: "regexes \<Rightarrow> egress_rule \<Rightarrow> egress_error + egress_rule" where
  "check_egress_rule X r =
     (if er_action r \<in> {Redact, BlockIt} \<and> \<not> some_text (er_pattern r) then Inl (PatternRequired (er_name r))
      else if er_action r = Drop \<and> \<not> some_text (er_field r) then Inl (FieldRequired (er_name r))
      else if some_text (er_pattern r) \<and> rx_search X (the (er_pattern r)) = None then Inl (EgressPattern (er_name r))
      else Inr r)"

definition applies_to :: "egress_rule \<Rightarrow> string \<Rightarrow> bool" where
  "applies_to r org = (''*'' \<in> set (er_to_orgs r) \<or> org \<in> set (er_to_orgs r))"

text \<open>Fields of a type other than the declared one are outside the model (\<open>EgressForeign\<close>).\<close>

definition text_at :: "(string \<times> json) list \<Rightarrow> string \<Rightarrow> egress_error + string" where
  "text_at d k = (case map_of d k of None \<Rightarrow> Inl EgressFieldMissing | Some (JStr s) \<Rightarrow> Inr s | _ \<Rightarrow> Inl EgressForeign)"

definition opt_text_at :: "(string \<times> json) list \<Rightarrow> string \<Rightarrow> egress_error + string option" where
  "opt_text_at d k = (case py_get d k of JNull \<Rightarrow> Inr None | JStr s \<Rightarrow> Inr (Some s) | _ \<Rightarrow> Inl EgressForeign)"

definition egress_rule_of_dict :: "regexes \<Rightarrow> (string \<times> json) list \<Rightarrow> egress_error + egress_rule" where
  "egress_rule_of_dict X d =
     rbind (text_at d ''name'') (\<lambda>n. rbind (text_at d ''action'') (\<lambda>a.
     rbind (opt_text_at d ''pattern'') (\<lambda>p. rbind (opt_text_at d ''field'') (\<lambda>f.
     rbind (case map_of d ''replacement'' of None \<Rightarrow> Inr ''[REDACTED]'' | Some (JStr s) \<Rightarrow> Inr s | _ \<Rightarrow> Inl EgressForeign) (\<lambda>rep.
     rbind (case map_of d ''to_orgs'' of
              None \<Rightarrow> Inr [''*'']
            | Some (JList vs) \<Rightarrow> (case those (List.map opt_of_json vs) of None \<Rightarrow> Inl EgressForeign | Some ss \<Rightarrow> Inr ss)
            | _ \<Rightarrow> Inl EgressForeign) (\<lambda>orgs.
       case egress_action_of a of
         None \<Rightarrow> Inl (UnknownAction a)
       | Some act \<Rightarrow> check_egress_rule X \<lparr> er_name = n, er_action = act, er_pattern = p, er_field = f,
                       er_replacement = rep, er_to_orgs = orgs \<rparr>))))))"

record egress_policy =
  ep_name :: string
  ep_rules :: "egress_rule list"

definition rules_for :: "egress_policy \<Rightarrow> string \<Rightarrow> egress_rule list" where
  "rules_for p org = List.filter (\<lambda>r. applies_to r org) (ep_rules p)"

definition egress_policy_of_dict :: "regexes \<Rightarrow> (string \<times> json) list \<Rightarrow> egress_error + egress_policy" where
  "egress_policy_of_dict X d =
     rbind (case map_of d ''name'' of None \<Rightarrow> Inr ''unnamed'' | Some (JStr s) \<Rightarrow> Inr s | _ \<Rightarrow> Inl EgressForeign) (\<lambda>n.
     rbind (case map_of d ''rules'' of None \<Rightarrow> Inr [] | Some (JList vs) \<Rightarrow> Inr vs | _ \<Rightarrow> Inl EgressForeign) (\<lambda>rows.
     rbind (rmap_list (\<lambda>row. case row of JObj r \<Rightarrow> egress_rule_of_dict X r | _ \<Rightarrow> Inl EgressForeign) rows) (\<lambda>rs.
       Inr \<lparr> ep_name = n, ep_rules = rs \<rparr>)))"

section \<open>Filtering a payload\<close>

definition trigger :: "string \<Rightarrow> string list \<Rightarrow> string list" where
  "trigger n ts = (if n \<in> set ts then ts else ts @ [n])"

definition pattern_hits :: "regexes \<Rightarrow> egress_rule \<Rightarrow> string \<Rightarrow> bool" where
  "pattern_hits X r text = (case rx_search X (case er_pattern r of None \<Rightarrow> [] | Some p \<Rightarrow> p) of
     None \<Rightarrow> False | Some search \<Rightarrow> search text)"

definition dropping_rule :: "egress_rule list \<Rightarrow> string \<Rightarrow> egress_rule option" where
  "dropping_rule rules key = List.find (\<lambda>r. er_action r = Drop \<and>
     str_lower key = str_lower (case er_field r of None \<Rightarrow> [] | Some f \<Rightarrow> f)) rules"

definition blocking_rule :: "regexes \<Rightarrow> egress_rule list \<Rightarrow> string \<Rightarrow> egress_rule option" where
  "blocking_rule X rules text = List.find (\<lambda>r. er_action r = BlockIt \<and> pattern_hits X r text) rules"

fun redact_text :: "regexes \<Rightarrow> egress_rule list \<Rightarrow> string \<Rightarrow> string list \<Rightarrow> string \<times> string list" where
  "redact_text X [] text ts = (text, ts)"
| "redact_text X (r # rs) text ts =
     (if er_action r = Redact then
        (let (new, n) = rx_subn X (case er_pattern r of None \<Rightarrow> [] | Some p \<Rightarrow> p) (er_replacement r) text
         in if n > 0 then redact_text X rs new (trigger (er_name r) ts) else redact_text X rs text ts)
      else redact_text X rs text ts)"

text \<open>\<open>visit\<close> threads the names triggered so far; \<open>Inl\<close> carries the rule of an \<open>EgressBlocked\<close>.\<close>

fun visit :: "regexes \<Rightarrow> egress_rule list \<Rightarrow> json \<Rightarrow> string list \<Rightarrow> string + json \<times> string list"
and visit_elems :: "regexes \<Rightarrow> egress_rule list \<Rightarrow> json list \<Rightarrow> string list \<Rightarrow> string + json list \<times> string list"
and visit_members :: "regexes \<Rightarrow> egress_rule list \<Rightarrow> (string \<times> json) list \<Rightarrow> string list
  \<Rightarrow> string + (string \<times> json) list \<times> string list" where
  "visit X rules (JObj kvs) ts = rbind (visit_members X rules kvs ts) (\<lambda>(out, ts'). Inr (JObj out, ts'))"
| "visit X rules (JList vs) ts = rbind (visit_elems X rules vs ts) (\<lambda>(out, ts'). Inr (JList out, ts'))"
| "visit X rules (JStr s) ts =
     (case blocking_rule X rules s of
        Some r \<Rightarrow> Inl (er_name r)
      | None \<Rightarrow> (let (text, ts') = redact_text X rules s ts in Inr (JStr text, ts')))"
| "visit X rules v ts = Inr (v, ts)"
| "visit_elems X rules [] ts = Inr ([], ts)"
| "visit_elems X rules (v # vs) ts =
     rbind (visit X rules v ts) (\<lambda>(w, ts1). rbind (visit_elems X rules vs ts1) (\<lambda>(ws, ts2). Inr (w # ws, ts2)))"
| "visit_members X rules [] ts = Inr ([], ts)"
| "visit_members X rules (kv # kvs) ts =
     (case dropping_rule rules (fst kv) of
        Some r \<Rightarrow> visit_members X rules kvs (trigger (er_name r) ts)
      | None \<Rightarrow> rbind (visit X rules (snd kv) ts) (\<lambda>(w, ts1).
                  rbind (visit_members X rules kvs ts1) (\<lambda>(ws, ts2). Inr ((fst kv, w) # ws, ts2))))"

definition apply_egress :: "regexes \<Rightarrow> json \<Rightarrow> string \<Rightarrow> egress_policy option \<Rightarrow> string + json \<times> string list" where
  "apply_egress X payload org policy = (case policy of
     None \<Rightarrow> Inr (payload, [])
   | Some p \<Rightarrow>
       if ep_rules p = [] then Inr (payload, [])
       else (let rules = rules_for p org in if rules = [] then Inr (payload, []) else visit X rules payload []))"

section \<open>What leaves: a reference in two passes\<close>

text \<open>The reference removes the dropped members first, and then maps every text value that is left; keys are left
  alone by both.\<close>

fun prune :: "egress_rule list \<Rightarrow> json \<Rightarrow> json"
and prune_elems :: "egress_rule list \<Rightarrow> json list \<Rightarrow> json list"
and prune_members :: "egress_rule list \<Rightarrow> (string \<times> json) list \<Rightarrow> (string \<times> json) list" where
  "prune rules (JObj kvs) = JObj (prune_members rules kvs)"
| "prune rules (JList vs) = JList (prune_elems rules vs)"
| "prune rules v = v"
| "prune_elems rules [] = []"
| "prune_elems rules (v # vs) = prune rules v # prune_elems rules vs"
| "prune_members rules [] = []"
| "prune_members rules (kv # kvs) =
     (if dropping_rule rules (fst kv) = None then [(fst kv, prune rules (snd kv))] else []) @ prune_members rules kvs"

fun map_texts :: "(string \<Rightarrow> string) \<Rightarrow> json \<Rightarrow> json"
and map_texts_elems :: "(string \<Rightarrow> string) \<Rightarrow> json list \<Rightarrow> json list"
and map_texts_members :: "(string \<Rightarrow> string) \<Rightarrow> (string \<times> json) list \<Rightarrow> (string \<times> json) list" where
  "map_texts f (JStr s) = JStr (f s)"
| "map_texts f (JObj kvs) = JObj (map_texts_members f kvs)"
| "map_texts f (JList vs) = JList (map_texts_elems f vs)"
| "map_texts f v = v"
| "map_texts_elems f [] = []"
| "map_texts_elems f (v # vs) = map_texts f v # map_texts_elems f vs"
| "map_texts_members f [] = []"
| "map_texts_members f (kv # kvs) = (fst kv, map_texts f (snd kv)) # map_texts_members f kvs"

fun keys_in :: "json \<Rightarrow> string set"
and keys_in_elems :: "json list \<Rightarrow> string set"
and keys_in_members :: "(string \<times> json) list \<Rightarrow> string set" where
  "keys_in (JObj kvs) = keys_in_members kvs"
| "keys_in (JList vs) = keys_in_elems vs"
| "keys_in _ = {}"
| "keys_in_elems [] = {}"
| "keys_in_elems (v # vs) = keys_in v \<union> keys_in_elems vs"
| "keys_in_members [] = {}"
| "keys_in_members (kv # kvs) = insert (fst kv) (keys_in (snd kv) \<union> keys_in_members kvs)"

fun texts_in :: "json \<Rightarrow> string set"
and texts_in_elems :: "json list \<Rightarrow> string set"
and texts_in_members :: "(string \<times> json) list \<Rightarrow> string set" where
  "texts_in (JStr s) = {s}"
| "texts_in (JObj kvs) = texts_in_members kvs"
| "texts_in (JList vs) = texts_in_elems vs"
| "texts_in _ = {}"
| "texts_in_elems [] = {}"
| "texts_in_elems (v # vs) = texts_in v \<union> texts_in_elems vs"
| "texts_in_members [] = {}"
| "texts_in_members (kv # kvs) = texts_in (snd kv) \<union> texts_in_members kvs"

text \<open>Redaction without the bookkeeping.\<close>

definition redacted :: "regexes \<Rightarrow> egress_rule list \<Rightarrow> string \<Rightarrow> string" where
  "redacted X rules s = fst (redact_text X rules s [])"

lemma redact_text_fst: "fst (redact_text X rules s ts) = redacted X rules s"
proof -
  have "fst (redact_text X rules s ts) = fst (redact_text X rules s us)" for us
  proof (induction rules arbitrary: s ts us)
    case (Cons r rs)
    show ?case
      using Cons [of _ "trigger (er_name r) ts" "trigger (er_name r) us"] Cons [of s ts us]
      by (simp add: split_beta Let_def)
  qed simp
  then show ?thesis by (simp add: redacted_def)
qed

lemma trigger_set: "set (trigger n ts) = insert n (set ts)"
  by (auto simp: trigger_def)

lemma redact_triggers:
  "set ts \<subseteq> N \<Longrightarrow> er_name ` set rules \<subseteq> N \<Longrightarrow> set (snd (redact_text X rules s ts)) \<subseteq> N"
proof (induction rules arbitrary: s ts)
  case (Cons r rs)
  then show ?case by (simp add: split_beta Let_def trigger_set)
qed simp

lemma redact_triggers_sub:
  "set ts \<subseteq> er_name ` set rules \<Longrightarrow> set (snd (redact_text X rules s ts)) \<subseteq> er_name ` set rules"
  by (rule redact_triggers) auto

text \<open>One pass of the code against the two of the reference, on an element, a list or the members of an object.\<close>

definition agrees :: "string set \<Rightarrow> (string \<Rightarrow> bool) \<Rightarrow> 'a \<Rightarrow> string + 'a \<times> string list \<Rightarrow> bool" where
  "agrees texts blocked out res \<longleftrightarrow>
     (case res of Inl n \<Rightarrow> (\<exists>s \<in> texts. blocked s) | Inr (w, ts) \<Rightarrow> (\<forall>s \<in> texts. \<not> blocked s) \<and> w = out)"

lemma agrees_seq:
  assumes "agrees T1 B out1 m" "\<And>w1 ts1. m = Inr (w1, ts1) \<Longrightarrow> agrees T2 B out2 (f ts1)"
  shows "agrees (T1 \<union> T2) B (g out1 out2) (rbind m (\<lambda>(w1, ts1). rbind (f ts1) (\<lambda>(w2, ts2). Inr (g w1 w2, ts2))))"
proof (cases m)
  case (Inl e)
  then show ?thesis using assms(1) by (auto simp: agrees_def)
next
  case (Inr p)
  obtain w1 ts1 where p: "p = (w1, ts1)" by (cases p)
  then show ?thesis using assms Inr
    by (cases "f ts1") (auto simp: agrees_def)
qed

lemma visit_agrees:
  "agrees (texts_in (prune rules v)) (\<lambda>s. blocking_rule X rules s \<noteq> None)
     (map_texts (redacted X rules) (prune rules v)) (visit X rules v ts)"
  "agrees (texts_in_elems (prune_elems rules vs)) (\<lambda>s. blocking_rule X rules s \<noteq> None)
     (map_texts_elems (redacted X rules) (prune_elems rules vs)) (visit_elems X rules vs ts)"
  "agrees (texts_in_members (prune_members rules kvs)) (\<lambda>s. blocking_rule X rules s \<noteq> None)
     (map_texts_members (redacted X rules) (prune_members rules kvs)) (visit_members X rules kvs ts)"
proof (induction X rules v ts and X rules vs ts and X rules kvs ts
    rule: visit_visit_elems_visit_members.induct)
  case (1 X rules kvs ts)
  then show ?case by (cases "visit_members X rules kvs ts") (auto simp: agrees_def)
next
  case (2 X rules vs ts)
  then show ?case by (cases "visit_elems X rules vs ts") (auto simp: agrees_def)
next
  case (3 X rules s ts)
  show ?case
    using redact_text_fst [of X rules s ts]
    by (auto simp: agrees_def split: option.splits prod.splits)
next
  case (6 X rules v vs ts)
  show ?case
    using agrees_seq [OF "6.IH"(1), where f = "visit_elems X rules vs" and g = "(#)"] "6.IH"(2) by simp
next
  case (8 X rules kv kvs ts)
  show ?case
  proof (cases "dropping_rule rules (fst kv)")
    case (Some r)
    then show ?thesis using "8.IH" by simp
  next
    case None
    show ?thesis
      using agrees_seq [OF "8.IH"(1) [OF None], where f = "visit_members X rules kvs" and g = "\<lambda>w ws. (fst kv, w) # ws"]
        "8.IH"(2) [OF None] None by simp
  qed
qed (simp_all add: agrees_def)

lemma visit_triggers:
  "set ts \<subseteq> er_name ` set rules \<Longrightarrow> visit X rules v ts = Inr (w, ts') \<Longrightarrow> set ts' \<subseteq> er_name ` set rules"
  "set ts \<subseteq> er_name ` set rules \<Longrightarrow> visit_elems X rules vs ts = Inr (ws, ts') \<Longrightarrow> set ts' \<subseteq> er_name ` set rules"
  "set ts \<subseteq> er_name ` set rules \<Longrightarrow> visit_members X rules kvs ts = Inr (out, ts') \<Longrightarrow> set ts' \<subseteq> er_name ` set rules"
proof (induction X rules v ts and X rules vs ts and X rules kvs ts arbitrary: w ts' and ws ts' and out ts'
    rule: visit_visit_elems_visit_members.induct)
  case (3 X rules s ts)
  then show ?case using redact_triggers_sub [of ts rules X s]
    by (auto split: option.splits prod.splits)
next
  case (6 X rules v vs ts)
  from "6.prems"(2) obtain w1 ts1 ws1 where s: "visit X rules v ts = Inr (w1, ts1)" "visit_elems X rules vs ts1 = Inr (ws1, ts')"
    by (auto simp: rbind_Inr_iff)
  show ?case by (rule "6.IH"(2) [OF "6.IH"(1) [OF "6.prems"(1) s(1)] s(2)])
next
  case (8 X rules kv kvs ts)
  show ?case
  proof (cases "dropping_rule rules (fst kv)")
    case (Some r)
    then have "r \<in> set rules" by (auto simp: dropping_rule_def find_Some_iff)
    then show ?thesis using "8.IH"(3) [OF Some] "8.prems" Some by (auto simp: trigger_set)
  next
    case None
    then obtain w1 ts1 ws1 where s: "visit X rules (snd kv) ts = Inr (w1, ts1)" "visit_members X rules kvs ts1 = Inr (ws1, ts')"
      using "8.prems"(2) by (auto simp: rbind_Inr_iff)
    show ?thesis by (rule "8.IH"(2) [OF None "8.IH"(1) [OF None "8.prems"(1) s(1)] s(2)])
  qed
qed (auto simp: rbind_Inr_iff)

lemma keys_pruned:
  "k \<in> keys_in (map_texts f (prune rules v)) \<Longrightarrow> dropping_rule rules k = None"
  "k \<in> keys_in_elems (map_texts_elems f (prune_elems rules vs)) \<Longrightarrow> dropping_rule rules k = None"
  "k \<in> keys_in_members (map_texts_members f (prune_members rules kvs)) \<Longrightarrow> dropping_rule rules k = None"
  by (induction rules v and rules vs and rules kvs rule: prune_prune_elems_prune_members.induct)
     (auto split: if_splits)

section \<open>Properties of the component\<close>

text \<open>Filtering in one pass is pruning the dropped members and then redacting every remaining text; the payload
  is refused exactly when a remaining text is hit by a blocking rule, and only names of rules are reported.\<close>

theorem egress_two_passes:
  "case apply_egress X payload org (Some p) of
     Inl n \<Rightarrow> \<exists>s. s \<in> texts_in (prune (rules_for p org) payload) \<and> blocking_rule X (rules_for p org) s \<noteq> None
   | Inr (out, ts) \<Rightarrow>
       {s. s \<in> texts_in (prune (rules_for p org) payload) \<and> blocking_rule X (rules_for p org) s \<noteq> None} = {} \<and>
       out = map_texts (redacted X (rules_for p org)) (prune (rules_for p org) payload) \<and>
       set ts \<subseteq> er_name ` set (rules_for p org)"
proof (cases "rules_for p org = []")
  case False
  then have "apply_egress X payload org (Some p) = visit X (rules_for p org) payload []"
    by (auto simp: apply_egress_def rules_for_def Let_def)
  then show ?thesis
    using visit_agrees(1) [of "rules_for p org" payload X "[]"] visit_triggers(1) [of "[]" "rules_for p org" X payload]
    by (auto simp: agrees_def split: sum.splits prod.splits)
next
  case True
  then have e: "apply_egress X payload org (Some p) = Inr (payload, [])"
    by (simp add: apply_egress_def rules_for_def Let_def)
  have "dropping_rule [] k = None" "blocking_rule X [] s = None" for k s
    by (simp_all add: dropping_rule_def blocking_rule_def)
  moreover have "prune [] v = v" "prune_elems [] vs = vs" "prune_members [] kvs = kvs" for v vs kvs
    by (induction v and vs and kvs rule: keys_in_keys_in_elems_keys_in_members.induct) (simp_all add: calculation)
  moreover have "map_texts (redacted X []) v = v" "map_texts_elems (redacted X []) vs = vs"
    "map_texts_members (redacted X []) kvs = kvs" for v vs kvs
    by (induction v and vs and kvs rule: texts_in_texts_in_elems_texts_in_members.induct) (simp_all add: redacted_def)
  ultimately show ?thesis by (simp add: e True)
qed

lemma dropped_key_gone:
  assumes "apply_egress X payload org (Some p) = Inr (out, ts)" "r \<in> set (rules_for p org)"
    and "er_action r = Drop" "er_field r = Some f" "str_lower k = str_lower f"
  shows "k \<notin> keys_in out"
proof
  assume k: "k \<in> keys_in out"
  have "dropping_rule (rules_for p org) k \<noteq> None"
    using assms(2-5) by (auto simp: dropping_rule_def find_None_iff)
  moreover have ne: "rules_for p org \<noteq> []" using assms(2) by auto
  then have "apply_egress X payload org (Some p) = visit X (rules_for p org) payload []"
    by (auto simp: apply_egress_def rules_for_def Let_def)
  with visit_agrees(1) [of "rules_for p org" payload X "[]"] assms(1)
  have "k \<in> keys_in (map_texts (redacted X (rules_for p org)) (prune (rules_for p org) payload))"
    using k by (simp add: agrees_def)
  ultimately show False using keys_pruned(1) by metis
qed

text \<open>No field that a rule for the destination drops is left in what goes out, at any depth and in any spelling
  of its case.\<close>

theorem egress_drops_everywhere:
  assumes "apply_egress X payload org (Some p) = Inr (out, ts)" "r \<in> set (rules_for p org)"
    and "er_action r = Drop" "er_field r = Some f" "str_lower k = str_lower f"
  shows "k \<notin> keys_in out"
  using assms by (rule dropped_key_gone)

text \<open>Keys are never inspected: a blocking or redacting pattern that matches only a key lets it through.\<close>

theorem egress_ignores_keys:
  assumes "rx_search X ''secret'' = Some (\<lambda>t. t = ''secret-123'')"
  shows "apply_egress X (JObj [(''secret-123'', JInt 1)]) ''partner''
    (Some \<lparr> ep_name = ''p'', ep_rules = [\<lparr> er_name = ''b'', er_action = BlockIt, er_pattern = Some ''secret'',
       er_field = None, er_replacement = [], er_to_orgs = [''*''] \<rparr>] \<rparr>)
    = Inr (JObj [(''secret-123'', JInt 1)], [])"
  by (simp add: apply_egress_def rules_for_def applies_to_def dropping_rule_def Let_def)

theorem egress_drops_everywhere_witness:
  "''SSN'' \<notin> keys_in (JObj [(''a'', JList [JObj []])])"
proof (rule egress_drops_everywhere)
  let ?r = "\<lparr> er_name = ''d'', er_action = Drop, er_pattern = None, er_field = Some ''ssn'',
     er_replacement = [], er_to_orgs = [''*''] \<rparr>"
  have low: "str_lower ''SSN'' = ''ssn''" "str_lower ''ssn'' = ''ssn''" "str_lower ''a'' = ''a''" by code_simp+
  show "apply_egress \<lparr> rx_search = (\<lambda>p. None), rx_subn = (\<lambda>p r t. (t, 0)) \<rparr>
      (JObj [(''a'', JList [JObj [(''SSN'', JInt 1)]])]) ''o'' (Some \<lparr> ep_name = ''p'', ep_rules = [?r] \<rparr>)
      = Inr (JObj [(''a'', JList [JObj []])], [''d''])"
    by (simp add: apply_egress_def rules_for_def applies_to_def dropping_rule_def Let_def low trigger_def)
  show "?r \<in> set (rules_for \<lparr> ep_name = ''p'', ep_rules = [?r] \<rparr> ''o'')"
    by (simp add: rules_for_def applies_to_def)
  show "str_lower ''SSN'' = str_lower ''ssn''" by (simp add: low)
qed simp_all

end
