(* ===== verification/Wire.thy ===== *)
theory Wire
  imports HashChain PyValues
begin

text \<open>
  What travels between agents and hubs: messages (\<open>message.py\<close>), tasks (\<open>task.py\<close>) and identities
  (\<open>identity.py\<close>), with the validation of what is received.  Fresh identifiers and the time are arguments.
\<close>

datatype wire_error =
    WireNotObject
  | WireMissing string
  | WireVersion json
  | WireType json
  | WireField string
  | WireStatus json
  | WireJson

definition opt_str :: "json \<Rightarrow> bool" where
  "opt_str v = (v = JNull \<or> py_is_str v)"

definition opt_number :: "json \<Rightarrow> bool" where
  "opt_number v = (v = JNull \<or> py_is_num v)"

definition nonblank :: "json \<Rightarrow> bool" where
  "nonblank v = (case v of JStr s \<Rightarrow> str_strip s \<noteq> [] | _ \<Rightarrow> False)"

text \<open>\<open>x or fresh\<close> on an optional text.\<close>

definition str_or :: "string option \<Rightarrow> string \<Rightarrow> string" where
  "str_or x fresh = (case x of None \<Rightarrow> fresh | Some s \<Rightarrow> if s = [] then fresh else s)"

definition default_format :: "('sk, 'pk) runtime \<Rightarrow> json_format" where
  "default_format rt = \<lparr> ascii_only = True, item_sep = '', '', key_sep = '': '', float_text = float_repr rt \<rparr>"

section \<open>Messages\<close>

datatype message_type =
    MRegister | MRegistered | MMessage | MRequest | MResponse | MAck | MError | MWhoIs | MIdentity
  | MDiscover | MDiscoverResult | MTaskSubmit | MTaskAssign | MTaskUpdate | MPeerConnect | MPeerConnected
  | MFederationRelay | MClusterJoin | MClusterJoined | MClusterRelay | MAdminRequest | MAdminResult | MTelemetry

definition message_types :: "(message_type \<times> string) list" where
  "message_types =
     [(MRegister, ''register''), (MRegistered, ''registered''), (MMessage, ''message''), (MRequest, ''request''),
      (MResponse, ''response''), (MAck, ''ack''), (MError, ''error''), (MWhoIs, ''who_is''), (MIdentity, ''identity''),
      (MDiscover, ''discover''), (MDiscoverResult, ''discover_result''), (MTaskSubmit, ''task_submit''),
      (MTaskAssign, ''task_assign''), (MTaskUpdate, ''task_update''), (MPeerConnect, ''peer_connect''),
      (MPeerConnected, ''peer_connected''), (MFederationRelay, ''federation_relay''), (MClusterJoin, ''cluster_join''),
      (MClusterJoined, ''cluster_joined''), (MClusterRelay, ''cluster_relay''), (MAdminRequest, ''admin_request''),
      (MAdminResult, ''admin_result''), (MTelemetry, ''telemetry_event'')]"

definition message_type_value :: "message_type \<Rightarrow> string" where
  "message_type_value t = the (map_of message_types t)"

definition message_type_of :: "json \<Rightarrow> message_type option" where
  "message_type_of v = (case v of JStr s \<Rightarrow> map_option fst (List.find (\<lambda>(t, n). n = s) message_types) | _ \<Rightarrow> None)"

record message =
  ms_id :: string
  ms_version :: string
  ms_type :: message_type
  ms_sender :: string
  ms_to :: "string option"
  ms_content :: json
  ms_reply_to :: "string option"
  ms_timestamp :: json
  ms_token :: "string option"

definition message_new ::
  "string \<Rightarrow> rat \<Rightarrow> message_type \<Rightarrow> string \<Rightarrow> string option \<Rightarrow> json \<Rightarrow> string option \<Rightarrow> string option \<Rightarrow> json
    \<Rightarrow> string \<Rightarrow> string option \<Rightarrow> message" where
  "message_new uuid now ty sender to content reply_to msg_id timestamp version token =
     \<lparr> ms_id = str_or msg_id uuid, ms_version = version, ms_type = ty, ms_sender = sender, ms_to = to,
       ms_content = content, ms_reply_to = reply_to, ms_timestamp = py_or timestamp (JFloat now), ms_token = token \<rparr>"

definition message_to_dict :: "message \<Rightarrow> json" where
  "message_to_dict m = JObj
     ([(''id'', JStr (ms_id m)), (''version'', JStr (ms_version m)), (''type'', JStr (message_type_value (ms_type m))),
       (''sender'', JStr (ms_sender m)), (''to'', json_of_opt (ms_to m)), (''content'', ms_content m),
       (''reply_to'', json_of_opt (ms_reply_to m)), (''timestamp'', ms_timestamp m)]
      @ (case ms_token m of None \<Rightarrow> [] | Some t \<Rightarrow> if t = [] then [] else [(''token'', JStr t)]))"

definition message_to_json :: "('sk, 'pk) runtime \<Rightarrow> message \<Rightarrow> string" where
  "message_to_json rt m = ser (default_format rt) (message_to_dict m)"

definition message_from_dict :: "string \<Rightarrow> rat \<Rightarrow> json \<Rightarrow> wire_error + message" where
  "message_from_dict uuid now raw = (case raw of
     JObj d \<Rightarrow>
       if map_of d ''type'' = None then Inl (WireMissing ''type'')
       else if map_of d ''sender'' = None then Inl (WireMissing ''sender'')
       else if (case map_of d ''version'' of None \<Rightarrow> False | Some v \<Rightarrow> v \<noteq> JStr ''intermesh/v1'')
         then Inl (WireVersion (py_get d ''version''))
       else (case message_type_of (py_get d ''type'') of
         None \<Rightarrow> Inl (WireType (py_get d ''type''))
       | Some ty \<Rightarrow>
           if \<not> opt_str (py_get d ''id'') then Inl (WireField ''id'')
           else if \<not> nonblank (py_get d ''sender'') then Inl (WireField ''sender'')
           else if \<not> opt_str (py_get d ''to'') then Inl (WireField ''to'')
           else if \<not> opt_str (py_get d ''reply_to'') then Inl (WireField ''reply_to'')
           else if \<not> opt_number (py_get d ''timestamp'') then Inl (WireField ''timestamp'')
           else if \<not> opt_str (py_get d ''token'') then Inl (WireField ''token'')
           else Inr (message_new uuid now ty (str_of_json (py_get d ''sender'')) (opt_of_json (py_get d ''to''))
                  (py_get d ''content'') (opt_of_json (py_get d ''reply_to'')) (opt_of_json (py_get d ''id''))
                  (py_get d ''timestamp'') ''intermesh/v1'' (opt_of_json (py_get d ''token''))))
   | _ \<Rightarrow> Inl WireNotObject)"

definition message_from_json :: "string \<Rightarrow> rat \<Rightarrow> string \<Rightarrow> wire_error + message" where
  "message_from_json uuid now raw = (case loads raw of None \<Rightarrow> Inl WireJson | Some v \<Rightarrow> message_from_dict uuid now v)"

section \<open>Tasks\<close>

datatype task_status = Pending | Running | Completed | Failed

definition task_status_value :: "task_status \<Rightarrow> string" where
  "task_status_value s = (case s of Pending \<Rightarrow> ''pending'' | Running \<Rightarrow> ''running'' | Completed \<Rightarrow> ''completed''
     | Failed \<Rightarrow> ''failed'')"

definition task_status_of :: "json \<Rightarrow> task_status option" where
  "task_status_of v = (case v of
     JStr s \<Rightarrow> List.find (\<lambda>t. task_status_value t = s) [Pending, Running, Completed, Failed] | _ \<Rightarrow> None)"

record task =
  tk_task_id :: string
  tk_title :: string
  tk_orchestrator :: string
  tk_assignee :: string
  tk_input :: json
  tk_status :: task_status
  tk_output :: json
  tk_error :: json
  tk_summary :: "string option"
  tk_created_at :: json
  tk_updated_at :: json

definition task_new ::
  "string \<Rightarrow> rat \<Rightarrow> string \<Rightarrow> string \<Rightarrow> string \<Rightarrow> json \<Rightarrow> string option \<Rightarrow> task_status \<Rightarrow> json \<Rightarrow> json
    \<Rightarrow> string option \<Rightarrow> json \<Rightarrow> json \<Rightarrow> task" where
  "task_new uuid now title orchestrator assignee input task_id status output err summary created updated =
     \<lparr> tk_task_id = str_or task_id uuid, tk_title = title, tk_orchestrator = orchestrator, tk_assignee = assignee,
       tk_input = input, tk_status = status, tk_output = output, tk_error = err, tk_summary = summary,
       tk_created_at = py_or created (JFloat now), tk_updated_at = py_or updated (JFloat now) \<rparr>"

definition update_status :: "rat \<Rightarrow> task_status \<Rightarrow> json \<Rightarrow> json \<Rightarrow> string option \<Rightarrow> task \<Rightarrow> task" where
  "update_status now status output err summary t =
     (let t1 = t\<lparr>tk_status := status, tk_output := output, tk_error := err\<rparr>;
          t2 = (case summary of None \<Rightarrow> t1 | Some s \<Rightarrow> t1\<lparr>tk_summary := Some s\<rparr>)
      in t2\<lparr>tk_updated_at := JFloat now\<rparr>)"

definition task_to_dict :: "task \<Rightarrow> json" where
  "task_to_dict t = JObj
     [(''task_id'', JStr (tk_task_id t)), (''title'', JStr (tk_title t)), (''orchestrator'', JStr (tk_orchestrator t)),
      (''assignee'', JStr (tk_assignee t)), (''input_data'', tk_input t),
      (''status'', JStr (task_status_value (tk_status t))), (''output_data'', tk_output t),
      (''error_message'', tk_error t), (''summary'', json_of_opt (tk_summary t)),
      (''created_at'', tk_created_at t), (''updated_at'', tk_updated_at t)]"

definition mandatory_task_fields :: "string list" where
  "mandatory_task_fields = [''title'', ''orchestrator'', ''assignee'', ''input_data'']"

definition task_from_dict :: "string \<Rightarrow> rat \<Rightarrow> json \<Rightarrow> wire_error + task" where
  "task_from_dict uuid now raw = (case raw of
     JObj d \<Rightarrow>
       (case List.find (\<lambda>k. map_of d k = None) mandatory_task_fields of
          Some k \<Rightarrow> Inl (WireMissing k)
        | None \<Rightarrow>
            if \<not> opt_str (py_get d ''task_id'') then Inl (WireField ''task_id'')
            else if \<not> nonblank (py_get d ''title'') then Inl (WireField ''title'')
            else if \<not> nonblank (py_get d ''orchestrator'') then Inl (WireField ''orchestrator'')
            else if \<not> nonblank (py_get d ''assignee'') then Inl (WireField ''assignee'')
            else (case task_status_of (case map_of d ''status'' of None \<Rightarrow> JStr ''pending'' | Some v \<Rightarrow> v) of
              None \<Rightarrow> Inl (WireStatus (py_get d ''status''))
            | Some status \<Rightarrow>
                if \<not> opt_number (py_get d ''created_at'') then Inl (WireField ''created_at'')
                else if \<not> opt_number (py_get d ''updated_at'') then Inl (WireField ''updated_at'')
                else if \<not> opt_str (py_get d ''summary'') then Inl (WireField ''summary'')
                else Inr (task_new uuid now (str_of_json (py_get d ''title'')) (str_of_json (py_get d ''orchestrator''))
                       (str_of_json (py_get d ''assignee'')) (py_get d ''input_data'') (opt_of_json (py_get d ''task_id''))
                       status (py_get d ''output_data'') (py_get d ''error_message'') (opt_of_json (py_get d ''summary''))
                       (py_get d ''created_at'') (py_get d ''updated_at''))))
   | _ \<Rightarrow> Inl WireNotObject)"

section \<open>Identities\<close>

record identity =
  id_agent_id :: string
  id_org_id :: string
  id_name :: string
  id_qualified_name :: string
  id_capabilities :: "string list"
  id_roles :: "string list"
  id_permissions :: "string list"
  id_created_at :: json
  id_metadata :: json
  id_public_key :: "string option"
  id_schema :: "string option"
  id_fingerprint :: string

definition qualified_name :: "string \<Rightarrow> string \<Rightarrow> string" where
  "qualified_name org name = (if CHR ''/'' \<in> set name then name else org @ ''/'' @ name)"

definition fingerprint_data :: "identity \<Rightarrow> json" where
  "fingerprint_data i = JObj
     [(''agent_id'', JStr (id_agent_id i)), (''org_id'', JStr (id_org_id i)), (''name'', JStr (id_name i)),
      (''capabilities'', JList (List.map JStr (sort (id_capabilities i)))),
      (''roles'', JList (List.map JStr (sort (id_roles i)))),
      (''permissions'', JList (List.map JStr (sort (id_permissions i)))), (''created_at'', id_created_at i)]"

definition compute_fingerprint :: "('sk, 'pk) runtime \<Rightarrow> identity \<Rightarrow> string" where
  "compute_fingerprint rt i =
     sha256_hex rt (utf8_encode (dumps_sorted (default_format rt) (fingerprint_data i)))"

definition identity_new ::
  "('sk, 'pk) runtime \<Rightarrow> string \<Rightarrow> rat \<Rightarrow> string \<Rightarrow> string \<Rightarrow> string list \<Rightarrow> string list \<Rightarrow> string list
    \<Rightarrow> string option \<Rightarrow> json \<Rightarrow> json \<Rightarrow> string option \<Rightarrow> string option \<Rightarrow> identity" where
  "identity_new rt uuid now name org caps roles perms agent_id created metadata pub schema =
     (let i = \<lparr> id_agent_id = str_or agent_id uuid, id_org_id = org, id_name = name,
                id_qualified_name = qualified_name org name, id_capabilities = caps,
                id_roles = (if roles = [] then [''standard''] else roles), id_permissions = perms,
                id_created_at = py_or created (JFloat now), id_metadata = py_or metadata (JObj []),
                id_public_key = pub, id_schema = schema, id_fingerprint = [] \<rparr>
      in i\<lparr>id_fingerprint := compute_fingerprint rt i\<rparr>)"

definition verify_fingerprint :: "('sk, 'pk) runtime \<Rightarrow> identity \<Rightarrow> bool" where
  "verify_fingerprint rt i = (id_fingerprint i = compute_fingerprint rt i)"

definition has_role :: "identity \<Rightarrow> string \<Rightarrow> bool" where
  "has_role i r = (r \<in> set (id_roles i) \<or> ''admin'' \<in> set (id_roles i))"

definition has_permission :: "identity \<Rightarrow> string \<Rightarrow> bool" where
  "has_permission i p = (if ''admin:*'' \<in> set (id_permissions i) \<or> ''admin'' \<in> set (id_roles i) then True
     else p \<in> set (id_permissions i))"

definition truthy_field :: "string \<Rightarrow> string option \<Rightarrow> (string \<times> json) list" where
  "truthy_field k x = (case x of None \<Rightarrow> [] | Some s \<Rightarrow> if s = [] then [] else [(k, JStr s)])"

definition identity_to_dict :: "identity \<Rightarrow> json" where
  "identity_to_dict i = JObj
     ([(''agent_id'', JStr (id_agent_id i)), (''org_id'', JStr (id_org_id i)), (''name'', JStr (id_name i)),
       (''qualified_name'', JStr (id_qualified_name i)),
       (''capabilities'', JList (List.map JStr (id_capabilities i))), (''roles'', JList (List.map JStr (id_roles i))),
       (''permissions'', JList (List.map JStr (id_permissions i))), (''created_at'', id_created_at i),
       (''metadata'', id_metadata i), (''fingerprint'', JStr (id_fingerprint i))]
      @ truthy_field ''public_key'' (id_public_key i) @ truthy_field ''schema'' (id_schema i))"

text \<open>Fields of another type than the declared one, which \<open>from_dict\<close> takes over unchecked, are outside the model:
  \<open>None\<close> stands for them and for the \<open>KeyError\<close> of a missing name.\<close>

definition strings_field :: "(string \<times> json) list \<Rightarrow> string \<Rightarrow> string list \<Rightarrow> string list option" where
  "strings_field d k dflt = (case map_of d k of
     None \<Rightarrow> Some dflt | Some JNull \<Rightarrow> Some [] | Some (JList vs) \<Rightarrow> those (List.map opt_of_json vs) | _ \<Rightarrow> None)"

definition identity_from_dict :: "('sk, 'pk) runtime \<Rightarrow> string \<Rightarrow> rat \<Rightarrow> json \<Rightarrow> identity option" where
  "identity_from_dict rt uuid now raw = (case raw of
     JObj d \<Rightarrow>
       (case (map_of d ''name'', case map_of d ''org_id'' of None \<Rightarrow> JStr ''default'' | Some v \<Rightarrow> v,
              strings_field d ''capabilities'' [], strings_field d ''roles'' [''standard''],
              strings_field d ''permissions'' []) of
          (Some (JStr n), JStr org, Some caps, Some roles, Some perms) \<Rightarrow>
            if opt_str (py_get d ''agent_id'') \<and> opt_str (py_get d ''public_key'') \<and> opt_str (py_get d ''schema'') then
              (let i = identity_new rt uuid now n org caps roles perms (opt_of_json (py_get d ''agent_id''))
                         (py_get d ''created_at'') (py_get d ''metadata'') (opt_of_json (py_get d ''public_key''))
                         (opt_of_json (py_get d ''schema''))
               in case map_of d ''fingerprint'' of
                    None \<Rightarrow> Some i
                  | Some (JStr f) \<Rightarrow> Some (i\<lparr>id_fingerprint := f\<rparr>)
                  | _ \<Rightarrow> None)
            else None
        | _ \<Rightarrow> None)
   | _ \<Rightarrow> None)"

section \<open>Lemmas\<close>

lemma message_type_of_value [simp]: "message_type_of (JStr (message_type_value t)) = Some t"
  by (cases t) (simp_all add: message_type_of_def message_type_value_def message_types_def)

lemma task_status_of_value [simp]: "task_status_of (JStr (task_status_value s)) = Some s"
  by (cases s) (simp_all add: task_status_of_def task_status_value_def)

lemma opt_str_of_opt [simp]: "opt_str (json_of_opt x)"
  by (cases x) (simp_all add: opt_str_def json_of_opt_def)

lemma format_ok_default [simp]: "format_ok (default_format rt)"
  by (simp add: format_ok_def default_format_def)

definition message_ok :: "message \<Rightarrow> bool" where
  "message_ok m \<longleftrightarrow> ms_id m \<noteq> [] \<and> ms_version m = ''intermesh/v1'' \<and> str_strip (ms_sender m) \<noteq> [] \<and>
     py_is_num (ms_timestamp m) \<and> py_true (ms_timestamp m)"

definition task_ok :: "task \<Rightarrow> bool" where
  "task_ok t \<longleftrightarrow> tk_task_id t \<noteq> [] \<and> str_strip (tk_title t) \<noteq> [] \<and> str_strip (tk_orchestrator t) \<noteq> [] \<and>
     str_strip (tk_assignee t) \<noteq> [] \<and> py_is_num (tk_created_at t) \<and> py_true (tk_created_at t) \<and>
     py_is_num (tk_updated_at t) \<and> py_true (tk_updated_at t)"

lemma py_or_number: "opt_number v \<Longrightarrow> now \<noteq> 0 \<Longrightarrow> py_is_num (py_or v (JFloat now)) \<and> py_true (py_or v (JFloat now))"
  by (auto simp: opt_number_def py_or_def)

lemma nonblank_str: "nonblank v \<Longrightarrow> str_strip (str_of_json v) \<noteq> []"
  by (cases v) (simp_all add: nonblank_def)

lemma str_or_ne: "uuid \<noteq> [] \<Longrightarrow> str_or x uuid \<noteq> []"
  by (auto simp: str_or_def split: option.splits)

lemma opt_str_simps [simp]: "opt_str JNull" "opt_str (JStr s)"
  by (simp_all add: opt_str_def)

lemma message_from_dict_Inr:
  assumes "message_from_dict uuid now raw = Inr m"
  obtains d ty where "raw = JObj d" "nonblank (py_get d ''sender'')" "opt_number (py_get d ''timestamp'')"
    "m = message_new uuid now ty (str_of_json (py_get d ''sender'')) (opt_of_json (py_get d ''to''))
       (py_get d ''content'') (opt_of_json (py_get d ''reply_to'')) (opt_of_json (py_get d ''id''))
       (py_get d ''timestamp'') ''intermesh/v1'' (opt_of_json (py_get d ''token''))"
proof (cases raw)
  case (JObj d)
  with assms show thesis
    by (intro that [of d "the (message_type_of (py_get d ''type''))"]) (auto simp: message_from_dict_def split: option.splits if_splits)
qed (use assms in \<open>simp_all add: message_from_dict_def\<close>)

lemma message_from_dict_ok:
  assumes "message_from_dict uuid now raw = Inr m" "uuid \<noteq> []" "now \<noteq> 0"
  shows "message_ok m"
  using assms(1)
proof (cases rule: message_from_dict_Inr)
  case (1 d ty)
  then show ?thesis using assms(2,3) py_or_number nonblank_str str_or_ne by (simp add: message_ok_def message_new_def)
qed

lemma task_from_dict_Inr:
  assumes "task_from_dict uuid now raw = Inr t"
  obtains d st where "raw = JObj d" "nonblank (py_get d ''title'')" "nonblank (py_get d ''orchestrator'')"
    "nonblank (py_get d ''assignee'')" "opt_number (py_get d ''created_at'')" "opt_number (py_get d ''updated_at'')"
    "t = task_new uuid now (str_of_json (py_get d ''title'')) (str_of_json (py_get d ''orchestrator''))
       (str_of_json (py_get d ''assignee'')) (py_get d ''input_data'') (opt_of_json (py_get d ''task_id''))
       st (py_get d ''output_data'') (py_get d ''error_message'') (opt_of_json (py_get d ''summary''))
       (py_get d ''created_at'') (py_get d ''updated_at'')"
proof (cases raw)
  case (JObj d)
  have f: "List.find (\<lambda>k. map_of d k = None) mandatory_task_fields = None"
    using assms by (auto simp: JObj task_from_dict_def split: option.splits)
  show thesis
    by (rule that [of d "the (task_status_of (case map_of d ''status'' of None \<Rightarrow> JStr ''pending'' | Some v \<Rightarrow> v))", OF JObj];
        use assms in \<open>simp add: JObj task_from_dict_def f split: option.splits if_splits\<close>)
qed (use assms in \<open>simp_all add: task_from_dict_def\<close>)

lemma task_from_dict_ok:
  assumes "task_from_dict uuid now raw = Inr t" "uuid \<noteq> []" "now \<noteq> 0"
  shows "task_ok t"
  using assms(1)
proof (cases rule: task_from_dict_Inr)
  case (1 d st)
  then show ?thesis using assms(2,3) py_or_number nonblank_str str_or_ne by (simp add: task_ok_def task_new_def)
qed

definition without_empty_token :: "message \<Rightarrow> message" where
  "without_empty_token m = (if ms_token m = Some [] then m\<lparr>ms_token := None\<rparr> else m)"

lemma message_dict_roundtrip:
  assumes "message_ok m"
  shows "message_from_dict uuid now (message_to_dict m) = Inr (without_empty_token m)"
proof -
  have "opt_number (ms_timestamp m)" "py_or (ms_timestamp m) (JFloat now) = ms_timestamp m"
    using assms by (simp_all add: message_ok_def opt_number_def py_or_def)
  then show ?thesis
    using assms
    by (cases m; cases "ms_token m")
       (auto simp: message_from_dict_def message_to_dict_def message_ok_def py_get_def nonblank_def str_or_def
          without_empty_token_def message_new_def)
qed


lemma task_dict_roundtrip:
  assumes "task_ok t"
  shows "task_from_dict uuid now (task_to_dict t) = Inr t"
proof -
  have "opt_number (tk_created_at t)" "py_or (tk_created_at t) (JFloat now) = tk_created_at t"
    "opt_number (tk_updated_at t)" "py_or (tk_updated_at t) (JFloat now) = tk_updated_at t"
    using assms by (simp_all add: task_ok_def opt_number_def py_or_def)
  then show ?thesis
    using assms
    by (cases t)
       (simp add: task_from_dict_def task_to_dict_def task_ok_def py_get_def nonblank_def str_or_def task_new_def
          mandatory_task_fields_def)
qed

lemma fingerprint_data_ok:
  "ser_ok F (id_created_at i) \<Longrightarrow> wf_json (id_created_at i) \<Longrightarrow> ser_ok F (fingerprint_data i) \<and> wf_json (fingerprint_data i)"
proof -
  have "ser_ok_elems F (List.map JStr xs)" "wf_elems (List.map JStr xs)" for xs by (induction xs) simp_all
  then show "ser_ok F (id_created_at i) \<Longrightarrow> wf_json (id_created_at i) \<Longrightarrow> ser_ok F (fingerprint_data i) \<and> wf_json (fingerprint_data i)"
    by (simp add: fingerprint_data_def)
qed

lemma sort_elems_strs [simp]: "sort_elems (List.map JStr xs) = List.map JStr xs"
  by (induction xs) simp_all

section \<open>Properties of the component\<close>

text \<open>C38: whatever a message is built from, once accepted it is well formed, and its JSON text is accepted again and
  read as the same message; an empty token is dropped on the way.\<close>

theorem message_json_roundtrip:
  assumes "message_from_dict uuid now raw = Inr m" "uuid \<noteq> []" "now \<noteq> 0"
    and "ser_ok (default_format rt) (ms_content m)" "wf_json (ms_content m)"
    and "ser_ok (default_format rt) (ms_timestamp m)"
  shows "message_from_json uuid' now' (message_to_json rt m) = Inr (without_empty_token m) \<and> message_ok m"
proof -
  have ok: "message_ok m" by (rule message_from_dict_ok [OF assms(1-3)])
  have "wf_json (ms_timestamp m)" using ok by (cases "ms_timestamp m") (auto simp: message_ok_def)
  then have "ser_ok (default_format rt) (message_to_dict m) \<and> wf_json (message_to_dict m)"
    using assms(4-6)
    by (auto simp: message_to_dict_def json_of_opt_def split: option.split)
  then have "loads (message_to_json rt m) = Some (message_to_dict m)"
    by (simp add: message_to_json_def loads_ser)
  then show ?thesis using ok by (simp add: message_from_json_def message_dict_roundtrip)
qed

text \<open>C40: a received task is accepted only with its mandatory texts not blank and with timestamps; an accepted task,
  and every later status update of it, survives its dictionary form unchanged.\<close>

theorem task_accepted_roundtrip:
  assumes "task_from_dict uuid now raw = Inr t" "uuid \<noteq> []" "now \<noteq> 0" "later \<noteq> 0"
  shows "task_ok t \<and> task_from_dict uuid' now' (task_to_dict t) = Inr t \<and>
    task_from_dict uuid' now' (task_to_dict (update_status later st output err summary t))
      = Inr (update_status later st output err summary t)"
proof -
  have ok: "task_ok t" by (rule task_from_dict_ok [OF assms(1-3)])
  then have "task_ok (update_status later st output err summary t)"
    using assms(4) by (cases summary) (simp_all add: task_ok_def update_status_def)
  with ok show ?thesis by (simp add: task_dict_roundtrip)
qed

text \<open>Two identities that both verify and carry one fingerprint agree on everything the fingerprint covers, lists
  up to their order, or exhibit a collision of SHA-256.\<close>

theorem identity_fingerprint_binds:
  assumes "verify_fingerprint rt i" "verify_fingerprint rt j" "id_fingerprint i = id_fingerprint j"
    and "ser_ok (default_format rt) (id_created_at i)" "wf_json (id_created_at i)"
    and "ser_ok (default_format rt) (id_created_at j)" "wf_json (id_created_at j)"
  shows "id_agent_id i = id_agent_id j \<and> id_org_id i = id_org_id j \<and> id_name i = id_name j \<and>
      mset (id_capabilities i) = mset (id_capabilities j) \<and> mset (id_roles i) = mset (id_roles j) \<and>
      mset (id_permissions i) = mset (id_permissions j) \<or>
    hash_collision (sha256_hex rt) {utf8_encode (dumps_sorted (default_format rt) (fingerprint_data i)),
      utf8_encode (dumps_sorted (default_format rt) (fingerprint_data j))}"
proof (cases "dumps_sorted (default_format rt) (fingerprint_data i) = dumps_sorted (default_format rt) (fingerprint_data j)")
  case True
  have s: "sort_json (fingerprint_data i) = sort_json (fingerprint_data j)"
    by (rule dumps_sorted_inj [of "default_format rt"])
       (use True assms(4-7) fingerprint_data_ok [of "default_format rt"] in simp_all)
  note f = sort_json_obj_lookup [OF _ _ s [unfolded fingerprint_data_def]]
  have e: "id_agent_id i = id_agent_id j" "id_org_id i = id_org_id j" "id_name i = id_name j"
    "sort (id_capabilities i) = sort (id_capabilities j)" "sort (id_roles i) = sort (id_roles j)"
    "sort (id_permissions i) = sort (id_permissions j)"
    using f [of "''agent_id''"] f [of "''org_id''"] f [of "''name''"] f [of "''capabilities''"] f [of "''roles''"]
      f [of "''permissions''"] by (simp_all add: inj_map_eq_map inj_def)
  then have "mset (id_capabilities i) = mset (id_capabilities j)" "mset (id_roles i) = mset (id_roles j)"
    "mset (id_permissions i) = mset (id_permissions j)" by (metis mset_sort)+
  with e show ?thesis by blast
next
  case False
  with assms(1-3) show ?thesis
    by (auto simp: hash_collision_def verify_fingerprint_def compute_fingerprint_def)
qed

text \<open>The public key, the schema and the metadata are outside the fingerprint: replacing the key of an identity, on
  which federation trust rests, is not seen by its check.\<close>

theorem fingerprint_ignores_public_key:
  "verify_fingerprint rt (i\<lparr>id_public_key := pub, id_schema := sch, id_metadata := md\<rparr>) = verify_fingerprint rt i"
  by (simp add: verify_fingerprint_def compute_fingerprint_def fingerprint_data_def)

section \<open>Concrete instances\<close>

lemma toy_strip: "str_strip ''bob'' = ''bob''" "str_strip ''t'' = ''t''"
  by code_simp+

definition toy_message :: message where
  "toy_message = message_new ''u'' 1 MAck ''bob'' None (JList []) None None (JInt 7) ''intermesh/v1'' (Some [])"

lemma toy_message_read:
  "message_from_dict ''u'' 1 (JObj [(''type'', JStr ''ack''), (''sender'', JStr ''bob''), (''content'', JList []),
     (''timestamp'', JInt 7), (''token'', JStr [])]) = Inr toy_message"
proof -
  have "message_type_of (JStr ''ack'') = Some MAck" using message_type_of_value [of MAck]
    by (simp add: message_type_value_def message_types_def)
  then show ?thesis
    by (simp add: message_from_dict_def py_get_def nonblank_def toy_strip opt_number_def toy_message_def)
qed

theorem message_json_roundtrip_witness:
  "message_from_json ''v'' 2 (message_to_json toy_runtime toy_message) = Inr (without_empty_token toy_message)"
proof -
  have "message_from_json ''v'' 2 (message_to_json toy_runtime toy_message) = Inr (without_empty_token toy_message)
      \<and> message_ok toy_message"
    by (rule message_json_roundtrip [OF toy_message_read]) (simp_all add: toy_message_def message_new_def py_or_def)
  then show ?thesis ..
qed

definition toy_task :: task where
  "toy_task = task_new ''u'' 1 ''t'' ''bob'' ''bob'' JNull None Pending JNull JNull None (JInt 5) (JInt 5)"

theorem task_accepted_roundtrip_witness:
  "task_from_dict ''v'' 2 (task_to_dict (update_status 3 Completed (JInt 1) JNull (Some ''t'') toy_task))
     = Inr (update_status 3 Completed (JInt 1) JNull (Some ''t'') toy_task)"
proof -
  have "task_status_of (JStr ''pending'') = Some Pending" using task_status_of_value [of Pending]
    by (simp add: task_status_value_def)
  then have r: "task_from_dict ''u'' 1 (JObj [(''title'', JStr ''t''), (''orchestrator'', JStr ''bob''),
      (''assignee'', JStr ''bob''), (''input_data'', JNull), (''created_at'', JInt 5), (''updated_at'', JInt 5)])
      = Inr toy_task"
    by (simp add: task_from_dict_def mandatory_task_fields_def py_get_def nonblank_def toy_strip opt_number_def
        toy_task_def)
  show ?thesis using task_accepted_roundtrip [OF r, of 3 "''v''" 2 Completed "JInt 1" JNull "Some ''t''"] by simp
qed

definition toy_identity :: "string list \<Rightarrow> identity" where
  "toy_identity caps = identity_new toy_runtime ''u'' 1 ''bob'' ''acme'' caps [] [] None (JInt 4) JNull None None"

theorem identity_fingerprint_binds_witness:
  "mset (id_capabilities (toy_identity [''a'', ''b''])) = mset (id_capabilities (toy_identity [''b'', ''a''])) \<or>
   hash_collision (sha256_hex toy_runtime)
     {utf8_encode (dumps_sorted (default_format toy_runtime) (fingerprint_data (toy_identity [''a'', ''b'']))),
      utf8_encode (dumps_sorted (default_format toy_runtime) (fingerprint_data (toy_identity [''b'', ''a''])))}"
proof -
  have "sort [''b'', ''a''] = sort [''a'', ''b'']" by (rule properties_for_sort) simp_all
  then have f: "fingerprint_data (toy_identity [''a'', ''b'']) = fingerprint_data (toy_identity [''b'', ''a''])"
    by (simp add: toy_identity_def identity_new_def fingerprint_data_def Let_def)
  have v: "verify_fingerprint toy_runtime (toy_identity c)" for c
    by (simp add: toy_identity_def identity_new_def verify_fingerprint_def compute_fingerprint_def fingerprint_data_def Let_def)
  have "id_fingerprint (toy_identity [''a'', ''b'']) = id_fingerprint (toy_identity [''b'', ''a''])"
    using v f by (simp add: verify_fingerprint_def compute_fingerprint_def)
  from identity_fingerprint_binds [OF v v this] show ?thesis
    by (simp add: toy_identity_def identity_new_def Let_def py_or_def)
qed

end
