(* ===== verification/Proxy.thy ===== *)
theory Proxy
  imports Evidence ActionApproval
begin

text \<open>
  \<open>assurance/proxy.py\<close>: the evidence journal and the proxy that decides, forwards and records.

  Outside the model, as arguments: the upstream server (\<open>send\<close>: an exception's name and text, or a
  response), the TCP connection of a tunnel (\<open>dial\<close>), the wording of approval errors (\<open>explain\<close>), the
  identifier and the time of each record.  A handler that lets an exception escape has no response.
\<close>

section \<open>The evidence journal\<close>

record evidence_store =
  est_last :: string
  est_count :: nat
  est_file :: "string option"

definition store_new :: "string option \<Rightarrow> evidence_store" where
  "store_new file = \<lparr> est_last = genesis, est_count = 0, est_file = file \<rparr>"

definition evidence_line :: "('sk, 'pk) runtime \<Rightarrow> fields \<Rightarrow> string" where
  "evidence_line rt d = ser (readable_format (float_repr rt)) (JObj d) @ [CHR 0x0A]"

definition store_append ::
  "('sk, 'pk) runtime \<Rightarrow> 'sk \<Rightarrow> evidence \<Rightarrow> evidence_store \<Rightarrow> canonical_error + fields \<times> evidence_store" where
  "store_append rt key e st =
     rbind (evidence_sign rt key None (e\<lparr>ev_prev_hash := est_last st\<rparr>)) (\<lambda>d. Inr
       (d, st\<lparr>est_last := stored_hash d, est_count := est_count st + 1,
              est_file := map_option (\<lambda>t. t @ evidence_line rt d) (est_file st)\<rparr>))"

text \<open>Reading in text mode turns \<open>CR LF\<close> and \<open>CR\<close> into \<open>LF\<close>; \<open>str.splitlines\<close> then splits at every line
  boundary of Unicode, among them the control characters 28 to 30 and 133.\<close>

fun universal_newlines :: "string \<Rightarrow> string" where
  "universal_newlines [] = []"
| "universal_newlines [c] = [if c = CHR 0x0D then CHR 0x0A else c]"
| "universal_newlines (c # d # cs) =
     (if c = CHR 0x0D then (if d = CHR 0x0A then CHR 0x0A # universal_newlines cs
                            else CHR 0x0A # universal_newlines (d # cs))
      else c # universal_newlines (d # cs))"

definition line_end :: "char \<Rightarrow> bool" where
  "line_end c = (of_char c \<in> ({10, 11, 12, 13, 28, 29, 30, 133} :: nat set))"

fun split_lines :: "string \<Rightarrow> string \<Rightarrow> string list" where
  "split_lines acc [] = (if acc = [] then [] else [acc])"
| "split_lines acc (c # cs) = (if line_end c then acc # split_lines [] cs else split_lines (acc @ [c]) cs)"

text \<open>\<open>None\<close>: a line that is JSON but no record, on which the code fails or takes over a digest that is no text.\<close>

definition resume_line :: "string \<Rightarrow> evidence_store \<Rightarrow> evidence_store option" where
  "resume_line line st =
     (if str_strip line = [] then Some st
      else (case loads line of
              None \<Rightarrow> Some st
            | Some (JObj d) \<Rightarrow>
                (case py_or (py_get d ''evidence'') (JObj []) of
                   JObj env \<Rightarrow>
                     (case map_of env ''hash'' of
                        None \<Rightarrow> Some (st\<lparr>est_count := est_count st + 1\<rparr>)
                      | Some (JStr h) \<Rightarrow> Some (st\<lparr>est_last := h, est_count := est_count st + 1\<rparr>)
                      | _ \<Rightarrow> None)
                 | _ \<Rightarrow> None)
            | _ \<Rightarrow> None))"

fun resume_lines :: "string list \<Rightarrow> evidence_store \<Rightarrow> evidence_store option" where
  "resume_lines [] st = Some st"
| "resume_lines (l # ls) st = Option.bind (resume_line l st) (resume_lines ls)"

definition store_open :: "string option \<Rightarrow> evidence_store option" where
  "store_open file = (case file of
     None \<Rightarrow> Some (store_new None)
   | Some t \<Rightarrow> resume_lines (split_lines [] (universal_newlines t)) (store_new (Some t)))"

section \<open>The proxy\<close>

record 'sk proxy =
  px_policy :: policy
  px_key :: 'sk
  px_store :: evidence_store
  px_agent :: string
  px_org :: string
  px_approvals :: approvals

text \<open>The entries of \<open>execution\<close> that name an approval are moved to \<open>authorization\<close>.\<close>

definition move_approval :: "evidence \<Rightarrow> evidence" where
  "move_approval e =
     (let i = py_get (ev_execution e) ''approval_id''; b = py_get (ev_execution e) ''approved_by'';
          e1 = e\<lparr>ev_execution := dict_del ''approved_by'' (dict_del ''approval_id'' (ev_execution e))\<rparr>
      in if py_true i
         then e1\<lparr>ev_authorization := dict_set ''approved_by'' b (dict_set ''approval_id'' i (ev_authorization e))\<rparr>
         else e1)"

definition proxy_record ::
  "('sk, 'pk) runtime \<Rightarrow> string \<times> int \<Rightarrow> string \<Rightarrow> string \<Rightarrow> verdict \<Rightarrow> string \<Rightarrow> string option \<Rightarrow> int option
    \<Rightarrow> string option \<Rightarrow> fields \<Rightarrow> 'sk proxy \<Rightarrow> canonical_error + fields \<times> 'sk proxy" where
  "proxy_record rt stamp method url v status payload_hash response_status response_hash extra px =
     rbind (version_label rt (px_policy px)) (\<lambda>label.
       rbind (store_append rt (px_key px)
         (move_approval (evidence_build (fst stamp) (snd stamp) (px_agent px) (px_org px) method url (vd_risk v)
            (vd_decision v) label (Some (vd_rule v)) payload_hash status response_status response_hash genesis
            ((''reason'', if vd_reason v = [] then JNull else JStr (vd_reason v)) # extra)))
         (px_store px)) (\<lambda>(d, st). Inr (d, px\<lparr>px_store := st\<rparr>)))"

section \<open>Requests\<close>

type_synonym headers = "(string \<times> string) list"

record http_request =
  rq_method :: string
  rq_url :: string
  rq_headers :: headers
  rq_body :: string

record http_response =
  rs_status :: int
  rs_headers :: headers
  rs_body :: string
  rs_length :: nat

record 'sk outcome =
  oc_response :: "http_response option"
  oc_proxy :: "'sk proxy"
  oc_records :: "fields list"
  oc_forwarded :: "headers option"

type_synonym upstream = "string \<Rightarrow> string \<Rightarrow> string \<Rightarrow> headers \<Rightarrow> (string \<times> string) + int \<times> string \<times> headers"

definition hop_by_hop :: "string list" where
  "hop_by_hop = [''connection'', ''keep-alive'', ''proxy-authenticate'', ''te'', ''proxy-authorization'',
     ''trailers'', ''transfer-encoding'', ''upgrade'']"

definition sensitive :: "string list" where
  "sensitive = [''authorization'', ''proxy-authorization'', ''cookie'', ''set-cookie'', ''x-api-key'', ''api-key'',
     ''x-auth-token'']"

definition redact_headers :: "headers \<Rightarrow> headers" where
  "redact_headers hs = List.map (\<lambda>(k, v). (k, if str_lower k \<in> set sensitive then ''<redacted>'' else v)) hs"

definition get_header :: "headers \<Rightarrow> string \<Rightarrow> string option" where
  "get_header hs name = map_option snd (List.find (\<lambda>(k, v). str_lower k = str_lower name) hs)"

definition json_response :: "('sk, 'pk) runtime \<Rightarrow> int \<Rightarrow> fields \<Rightarrow> http_response" where
  "json_response rt status payload =
     (let raw = utf8_encode (ser (readable_format (float_repr rt)) (JObj payload))
      in \<lparr> rs_status = status, rs_headers = [(''Content-Type'', ''application/json; charset=utf-8'')],
           rs_body = raw, rs_length = length raw \<rparr>)"

text \<open>The bytes that are written for a response; \<open>phrase\<close> is the reason phrase of a status.\<close>

definition response_bytes :: "(int \<Rightarrow> string) \<Rightarrow> http_response \<Rightarrow> string" where
  "response_bytes phrase r =
     (let crlf = [CHR 0x0D, CHR 0x0A] in
      concat (List.map (\<lambda>l. utf8_encode l @ crlf)
        ((''HTTP/1.1 '' @ int_str (rs_status r) @ '' '' @ phrase (rs_status r))
          # List.map (\<lambda>(k, v). k @ '': '' @ v) (rs_headers r)
          @ [''Content-Length: '' @ nat_str (rs_length r), []])) @ rs_body r)"

definition refusal ::
  "('sk, 'pk) runtime \<Rightarrow> string \<Rightarrow> verdict \<Rightarrow> string \<Rightarrow> fields \<Rightarrow> string option \<Rightarrow> http_response" where
  "refusal rt kind v label d detail =
     json_response rt 403
       ([(''error'', JStr kind)] @ (case detail of None \<Rightarrow> [] | Some t \<Rightarrow> if t = [] then [] else [(''detail'', JStr t)])
        @ [(''risk'', JStr (risk_str (vd_risk v))), (''rule'', JStr (vd_rule v)),
           (''reason'', if vd_reason v = [] then JNull else JStr (vd_reason v)), (''policy'', JStr label),
           (''evidence_id'', py_get d ''action_id''), (''evidence_hash'', JStr (stored_hash d))])"

definition crash :: "'sk proxy \<Rightarrow> 'sk outcome" where
  "crash px = \<lparr> oc_response = None, oc_proxy = px, oc_records = [], oc_forwarded = None \<rparr>"

text \<open>Record and refuse; the record is what \<open>record\<close> returned.\<close>

definition refuse_with ::
  "('sk, 'pk) runtime \<Rightarrow> string \<Rightarrow> verdict \<Rightarrow> string option \<Rightarrow> 'sk proxy
    \<Rightarrow> canonical_error + fields \<times> 'sk proxy \<Rightarrow> 'sk outcome" where
  "refuse_with rt kind v detail px res = (case res of
     Inl e \<Rightarrow> crash px
   | Inr (d, px1) \<Rightarrow>
       (case version_label rt (px_policy px1) of
          Inl e \<Rightarrow> \<lparr> oc_response = None, oc_proxy = px1, oc_records = [d], oc_forwarded = None \<rparr>
        | Inr label \<Rightarrow> \<lparr> oc_response = Some (refusal rt kind v label d detail), oc_proxy = px1, oc_records = [d],
                         oc_forwarded = None \<rparr>))"

definition forward_headers :: "headers \<Rightarrow> headers" where
  "forward_headers hs = List.filter (\<lambda>(k, v). str_lower k \<notin> set hop_by_hop) hs"

definition answer_headers :: "verdict \<Rightarrow> headers \<Rightarrow> fields option \<Rightarrow> headers" where
  "answer_headers v out d =
     List.filter (\<lambda>(k, x). str_lower k \<noteq> ''content-length'') out
     @ [(''X-InterMesh-Risk'', risk_str (vd_risk v)), (''X-InterMesh-Decision'', decision_str (vd_decision v))]
     @ (case d of None \<Rightarrow> [] | Some r \<Rightarrow> [(''X-InterMesh-Evidence'', str_of_json (py_get r ''action_id''))])"

definition approval_extra :: "approval option \<Rightarrow> fields" where
  "approval_extra a = [(''approval_id'', case a of None \<Rightarrow> JNull | Some x \<Rightarrow> JStr (ap_action_id x)),
                       (''approved_by'', case a of None \<Rightarrow> JNull | Some x \<Rightarrow> JStr (ap_approved_by x))]"

definition forward ::
  "('sk, 'pk) runtime \<Rightarrow> upstream \<Rightarrow> string \<times> int \<Rightarrow> http_request \<Rightarrow> verdict \<Rightarrow> approval option \<Rightarrow> 'sk proxy
    \<Rightarrow> 'sk outcome" where
  "forward rt send stamp rq v a px =
     (let hs = forward_headers (rq_headers rq); digest = payload_digest rt (rq_body rq) in
      case send (rq_method rq) (rq_url rq) (rq_body rq) hs of
        Inl (exc, txt) \<Rightarrow>
          (case proxy_record rt stamp (rq_method rq) (rq_url rq) v ''failed'' digest None None
                  [(''error'', JStr exc), (''approval_id'', case a of None \<Rightarrow> JNull | Some x \<Rightarrow> JStr (ap_action_id x))] px of
             Inl e \<Rightarrow> (crash px)\<lparr>oc_forwarded := Some hs\<rparr>
           | Inr (d, px1) \<Rightarrow>
               \<lparr> oc_response = Some (json_response rt 502 [(''error'', JStr ''upstream_unreachable''), (''reason'', JStr txt)]),
                 oc_proxy = px1, oc_records = [d], oc_forwarded = Some hs \<rparr>)
      | Inr (status, payload, out) \<Rightarrow>
          (let answer = (\<lambda>d px1. \<lparr> oc_response = Some \<lparr> rs_status = status, rs_headers = answer_headers v out d,
                   rs_body = (if rq_method rq = ''HEAD'' then [] else payload), rs_length = length payload \<rparr>,
                 oc_proxy = px1, oc_records = (case d of None \<Rightarrow> [] | Some r \<Rightarrow> [r]), oc_forwarded = Some hs \<rparr>)
           in if requires_evidence (px_policy px) (vd_risk v) then
                (case proxy_record rt stamp (rq_method rq) (rq_url rq) v ''executed'' digest (Some status)
                        (payload_digest rt payload) (approval_extra a) px of
                   Inl e \<Rightarrow> (crash px)\<lparr>oc_forwarded := Some hs\<rparr>
                 | Inr (d, px1) \<Rightarrow> answer (Some d) px1)
              else answer None px))"

definition handle ::
  "('sk, 'pk) runtime \<Rightarrow> (string \<Rightarrow> (string \<Rightarrow> bool) option) \<Rightarrow> (approval_error \<Rightarrow> string) \<Rightarrow> upstream
    \<Rightarrow> string \<times> int \<Rightarrow> http_request \<Rightarrow> 'sk proxy \<Rightarrow> 'sk outcome" where
  "handle rt rx explain send stamp rq px =
     (if \<not> str_prefix ''http'' (rq_url rq) then
        (crash px)\<lparr>oc_response := Some (json_response rt 400
          [(''error'', JStr ''not_a_proxy_request''), (''hint'', JStr ''configurez HTTP_PROXY'')])\<rparr>
      else (case evaluate rx (px_policy px) (rq_method rq) (rq_url rq) of
        None \<Rightarrow> crash px
      | Some v \<Rightarrow>
          (let digest = payload_digest rt (rq_body rq) in
           case vd_decision v of
             Block \<Rightarrow> refuse_with rt ''blocked'' v None px
               (proxy_record rt stamp (rq_method rq) (rq_url rq) v ''blocked'' digest None None [] px)
           | NeedsApproval \<Rightarrow>
               (let token = (case get_header (rq_headers rq) approval_header of None \<Rightarrow> [] | Some t \<Rightarrow> t) in
                if token = [] then refuse_with rt ''approval_required'' v None px
                  (proxy_record rt stamp (rq_method rq) (rq_url rq) v ''pending_approval'' digest None None [] px)
                else (case consume_approval (snd stamp) token (rq_method rq) (rq_url rq) (px_approvals px) of
                  (Inl e, aps) \<Rightarrow>
                    refuse_with rt ''approval_invalid'' v (Some (explain e)) px
                      (proxy_record rt stamp (rq_method rq) (rq_url rq) v ''approval_rejected'' digest None None
                         [(''approval_error'', JStr (explain e))] px)
                | (Inr a, aps) \<Rightarrow> forward rt send stamp rq v (Some a) (px\<lparr>px_approvals := aps\<rparr>)))
           | Allow \<Rightarrow> forward rt send stamp rq v None px)))"

text \<open>Tunnels: \<open>dial\<close> says whether the connection is made (\<open>Inr\<close>), refused with an \<open>OSError\<close> (\<open>Inl (Some text)\<close>), or
  fails with another exception.\<close>

definition partition_colon :: "string \<Rightarrow> string \<times> string" where
  "partition_colon s = (takeWhile (\<lambda>c. c \<noteq> CHR '':'') s, drop 1 (dropWhile (\<lambda>c. c \<noteq> CHR '':'') s))"

definition connect ::
  "('sk, 'pk) runtime \<Rightarrow> (string \<Rightarrow> (string \<Rightarrow> bool) option) \<Rightarrow> (string \<Rightarrow> int \<Rightarrow> string option + unit)
    \<Rightarrow> string \<times> int \<Rightarrow> string \<Rightarrow> 'sk proxy \<Rightarrow> 'sk outcome" where
  "connect rt rx dial stamp target px =
     (let (host, port) = partition_colon target; url = ''https://'' @ host; opaque = [(''tls_opaque'', JBool True)] in
      case evaluate rx (px_policy px) ''CONNECT'' url of
        None \<Rightarrow> crash px
      | Some v \<Rightarrow>
          if vd_decision v \<noteq> Allow then
            (let status = (if vd_decision v = Block then ''blocked'' else ''pending_approval'')
             in refuse_with rt status v None px
                  (proxy_record rt stamp ''CONNECT'' url v status None None None opaque px))
          else
            (case (if port = [] then Some 443 else int_of_text port) of
               None \<Rightarrow> crash px
             | Some n \<Rightarrow>
                 (case dial host n of
                    Inl None \<Rightarrow> crash px
                  | Inl (Some txt) \<Rightarrow> (crash px)\<lparr>oc_response := Some (json_response rt 502
                      [(''error'', JStr ''connect_failed''), (''reason'', JStr txt)])\<rparr>
                  | Inr _ \<Rightarrow>
                      (let established = (\<lambda>ds px1. \<lparr> oc_response = Some \<lparr> rs_status = 200, rs_headers = [], rs_body = [],
                             rs_length = 0 \<rparr>, oc_proxy = px1, oc_records = ds, oc_forwarded = Some [] \<rparr>)
                       in if requires_evidence (px_policy px) (vd_risk v) then
                            (case proxy_record rt stamp ''CONNECT'' url v ''tunnelled'' None None None opaque px of
                               Inl e \<Rightarrow> (crash px)\<lparr>oc_forwarded := Some []\<rparr>
                             | Inr (d, px1) \<Rightarrow> established [d] px1)
                          else established [] px))))"


section \<open>Records of the proxy can always be signed\<close>

fun scalar :: "json \<Rightarrow> bool" where
  "scalar (JFloat q) = False"
| "scalar (JNonFinite s) = False"
| "scalar (JList vs) = False"
| "scalar (JObj kvs) = False"
| "scalar _ = True"

definition scalars :: "fields \<Rightarrow> bool" where
  "scalars d \<longleftrightarrow> distinct (List.map fst d) \<and> (\<forall>kv \<in> set d. scalar (snd kv))"

lemma scalar_plain: "scalar v \<Longrightarrow> no_float v \<and> wf_json v"
  by (cases v) auto

lemma scalars_plain: "scalars d \<Longrightarrow> no_float (JObj d) \<and> wf_json (JObj d)"
  using scalar_plain by (auto simp: scalars_def no_float_members_iff wf_members_iff)

lemma set_update_subset: "set (dict_set k v d) \<subseteq> insert (k, v) (set d)"
  by (induction d) auto

lemma scalars_set: "scalars d \<Longrightarrow> scalar v \<Longrightarrow> scalars (dict_set k v d)"
  using set_update_subset [of k v d] by (auto simp: scalars_def distinct_update)

lemma scalars_del: "scalars d \<Longrightarrow> scalars (dict_del k d)"
  by (auto simp: scalars_def AList.delete_eq distinct_map_filter)

lemma scalars_clean: "scalars d \<Longrightarrow> scalars (clean d)"
  by (auto simp: scalars_def clean_def distinct_map_filter)

lemma scalars_merge: "scalars a \<Longrightarrow> \<forall>kv \<in> set b. scalar (snd kv) \<Longrightarrow> scalars (merge a b)"
  by (induction b arbitrary: a) (auto simp: merge_def scalars_set)

lemma scalar_get: "scalars d \<Longrightarrow> scalar (py_get d k)"
  by (auto simp: py_get_def scalars_def dest: map_of_SomeD split: option.split)

definition evidence_plain :: "evidence \<Rightarrow> bool" where
  "evidence_plain e \<longleftrightarrow> scalars (ev_action e) \<and> scalars (ev_risk e) \<and> scalars (ev_authorization e) \<and> scalars (ev_execution e)"

lemma evidence_plain_build:
  "\<forall>kv \<in> set extra. scalar (snd kv) \<Longrightarrow>
   evidence_plain (evidence_build i now ag org m t risk dec pol ru ph st rs rh prev extra)"
proof -
  assume x: "\<forall>kv \<in> set extra. scalar (snd kv)"
  have j: "scalar (json_opt y)" for y by (cases y) (simp_all add: json_opt_def)
  have "scalars [(''status'', JStr st), (''response_status'', case rs of None \<Rightarrow> JNull | Some i \<Rightarrow> JInt i),
          (''response_hash'', json_opt rh)]"
    by (cases rs) (simp_all add: scalars_def j)
  from scalars_clean [OF scalars_merge [OF this x]] show ?thesis
    by (simp add: evidence_plain_def evidence_build_def) (simp add: scalars_def j)
qed

lemma evidence_plain_move: "evidence_plain e \<Longrightarrow> evidence_plain (move_approval e)"
  by (auto simp: move_approval_def evidence_plain_def Let_def scalars_del scalars_set scalar_get)

lemma plain_body:
  assumes "evidence_plain e"
  shows "no_float (JObj (evidence_body e)) \<and> wf_json (JObj (evidence_body e))"
proof -
  have "no_float (JObj d) \<and> wf_json (JObj d)" if "d \<in> {clean (ev_action e), ev_risk e, clean (ev_authorization e), clean (ev_execution e)}" for d
    using that assms by (intro scalars_plain) (auto simp: evidence_plain_def scalars_clean)
  then show ?thesis by (simp add: evidence_body_def)
qed

lemma version_label_ok: "\<exists>label. version_label rt p = Inr label"
proof -
  have "no_float_elems (List.map rule_row rs)" for rs by (induction rs) (simp_all add: rule_row_def)
  then have "no_float (policy_content p)" by (simp add: policy_content_def)
  then show ?thesis by (simp add: version_label_def policy_fingerprint_def rbind_Inr_iff canonical_hash_Inr)
qed

text \<open>What recording does: one more record, signed by the proxy's key, linked to the last one.\<close>

definition recorded :: "('sk, 'pk) runtime \<Rightarrow> 'sk proxy \<Rightarrow> fields \<Rightarrow> 'sk proxy \<Rightarrow> bool" where
  "recorded rt px d px1 \<longleftrightarrow>
     (\<exists>e. evidence_sign rt (px_key px) None e = Inr d \<and> evidence_plain e \<and> ev_prev_hash e = est_last (px_store px)) \<and>
     px1 = px\<lparr>px_store := (px_store px)\<lparr>est_last := stored_hash d, est_count := est_count (px_store px) + 1,
       est_file := map_option (\<lambda>t. t @ evidence_line rt d) (est_file (px_store px))\<rparr>\<rparr>"

lemma proxy_record_ok:
  assumes "\<forall>kv \<in> set extra. scalar (snd kv)"
  obtains d px1 where "proxy_record rt stamp m url v st ph rs rh extra px = Inr (d, px1)" "recorded rt px d px1"
proof -
  obtain label where l: "version_label rt (px_policy px) = Inr label" using version_label_ok by blast
  define e where "e = (move_approval (evidence_build (fst stamp) (snd stamp) (px_agent px) (px_org px) m url (vd_risk v)
            (vd_decision v) label (Some (vd_rule v)) ph st rs rh genesis
            ((''reason'', if vd_reason v = [] then JNull else JStr (vd_reason v)) # extra)))
        \<lparr>ev_prev_hash := est_last (px_store px)\<rparr>"
  have "evidence_plain (move_approval (evidence_build (fst stamp) (snd stamp) (px_agent px) (px_org px) m url (vd_risk v)
            (vd_decision v) label (Some (vd_rule v)) ph st rs rh genesis
            ((''reason'', if vd_reason v = [] then JNull else JStr (vd_reason v)) # extra)))"
    using assms by (intro evidence_plain_move evidence_plain_build) auto
  then have p: "evidence_plain e" by (simp add: e_def evidence_plain_def)
  then obtain d where d: "evidence_sign rt (px_key px) None e = Inr d"
    using plain_body [OF p] by (auto simp: evidence_sign_def evidence_hash_def rbind_Inr_iff canonical_hash_Inr)
  have "recorded rt px d (px\<lparr>px_store := (px_store px)\<lparr>est_last := stored_hash d, est_count := est_count (px_store px) + 1,
       est_file := map_option (\<lambda>t. t @ evidence_line rt d) (est_file (px_store px))\<rparr>\<rparr>)"
    unfolding recorded_def using d p by (auto simp: e_def)
  moreover have "proxy_record rt stamp m url v st ph rs rh extra px = Inr (d,
      px\<lparr>px_store := (px_store px)\<lparr>est_last := stored_hash d, est_count := est_count (px_store px) + 1,
       est_file := map_option (\<lambda>t. t @ evidence_line rt d) (est_file (px_store px))\<rparr>\<rparr>)"
    using d by (simp add: proxy_record_def l store_append_def e_def)
  ultimately show thesis using that by blast
qed

text \<open>The outcomes of a request, up to the contents of the response.\<close>

definition quiet :: "('sk, 'pk) runtime \<Rightarrow> 'sk proxy \<Rightarrow> 'sk outcome \<Rightarrow> bool" where
  "quiet rt px oc \<longleftrightarrow> oc_records oc = [] \<and> px_store (oc_proxy oc) = px_store px \<and> px_key (oc_proxy oc) = px_key px"

definition one_record :: "('sk, 'pk) runtime \<Rightarrow> 'sk proxy \<Rightarrow> 'sk outcome \<Rightarrow> bool" where
  "one_record rt px oc \<longleftrightarrow> oc_response oc \<noteq> None \<and> (\<exists>d px0. oc_records oc = [d] \<and> recorded rt px0 d (oc_proxy oc) \<and>
     px_store px0 = px_store px \<and> px_key px0 = px_key px)"

lemma refuse_with_one:
  assumes "\<forall>kv \<in> set extra. scalar (snd kv)"
  shows "one_record rt px (refuse_with rt kind v det px (proxy_record rt stamp m url v st ph rs rh extra px)) \<and>
    oc_forwarded (refuse_with rt kind v det px (proxy_record rt stamp m url v st ph rs rh extra px)) = None \<and>
    px_approvals (oc_proxy (refuse_with rt kind v det px (proxy_record rt stamp m url v st ph rs rh extra px))) = px_approvals px"
proof -
  obtain d px1 where r: "proxy_record rt stamp m url v st ph rs rh extra px = Inr (d, px1)" "recorded rt px d px1"
    using proxy_record_ok [OF assms] .
  obtain label where "version_label rt (px_policy px1) = Inr label" using version_label_ok by blast
  then show ?thesis using r by (auto simp: refuse_with_def one_record_def) (auto simp: recorded_def)
qed

lemma forward_outcome:
  "(one_record rt px (forward rt send stamp rq v a px) \<or>
    quiet rt px (forward rt send stamp rq v a px) \<and> oc_response (forward rt send stamp rq v a px) \<noteq> None \<and>
      \<not> requires_evidence (px_policy px) (vd_risk v)) \<and>
   oc_forwarded (forward rt send stamp rq v a px) = Some (forward_headers (rq_headers rq)) \<and>
   px_approvals (oc_proxy (forward rt send stamp rq v a px)) = px_approvals px"
proof (cases "send (rq_method rq) (rq_url rq) (rq_body rq) (forward_headers (rq_headers rq))")
  case (Inl et)
  obtain exc msg where et: "et = (exc, msg)" by (cases et)
  have "\<forall>kv \<in> set [(''error'', JStr exc), (''approval_id'', case a of None \<Rightarrow> JNull | Some x \<Rightarrow> JStr (ap_action_id x))].
      scalar (snd kv)" by (cases a) auto
  then obtain d px1 where r: "proxy_record rt stamp (rq_method rq) (rq_url rq) v ''failed'' (payload_digest rt (rq_body rq))
      None None [(''error'', JStr exc), (''approval_id'', case a of None \<Rightarrow> JNull | Some x \<Rightarrow> JStr (ap_action_id x))] px
      = Inr (d, px1)" "recorded rt px d px1"
    by (rule proxy_record_ok)
  then show ?thesis by (auto simp: forward_def Let_def Inl et one_record_def) (auto simp: recorded_def)
next
  case (Inr spo)
  obtain status payload out where spo: "spo = (status, payload, out)" by (cases spo)
  have "\<forall>kv \<in> set (approval_extra a). scalar (snd kv)" by (cases a) (auto simp: approval_extra_def)
  then obtain d px1 where r: "proxy_record rt stamp (rq_method rq) (rq_url rq) v ''executed'' (payload_digest rt (rq_body rq))
      (Some status) (payload_digest rt payload) (approval_extra a) px = Inr (d, px1)" "recorded rt px d px1"
    by (rule proxy_record_ok)
  show ?thesis
  proof (cases "requires_evidence (px_policy px) (vd_risk v)")
    case True
    then show ?thesis using r by (auto simp: forward_def Let_def Inr spo one_record_def) (auto simp: recorded_def)
  next
    case False
    then show ?thesis by (simp add: forward_def Let_def Inr spo quiet_def)
  qed
qed


lemma one_record_approvals:
  "px_store px0 = px_store px \<Longrightarrow> px_key px0 = px_key px \<Longrightarrow> one_record rt px0 oc \<Longrightarrow> one_record rt px oc"
  unfolding one_record_def by metis

text \<open>What a request may lead to, branch by branch.\<close>

lemma handle_cases:
  obtains (not_proxy) "\<not> str_prefix ''http'' (rq_url rq)" "quiet rt px (handle rt rx explain send stamp rq px)"
      "oc_forwarded (handle rt rx explain send stamp rq px) = None"
      "px_approvals (oc_proxy (handle rt rx explain send stamp rq px)) = px_approvals px"
  | (bad_url) "evaluate rx (px_policy px) (rq_method rq) (rq_url rq) = None"
      "handle rt rx explain send stamp rq px = crash px"
  | (refused) v where "evaluate rx (px_policy px) (rq_method rq) (rq_url rq) = Some v" "vd_decision v \<noteq> Allow"
      "one_record rt px (handle rt rx explain send stamp rq px)"
      "oc_forwarded (handle rt rx explain send stamp rq px) = None"
      "px_approvals (oc_proxy (handle rt rx explain send stamp rq px)) = px_approvals px"
  | (allowed) v where "evaluate rx (px_policy px) (rq_method rq) (rq_url rq) = Some v" "vd_decision v = Allow"
      "handle rt rx explain send stamp rq px = forward rt send stamp rq v None px"
  | (approved) v i a aps where "evaluate rx (px_policy px) (rq_method rq) (rq_url rq) = Some v" "vd_decision v = NeedsApproval"
      "get_header (rq_headers rq) approval_header = Some i"
      "consume_approval (snd stamp) i (rq_method rq) (rq_url rq) (px_approvals px) = (Inr a, aps)"
      "handle rt rx explain send stamp rq px = forward rt send stamp rq v (Some a) (px\<lparr>px_approvals := aps\<rparr>)"
proof -
  let ?H = "handle rt rx explain send stamp rq px"
  consider (n) "\<not> str_prefix ''http'' (rq_url rq)"
    | (b) "str_prefix ''http'' (rq_url rq)" "evaluate rx (px_policy px) (rq_method rq) (rq_url rq) = None"
    | (v) v where "str_prefix ''http'' (rq_url rq)" "evaluate rx (px_policy px) (rq_method rq) (rq_url rq) = Some v" by fastforce
  then show thesis
  proof cases
    case n
    then show thesis by (intro not_proxy) (simp_all add: handle_def crash_def quiet_def)
  next
    case b
    then show thesis by (intro bad_url) (simp_all add: handle_def)
  next
    case (v v)
    show thesis
    proof (cases "vd_decision v")
      case Allow
      with v show thesis by (intro allowed [of v]) (simp_all add: handle_def Let_def)
    next
      case Block
      have "?H = refuse_with rt ''blocked'' v None px (proxy_record rt stamp (rq_method rq) (rq_url rq) v ''blocked''
          (payload_digest rt (rq_body rq)) None None [] px)" using v Block by (simp add: handle_def Let_def)
      with v Block show thesis by (intro refused [of v]) (simp_all add: refuse_with_one)
    next
      case NeedsApproval
      define i where "i = (case get_header (rq_headers rq) approval_header of None \<Rightarrow> [] | Some t \<Rightarrow> t)"
      show thesis
      proof (cases "i = []")
        case True
        have "?H = refuse_with rt ''approval_required'' v None px (proxy_record rt stamp (rq_method rq) (rq_url rq) v
            ''pending_approval'' (payload_digest rt (rq_body rq)) None None [] px)"
          using v NeedsApproval True by (simp add: handle_def Let_def i_def)
        with v NeedsApproval show thesis by (intro refused [of v]) (simp_all add: refuse_with_one)
      next
        case False
        then have h: "get_header (rq_headers rq) approval_header = Some i" by (auto simp: i_def split: option.splits)
        obtain r aps where c: "consume_approval (snd stamp) i (rq_method rq) (rq_url rq) (px_approvals px) = (r, aps)"
          by fastforce
        show thesis
        proof (cases r)
          case (Inl e)
          have "?H = refuse_with rt ''approval_invalid'' v (Some (explain e)) px (proxy_record rt stamp (rq_method rq)
              (rq_url rq) v ''approval_rejected'' (payload_digest rt (rq_body rq)) None None
              [(''approval_error'', JStr (explain e))] px)"
            using v NeedsApproval False c Inl by (simp add: handle_def Let_def h)
          with v NeedsApproval show thesis by (intro refused [of v]) (simp_all add: refuse_with_one)
        next
          case (Inr a)
          then show thesis using v NeedsApproval False c h by (intro approved [of v i a aps]) (simp_all add: handle_def Let_def)
        qed
      qed
    qed
  qed
qed

definition tame :: "('sk, 'pk) runtime \<Rightarrow> 'sk proxy \<Rightarrow> 'sk outcome \<Rightarrow> bool" where
  "tame rt px oc \<longleftrightarrow> quiet rt px oc \<or> one_record rt px oc"

lemma handle_tame: "tame rt px (handle rt rx explain send stamp rq px)"
proof (cases rule: handle_cases [of rq rt px rx explain send stamp])
  case bad_url
  then show ?thesis by (simp add: tame_def quiet_def crash_def)
next
  case (allowed v)
  then show ?thesis using forward_outcome [of rt px send stamp rq v None] by (auto simp: tame_def)
next
  case (approved v i a aps)
  then show ?thesis
    using forward_outcome [of rt "px\<lparr>px_approvals := aps\<rparr>" send stamp rq v "Some a"]
      one_record_approvals [of "px\<lparr>px_approvals := aps\<rparr>" px]
    by (auto simp: tame_def quiet_def)
qed (auto simp: tame_def)

lemma connect_tame_approvals: "tame rt px (connect rt rx dial stamp target px) \<and>
  px_approvals (oc_proxy (connect rt rx dial stamp target px)) = px_approvals px"
proof -
  obtain host port where hp: "partition_colon target = (host, port)" by fastforce
  have op: "\<forall>kv \<in> set [(''tls_opaque'', JBool True)]. scalar (snd kv)" by simp
  have rf: "one_record rt px (refuse_with rt st v None px
      (proxy_record rt stamp ''CONNECT'' u v st None None None [(''tls_opaque'', JBool True)] px))"
    "px_approvals (oc_proxy (refuse_with rt st v None px
      (proxy_record rt stamp ''CONNECT'' u v st None None None [(''tls_opaque'', JBool True)] px))) = px_approvals px" for st v u
    using refuse_with_one [OF op] by blast+
  have q: "quiet rt px (crash px)" "quiet rt px ((crash px)\<lparr>oc_response := x\<rparr>)" "oc_proxy (crash px) = px" for x
    by (simp_all add: quiet_def crash_def)
  have ra: "recorded rt px d px1 \<Longrightarrow> px_approvals px1 = px_approvals px" for d px1
    by (auto simp: recorded_def)
  show ?thesis
  proof (cases "evaluate rx (px_policy px) ''CONNECT'' (''https://'' @ host)")
    case None
    then show ?thesis using q by (simp add: connect_def hp Let_def tame_def)
  next
    case (Some v)
    obtain d px1 where r: "proxy_record rt stamp ''CONNECT'' (''https://'' @ host) v ''tunnelled'' None None None
        [(''tls_opaque'', JBool True)] px = Inr (d, px1)" "recorded rt px d px1"
      by (rule proxy_record_ok [OF op])
    show ?thesis
    proof (cases "vd_decision v = Allow")
      case False
      then show ?thesis using Some rf by (simp add: connect_def hp Let_def tame_def)
    next
      case True
      show ?thesis
        using Some True q r ra [OF r(2)]
        by (auto simp: connect_def hp Let_def tame_def quiet_def one_record_def split: option.split sum.split)
    qed
  qed
qed

lemma connect_tame: "tame rt px (connect rt rx dial stamp target px)"
  and connect_approvals: "px_approvals (oc_proxy (connect rt rx dial stamp target px)) = px_approvals px"
  using connect_tame_approvals by blast+

section \<open>Runs\<close>

datatype proxy_op =
    Request upstream "string \<times> int" http_request
  | Tunnel "string \<Rightarrow> int \<Rightarrow> string option + unit" "string \<times> int" string

fun proxy_step ::
  "('sk, 'pk) runtime \<Rightarrow> (string \<Rightarrow> (string \<Rightarrow> bool) option) \<Rightarrow> (approval_error \<Rightarrow> string) \<Rightarrow> proxy_op \<Rightarrow> 'sk proxy
    \<Rightarrow> 'sk outcome" where
  "proxy_step rt rx explain (Request send stamp rq) px = handle rt rx explain send stamp rq px"
| "proxy_step rt rx explain (Tunnel dial stamp target) px = connect rt rx dial stamp target px"

fun proxy_run ::
  "('sk, 'pk) runtime \<Rightarrow> (string \<Rightarrow> (string \<Rightarrow> bool) option) \<Rightarrow> (approval_error \<Rightarrow> string) \<Rightarrow> proxy_op list \<Rightarrow> 'sk proxy
    \<Rightarrow> fields list \<times> 'sk proxy" where
  "proxy_run rt rx explain [] px = ([], px)"
| "proxy_run rt rx explain (op # ops) px =
     (let oc = proxy_step rt rx explain op px; (ds, px') = proxy_run rt rx explain ops (oc_proxy oc)
      in (oc_records oc @ ds, px'))"

lemma proxy_step_tame: "tame rt px (proxy_step rt rx explain op px)"
  by (cases op) (simp_all add: handle_tame connect_tame)

lemma recorded_valid:
  assumes "runtime_ok rt" "recorded rt px d px1"
  shows "record_valid rt None d \<and> prev_of d = est_last (px_store px) \<and> (\<exists>p. py_get d ''prev_hash'' = JStr p) \<and>
    est_last (px_store px1) = stored_hash d \<and> est_count (px_store px1) = est_count (px_store px) + 1 \<and> px_key px1 = px_key px"
proof -
  obtain e where e: "evidence_sign rt (px_key px) None e = Inr d" "ev_prev_hash e = est_last (px_store px)"
    using assms(2) by (auto simp: recorded_def)
  from signed_record_chain_fields [OF e(1)] signed_record_valid [OF assms(1) e(1)] e(2) assms(2)
  show ?thesis by (auto simp: recorded_def)
qed

lemma proxy_run_chained:
  "runtime_ok rt \<Longrightarrow> proxy_run rt rx explain ops px = (ds, px') \<Longrightarrow>
   chained prev_of stored_hash (record_valid rt None) (est_last (px_store px)) ds \<and>
   (\<forall>d \<in> set ds. \<exists>p. py_get d ''prev_hash'' = JStr p) \<and>
   est_last (px_store px') = chain_head stored_hash (est_last (px_store px)) ds \<and>
   est_count (px_store px') = est_count (px_store px) + length ds"
proof (induction ops arbitrary: px ds px')
  case (Cons op ops)
  define oc where "oc = proxy_step rt rx explain op px"
  obtain es px2 where run: "proxy_run rt rx explain ops (oc_proxy oc) = (es, px2)" by fastforce
  then have ds: "ds = oc_records oc @ es" "px' = px2" using Cons.prems(2) by (auto simp: oc_def Let_def)
  note IH = Cons.IH [OF Cons.prems(1) run]
  have "tame rt px oc" unfolding oc_def by (rule proxy_step_tame)
  then show ?case
  proof (unfold tame_def, elim disjE)
    assume "quiet rt px oc"
    then show ?thesis using IH ds by (simp add: quiet_def)
  next
    assume "one_record rt px oc"
    then obtain d px0 where d: "oc_records oc = [d]" "recorded rt px0 d (oc_proxy oc)" "px_store px0 = px_store px"
      by (auto simp: one_record_def)
    from recorded_valid [OF Cons.prems(1) d(2)] d show ?thesis using IH ds by auto
  qed
qed simp

section \<open>Each approval opens one forwarded request\<close>

text \<open>The approval a step spends: the one named in a request that was forwarded because of it.\<close>

fun spent_by ::
  "('sk, 'pk) runtime \<Rightarrow> (string \<Rightarrow> (string \<Rightarrow> bool) option) \<Rightarrow> (approval_error \<Rightarrow> string) \<Rightarrow> proxy_op \<Rightarrow> 'sk proxy
    \<Rightarrow> string option" where
  "spent_by rt rx explain (Tunnel dial stamp target) px = None"
| "spent_by rt rx explain (Request send stamp rq) px =
     (if oc_forwarded (handle rt rx explain send stamp rq px) \<noteq> None \<and>
         map_option vd_decision (evaluate rx (px_policy px) (rq_method rq) (rq_url rq)) = Some NeedsApproval
      then get_header (rq_headers rq) approval_header else None)"

interpretation proxied: consumable "\<lambda>op px. oc_proxy (proxy_step rt rx explain op px)" "spent_by rt rx explain"
    "\<lambda>px. approval_avail (px_approvals px)" "\<lambda>op t. 0" "\<lambda>px. True"
  for rt :: "('sk, 'pk) runtime" and rx explain
proof
  fix op and px :: "'sk proxy" and t
  show "(if spent_by rt rx explain op px = Some t then 1 else 0)
      + approval_avail (px_approvals (oc_proxy (proxy_step rt rx explain op px))) t
      \<le> approval_avail (px_approvals px) t + 0"
  proof (cases op)
    case (Tunnel dial stamp target)
    then show ?thesis by (simp add: connect_approvals)
  next
    case (Request send stamp rq)
    show ?thesis
    proof (cases rule: handle_cases [of rq rt px rx explain send stamp])
      case not_proxy
      then show ?thesis by (simp add: Request)
    next
      case bad_url
      then show ?thesis by (simp add: Request crash_def)
    next
      case (refused v)
      then show ?thesis by (simp add: Request)
    next
      case (allowed v)
      then show ?thesis using forward_outcome [of rt px send stamp rq v None] by (simp add: Request)
    next
      case (approved v i a aps)
      then have "spent_by rt rx explain op px = Some i"
        using forward_outcome [of rt "px\<lparr>px_approvals := aps\<rparr>" send stamp rq v "Some a"] by (simp add: Request)
      moreover have "approval_used (Consume (snd stamp) i (rq_method rq) (rq_url rq)) (px_approvals px) = Some i"
        "approval_exec (Consume (snd stamp) i (rq_method rq) (rq_url rq)) (px_approvals px) = aps"
        using approved by simp_all
      moreover have "px_approvals (oc_proxy (proxy_step rt rx explain op px)) = aps"
        using approved forward_outcome [of rt "px\<lparr>px_approvals := aps\<rparr>" send stamp rq v "Some a"] by (simp add: Request)
      ultimately show ?thesis
        using approvals.accounted [where op = "Consume (snd stamp) i (rq_method rq) (rq_url rq)" and s = "px_approvals px" and t = t]
        by simp
    qed
  qed
qed simp


section \<open>The text of the journal\<close>

lemma hex_chr_printable: "n < 16 \<Longrightarrow> (32 :: nat) \<le> of_char (hex_chr n)"
  by (auto simp: hex_chr_def of_char_of)

lemma esc_char_printable: "c \<in> set (esc_char asc x) \<Longrightarrow> (32 :: nat) \<le> of_char c"
proof -
  have "of_char x div 16 < (16 :: nat)"
    by (rule less_mult_imp_div_less) (use of_char_less [of x] in simp)
  then show "c \<in> set (esc_char asc x) \<Longrightarrow> (32 :: nat) \<le> of_char c"
    by (auto simp: esc_char_def esc_u_def hex_chr_printable split: if_splits)
qed

lemma ser_str_printable: "c \<in> set (ser_str asc s) \<Longrightarrow> (32 :: nat) \<le> of_char c"
  by (auto simp: ser_str_def esc_char_printable)

lemma digit_printable: "is_digit c \<Longrightarrow> (32 :: nat) \<le> of_char c"
  by (simp add: is_digit_def Let_def)

lemma int_str_printable: "c \<in> set (int_str i) \<Longrightarrow> (32 :: nat) \<le> of_char c"
  using nat_str_digits by (auto simp: int_str_def digit_printable split: if_splits)

lemma ser_printable:
  "no_float v \<Longrightarrow> c \<in> set (ser (readable_format fr) v) \<Longrightarrow> (32 :: nat) \<le> of_char c"
  "no_float_elems vs \<Longrightarrow> c \<in> set (ser_elems (readable_format fr) vs) \<Longrightarrow> (32 :: nat) \<le> of_char c"
  "no_float_members kvs \<Longrightarrow> c \<in> set (ser_members (readable_format fr) kvs) \<Longrightarrow> (32 :: nat) \<le> of_char c"
  by (induction v and vs and kvs rule: no_float_no_float_elems_no_float_members.induct)
     (auto simp: ser_str_printable int_str_printable readable_format_def split: if_splits)

lemma universal_newlines_plain: "CHR 0x0D \<notin> set t \<Longrightarrow> universal_newlines t = t"
  by (induction t rule: universal_newlines.induct) auto

lemma split_lines_line:
  "\<forall>c \<in> set l. \<not> line_end c \<Longrightarrow> split_lines acc (l @ CHR 0x0A # rest) = (acc @ l) # split_lines [] rest"
  by (induction l arbitrary: acc) (auto simp: line_end_def)

text \<open>A record whose text holds no next-line character (133), the one line boundary that JSON leaves as it is.\<close>

definition one_line :: "('sk, 'pk) runtime \<Rightarrow> fields \<Rightarrow> bool" where
  "one_line rt d \<longleftrightarrow> CHR 0x85 \<notin> set (ser (readable_format (float_repr rt)) (JObj d))"

definition signed_plain :: "fields \<Rightarrow> bool" where
  "signed_plain d \<longleftrightarrow> no_float (JObj d) \<and> wf_json (JObj d) \<and>
     (\<exists>env. map_of d ''evidence'' = Some (JObj env) \<and> env \<noteq> [] \<and> map_of env ''hash'' = Some (JStr (stored_hash d)))"

lemma recorded_plain:
  assumes "recorded rt px d px1"
  shows "signed_plain d"
proof -
  obtain e where e: "evidence_sign rt (px_key px) None e = Inr d" "evidence_plain e" using assms by (auto simp: recorded_def)
  then obtain digest where d: "d = evidence_body e @ [(''evidence'', JObj (evidence_envelope rt (px_key px) digest (ev_org e)))]"
    by (auto simp: evidence_sign_def rbind_Inr_iff present_def)
  have "no_float (JObj (evidence_body e))" "wf_json (JObj (evidence_body e))" using plain_body [OF e(2)] by simp_all
  then have "no_float (JObj d)" "wf_json (JObj d)"
    by (auto simp: d no_float_members_iff wf_members_iff evidence_envelope_def evidence_body_def)
  moreover have "map_of d ''evidence'' = Some (JObj (evidence_envelope rt (px_key px) digest (ev_org e)))"
    by (simp add: d evidence_body_def)
  ultimately show ?thesis
    by (auto simp: signed_plain_def stored_hash_def envelope_of_def py_get_def evidence_envelope_def)
qed

lemma line_clean:
  assumes "signed_plain d" "one_line rt d"
  shows "\<forall>c \<in> set (ser (readable_format (float_repr rt)) (JObj d)). \<not> line_end c"
proof
  fix c assume c: "c \<in> set (ser (readable_format (float_repr rt)) (JObj d))"
  then have "(32 :: nat) \<le> of_char c" using assms(1) ser_printable(1) [of "JObj d"] unfolding signed_plain_def by blast
  moreover have "c \<noteq> CHR 0x85" using c assms(2) by (auto simp: one_line_def)
  then have "of_char c \<noteq> (133 :: nat)" using of_char_eq_iff [of c "CHR 0x85", where ?'a = nat] by simp
  ultimately show "\<not> line_end c" by (auto simp: line_end_def)
qed

lemma loads_record: "signed_plain d \<Longrightarrow> loads (ser (readable_format (float_repr rt)) (JObj d)) = Some (JObj d)"
  by (intro loads_ser) (simp_all add: signed_plain_def no_float_ser_ok format_ok_def readable_format_def)

lemma resume_line_record:
  assumes "signed_plain d"
  shows "resume_line (ser (readable_format (float_repr rt)) (JObj d)) st
    = Some (st\<lparr>est_last := stored_hash d, est_count := est_count st + 1\<rparr>)"
proof -
  obtain env where env: "map_of d ''evidence'' = Some (JObj env)" "env \<noteq> []" "map_of env ''hash'' = Some (JStr (stored_hash d))"
    using assms by (auto simp: signed_plain_def)
  have "str_strip (CHR ''{'' # t) \<noteq> []" for t
    by (simp add: str_strip_def is_space_def)
  then show ?thesis using env loads_record [OF assms, of rt] by (simp add: resume_line_def py_get_def py_or_def)
qed

lemma split_lines_records:
  "\<forall>d \<in> set ds. signed_plain d \<and> one_line rt d \<Longrightarrow>
   split_lines [] (concat (List.map (evidence_line rt) ds)) = List.map (\<lambda>d. ser (readable_format (float_repr rt)) (JObj d)) ds"
proof (induction ds)
  case (Cons d ds)
  have "\<forall>c \<in> set (ser (readable_format (float_repr rt)) (JObj d)). \<not> line_end c"
    using Cons.prems by (intro line_clean) auto
  then show ?case using Cons by (simp add: evidence_line_def split_lines_line del: ser.simps)
qed simp

lemma resume_lines_records:
  "\<forall>d \<in> set ds. signed_plain d \<Longrightarrow>
   resume_lines (List.map (\<lambda>d. ser (readable_format (float_repr rt)) (JObj d)) ds) st
     = Some (st\<lparr>est_last := chain_head stored_hash (est_last st) ds, est_count := est_count st + length ds\<rparr>)"
  by (induction ds arbitrary: st) (simp_all add: resume_line_record del: ser.simps)

lemma lines_no_cr:
  assumes "\<forall>d \<in> set ds. signed_plain d"
  shows "CHR 0x0D \<notin> set (concat (List.map (evidence_line rt) ds))"
proof -
  have "CHR 0x0D \<notin> set (ser (readable_format (float_repr rt)) (JObj d))" if "d \<in> set ds" for d
    using ser_printable(1) [of "JObj d" "CHR 0x0D" "float_repr rt"] assms that by (auto simp: signed_plain_def)
  then show ?thesis by (auto simp: evidence_line_def simp del: ser.simps)
qed

lemma proxy_run_file:
  "proxy_run rt rx explain ops px = (ds, px') \<Longrightarrow>
   (\<forall>d \<in> set ds. signed_plain d) \<and>
   est_file (px_store px') = map_option (\<lambda>t. t @ concat (List.map (evidence_line rt) ds)) (est_file (px_store px))"
proof (induction ops arbitrary: px ds px')
  case Nil
  then show ?case by (simp add: option.map_ident)
next
  case (Cons op ops)
  define oc where "oc = proxy_step rt rx explain op px"
  obtain es px2 where run: "proxy_run rt rx explain ops (oc_proxy oc) = (es, px2)" by fastforce
  then have ds: "ds = oc_records oc @ es" "px' = px2" using Cons.prems by (auto simp: oc_def Let_def)
  note IH = Cons.IH [OF run]
  have "tame rt px oc" unfolding oc_def by (rule proxy_step_tame)
  then show ?case
  proof (unfold tame_def, elim disjE)
    assume "quiet rt px oc"
    then show ?thesis using IH ds by (simp add: quiet_def)
  next
    assume "one_record rt px oc"
    then obtain d px0 where d: "oc_records oc = [d]" "recorded rt px0 d (oc_proxy oc)" "px_store px0 = px_store px"
      by (auto simp: one_record_def)
    have "est_file (px_store (oc_proxy oc)) = map_option (\<lambda>t. t @ evidence_line rt d) (est_file (px_store px))"
      using d(2,3) by (auto simp: recorded_def)
    then show ?thesis using IH ds d recorded_plain [OF d(2)] by (cases "est_file (px_store px)") auto
  qed
qed


section \<open>Properties of the component\<close>


text \<open>C33: a request reaches an upstream server only if the policy allows it, or if it carries an approval for exactly
  this method and target that was neither used nor expired; and it is sent without the hop-by-hop headers,
  the proxy's credentials among them.\<close>

theorem proxy_forwards_only_permitted:
  assumes "oc_forwarded (handle rt rx explain send stamp rq px) = Some hs"
  shows "(\<exists>v. evaluate rx (px_policy px) (rq_method rq) (rq_url rq) = Some v \<and>
      (vd_decision v = Allow \<or>
       vd_decision v = NeedsApproval \<and>
       (\<exists>i g. get_header (rq_headers rq) approval_header = Some i \<and> map_of (px_approvals px) i = Some g \<and>
          ap_used_at g = None \<and> snd stamp \<le> ap_expires_at g \<and> ap_method g = str_upper (rq_method rq) \<and>
          ap_target g = rq_url rq))) \<and>
    {k. k \<in> fst ` set hs \<and> str_lower k \<in> set hop_by_hop} = {}"
proof -
  have hs: "hs = forward_headers (rq_headers rq) \<Longrightarrow> {k. k \<in> fst ` set hs \<and> str_lower k \<in> set hop_by_hop} = {}"
    by (auto simp: forward_headers_def)
  show ?thesis
  proof (cases rule: handle_cases [of rq rt px rx explain send stamp])
    case (allowed v)
    then show ?thesis using assms hs forward_outcome [of rt px send stamp rq v None] by auto
  next
    case (approved v i a aps)
    from approved(4) obtain g where "map_of (px_approvals px) i = Some g" "ap_used_at g = None"
      "snd stamp \<le> ap_expires_at g" "ap_method g = str_upper (rq_method rq)" "ap_target g = rq_url rq"
      by (cases rule: consume_cases) auto
    then show ?thesis
      using assms approved hs forward_outcome [of rt "px\<lparr>px_approvals := aps\<rparr>" send stamp rq v "Some a"] by auto
  qed (use assms in \<open>simp_all add: crash_def\<close>)
qed

text \<open>No request goes unanswered or unrecorded: a proxy request whose URL can be read gets a response, and exactly
  one record is written for it, unless it was permitted, sent and answered at a risk below the evidence
  threshold.\<close>

theorem proxy_records_what_it_decides:
  assumes "str_prefix ''http'' (rq_url rq)" "evaluate rx (px_policy px) (rq_method rq) (rq_url rq) = Some v"
  shows "oc_response (handle rt rx explain send stamp rq px) \<noteq> None \<and>
    (length (oc_records (handle rt rx explain send stamp rq px)) = 1 \<or>
     oc_records (handle rt rx explain send stamp rq px) = [] \<and>
     oc_forwarded (handle rt rx explain send stamp rq px) \<noteq> None \<and> vd_decision v \<noteq> Block \<and>
     \<not> requires_evidence (px_policy px) (vd_risk v))"
proof (cases rule: handle_cases [of rq rt px rx explain send stamp])
  case (refused w)
  then show ?thesis by (auto simp: one_record_def)
next
  case (allowed w)
  then show ?thesis using assms forward_outcome [of rt px send stamp rq v None]
    by (auto simp: one_record_def quiet_def)
next
  case (approved w i a aps)
  then show ?thesis using assms forward_outcome [of rt "px\<lparr>px_approvals := aps\<rparr>" send stamp rq v "Some a"]
    by (auto simp: one_record_def quiet_def)
qed (use assms in simp_all)

text \<open>Over any run of the proxy without new grants, no approval is spent by two forwarded requests.\<close>

theorem proxy_approval_opens_once:
  "distinct (spends (\<lambda>op px. oc_proxy (proxy_step rt rx explain op px)) (spent_by rt rx explain) px ops)"
  by (rule proxied.spends_distinct) (simp_all add: approval_avail_def split: option.split)

text \<open>A journal written by a run and opened again after a restart continues with the same last digest and count,
  provided no record holds a next-line character.\<close>

theorem proxy_journal_resumes:
  assumes "px_store px = store_new (Some [])" "proxy_run rt rx explain ops px = (ds, px')" "runtime_ok rt"
    and "\<forall>d \<in> set ds. one_line rt d"
  shows "store_open (est_file (px_store px')) = Some (px_store px')"
proof -
  note f = proxy_run_file [OF assms(2)]
  have t: "est_file (px_store px') = Some (concat (List.map (evidence_line rt) ds))"
    using f by (simp add: assms(1) store_new_def)
  have "universal_newlines (concat (List.map (evidence_line rt) ds)) = concat (List.map (evidence_line rt) ds)"
    using f lines_no_cr by (intro universal_newlines_plain) blast
  moreover have "est_last (px_store px') = chain_head stored_hash genesis ds" "est_count (px_store px') = length ds"
    using proxy_run_chained [OF assms(3,2)] by (simp_all add: assms(1) store_new_def)
  moreover have "\<forall>d \<in> set ds. signed_plain d \<and> one_line rt d" using f assms(4) by blast
  note resume_lines_records [OF conjunct1 [OF f], of rt "store_new (Some (concat (List.map (evidence_line rt) ds)))",
      folded split_lines_records [OF this]]
  ultimately show ?thesis using t by (simp add: store_open_def store_new_def)
qed

section \<open>Concrete instances\<close>

definition toy_proxy :: "decision \<Rightarrow> string option \<Rightarrow> string proxy" where
  "toy_proxy dec file = \<lparr> px_policy = \<lparr> pl_name = ''p'', pl_rules = [], pl_default_decision = dec,
       pl_default_risk = R3, pl_threshold = R2 \<rparr>,
     px_key = ''k'', px_store = store_new file, px_agent = ''a'', px_org = ''o'', px_approvals = [] \<rparr>"

definition toy_request :: http_request where
  "toy_request = \<lparr> rq_method = ''GET'', rq_url = ''http://h/x'', rq_headers = [(''TE'', ''x'')], rq_body = [] \<rparr>"

definition toy_send :: upstream where
  "toy_send m u b hs = Inr (200, [], [])"

lemma toy_proxy_evaluate:
  "evaluate (\<lambda>p. None) (px_policy (toy_proxy dec file)) (rq_method toy_request) (rq_url toy_request)
     = Some (default_verdict (px_policy (toy_proxy dec file)))"
proof -
  have "host_and_path ''http://h/x'' = Some (''h'', ''/x'')" by code_simp
  then show ?thesis by (simp add: evaluate_def toy_request_def toy_proxy_def)
qed


theorem proxy_forwards_only_permitted_witness:
  "\<exists>v. evaluate (\<lambda>p. None) (px_policy (toy_proxy Allow None)) ''GET'' ''http://h/x'' = Some v \<and> vd_decision v = Allow"
proof -
  have "handle toy_runtime (\<lambda>p. None) (\<lambda>e. []) toy_send (''i1'', 5) toy_request (toy_proxy Allow None)
      = forward toy_runtime toy_send (''i1'', 5) toy_request (default_verdict (px_policy (toy_proxy Allow None))) None (toy_proxy Allow None)"
    using toy_proxy_evaluate [of Allow None]
    by (simp add: handle_def Let_def default_verdict_def) (simp add: toy_request_def toy_proxy_def)
  then have "oc_forwarded (handle toy_runtime (\<lambda>p. None) (\<lambda>e. []) toy_send (''i1'', 5) toy_request (toy_proxy Allow None))
      = Some (forward_headers (rq_headers toy_request))"
    using forward_outcome by metis
  from proxy_forwards_only_permitted [OF this] show ?thesis
    using toy_proxy_evaluate [of Allow None] by (auto simp: toy_request_def default_verdict_def toy_proxy_def)
qed

theorem proxy_records_what_it_decides_witness:
  "length (oc_records (handle toy_runtime (\<lambda>p. None) (\<lambda>e. []) toy_send (''i1'', 5) toy_request (toy_proxy Block None))) = 1"
proof -
  have "str_prefix ''http'' (rq_url toy_request)" by (simp add: toy_request_def)
  from proxy_records_what_it_decides [OF this toy_proxy_evaluate [of Block None], of toy_runtime "\<lambda>e. []" toy_send "(''i1'', 5)"]
  show ?thesis by (auto simp: default_verdict_def toy_proxy_def)
qed

text \<open>A runtime with short digests and signatures, so that the text of a record can be computed here.\<close>

definition tiny_runtime :: "(string, string) runtime" where
  "tiny_runtime = toy_runtime\<lparr>sha256 := (\<lambda>s. ''d''), ed_sign := (\<lambda>k m. ''s''), ed_verify := (\<lambda>p s m. s = ''s'')\<rparr>"

lemma tiny_runtime_ok: "runtime_ok tiny_runtime"
  using toy_runtime_ok by (simp add: runtime_ok_def tiny_runtime_def)

definition toy_run :: "fields list \<times> string proxy" where
  "toy_run = proxy_run tiny_runtime (\<lambda>p. None) (\<lambda>e. []) [Request toy_send (''i1'', 5) toy_request] (toy_proxy Allow (Some []))"

lemma toy_one_line: "list_all (one_line tiny_runtime) (fst toy_run)"
  by code_simp

theorem proxy_journal_resumes_witness:
  "store_open (est_file (px_store (snd toy_run))) = Some (px_store (snd toy_run))"
proof (rule proxy_journal_resumes)
  show "px_store (toy_proxy Allow (Some [])) = store_new (Some [])" by (simp add: toy_proxy_def)
  show "proxy_run tiny_runtime (\<lambda>p. None) (\<lambda>e. []) [Request toy_send (''i1'', 5) toy_request] (toy_proxy Allow (Some []))
      = (fst toy_run, snd toy_run)" by (simp add: toy_run_def)
  show "runtime_ok tiny_runtime" by (rule tiny_runtime_ok)
  show "\<forall>d \<in> set (fst toy_run). one_line tiny_runtime d" using toy_one_line by (simp add: list_all_iff)
qed

end
