(* ===== verification/Tenancy.thy ===== *)
theory Tenancy
  imports RiskPolicy
begin

text \<open>
  Who may reach whom and with which credentials: the routing policy between organisations
  (\<open>policy.py\<close>), the security of federation links (\<open>peering.py\<close>) and the service accounts
  (\<open>apikeys.py\<close>).
\<close>

section \<open>Routing between organisations\<close>

record routing =
  ro_allow_by_default :: bool
  ro_allowed :: "string list"

definition routing_new :: "bool \<Rightarrow> routing" where
  "routing_new dflt = \<lparr> ro_allow_by_default = dflt, ro_allowed = [] \<rparr>"

definition pair_key :: "string \<Rightarrow> string \<Rightarrow> string" where
  "pair_key a b = a @ ''->'' @ b"

definition allow_connection :: "string \<Rightarrow> string \<Rightarrow> routing \<Rightarrow> routing" where
  "allow_connection a b r = r\<lparr>ro_allowed := List.insert (pair_key a b) (ro_allowed r)\<rparr>"

definition revoke_connection :: "string \<Rightarrow> string \<Rightarrow> routing \<Rightarrow> routing" where
  "revoke_connection a b r = r\<lparr>ro_allowed := List.filter (\<lambda>k. k \<noteq> pair_key a b) (ro_allowed r)\<rparr>"

definition can_route :: "routing \<Rightarrow> string \<Rightarrow> string \<Rightarrow> bool" where
  "can_route r a b = (if a = b then True else if ro_allow_by_default r then True else pair_key a b \<in> set (ro_allowed r))"

datatype routing_op = AllowPair string string | RevokePair string string

fun routing_exec :: "routing_op \<Rightarrow> routing \<Rightarrow> routing" where
  "routing_exec (AllowPair a b) r = allow_connection a b r"
| "routing_exec (RevokePair a b) r = revoke_connection a b r"

text \<open>The abstract state is the set of allowed pairs.\<close>

fun pairs_exec :: "routing_op \<Rightarrow> (string \<times> string) set \<Rightarrow> (string \<times> string) set" where
  "pairs_exec (AllowPair a b) S = insert (a, b) S"
| "pairs_exec (RevokePair a b) S = S - {(a, b)}"

fun op_pair :: "routing_op \<Rightarrow> string \<times> string" where
  "op_pair (AllowPair a b) = (a, b)"
| "op_pair (RevokePair a b) = (a, b)"

lemma pair_key_inj:
  assumes "CHR ''>'' \<notin> set a" "CHR ''>'' \<notin> set a'" "pair_key a b = pair_key a' b'"
  shows "a = a' \<and> b = b'"
proof -
  have e: "(a @ ''-'') @ CHR ''>'' # b = (a' @ ''-'') @ CHR ''>'' # b'" using assms(3) by (simp add: pair_key_def)
  have "takeWhile (\<lambda>c. c \<noteq> CHR ''>'') ((a @ ''-'') @ CHR ''>'' # b) = a @ ''-''"
    "takeWhile (\<lambda>c. c \<noteq> CHR ''>'') ((a' @ ''-'') @ CHR ''>'' # b') = a' @ ''-''"
    using assms(1,2) by (subst takeWhile_append2; auto)+
  with e have "a = a'" by (metis append_same_eq)
  with e show ?thesis by simp
qed

lemma pair_key_eq:
  "CHR ''>'' \<notin> set a \<Longrightarrow> CHR ''>'' \<notin> set a' \<Longrightarrow> pair_key a b = pair_key a' b' \<longleftrightarrow> a = a' \<and> b = b'"
  using pair_key_inj by blast

lemma routing_refines:
  assumes "\<forall>op \<in> set ops. CHR ''>'' \<notin> set (fst (op_pair op))" "CHR ''>'' \<notin> set a"
    and "\<forall>x y. CHR ''>'' \<notin> set x \<longrightarrow> (pair_key x y \<in> set (ro_allowed r) \<longleftrightarrow> (x, y) \<in> S)"
  shows "pair_key a b \<in> set (ro_allowed (foldl (\<lambda>r op. routing_exec op r) r ops))
    \<longleftrightarrow> (a, b) \<in> foldl (\<lambda>S op. pairs_exec op S) S ops"
  using assms
proof (induction ops arbitrary: r S)
  case (Cons op ops)
  have op: "CHR ''>'' \<notin> set (fst (op_pair op))" using Cons.prems(1) by simp
  have "pair_key x y \<in> set (ro_allowed (routing_exec op r)) \<longleftrightarrow> (x, y) \<in> pairs_exec op S" if x: "CHR ''>'' \<notin> set x" for x y
  proof -
    have old: "pair_key x y \<in> set (ro_allowed r) \<longleftrightarrow> (x, y) \<in> S" using Cons.prems(3) x by blast
    show ?thesis
      using op by (cases op) (simp_all add: allow_connection_def revoke_connection_def old pair_key_eq [OF x])
  qed
  then show ?case using Cons.IH [of "routing_exec op r" "pairs_exec op S"] Cons.prems(1,2) by simp
qed simp

lemma routing_default: "ro_allow_by_default (foldl (\<lambda>r op. routing_exec op r) r ops) = ro_allow_by_default r"
proof (induction ops arbitrary: r)
  case (Cons op ops)
  then show ?case by (cases op) (simp_all add: allow_connection_def revoke_connection_def)
qed simp

section \<open>Federation links\<close>

text \<open>\<open>urlparse(url).hostname\<close>: without user information, brackets and port, in lower case.\<close>

definition after_last_at :: "string \<Rightarrow> string" where
  "after_last_at s = rev (takeWhile (\<lambda>c. c \<noteq> CHR ''@'') (rev s))"

definition url_hostname :: "string \<Rightarrow> string option option" where
  "url_hostname url = (case urlsplit url of
     None \<Rightarrow> None
   | Some u \<Rightarrow>
       (let h = after_last_at (su_netloc u);
            host = (case dropWhile (\<lambda>c. c \<noteq> CHR ''['') h of
                      [] \<Rightarrow> takeWhile (\<lambda>c. c \<noteq> CHR '':'') h
                    | b # r \<Rightarrow> takeWhile (\<lambda>c. c \<noteq> CHR '']'') r)
        in Some (if host = [] then None else Some (str_lower host))))"

text \<open>Dotted decimal addresses, as \<open>ipaddress\<close> accepts them; \<open>ip6\<close> stands for the textual forms of IPv6: \<open>None\<close>
  when the text is no address, otherwise whether it is a loopback.\<close>

fun split_dots :: "string \<Rightarrow> string \<Rightarrow> string list" where
  "split_dots acc [] = [acc]"
| "split_dots acc (c # cs) = (if c = CHR ''.'' then acc # split_dots [] cs else split_dots (acc @ [c]) cs)"

definition octet :: "string \<Rightarrow> nat option" where
  "octet s = (if s \<noteq> [] \<and> length s \<le> 3 \<and> list_all is_digit s \<and> (length s = 1 \<or> hd s \<noteq> CHR ''0'') \<and> digits_val s \<le> 255
     then Some (digits_val s) else None)"

definition ip4 :: "string \<Rightarrow> nat list option" where
  "ip4 s = (let parts = split_dots [] s in if length parts = 4 then those (List.map octet parts) else None)"

definition ip_loopback :: "(string \<Rightarrow> bool option) \<Rightarrow> string \<Rightarrow> bool option" where
  "ip_loopback ip6 s = (case ip4 s of Some os \<Rightarrow> Some (hd os = 127) | None \<Rightarrow> ip6 s)"

text \<open>\<open>None\<close> is a \<open>ValueError\<close> of the URL parser.\<close>

definition is_loopback_url :: "(string \<Rightarrow> bool option) \<Rightarrow> string \<Rightarrow> bool option" where
  "is_loopback_url ip6 url = (case url_hostname url of
     None \<Rightarrow> None
   | Some None \<Rightarrow> Some False
   | Some (Some host) \<Rightarrow>
       if host = ''localhost'' then Some True
       else Some (case ip_loopback ip6 host of None \<Rightarrow> False | Some b \<Rightarrow> b))"

datatype peer_error = PeerFormat | PeerOrgMissing | PeerScheme | PeerUrl | PeerInsecure

definition parse_peer_spec :: "string \<Rightarrow> peer_error + string \<times> string" where
  "parse_peer_spec spec = (case split_at (\<lambda>c. c = CHR ''='') spec of
     (a, None) \<Rightarrow> Inl PeerFormat
   | (a, Some b) \<Rightarrow>
       (let org = str_strip a; url = str_strip b in
        if org = [] then Inl PeerOrgMissing
        else (case urlsplit url of
                None \<Rightarrow> Inl PeerUrl
              | Some u \<Rightarrow> if su_scheme u \<notin> set [''wss'', ''ws''] then Inl PeerScheme else Inr (org, url))))"

definition assert_peer_link_is_secure :: "(string \<Rightarrow> bool option) \<Rightarrow> string \<Rightarrow> bool \<Rightarrow> peer_error + unit" where
  "assert_peer_link_is_secure ip6 url allow_insecure = (case urlsplit url of
     None \<Rightarrow> Inl PeerUrl
   | Some u \<Rightarrow>
       if su_scheme u = ''wss'' then Inr ()
       else (case is_loopback_url ip6 url of
               None \<Rightarrow> Inl PeerUrl
             | Some True \<Rightarrow> Inr ()
             | Some False \<Rightarrow> if allow_insecure then Inr () else Inl PeerInsecure))"

text \<open>Whether a link to a peer is made over TLS, with the peer's certificate checked.\<close>

definition peer_link_verified :: "string \<Rightarrow> bool" where
  "peer_link_verified url = (case urlsplit url of None \<Rightarrow> False | Some u \<Rightarrow> su_scheme u = ''wss'')"

text \<open>\<open>certificate_subject\<close> on the subject of a peer certificate: the first common name.\<close>

definition certificate_subject :: "(string \<times> string) list list \<Rightarrow> string option" where
  "certificate_subject subject = map_option snd (List.find (\<lambda>(k, v). k = ''commonName'') (concat subject))"

section \<open>Service accounts\<close>

record key_info =
  ki_org :: json
  ki_roles :: "json list"
  ki_permissions :: "json list"
  ki_label :: json
  ki_created :: json

record key_store =
  ks_keys :: "key_info dict"
  ks_path :: bool

datatype api_key_error = ReadOnlyKeys | BadKeyFile | KeyFormat

definition hash_key :: "('sk, 'pk) runtime \<Rightarrow> string \<Rightarrow> string" where
  "hash_key rt raw = sha256_hex rt (utf8_encode raw)"

text \<open>\<open>list(info.get(name, []))\<close>: a text gives its characters and an object its keys; \<open>None\<close> is a \<open>TypeError\<close>.\<close>

definition list_of_value :: "json option \<Rightarrow> json list option" where
  "list_of_value v = (case v of
     None \<Rightarrow> Some []
   | Some (JList vs) \<Rightarrow> Some vs
   | Some (JStr s) \<Rightarrow> Some (List.map (\<lambda>c. JStr [c]) s)
   | Some (JObj d) \<Rightarrow> Some (List.map (\<lambda>(k, _). JStr k) d)
   | _ \<Rightarrow> None)"

text \<open>A member that the entry does not have is \<open>JNull\<close>: only true values are stored in the two optional members.\<close>

definition if_true :: "json \<Rightarrow> json" where
  "if_true v = (if py_true v then v else JNull)"

definition key_normalize :: "string \<Rightarrow> json \<Rightarrow> key_info option" where
  "key_normalize label info = (case info of
     JObj d \<Rightarrow>
       (case (map_of d ''org_id'', list_of_value (map_of d ''roles''), list_of_value (map_of d ''permissions'')) of
          (Some org, Some rs, Some ps) \<Rightarrow>
            Some \<lparr> ki_org = org, ki_roles = rs, ki_permissions = ps,
                   ki_label = (if label \<noteq> [] then JStr label else if_true (py_get d ''label'')),
                   ki_created = if_true (py_get d ''created_at'') \<rparr>
        | _ \<Rightarrow> None)
   | _ \<Rightarrow> None)"

definition keys_of_pairs :: "(string \<Rightarrow> string) \<Rightarrow> (string \<times> json) list \<Rightarrow> key_info dict option" where
  "keys_of_pairs f kvs =
     map_option (foldl (\<lambda>d kv. dict_set (fst kv) (snd kv) d) [])
       (those (List.map (\<lambda>(k, info). map_option (Pair (f k)) (key_normalize [] info)) kvs))"

definition key_store_new :: "('sk, 'pk) runtime \<Rightarrow> (string \<times> json) list \<Rightarrow> bool \<Rightarrow> key_store option" where
  "key_store_new rt kvs path = map_option (\<lambda>d. \<lparr> ks_keys = d, ks_path = path \<rparr>) (keys_of_pairs (hash_key rt) kvs)"

definition key_describe :: "key_store \<Rightarrow> json list" where
  "key_describe ks = List.map (\<lambda>(h, i). JObj
     [(''fingerprint'', JStr (take 12 h)), (''org_id'', ki_org i), (''roles'', JList (ki_roles i)),
      (''permissions'', JList (ki_permissions i)),
      (''label'', if ki_label i = JNull then JStr [] else ki_label i), (''created_at'', ki_created i)])
     (sort_key fst (ks_keys ks))"

text \<open>A store without a file raises when it is to be saved - after the change was made in memory.  \<open>create_key\<close> gets
  the generated key as an argument.\<close>

definition persist :: "key_store \<Rightarrow> api_key_error + key_store" where
  "persist ks = (if ks_path ks then Inr ks else Inl ReadOnlyKeys)"

definition create_key ::
  "('sk, 'pk) runtime \<Rightarrow> string \<Rightarrow> rat \<Rightarrow> json \<Rightarrow> json \<Rightarrow> json \<Rightarrow> string \<Rightarrow> key_store
    \<Rightarrow> (api_key_error + string) \<times> key_store" where
  "create_key rt raw now org roles perms label ks =
     (case key_normalize label (JObj [(''org_id'', org), (''roles'', roles), (''permissions'', perms), (''created_at'', JFloat now)]) of
        None \<Rightarrow> (Inl KeyFormat, ks)
      | Some i \<Rightarrow>
          (let ks1 = ks\<lparr>ks_keys := dict_set (hash_key rt raw) i (ks_keys ks)\<rparr>
           in case persist ks1 of Inl e \<Rightarrow> (Inl e, ks1) | Inr ks2 \<Rightarrow> (Inr raw, ks2)))"

definition revoke_key :: "string \<Rightarrow> key_store \<Rightarrow> (api_key_error + bool) \<times> key_store" where
  "revoke_key prefix ks = (case List.filter (str_prefix prefix) (List.map fst (ks_keys ks)) of
     [h] \<Rightarrow>
       (let ks1 = ks\<lparr>ks_keys := dict_del h (ks_keys ks)\<rparr>
        in case persist ks1 of Inl e \<Rightarrow> (Inl e, ks1) | Inr ks2 \<Rightarrow> (Inr True, ks2))
   | _ \<Rightarrow> (Inr False, ks))"

definition lookup_key :: "('sk, 'pk) runtime \<Rightarrow> string \<Rightarrow> key_store \<Rightarrow> key_info option" where
  "lookup_key rt raw ks =
     (if raw = [] then None
      else foldl (\<lambda>m (h, i). if h = hash_key rt raw then Some i else m) None (ks_keys ks))"

definition key_entry :: "key_info \<Rightarrow> json" where
  "key_entry i = JObj
     ([(''org_id'', ki_org i), (''roles'', JList (ki_roles i)), (''permissions'', JList (ki_permissions i))]
      @ (if ki_label i = JNull then [] else [(''label'', ki_label i)])
      @ (if ki_created i = JNull then [] else [(''created_at'', ki_created i)]))"

definition export_hashed :: "key_store \<Rightarrow> (string \<times> json) list" where
  "export_hashed ks = List.map (\<lambda>(h, i). (h, key_entry i)) (ks_keys ks)"

definition import_hashed :: "(string \<times> json) list \<Rightarrow> key_store \<Rightarrow> (api_key_error + unit) \<times> key_store" where
  "import_hashed keys ks =
     (if \<not> ks_path ks then (Inl ReadOnlyKeys, ks)
      else (case keys_of_pairs (\<lambda>h. h) keys of
              None \<Rightarrow> (Inl KeyFormat, ks)
            | Some d \<Rightarrow> (Inr (), ks\<lparr>ks_keys := d\<rparr>)))"

text \<open>Loading: the variable, the file, the demonstration keys, or none.  \<open>KeyFormat\<close> stands for the exceptions of a
  text that is JSON but not a table of accounts.\<close>

definition dev_api_keys :: "(string \<times> json) list" where
  "dev_api_keys =
     [(''nx_dev_acme_demo_key'', JObj [(''org_id'', JStr ''acme''), (''roles'', JList [JStr ''admin'', JStr ''service_account'']),
         (''permissions'', JList [JStr ''admin:*''])]),
      (''nx_dev_globex_demo_key'', JObj [(''org_id'', JStr ''globex''), (''roles'', JList [JStr ''worker'', JStr ''service_account'']),
         (''permissions'', JList [JStr ''compute:execute''])])]"

definition key_result :: "'a option \<Rightarrow> api_key_error + 'a" where
  "key_result m = (case m of None \<Rightarrow> Inl KeyFormat | Some ks \<Rightarrow> Inr ks)"

definition load_inline :: "('sk, 'pk) runtime \<Rightarrow> string \<Rightarrow> api_key_error + key_store" where
  "load_inline rt t = (case loads t of
     None \<Rightarrow> Inl BadKeyFile
   | Some (JObj kvs) \<Rightarrow> key_result (key_store_new rt kvs False)
   | Some v \<Rightarrow> if py_true v then Inl KeyFormat else key_result (key_store_new rt [] False))"

definition load_key_file :: "('sk, 'pk) runtime \<Rightarrow> string \<Rightarrow> api_key_error + key_store" where
  "load_key_file rt t = (case loads t of
     None \<Rightarrow> Inl BadKeyFile
   | Some (JObj d) \<Rightarrow>
       if py_true (py_get d ''__hashed__'') then
         (case (case map_of d ''keys'' of None \<Rightarrow> JObj [] | Some v \<Rightarrow> v) of
            JObj kvs \<Rightarrow> key_result (map_option (\<lambda>ks. \<lparr> ks_keys = ks, ks_path = True \<rparr>) (keys_of_pairs (\<lambda>h. h) kvs))
          | _ \<Rightarrow> Inl KeyFormat)
       else key_result (key_store_new rt d True)
   | Some _ \<Rightarrow> Inl KeyFormat)"

definition load_keys ::
  "('sk, 'pk) runtime \<Rightarrow> string option \<Rightarrow> string option \<Rightarrow> bool \<Rightarrow> api_key_error + key_store" where
  "load_keys rt inline file dev =
     (if inline \<noteq> None \<and> inline \<noteq> Some [] then load_inline rt (the inline)
      else (case file of
              Some t \<Rightarrow> load_key_file rt t
            | None \<Rightarrow> if dev then key_result (key_store_new rt dev_api_keys False)
                      else key_result (key_store_new rt [] True)))"

subsection \<open>The invariant of a key store\<close>

definition key_info_ok :: "key_info \<Rightarrow> bool" where
  "key_info_ok i \<longleftrightarrow> (ki_label i = JNull \<or> py_true (ki_label i)) \<and> (ki_created i = JNull \<or> py_true (ki_created i))"

definition keys_ok :: "key_info dict \<Rightarrow> bool" where
  "keys_ok d \<longleftrightarrow> distinct (List.map fst d) \<and> (\<forall>kv \<in> set d. key_info_ok (snd kv))"

definition key_store_ok :: "key_store \<Rightarrow> bool" where
  "key_store_ok ks \<longleftrightarrow> keys_ok (ks_keys ks)"

lemma key_normalize_ok: "key_normalize label info = Some i \<Longrightarrow> key_info_ok i"
  by (auto simp: key_normalize_def key_info_ok_def if_true_def py_true_simps split: json.splits option.splits if_splits)

lemma key_normalize_entry: "key_info_ok i \<Longrightarrow> key_normalize [] (key_entry i) = Some i"
  by (cases i) (auto simp: key_normalize_def key_entry_def key_info_ok_def if_true_def list_of_value_def py_get_def)

lemma foldl_dict_set_ok:
  assumes "distinct (List.map fst d)" "\<forall>kv \<in> set d. P (snd kv)" "\<forall>kv \<in> set xs. P (snd kv)"
  shows "distinct (List.map fst (foldl (\<lambda>d kv. dict_set (fst kv) (snd kv) d) d xs))
    \<and> (\<forall>kv \<in> set (foldl (\<lambda>d kv. dict_set (fst kv) (snd kv) d) d xs). P (snd kv))"
  using assms
proof (induction xs arbitrary: d)
  case (Cons x xs)
  have "set (dict_set (fst x) (snd x) d) \<subseteq> insert x (set d)" by (induction d) auto
  then have "\<forall>kv \<in> set (dict_set (fst x) (snd x) d). P (snd kv)" using Cons.prems by auto
  then show ?case using Cons.IH [of "dict_set (fst x) (snd x) d"] Cons.prems by (simp add: distinct_update)
qed simp

lemma keys_of_pairs_ok: "keys_of_pairs f kvs = Some d \<Longrightarrow> keys_ok d"
proof -
  assume a: "keys_of_pairs f kvs = Some d"
  then obtain xs where xs: "those (List.map (\<lambda>(k, info). map_option (Pair (f k)) (key_normalize [] info)) kvs) = Some xs"
    and d: "d = foldl (\<lambda>d kv. dict_set (fst kv) (snd kv) d) [] xs"
    by (auto simp: keys_of_pairs_def)
  have "list_all (\<lambda>kv. key_info_ok (snd kv)) xs"
    using xs by (induction kvs arbitrary: xs) (auto intro: key_normalize_ok split: option.splits)
  then show ?thesis using foldl_dict_set_ok [of "[]" key_info_ok xs] by (simp add: d keys_ok_def list_all_iff)
qed

lemma foldl_last_match:
  "distinct (List.map fst d) \<Longrightarrow>
    foldl (\<lambda>m (h, i). if h = k then Some i else m) m d = (case map_of d k of None \<Rightarrow> m | Some i \<Rightarrow> Some i)"
  by (induction d arbitrary: m) (auto split: option.splits dest: map_of_SomeD simp: rev_image_eqI)

lemma lookup_key_map_of:
  assumes "key_store_ok ks" "raw \<noteq> []"
  shows "lookup_key rt raw ks = map_of (ks_keys ks) (hash_key rt raw)"
proof -
  have "distinct (List.map fst (ks_keys ks))" using assms(1) by (simp add: key_store_ok_def keys_ok_def)
  from foldl_last_match [OF this] show ?thesis using assms(2) by (simp add: lookup_key_def split: option.split)
qed

lemma keys_ok_set: "keys_ok d \<Longrightarrow> key_info_ok i \<Longrightarrow> keys_ok (dict_set h i d)"
proof -
  assume ok: "keys_ok d" and i: "key_info_ok i"
  have "set (dict_set h i d) \<subseteq> insert (h, i) (set d)" by (induction d) auto
  then have "\<forall>kv \<in> set (dict_set h i d). key_info_ok (snd kv)" using ok i by (auto simp: keys_ok_def)
  then show ?thesis using ok by (simp add: keys_ok_def distinct_update)
qed

lemma keys_ok_del: "keys_ok d \<Longrightarrow> keys_ok (dict_del h d)"
  using set_dict_del [of h d] by (auto simp: keys_ok_def distinct_delete)

text \<open>What the administration console does to a store, with the key generated and the time of each creation.\<close>

datatype key_op =
    CreateKey string rat json json json string
  | RevokeKey string
  | ImportKeys "(string \<times> json) list"

fun key_exec :: "('sk, 'pk) runtime \<Rightarrow> key_op \<Rightarrow> key_store \<Rightarrow> key_store" where
  "key_exec rt (CreateKey raw now org roles perms label) ks = snd (create_key rt raw now org roles perms label ks)"
| "key_exec rt (RevokeKey prefix) ks = snd (revoke_key prefix ks)"
| "key_exec rt (ImportKeys keys) ks = snd (import_hashed keys ks)"

lemma key_exec_ok: "key_store_ok ks \<Longrightarrow> key_store_ok (key_exec rt op ks)"
  by (cases op) (auto simp: create_key_def revoke_key_def import_hashed_def persist_def Let_def key_store_ok_def
    keys_ok_set keys_ok_del key_normalize_ok keys_of_pairs_ok split: option.splits list.splits)

lemma key_run_ok: "key_store_ok ks \<Longrightarrow> key_store_ok (foldl (\<lambda>ks op. key_exec rt op ks) ks ops)"
  by (induction ops arbitrary: ks) (simp_all add: key_exec_ok)

lemma load_inline_ok: "load_inline rt t = Inr ks \<Longrightarrow> key_store_ok ks"
  by (auto simp: load_inline_def key_result_def key_store_new_def key_store_ok_def keys_of_pairs_ok split: option.splits json.splits if_splits)

lemma load_key_file_ok: "load_key_file rt t = Inr ks \<Longrightarrow> key_store_ok ks"
  by (auto simp: load_key_file_def key_result_def key_store_new_def key_store_ok_def keys_of_pairs_ok Let_def
    split: option.splits json.splits if_splits)

lemma load_keys_ok: "load_keys rt inline file dev = Inr ks \<Longrightarrow> key_store_ok ks"
  by (auto simp: load_keys_def key_result_def key_store_new_def key_store_ok_def keys_of_pairs_ok
    dest: load_inline_ok load_key_file_ok split: option.splits if_splits)

lemma keys_of_pairs_export:
  assumes "key_store_ok ks"
  shows "keys_of_pairs (\<lambda>h. h) (export_hashed ks) = Some (ks_keys ks)"
proof -
  have e: "\<forall>kv \<in> set d. key_info_ok (snd kv) \<Longrightarrow>
    those (List.map (\<lambda>(k, info). map_option (Pair k) (key_normalize [] info)) (List.map (\<lambda>(h, i). (h, key_entry i)) d)) = Some d"
    for d
    by (induction d) (auto simp: key_normalize_entry)
  show ?thesis
    using assms e [of "ks_keys ks"] foldl_dict_set_pairs [of "[]" "ks_keys ks"]
    by (simp add: keys_of_pairs_def export_hashed_def key_store_ok_def keys_ok_def del: map_map)
qed

section \<open>Properties\<close>



text \<open>An agreement between \<open>a\<close> and \<open>b->c\<close> opens the way from \<open>a->b\<close> to \<open>c\<close>.\<close>

lemma arrow_names_collide:
  "can_route (allow_connection ''a'' ''b->c'' (routing_new False)) ''a->b'' ''c''"
  by (simp add: can_route_def allow_connection_def routing_new_def pair_key_def)

definition host_char :: "char \<Rightarrow> bool" where
  "host_char c \<longleftrightarrow> (let n = of_char c :: nat in (48 \<le> n \<and> n \<le> 57) \<or> (65 \<le> n \<and> n \<le> 90) \<or> (97 \<le> n \<and> n \<le> 122) \<or> n = 45 \<or> n = 46)"

lemma host_char_facts:
  assumes "host_char c"
  shows "c \<notin> {CHR '':'', CHR ''/'', CHR ''?'', CHR ''#'', CHR ''@'', CHR ''['', CHR '']''}" "32 < (of_char c :: nat)"
  using assms by (auto simp: host_char_def Let_def)

lemma digit_host_char: "is_digit c \<Longrightarrow> host_char c"
  by (simp add: is_digit_def host_char_def Let_def)

lemma takeWhile_all: "\<forall>c \<in> set s. P c \<Longrightarrow> takeWhile P s = s"
  by simp

lemma split_clean_netloc:
  assumes "\<And>c. c \<in> set n \<Longrightarrow> c \<notin> {CHR ''/'', CHR ''?'', CHR ''#'', CHR ''['', CHR '']''}"
    and "url_clean url = url" "drop_scheme url = (scheme, ''//'' @ n)"
  shows "urlsplit url = Some \<lparr> su_scheme = scheme, su_netloc = n, su_path = [], su_query = [] \<rparr>"
proof -
  have n: "\<forall>c \<in> set n. c \<noteq> CHR ''/'' \<and> c \<noteq> CHR ''?'' \<and> c \<noteq> CHR ''#'' \<and> c \<noteq> CHR ''['' \<and> c \<noteq> CHR '']''"
    using assms(1) by auto
  then have b: "CHR ''['' \<notin> set n" "CHR '']'' \<notin> set n" by auto
  have t: "takeWhile (\<lambda>c. c \<noteq> CHR ''/'' \<and> c \<noteq> CHR ''?'' \<and> c \<noteq> CHR ''#'') n = n"
    "dropWhile (\<lambda>c. c \<noteq> CHR ''/'' \<and> c \<noteq> CHR ''?'' \<and> c \<noteq> CHR ''#'') n = []"
    using n by auto
  show ?thesis by (simp add: urlsplit_def assms(2,3) t b split_at_def)
qed

lemma plain_url_split:
  assumes h: "list_all host_char h" and scheme: "scheme \<in> {''ws'', ''wss''}"
  shows "urlsplit (scheme @ ''://'' @ h @ '':'' @ nat_str p)
    = Some \<lparr> su_scheme = scheme, su_netloc = h @ '':'' @ nat_str p, su_path = [], su_query = [] \<rparr>"
proof -
  let ?n = "h @ '':'' @ nat_str p"
  have n: "\<forall>c \<in> set ?n. host_char c \<or> c = CHR '':''"
    using h nat_str_digits [of p] by (auto simp: list_all_iff digit_host_char)
  have c: "c \<notin> {CHR ''/'', CHR ''?'', CHR ''#'', CHR ''['', CHR '']''}" "32 < (of_char c :: nat)" if "c \<in> set ?n" for c
  proof -
    consider "host_char c" | "c = CHR '':''" using n \<open>c \<in> set ?n\<close> by blast
    then show "c \<notin> {CHR ''/'', CHR ''?'', CHR ''#'', CHR ''['', CHR '']''}" "32 < (of_char c :: nat)"
      using host_char_facts [of c] by (cases; simp)+
  qed
  have f: "List.filter (\<lambda>c. of_char c \<notin> ({9, 10, 13} :: nat set)) ?n = ?n"
  proof (rule filter_True, rule ballI)
    fix x assume "x \<in> set ?n"
    with c(2) [of x] show "of_char x \<notin> ({9, 10, 13} :: nat set)" by auto
  qed
  have u: "url_clean (scheme @ ''://'' @ ?n) = scheme @ ''://'' @ ?n"
    using scheme f by (auto simp: url_clean_def)
  have d: "drop_scheme (scheme @ ''://'' @ ?n) = (scheme, ''//'' @ ?n)"
    using scheme by (auto simp: drop_scheme_def split_at_def ascii_alpha_def scheme_char_def str_lower_def lower_char_def Let_def)
  show ?thesis
    using split_clean_netloc [of ?n, OF _ u d] c(1) by blast
qed

lemma plain_hostname:
  assumes "list_all host_char h" "h \<noteq> []" "scheme \<in> {''ws'', ''wss''}"
  shows "url_hostname (scheme @ ''://'' @ h @ '':'' @ nat_str p) = Some (Some (str_lower h))"
proof -
  let ?n = "h @ '':'' @ nat_str p"
  have n: "c \<noteq> CHR ''@'' \<and> c \<noteq> CHR ''[''" if "c \<in> set ?n" for c
    using that assms(1) nat_str_digits [of p] host_char_facts [of c] by (auto simp: list_all_iff digit_host_char)
  have a: "after_last_at ?n = ?n"
    unfolding after_last_at_def using n by (subst takeWhile_all) auto
  have b: "dropWhile (\<lambda>c. c \<noteq> CHR ''['') ?n = []" using n by auto
  have t: "takeWhile (\<lambda>c. c \<noteq> CHR '':'') ?n = h"
    using assms(1) host_char_facts by (subst takeWhile_append2) (auto simp: list_all_iff)
  show ?thesis
    unfolding url_hostname_def plain_url_split [OF assms(1,3)] option.case Let_def split_url.simps a b list.case t
    using assms(2) by simp
qed

text \<open>A federation link in clear to a named host is accepted only to the local machine - its name or one of its
  loopback addresses - or with the explicit option; a link over TLS always is, and only that one checks a certificate.\<close>

theorem clear_peer_link_needs_loopback:
  assumes "list_all host_char h" "h \<noteq> []"
  shows "assert_peer_link_is_secure ip6 (''ws://'' @ h @ '':'' @ nat_str p) insecure =
      (if insecure \<or> str_lower h = ''localhost'' \<or> ip_loopback ip6 (str_lower h) = Some True then Inr () else Inl PeerInsecure)
    \<and> assert_peer_link_is_secure ip6 (''wss://'' @ h @ '':'' @ nat_str p) insecure = Inr ()
    \<and> \<not> peer_link_verified (''ws://'' @ h @ '':'' @ nat_str p)
    \<and> peer_link_verified (''wss://'' @ h @ '':'' @ nat_str p)"
proof -
  have s: "urlsplit (''ws://'' @ h @ '':'' @ nat_str p) = Some \<lparr> su_scheme = ''ws'', su_netloc = h @ '':'' @ nat_str p, su_path = [], su_query = [] \<rparr>"
    "urlsplit (''wss://'' @ h @ '':'' @ nat_str p) = Some \<lparr> su_scheme = ''wss'', su_netloc = h @ '':'' @ nat_str p, su_path = [], su_query = [] \<rparr>"
    using plain_url_split [OF assms(1), of "''ws''"] plain_url_split [OF assms(1), of "''wss''"] by simp_all
  have l: "is_loopback_url ip6 (''ws://'' @ h @ '':'' @ nat_str p)
      = Some (str_lower h = ''localhost'' \<or> ip_loopback ip6 (str_lower h) = Some True)"
    using plain_hostname [OF assms, of "''ws''"] by (auto simp: is_loopback_url_def split: option.splits)
  show ?thesis
    by (simp add: assert_peer_link_is_secure_def peer_link_verified_def s l split: bool.split del: append.simps)
qed

theorem clear_peer_link_needs_loopback_witness:
  "assert_peer_link_is_secure (\<lambda>_. None) (''ws://'' @ ''127.0.0.2'' @ '':'' @ nat_str 8765) False = Inr ()
   \<and> assert_peer_link_is_secure (\<lambda>_. None) (''ws://'' @ ''hub.acme.com'' @ '':'' @ nat_str 8765) False = Inl PeerInsecure"
proof -
  have h: "list_all host_char ''127.0.0.2''" "list_all host_char ''hub.acme.com''"
    by (simp_all add: host_char_def)
  have l: "str_lower ''127.0.0.2'' = ''127.0.0.2''" "str_lower ''hub.acme.com'' = ''hub.acme.com''"
    by (simp_all add: str_lower_def lower_char_def)
  have a: "ip_loopback (\<lambda>_. None) ''127.0.0.2'' = Some True" "ip_loopback (\<lambda>_. None) ''hub.acme.com'' = None"
    by (simp_all add: ip_loopback_def ip4_def octet_def is_digit_def digits_val_def digit_val_def)
  show ?thesis
    using clear_peer_link_needs_loopback [OF h(1), of "\<lambda>_. None" 8765 False]
      clear_peer_link_needs_loopback [OF h(2), of "\<lambda>_. None" 8765 False]
    by (simp add: l a del: append.simps)
qed

text \<open>In a store that was loaded and then administered in any way, a new key is recognised with the privileges it was
  given and no other key changes; revoking it by the prefix that is its own ends it, and again nothing else changes.\<close>

theorem api_key_lifecycle:
  assumes "load_keys rt inline file dev = Inr ks0" "ks = foldl (\<lambda>ks op. key_exec rt op ks) ks0 ops"
    and "raw \<noteq> []" "create_key rt raw now org roles perms label ks = (Inr out, ks1)"
    and "other \<noteq> []" "hash_key rt other \<noteq> hash_key rt raw"
    and "List.filter (str_prefix prefix) (List.map fst (ks_keys ks1)) = [hash_key rt raw]"
  shows "out = raw
    \<and> map_option (\<lambda>i. (ki_org i, Some (ki_roles i), Some (ki_permissions i))) (lookup_key rt raw ks1)
      = Some (org, list_of_value (Some roles), list_of_value (Some perms))
    \<and> lookup_key rt other ks1 = lookup_key rt other ks
    \<and> fst (revoke_key prefix ks1) = Inr True
    \<and> lookup_key rt raw (snd (revoke_key prefix ks1)) = None
    \<and> lookup_key rt other (snd (revoke_key prefix ks1)) = lookup_key rt other ks"
proof -
  have ok: "key_store_ok ks" using key_run_ok [OF load_keys_ok [OF assms(1)]] assms(2) by simp
  obtain i where i: "key_normalize label (JObj [(''org_id'', org), (''roles'', roles), (''permissions'', perms), (''created_at'', JFloat now)]) = Some i"
    and out: "out = raw" and p: "ks_path ks" and ks1: "ks1 = ks\<lparr>ks_keys := dict_set (hash_key rt raw) i (ks_keys ks)\<rparr>"
    using assms(4) by (auto simp: create_key_def persist_def Let_def split: option.splits if_splits)
  have info: "ki_org i = org" "list_of_value (Some roles) = Some (ki_roles i)" "list_of_value (Some perms) = Some (ki_permissions i)"
    using i by (auto simp: key_normalize_def split: option.splits)
  have ok1: "key_store_ok ks1" using ok key_normalize_ok [OF i] by (simp add: ks1 key_store_ok_def keys_ok_set)
  have r: "revoke_key prefix ks1 = (Inr True, ks1\<lparr>ks_keys := dict_del (hash_key rt raw) (ks_keys ks1)\<rparr>)"
    using assms(7) p by (simp add: revoke_key_def persist_def ks1)
  have ok2: "key_store_ok (snd (revoke_key prefix ks1))" using ok1 r by (simp add: key_store_ok_def keys_ok_del)
  have "map_option (\<lambda>i. (ki_org i, Some (ki_roles i), Some (ki_permissions i))) (lookup_key rt raw ks1)
      = Some (org, list_of_value (Some roles), list_of_value (Some perms))"
    using info by (simp add: lookup_key_map_of [OF ok1 assms(3)]) (simp add: ks1 update_conv')
  moreover have "lookup_key rt other ks1 = lookup_key rt other ks"
    using assms(6) by (simp add: lookup_key_map_of [OF ok1 assms(5)] lookup_key_map_of [OF ok assms(5)]) (simp add: ks1 update_conv')
  moreover have "fst (revoke_key prefix ks1) = Inr True" by (simp add: r)
  moreover have "lookup_key rt raw (snd (revoke_key prefix ks1)) = None"
    by (simp add: lookup_key_map_of [OF ok2 assms(3)]) (simp add: r delete_conv')
  moreover have "lookup_key rt other (snd (revoke_key prefix ks1)) = lookup_key rt other ks"
    using assms(6) by (simp add: lookup_key_map_of [OF ok2 assms(5)] lookup_key_map_of [OF ok assms(5)])
      (simp add: r delete_conv', simp add: ks1 update_conv')
  ultimately show ?thesis using out by blast
qed

text \<open>What a store exports, taken from any state it can reach, restores exactly its keys and privileges in another
  store with a file, and changes nothing in a store without one.\<close>

theorem api_keys_export_import:
  assumes "load_keys rt inline file dev = Inr ks0" "ks = foldl (\<lambda>ks op. key_exec rt op ks) ks0 ops"
  shows "import_hashed (export_hashed ks) other =
    (if ks_path other then (Inr (), other\<lparr>ks_keys := ks_keys ks\<rparr>) else (Inl ReadOnlyKeys, other))"
proof -
  have "key_store_ok ks" using key_run_ok [OF load_keys_ok [OF assms(1)]] assms(2) by simp
  then show ?thesis by (simp add: import_hashed_def keys_of_pairs_export)
qed

lemma toy_key:
  "hash_key toy_runtime ''k1'' = ''6b31''" "hash_key toy_runtime ''k2'' = ''6b32''"
  by code_simp+

text \<open>A store that starts with one account, in which a second is created and revoked.\<close>

theorem api_key_lifecycle_witness:
  "\<exists>ks0 ks1. load_keys toy_runtime (Some []) None False = Inr ks0
     \<and> create_key toy_runtime ''k1'' 5 (JStr ''acme'') (JList [JStr ''worker'']) (JList []) [] ks0 = (Inr ''k1'', ks1)
     \<and> lookup_key toy_runtime ''k1'' (snd (revoke_key ''6b31'' ks1)) = None"
proof -
  define ks0 :: key_store where "ks0 = \<lparr> ks_keys = [], ks_path = True \<rparr>"
  define i where "i = \<lparr> ki_org = JStr ''acme'', ki_roles = [JStr ''worker''], ki_permissions = [], ki_label = JNull, ki_created = JFloat 5 \<rparr>"
  define ks1 where "ks1 = ks0\<lparr>ks_keys := [(''6b31'', i)]\<rparr>"
  have l: "load_keys toy_runtime (Some []) None False = Inr ks0"
    by (simp add: load_keys_def key_result_def key_store_new_def keys_of_pairs_def ks0_def)
  have c: "create_key toy_runtime ''k1'' 5 (JStr ''acme'') (JList [JStr ''worker'']) (JList []) [] ks0 = (Inr ''k1'', ks1)"
    by (simp add: create_key_def key_normalize_def list_of_value_def if_true_def py_get_def toy_key ks0_def ks1_def i_def persist_def)
  have "lookup_key toy_runtime ''k1'' (snd (revoke_key ''6b31'' ks1)) = None"
    using api_key_lifecycle [where ops = "[]" and other = "''k2''" and prefix = "''6b31''", OF l _ _ c] by (simp add: toy_key ks1_def)
  with l c show ?thesis by blast
qed

theorem api_keys_export_import_witness:
  "import_hashed (export_hashed (foldl (\<lambda>ks op. key_exec toy_runtime op ks) \<lparr> ks_keys = [], ks_path = True \<rparr>
       [CreateKey ''k1'' 5 (JStr ''acme'') (JList [JStr ''worker'']) (JList []) []])) \<lparr> ks_keys = [], ks_path = True \<rparr>
     = (Inr (), \<lparr> ks_keys = [(''6b31'', \<lparr> ki_org = JStr ''acme'', ki_roles = [JStr ''worker''], ki_permissions = [],
         ki_label = JNull, ki_created = JFloat 5 \<rparr>)], ks_path = True \<rparr>)"
proof -
  have l: "load_keys toy_runtime (Some []) None False = Inr \<lparr> ks_keys = [], ks_path = True \<rparr>"
    by (simp add: load_keys_def key_result_def key_store_new_def keys_of_pairs_def)
  show ?thesis
    by (subst api_keys_export_import [OF l refl])
      (simp add: create_key_def key_normalize_def list_of_value_def if_true_def py_get_def toy_key persist_def)
qed

end
