(* ===== verification/Store.thy ===== *)
theory Store
  imports Wire Journal
begin

text \<open>
  \<open>store.py\<close>: the tables in which a hub keeps its identities, its tasks, its journal and, in a cluster, who is
  connected where.  A table is the list of its rows in the order SQLite returns them: a row that is replaced is deleted
  and inserted again (under PostgreSQL the order of a selection without \<open>ORDER BY\<close> is open).  A payload is the JSON text
  that is written.  \<open>fresh\<close> gives the identifiers the readers make up for payloads without one.
\<close>

record presence_row =
  pr_hub :: string
  pr_url :: string
  pr_org :: string
  pr_seen :: rat

record hub_row =
  hr_url :: string
  hr_org :: string
  hr_seen :: rat

record store =
  st_identities :: "string dict"
  st_tasks :: "(string \<times> string) dict"
  st_audit :: "(int \<times> string) list"
  st_presence :: "presence_row dict"
  st_hubs :: "hub_row dict"

definition empty_store :: store where
  "empty_store = \<lparr> st_identities = [], st_tasks = [], st_audit = [], st_presence = [], st_hubs = [] \<rparr>"

text \<open>\<open>INSERT OR REPLACE\<close>.\<close>

definition upsert :: "'k \<Rightarrow> 'v \<Rightarrow> ('k \<times> 'v) list \<Rightarrow> ('k \<times> 'v) list" where
  "upsert k v t = dict_del k t @ [(k, v)]"

definition payload :: "('sk, 'pk) runtime \<Rightarrow> json \<Rightarrow> string" where
  "payload rt v = ser (default_format rt) v"

section \<open>Identities\<close>

definition identity_key :: "identity \<Rightarrow> string" where
  "identity_key i = (if id_org_id i = ''default'' then id_name i else id_qualified_name i)"

definition save_identity :: "('sk, 'pk) runtime \<Rightarrow> identity \<Rightarrow> store \<Rightarrow> store" where
  "save_identity rt i st =
     st\<lparr>st_identities := upsert (identity_key i) (payload rt (identity_to_dict i)) (st_identities st)\<rparr>"

text \<open>\<open>None\<close> is an exception of the parser or of \<open>from_dict\<close>: nothing is loaded then.\<close>

definition load_identities ::
  "('sk, 'pk) runtime \<Rightarrow> (string \<Rightarrow> string) \<Rightarrow> rat \<Rightarrow> store \<Rightarrow> identity dict option" where
  "load_identities rt fresh now st = those (List.map (\<lambda>(name, p).
     map_option (Pair name) (Option.bind (loads p) (identity_from_dict rt (fresh name) now))) (st_identities st))"

definition delete_identity :: "string \<Rightarrow> store \<Rightarrow> store" where
  "delete_identity name st = st\<lparr>st_identities := dict_del name (st_identities st)\<rparr>"

definition replace_identities :: "('sk, 'pk) runtime \<Rightarrow> identity dict \<Rightarrow> store \<Rightarrow> store" where
  "replace_identities rt d st = st\<lparr>st_identities := List.map (\<lambda>(name, i). (name, payload rt (identity_to_dict i))) d\<rparr>"

section \<open>Tasks\<close>

definition task_row :: "('sk, 'pk) runtime \<Rightarrow> task \<Rightarrow> string \<times> string" where
  "task_row rt t = (task_status_value (tk_status t), payload rt (task_to_dict t))"

definition save_task :: "('sk, 'pk) runtime \<Rightarrow> task \<Rightarrow> store \<Rightarrow> store" where
  "save_task rt t st = st\<lparr>st_tasks := upsert (tk_task_id t) (task_row rt t) (st_tasks st)\<rparr>"

definition read_task :: "(string \<Rightarrow> string) \<Rightarrow> rat \<Rightarrow> string \<Rightarrow> string \<Rightarrow> task option" where
  "read_task fresh now i p = (case loads p of
     None \<Rightarrow> None
   | Some v \<Rightarrow> (case task_from_dict (fresh i) now v of Inl e \<Rightarrow> None | Inr t \<Rightarrow> Some t))"

definition load_tasks :: "(string \<Rightarrow> string) \<Rightarrow> rat \<Rightarrow> store \<Rightarrow> task dict option" where
  "load_tasks fresh now st =
     those (List.map (\<lambda>(i, status, p). map_option (Pair i) (read_task fresh now i p)) (st_tasks st))"

definition count_tasks_by_status :: "store \<Rightarrow> (string \<times> nat) list" where
  "count_tasks_by_status st = List.map (\<lambda>s. (s, length (List.filter (\<lambda>r. fst (snd r) = s) (st_tasks st))))
     (remdups (List.map (fst \<circ> snd) (st_tasks st)))"

text \<open>An \<open>INSERT\<close> of two rows with one key fails, and the transaction is rolled back.\<close>

definition replace_tasks :: "('sk, 'pk) runtime \<Rightarrow> task list \<Rightarrow> store \<Rightarrow> bool \<times> store" where
  "replace_tasks rt ts st = (let rows = List.map (\<lambda>t. (tk_task_id t, task_row rt t)) ts in
     if distinct (List.map fst rows) then (True, st\<lparr>st_tasks := rows\<rparr>) else (False, st))"

section \<open>Presence and hubs\<close>

definition record_presence :: "string \<Rightarrow> string \<Rightarrow> string \<Rightarrow> string \<Rightarrow> rat \<Rightarrow> store \<Rightarrow> store" where
  "record_presence agent hub url org seen st =
     st\<lparr>st_presence := upsert agent \<lparr> pr_hub = hub, pr_url = url, pr_org = org, pr_seen = seen \<rparr> (st_presence st)\<rparr>"

definition clear_presence :: "string \<Rightarrow> string \<Rightarrow> store \<Rightarrow> store" where
  "clear_presence agent hub st =
     st\<lparr>st_presence := List.filter (\<lambda>(a, r). \<not> (a = agent \<and> pr_hub r = hub)) (st_presence st)\<rparr>"

definition clear_hub_presence :: "string \<Rightarrow> store \<Rightarrow> store" where
  "clear_hub_presence hub st = st\<lparr>st_presence := List.filter (\<lambda>(a, r). pr_hub r \<noteq> hub) (st_presence st)\<rparr>"

definition too_old :: "rat \<Rightarrow> rat \<Rightarrow> rat \<Rightarrow> bool" where
  "too_old now max_age seen \<longleftrightarrow> max_age \<noteq> 0 \<and> now - seen > max_age"

definition find_presence :: "rat \<Rightarrow> string \<Rightarrow> rat \<Rightarrow> store \<Rightarrow> presence_row option" where
  "find_presence now agent max_age st = (case map_of (st_presence st) agent of
     None \<Rightarrow> None
   | Some r \<Rightarrow> if too_old now max_age (pr_seen r) then None else Some r)"

definition list_presence :: "rat \<Rightarrow> rat \<Rightarrow> store \<Rightarrow> presence_row dict" where
  "list_presence now max_age st = List.filter (\<lambda>(a, r). \<not> too_old now max_age (pr_seen r)) (st_presence st)"

definition touch_row :: "string \<Rightarrow> rat \<Rightarrow> presence_row \<Rightarrow> presence_row" where
  "touch_row hub seen r = (if pr_hub r = hub then r\<lparr>pr_seen := seen\<rparr> else r)"

definition touch_presence :: "string \<Rightarrow> rat \<Rightarrow> store \<Rightarrow> store" where
  "touch_presence hub seen st =
     st\<lparr>st_presence := List.map (\<lambda>(a, r). (a, touch_row hub seen r)) (st_presence st)\<rparr>"

definition record_hub :: "string \<Rightarrow> string \<Rightarrow> string \<Rightarrow> rat \<Rightarrow> store \<Rightarrow> store" where
  "record_hub hub url org seen st =
     st\<lparr>st_hubs := upsert hub \<lparr> hr_url = url, hr_org = org, hr_seen = seen \<rparr> (st_hubs st)\<rparr>"

definition clear_hub :: "string \<Rightarrow> store \<Rightarrow> store" where
  "clear_hub hub st = st\<lparr>st_hubs := dict_del hub (st_hubs st)\<rparr>"

definition list_hubs :: "rat \<Rightarrow> string option \<Rightarrow> rat \<Rightarrow> store \<Rightarrow> hub_row dict" where
  "list_hubs now org max_age st = List.filter (\<lambda>(h, r).
     \<not> (org \<noteq> None \<and> Some (hr_org r) \<noteq> org) \<and> \<not> too_old now max_age (hr_seen r)) (st_hubs st)"

section \<open>The journal\<close>

definition append_audit :: "('sk, 'pk) runtime \<Rightarrow> audit_entry \<Rightarrow> store \<Rightarrow> store" where
  "append_audit rt e st = st\<lparr>st_audit := upsert (ae_index e) (payload rt (audit_entry_to_dict e)) (st_audit st)\<rparr>"

definition load_audit :: "store \<Rightarrow> json list option" where
  "load_audit st = those (List.map (\<lambda>(i, p). loads p) (sort_key fst (st_audit st)))"

text \<open>A journal whose entries are handed to the store as they are made, from its first one on.\<close>

definition stored_journal :: "('sk, 'pk) runtime \<Rightarrow> rat \<Rightarrow> audit_event list \<Rightarrow> store \<Rightarrow> store" where
  "stored_journal rt clock events st =
     foldl (\<lambda>st e. append_audit rt e st) st (audit_run rt events (audit_new rt clock))"

text \<open>A restart: the hub opens the journal on the rows of its store.\<close>

definition resume_journal :: "('sk, 'pk) runtime \<Rightarrow> rat \<Rightarrow> store \<Rightarrow> audit_entry list option" where
  "resume_journal rt clock st = Option.bind (load_audit st) (audit_open rt clock)"

section \<open>Lemmas\<close>

lemma map_of_upsert [simp]: "map_of (upsert k v t) = (map_of t)(k \<mapsto> v)"
  by (rule ext) (auto simp: upsert_def map_add_def delete_conv' split: option.splits)

lemma upsert_new: "k \<notin> fst ` set t \<Longrightarrow> upsert k v t = t @ [(k, v)]"
  by (simp add: upsert_def)

lemma distinct_upsert: "distinct (List.map fst t) \<Longrightarrow> distinct (List.map fst (upsert k v t))"
  by (simp add: upsert_def delete_keys distinct_removeAll)

lemma set_upsert: "set (upsert k v t) \<subseteq> insert (k, v) (set t)"
  by (auto simp: upsert_def AList.delete_eq)

lemma default_is_audit_format: "default_format rt = audit_format rt"
  by (simp add: default_format_def audit_format_def)

lemma loads_payload: "ser_ok (default_format rt) v \<Longrightarrow> wf_json v \<Longrightarrow> loads (payload rt v) = Some v"
  by (simp add: payload_def loads_ser)

lemma audit_dict_ok:
  "audit_entry_ok rt e \<Longrightarrow> ser_ok (default_format rt) (audit_entry_to_dict e) \<and> wf_json (audit_entry_to_dict e)"
  by (auto simp: audit_entry_ok_def audit_entry_to_dict_def json_of_option_def default_is_audit_format split: option.splits)

lemma loads_audit_payload: "audit_entry_ok rt e \<Longrightarrow> loads (payload rt (audit_entry_to_dict e)) = Some (audit_entry_to_dict e)"
  by (simp add: loads_payload audit_dict_ok)

text \<open>A journal that is numbered in order lands in the table row by row.\<close>

definition audit_rows :: "('sk, 'pk) runtime \<Rightarrow> audit_entry list \<Rightarrow> (int \<times> string) list" where
  "audit_rows rt chain = List.map (\<lambda>e. (ae_index e, payload rt (audit_entry_to_dict e))) chain"

lemma foldl_append_audit:
  assumes "distinct (List.map ae_index (pre @ rest))" "st_audit st = audit_rows rt pre"
  shows "st_audit (foldl (\<lambda>st e. append_audit rt e st) st rest) = audit_rows rt (pre @ rest)"
  using assms
proof (induction rest arbitrary: pre st)
  case (Cons e rest)
  have "ae_index e \<notin> fst ` set (audit_rows rt pre)" using Cons.prems(1) by (auto simp: audit_rows_def)
  then have "st_audit (append_audit rt e st) = audit_rows rt (pre @ [e])"
    using Cons.prems(2) by (simp add: append_audit_def upsert_new) (simp add: audit_rows_def)
  then show ?case using Cons.IH [of "pre @ [e]"] Cons.prems(1) by simp
qed simp

lemma indexed_map: "audit_indexed chain \<Longrightarrow> List.map ae_index chain = List.map int [0..<length chain]"
  by (rule nth_equalityI) (auto simp: audit_indexed_def)

lemma sorted_audit_rows: "audit_indexed chain \<Longrightarrow> sort_key fst (audit_rows rt chain) = audit_rows rt chain"
proof (rule sort_key_id_if_sorted)
  assume "audit_indexed chain"
  then have "List.map fst (audit_rows rt chain) = List.map int [0..<length chain]"
    by (simp add: audit_rows_def indexed_map comp_def)
  then show "sorted (List.map fst (audit_rows rt chain))" by (simp add: sorted_iff_nth_mono)
qed

lemma those_Some_map: "(\<And>x. x \<in> set xs \<Longrightarrow> f x = Some (g x)) \<Longrightarrow> those (List.map f xs) = Some (List.map g xs)"
  by (induction xs) auto

lemma upsert_map: "List.map (\<lambda>(i, v). (i, f v)) (upsert k v t) = upsert k (f v) (List.map (\<lambda>(i, v). (i, f v)) t)"
proof -
  have "List.map (\<lambda>(i, v). (i, f v)) (dict_del k t) = dict_del k (List.map (\<lambda>(i, v). (i, f v)) t)"
    by (induction t) auto
  then show ?thesis by (simp add: upsert_def)
qed

lemma map_of_foldl_upsert:
  "map_of (foldl (\<lambda>d x. upsert (key x) x d) d xs) = map_of d ++ map_of (rev (List.map (\<lambda>x. (key x, x)) xs))"
  by (induction xs arbitrary: d) (auto simp: map_add_assoc [symmetric])

lemma set_foldl_upsert: "snd ` set (foldl (\<lambda>d x. upsert (key x) x d) d xs) \<subseteq> snd ` set d \<union> set xs"
proof (induction xs arbitrary: d)
  case (Cons x xs)
  have "snd ` set (upsert (key x) x d) \<subseteq> insert x (snd ` set d)" using set_upsert [of "key x" x d] by force
  with Cons [of "upsert (key x) x d"] show ?case unfolding foldl.simps list.set by blast
qed simp

lemma st_tasks_saved:
  "st_tasks (foldl (\<lambda>st t. save_task rt t st) st ts) =
     List.map (\<lambda>(i, t). (i, task_row rt t)) (foldl (\<lambda>d t. upsert (tk_task_id t) t d) d ts)"
  if "st_tasks st = List.map (\<lambda>(i, t). (i, task_row rt t)) d"
  using that
proof (induction ts arbitrary: st d)
  case (Cons t ts)
  then have "st_tasks (save_task rt t st) = List.map (\<lambda>(i, t). (i, task_row rt t)) (upsert (tk_task_id t) t d)"
    by (simp add: save_task_def upsert_map)
  then show ?case using Cons.IH by simp
qed simp

definition task_storable :: "('sk, 'pk) runtime \<Rightarrow> task \<Rightarrow> bool" where
  "task_storable rt t \<longleftrightarrow> task_ok t \<and> ser_ok (default_format rt) (task_to_dict t) \<and> wf_json (task_to_dict t)"

lemma read_task_row: "task_storable rt t \<Longrightarrow> read_task fresh now i (snd (task_row rt t)) = Some t"
  by (simp add: task_storable_def read_task_def task_row_def loads_payload task_dict_roundtrip)

text \<open>The rows of a sound journal are read back, in order, as that journal.\<close>

lemma audit_rows_resumed:
  assumes "st_audit st = audit_rows rt chain" "audit_sound rt chain"
    and ok: "\<forall>e \<in> set chain. audit_entry_ok rt e \<and> ae_timestamp e \<noteq> 0 \<and> ae_hash e \<noteq> []"
  shows "load_audit st = Some (List.map audit_entry_to_dict chain) \<and>
    audit_open rt later (List.map audit_entry_to_dict chain) = Some chain"
proof -
  have idx: "audit_indexed chain" using assms(2) by (simp add: audit_sound_def)
  have "those (List.map (\<lambda>e. loads (payload rt (audit_entry_to_dict e))) chain) = Some (List.map audit_entry_to_dict chain)"
    using ok by (intro those_Some_map) (simp add: loads_audit_payload)
  then have "load_audit st = Some (List.map audit_entry_to_dict chain)"
    by (simp add: load_audit_def assms(1) sorted_audit_rows [OF idx]) (simp add: audit_rows_def comp_def)
  moreover have "audit_open rt later (List.map audit_entry_to_dict chain) = Some chain"
    using assms(2) ok by (intro audit_open_roundtrip) (auto simp: audit_sound_def)
  ultimately show ?thesis by blast
qed

section \<open>Properties\<close>

text \<open>Tasks saved one after the other into an empty store are all read back after a restart, each identifier with
  the version that was saved last.\<close>

theorem store_reloads_last_versions:
  assumes "\<forall>t \<in> set ts. task_storable rt t"
  shows "\<exists>d. load_tasks fresh now (foldl (\<lambda>st t. save_task rt t st) empty_store ts) = Some d \<and>
    map_of d = map_of (rev (List.map (\<lambda>t. (tk_task_id t, t)) ts))"
proof -
  define d where "d = foldl (\<lambda>d t. upsert (tk_task_id t) t d) [] ts"
  have rows: "st_tasks (foldl (\<lambda>st t. save_task rt t st) empty_store ts) = List.map (\<lambda>(i, t). (i, task_row rt t)) d"
    unfolding d_def by (rule st_tasks_saved) (simp add: empty_store_def)
  have "task_storable rt (snd x)" if "x \<in> set d" for x
    using that assms set_foldl_upsert [of tk_task_id "[]" ts] by (force simp: d_def)
  then have "those (List.map (\<lambda>x. map_option (Pair (fst x)) (read_task fresh now (fst x) (snd (task_row rt (snd x))))) d) = Some d"
    using those_Some_map [of d "\<lambda>x. map_option (Pair (fst x)) (read_task fresh now (fst x) (snd (task_row rt (snd x))))" "\<lambda>x. x"]
    by (simp add: read_task_row)
  then have "load_tasks fresh now (foldl (\<lambda>st t. save_task rt t st) empty_store ts) = Some d"
    by (simp add: load_tasks_def rows comp_def case_prod_unfold)
  moreover have "map_of d = map_of (rev (List.map (\<lambda>t. (tk_task_id t, t)) ts))"
    by (simp add: d_def map_of_foldl_upsert)
  ultimately show ?thesis by blast
qed

text \<open>A journal handed to the store entry by entry comes back from a restart entry by entry, and in order.\<close>

theorem journal_survives_restart:
  assumes "chain = audit_run rt events (audit_new rt clock)"
    and "\<forall>e \<in> set chain. audit_entry_ok rt e \<and> ae_timestamp e \<noteq> 0 \<and> ae_hash e \<noteq> []"
  shows "resume_journal rt later (stored_journal rt clock events empty_store) = Some chain \<and> audit_sound rt chain"
proof -
  have sound: "audit_sound rt chain" using assms(1) audit_run_sound [OF audit_new_sound] by simp
  have "distinct (List.map ae_index ([] @ chain))"
    using sound by (simp add: audit_sound_def indexed_map distinct_map)
  then have rows: "st_audit (stored_journal rt clock events empty_store) = audit_rows rt chain"
    using foldl_append_audit [of "[]" chain empty_store rt] assms(1)
    by (simp add: stored_journal_def audit_rows_def empty_store_def)
  from audit_rows_resumed [OF this sound assms(2)] sound show ?thesis by (simp add: resume_journal_def)
qed

datatype presence_op =
    Arrives string string string string rat
  | Leaves string string
  | HubStops string
  | Beats string rat

fun presence_exec :: "presence_op \<Rightarrow> store \<Rightarrow> store" where
  "presence_exec (Arrives agent hub url org seen) st = record_presence agent hub url org seen st"
| "presence_exec (Leaves agent hub) st = clear_presence agent hub st"
| "presence_exec (HubStops hub) st = clear_hub_presence hub st"
| "presence_exec (Beats hub seen) st = touch_presence hub seen st"

fun op_hub :: "presence_op \<Rightarrow> string" where
  "op_hub (Arrives agent hub url org seen) = hub"
| "op_hub (Leaves agent hub) = hub"
| "op_hub (HubStops hub) = hub"
| "op_hub (Beats hub seen) = hub"

fun arrives :: "presence_op \<Rightarrow> string option" where
  "arrives (Arrives agent hub url org seen) = Some agent"
| "arrives _ = None"

lemma map_of_filter_keep:
  "map_of t a = Some r \<Longrightarrow> P (a, r) \<Longrightarrow> distinct (List.map fst t) \<Longrightarrow> map_of (List.filter P t) a = Some r"
  by (induction t) (auto split: if_splits dest: map_of_SomeD simp: rev_image_eqI)

lemma distinct_fst_filter: "distinct (List.map fst t) \<Longrightarrow> distinct (List.map fst (List.filter P t))"
  by (induction t) auto

lemma presence_exec_keeps:
  assumes "map_of (st_presence st) a = Some r" "distinct (List.map fst (st_presence st))"
    and "op_hub op \<noteq> pr_hub r" "arrives op \<noteq> Some a"
  shows "map_of (st_presence (presence_exec op st)) a = Some r"
proof (cases op)
  case (Arrives agent hub url org seen)
  with assms(1,4) show ?thesis by (simp add: record_presence_def)
next
  case (Leaves agent hub)
  with assms(3) show ?thesis by (simp add: clear_presence_def map_of_filter_keep [OF assms(1) _ assms(2)])
next
  case (HubStops hub)
  with assms(3) show ?thesis by (simp add: clear_hub_presence_def map_of_filter_keep [OF assms(1) _ assms(2)])
next
  case (Beats hub seen)
  have "touch_row hub seen r = r" using assms(3) Beats by (simp add: touch_row_def)
  then show ?thesis unfolding Beats presence_exec.simps touch_presence_def using assms(1) by (simp add: map_of_map)
qed

lemma presence_exec_distinct:
  "distinct (List.map fst (st_presence st)) \<Longrightarrow> distinct (List.map fst (st_presence (presence_exec op st)))"
proof (cases op)
  case (Beats hub seen)
  have "List.map fst (List.map (\<lambda>(x, r). (x, touch_row hub seen r)) t) = List.map fst t" for t :: "presence_row dict"
    by (induction t) auto
  moreover assume "distinct (List.map fst (st_presence st))"
  ultimately show ?thesis unfolding Beats presence_exec.simps touch_presence_def by (simp del: map_map)
qed (simp_all add: record_presence_def clear_presence_def clear_hub_presence_def distinct_upsert distinct_fst_filter)

lemma presence_run_keeps:
  assumes "map_of (st_presence st) a = Some r" "distinct (List.map fst (st_presence st))"
    and "\<forall>op \<in> set ops. op_hub op \<noteq> pr_hub r \<and> arrives op \<noteq> Some a"
  shows "map_of (st_presence (foldl (\<lambda>st op. presence_exec op st) st ops)) a = Some r"
  using assms
proof (induction ops arbitrary: st)
  case (Cons op ops)
  have "map_of (st_presence (presence_exec op st)) a = Some r"
    using Cons.prems(3) by (intro presence_exec_keeps [OF Cons.prems(1,2)]) simp_all
  moreover have "distinct (List.map fst (st_presence (presence_exec op st)))"
    by (rule presence_exec_distinct [OF Cons.prems(2)])
  ultimately show ?case unfolding foldl.simps using Cons.prems(3) by (intro Cons.IH) simp_all
qed simp

text \<open>Once an agent is recorded at a hub, nothing that the other hubs of the cluster do about other agents, about
  their own stops or about the departure of this agent from them removes or redirects it; only age does.\<close>

theorem presence_survives_other_hubs:
  assumes "distinct (List.map fst (st_presence st))"
    and "\<forall>op \<in> set ops. op_hub op \<noteq> hub \<and> arrives op \<noteq> Some agent"
  shows "find_presence now agent max_age
      (foldl (\<lambda>st op. presence_exec op st) (record_presence agent hub url org seen st) ops) =
    (if max_age \<noteq> 0 \<and> now - seen > max_age then None
     else Some \<lparr> pr_hub = hub, pr_url = url, pr_org = org, pr_seen = seen \<rparr>)"
proof -
  let ?r = "\<lparr> pr_hub = hub, pr_url = url, pr_org = org, pr_seen = seen \<rparr>"
  have "map_of (st_presence (foldl (\<lambda>st op. presence_exec op st) (record_presence agent hub url org seen st) ops)) agent = Some ?r"
    using assms by (intro presence_run_keeps) (simp_all add: record_presence_def distinct_upsert)
  then show ?thesis by (simp add: find_presence_def too_old_def)
qed

section \<open>Concrete instances\<close>

theorem store_reloads_last_versions_witness:
  "\<exists>d. load_tasks (\<lambda>_. ''x'') 9 (foldl (\<lambda>st t. save_task toy_runtime t st) empty_store
      [toy_task, toy_task\<lparr>tk_status := Failed\<rparr>]) = Some d \<and> map_of d ''u'' = Some (toy_task\<lparr>tk_status := Failed\<rparr>)"
proof -
  have "task_storable toy_runtime toy_task" "task_storable toy_runtime (toy_task\<lparr>tk_status := Failed\<rparr>)"
    by (simp_all add: task_storable_def task_ok_def toy_task_def task_new_def str_or_def py_or_def toy_strip task_to_dict_def
        json_of_opt_def)
  then obtain d where "load_tasks (\<lambda>_. ''x'') 9 (foldl (\<lambda>st t. save_task toy_runtime t st) empty_store
      [toy_task, toy_task\<lparr>tk_status := Failed\<rparr>]) = Some d"
    and "map_of d = map_of (rev (List.map (\<lambda>t. (tk_task_id t, t)) [toy_task, toy_task\<lparr>tk_status := Failed\<rparr>]))"
    using store_reloads_last_versions [of "[toy_task, toy_task\<lparr>tk_status := Failed\<rparr>]" toy_runtime "\<lambda>_. ''x''" 9] by auto
  then show ?thesis by (auto simp: toy_task_def task_new_def str_or_def)
qed

definition five_runtime :: "(string, string) runtime" where
  "five_runtime = toy_runtime\<lparr>float_repr := \<lambda>_. ''5.0''\<rparr>"

lemma five_float_scan: "float_scan (audit_format five_runtime) 5"
proof -
  have d: "is_digit (CHR ''0'')" "is_digit (CHR ''5'')" "\<not> is_ws (CHR ''5'')" "\<not> is_digit (CHR ''.'')" by code_simp+
  have "p_val (Suc n) (CHR ''5'' # CHR ''.'' # CHR ''0'' # r) = Some (JFloat 5, r)" if r: "num_end r" for n r
  proof -
    have "takeWhile is_digit r = []" "dropWhile is_digit r = r"
      using r by (cases r; simp add: num_end_def)+
    then have "p_frac (CHR ''.'' # CHR ''0'' # r) = (Some ''0'', r)"
      using d by (simp add: p_frac_def)
    moreover have "digits_val ''50'' = 50" by code_simp
    ultimately have "p_num (CHR ''5'' # CHR ''.'' # CHR ''0'' # r) = Some (JFloat 5, r)"
      using num_end_frac_exp [OF r] d by (simp add: p_num_def p_minus_def p_int_def pow10_def)
    then show ?thesis by simp
  qed
  then show ?thesis using d by (simp add: float_scan_def audit_format_def five_runtime_def)
qed

lemma five_hash: "compute_hash five_runtime e \<noteq> []"
  by (simp add: compute_hash_def sha256_hex_def five_runtime_def toy_runtime_def audit_text_def audit_payload_def
      dumps_sorted_def utf8_encode_def utf8_char_def hex2_def Let_def)

theorem journal_survives_restart_witness:
  "resume_journal five_runtime 9 (stored_journal five_runtime 5 [(5, ''AGENT_REGISTERED'', ''acme/bob'', Some ''hub'', JNull)] empty_store)
     = Some (audit_run five_runtime [(5, ''AGENT_REGISTERED'', ''acme/bob'', Some ''hub'', JNull)] (audit_new five_runtime 5))"
proof -
  have "\<forall>e \<in> set (audit_run five_runtime [(5, ''AGENT_REGISTERED'', ''acme/bob'', Some ''hub'', JNull)] (audit_new five_runtime 5)).
      audit_entry_ok five_runtime e \<and> ae_timestamp e \<noteq> 0 \<and> ae_hash e \<noteq> []"
    using five_float_scan
    by (simp add: audit_new_def audit_log_def genesis_block_def audit_entry_ok_def five_hash)
      (simp add: new_audit_entry_def Let_def five_hash)
  from journal_survives_restart [OF refl this] show ?thesis by blast
qed

theorem presence_survives_other_hubs_witness:
  "find_presence 20 ''acme/bob'' 45
     (foldl (\<lambda>st op. presence_exec op st) (record_presence ''acme/bob'' ''h2'' ''ws://b'' ''acme'' 10 empty_store)
        [Leaves ''acme/bob'' ''h1'', Beats ''h1'' 15, HubStops ''h1''])
   = Some \<lparr> pr_hub = ''h2'', pr_url = ''ws://b'', pr_org = ''acme'', pr_seen = 10 \<rparr>"
  by (subst presence_survives_other_hubs) (simp_all add: empty_store_def)

end
