(* ===== verification/HubCore.thy ===== *)
theory HubCore
  imports Store Escrow Guardrails Throttle TaskApproval Egress Tenancy
begin

text \<open>
  \<open>hub.py\<close>, first part: the state of a hub, its tokens, the names of agents and the search for them, and what it
  writes: the journal, the task registry, the frames it sends.

  A connection is a number.  The hub's sends are recorded in \<open>hb_out\<close>, in order; a \<open>tick\<close> holds what one step finds
  outside: the time, the connections on which a send succeeds, the fresh identifiers (by the number of the frame they
  go into), who is at the end of a connection, and what dialling a sibling hub gives.  \<open>hub_conf\<close> holds what is fixed
  once \<open>main\<close> has run, and the libraries: JSON web tokens, regular expressions, and the wording of the texts that are
  shown to people.  One frame is processed at a time: a step is the handling of one frame.
\<close>

section \<open>State\<close>

type_synonym conn = nat

datatype notice =
    BadToken
  | BadApiKey
  | BadFrame wire_error
  | AgentLimit int int
  | SelfDeclaredRefused bool
  | Isolated
  | OtherTenant string
  | GuardrailSays violation
  | EscrowSays escrow_error
  | FederationDenied string
  | ClusterOrg
  | ClusterToken
  | ClusterPurpose
  | ClusterExpired
  | PeerWithoutKey
  | PeerKeyUnreadable
  | Disconnected
  | SaturationNote

record ('sk, 'pk) hub_conf =
  hc_rt :: "('sk, 'pk) runtime"
  hc_jwt_encode :: "'sk \<Rightarrow> string \<Rightarrow> json \<Rightarrow> string"
  hc_jwt_decode :: "string \<Rightarrow> string \<Rightarrow> (string \<times> json) list option"
  hc_guard_rx :: "string \<Rightarrow> string \<Rightarrow> bool"
  hc_approval_rx :: "string \<Rightarrow> (string \<Rightarrow> bool) option"
  hc_egress_rx :: regexes
  hc_wording :: "notice \<Rightarrow> string"
  hc_org :: string
  hc_id :: string
  hc_cluster_url :: string
  hc_key :: 'sk
  hc_pem :: string
  hc_kid :: string
  hc_max_agents :: int
  hc_allow_self_declared :: bool
  hc_require_api_key :: bool
  hc_egress :: egress_policy
  hc_approval :: task_policy

record tick =
  tc_now :: rat
  tc_alive :: "conn \<Rightarrow> bool"
  tc_fresh :: "nat \<Rightarrow> string"
  tc_host :: "conn \<Rightarrow> string option"
  tc_cert :: "conn \<Rightarrow> (string \<times> string) list list"
  tc_dial :: "string \<Rightarrow> (conn \<times> string option) option"

datatype effect = Send conn message | Tell conn json | Close conn

record metrics =
  mt_connected_at :: rat
  mt_last_seen :: rat
  mt_count :: int
  mt_status :: string

record session =
  se_agent :: "string option"
  se_observer :: bool

record suspended =
  su_task :: "(string \<times> json) list"
  su_submitter :: string
  su_org :: string
  su_rule :: string
  su_reason :: string
  su_token :: "string option"
  su_reply_to :: string
  su_submitted_at :: rat

record hub =
  hb_agents :: "conn dict"
  hb_identities :: "identity dict"
  hb_tasks :: "task dict"
  hb_peers :: "conn dict"
  hb_peer_keys :: "string dict"
  hb_links :: "conn dict"
  hb_observers :: "conn list"
  hb_meta :: "metrics dict"
  hb_audit :: "audit_entry list"
  hb_engine :: guardrail_engine
  hb_escrow :: escrow
  hb_gate :: bp_gate
  hb_pending :: "suspended dict"
  hb_api_keys :: key_store
  hb_store :: store
  hb_sessions :: "(conn \<times> session) list"
  hb_out :: "effect list"

definition token_expiry :: rat where "token_expiry = 3600"
definition presence_ttl :: rat where "presence_ttl = 45"

definition observer_prefixes :: "string list" where
  "observer_prefixes = [''topology_'', ''nexus_dashboard'', ''dashboard_'', ''agents_dir'', ''security_'']"

section \<open>Tokens\<close>

definition generate_token ::
  "('sk, 'pk) hub_conf \<Rightarrow> rat \<Rightarrow> string \<Rightarrow> string \<Rightarrow> string list \<Rightarrow> string \<Rightarrow> string \<Rightarrow> string" where
  "generate_token cf now agent agent_id roles org auth =
     hc_jwt_encode cf (hc_key cf) (hc_kid cf) (JObj
       [(''agent_name'', JStr agent), (''agent_id'', JStr agent_id), (''roles'', JList (List.map JStr roles)),
        (''org_id'', JStr org), (''auth_method'', JStr auth), (''issued_at'', JFloat now),
        (''expires_at'', JFloat (now + token_expiry)), (''issuer'', JStr ''intermesh-hub''), (''iss_org'', JStr (hc_org cf))])"

definition decode_token ::
  "('sk, 'pk) hub_conf \<Rightarrow> string dict \<Rightarrow> string \<Rightarrow> string option \<Rightarrow> (string \<times> json) list option" where
  "decode_token cf peer_keys token issuing =
     (if token = [] then None
      else (case (if issuing = None \<or> issuing = Some (hc_org cf) then Some (hc_pem cf) else map_of peer_keys (the issuing)) of
              None \<Rightarrow> None
            | Some pem \<Rightarrow> hc_jwt_decode cf token pem))"

text \<open>\<open>v < r\<close> on a number; \<open>None\<close> is a \<open>TypeError\<close>.\<close>

definition json_below :: "json \<Rightarrow> rat \<Rightarrow> bool option" where
  "json_below v r = (case v of
     JInt i \<Rightarrow> Some (of_int i < r) | JFloat q \<Rightarrow> Some (q < r) | JBool b \<Rightarrow> Some ((if b then 1 else 0) < r)
   | JNonFinite s \<Rightarrow> Some (s = ''-Infinity'') | _ \<Rightarrow> None)"

definition expired :: "(string \<times> json) list \<Rightarrow> rat \<Rightarrow> bool option" where
  "expired p now = json_below (case map_of p ''expires_at'' of None \<Rightarrow> JInt 0 | Some v \<Rightarrow> v) now"

definition verify_token ::
  "('sk, 'pk) hub_conf \<Rightarrow> string dict \<Rightarrow> rat \<Rightarrow> string \<Rightarrow> string \<Rightarrow> string option \<Rightarrow> bool option" where
  "verify_token cf peer_keys now token expected issuing =
     (case decode_token cf peer_keys token issuing of
        None \<Rightarrow> Some False
      | Some p \<Rightarrow>
          if py_get p ''agent_name'' \<noteq> JStr expected then Some False
          else (case expired p now of
                  None \<Rightarrow> None
                | Some True \<Rightarrow> Some False
                | Some False \<Rightarrow>
                    (let issuer = JStr (case issuing of None \<Rightarrow> hc_org cf | Some o' \<Rightarrow> o')
                     in Some ((case map_of p ''iss_org'' of None \<Rightarrow> issuer | Some v \<Rightarrow> v) = issuer))))"

definition verify_federated_token ::
  "('sk, 'pk) hub_conf \<Rightarrow> string dict \<Rightarrow> rat \<Rightarrow> string \<Rightarrow> string \<Rightarrow> string \<Rightarrow> bool option" where
  "verify_federated_token cf peer_keys now token origin claimed =
     (case decode_token cf peer_keys token (Some origin) of
        None \<Rightarrow> Some False
      | Some p \<Rightarrow>
          (case expired p now of
             None \<Rightarrow> None
           | Some True \<Rightarrow> Some False
           | Some False \<Rightarrow>
               Some (if py_get p ''iss_org'' \<noteq> JStr origin then False
                     else if claimed \<noteq> [] \<and> claimed \<noteq> ''hub'' then py_get p ''agent_name'' = JStr claimed
                     else True)))"

section \<open>Names\<close>

definition registered_name :: "identity \<Rightarrow> string" where
  "registered_name i = (if id_org_id i = ''default'' then id_name i else id_qualified_name i)"

definition local_name :: "hub \<Rightarrow> string option \<Rightarrow> string option" where
  "local_name h name = (case name of
     None \<Rightarrow> None
   | Some n \<Rightarrow>
       if n = [] then None
       else if map_of (hb_agents h) n \<noteq> None then Some n
       else if str_prefix ''default/'' n \<and> map_of (hb_agents h) (drop 8 n) \<noteq> None then Some (drop 8 n)
       else None)"

definition agent_org :: "('sk, 'pk) hub_conf \<Rightarrow> hub \<Rightarrow> string \<Rightarrow> string" where
  "agent_org cf h name =
     (case (case map_of (hb_identities h) name of
              Some i \<Rightarrow> Some i
            | None \<Rightarrow> if str_prefix ''default/'' name then map_of (hb_identities h) (drop 8 name) else None) of
        Some i \<Rightarrow> id_org_id i
      | None \<Rightarrow> if CHR ''/'' \<in> set name then takeWhile (\<lambda>c. c \<noteq> CHR ''/'') name else hc_org cf)"

definition is_peered :: "hub \<Rightarrow> string \<Rightarrow> bool" where
  "is_peered h org = (map_of (hb_peers h) org \<noteq> None)"

section \<open>Searching for agents\<close>

text \<open>\<open>==\<close> of JSON values: numbers by value, objects up to the order of their members.\<close>

fun num_norm :: "json \<Rightarrow> json"
and num_norm_elems :: "json list \<Rightarrow> json list"
and num_norm_members :: "(string \<times> json) list \<Rightarrow> (string \<times> json) list" where
  "num_norm (JBool b) = JInt (if b then 1 else 0)"
| "num_norm (JFloat q) = (if q = of_int \<lfloor>q\<rfloor> then JInt \<lfloor>q\<rfloor> else JFloat q)"
| "num_norm (JList vs) = JList (num_norm_elems vs)"
| "num_norm (JObj kvs) = JObj (num_norm_members kvs)"
| "num_norm v = v"
| "num_norm_elems [] = []"
| "num_norm_elems (v # vs) = num_norm v # num_norm_elems vs"
| "num_norm_members [] = []"
| "num_norm_members (kv # kvs) = (fst kv, num_norm (snd kv)) # num_norm_members kvs"

definition py_same :: "json \<Rightarrow> json \<Rightarrow> bool" where
  "py_same v w = (sort_json (num_norm v) = sort_json (num_norm w))"

fun hashable :: "json \<Rightarrow> bool" where
  "hashable (JList vs) = False"
| "hashable (JObj d) = False"
| "hashable _ = True"

text \<open>\<open>set(v or [])\<close>; \<open>None\<close> is a \<open>TypeError\<close>.\<close>

definition json_set :: "json \<Rightarrow> json list option" where
  "json_set v = (if \<not> py_true v then Some []
     else (case v of
       JList vs \<Rightarrow> if list_all hashable vs then Some vs else None
     | JStr s \<Rightarrow> Some (List.map (\<lambda>c. JStr [c]) s)
     | JObj d \<Rightarrow> Some (List.map (\<lambda>(k, _). JStr k) d)
     | _ \<Rightarrow> None))"

record query =
  qy_limit :: int
  qy_online_only :: bool
  qy_caps :: "json list"
  qy_roles :: "json list"
  qy_meta :: json
  qy_name :: json

definition query_of :: "(string \<times> json) list \<Rightarrow> query option" where
  "query_of q =
     (case (py_int (case map_of q ''limit'' of None \<Rightarrow> JInt 15 | Some v \<Rightarrow> v),
            json_set (py_get q ''capabilities''), json_set (py_get q ''roles'')) of
        (Inr n, Some cs, Some rs) \<Rightarrow>
          Some \<lparr> qy_limit = n, qy_online_only = py_true (case map_of q ''online_only'' of None \<Rightarrow> JBool True | Some v \<Rightarrow> v),
                 qy_caps = cs, qy_roles = rs, qy_meta = py_get q ''metadata'', qy_name = py_get q ''name_contains'' \<rparr>
      | _ \<Rightarrow> None)"

definition meta_matches :: "json \<Rightarrow> json \<Rightarrow> bool option" where
  "meta_matches wanted have =
     (if \<not> py_true wanted then Some True
      else (case (wanted, have) of
              (JObj m, JObj d) \<Rightarrow> Some (list_all (\<lambda>(k, v). py_same (py_get d k) v) m)
            | _ \<Rightarrow> None))"

definition name_matches :: "json \<Rightarrow> string \<Rightarrow> bool option" where
  "name_matches wanted name =
     (if \<not> py_true wanted then Some True else (case wanted of JStr s \<Rightarrow> Some (str_in s name) | _ \<Rightarrow> None))"

definition agent_matches :: "query \<Rightarrow> string \<Rightarrow> hub \<Rightarrow> string \<Rightarrow> identity \<Rightarrow> bool option" where
  "agent_matches q org h name i =
     (if id_org_id i \<noteq> org then Some False
      else if qy_online_only q \<and> map_of (hb_agents h) name = None then Some False
      else if \<not> set (qy_caps q) \<subseteq> JStr ` set (id_capabilities i) then Some False
      else if qy_roles q \<noteq> [] \<and> \<not> list_ex (\<lambda>r. r \<in> JStr ` set (id_roles i)) (qy_roles q) then Some False
      else (case meta_matches (qy_meta q) (id_metadata i) of
              Some True \<Rightarrow> name_matches (qy_name q) name
            | r \<Rightarrow> r))"

definition found_row :: "hub \<Rightarrow> string \<Rightarrow> identity \<Rightarrow> json" where
  "found_row h name i = JObj
     [(''name'', JStr name), (''qualified_name'', JStr name), (''agent_id'', JStr (id_agent_id i)),
      (''capabilities'', JList (List.map JStr (id_capabilities i))), (''roles'', JList (List.map JStr (id_roles i))),
      (''permissions'', JList (List.map JStr (id_permissions i))), (''public_key'', json_of_opt (id_public_key i)),
      (''schema'', json_of_opt (id_schema i)), (''online'', JBool (map_of (hb_agents h) name \<noteq> None))]"

fun discover_from :: "query \<Rightarrow> string \<Rightarrow> hub \<Rightarrow> (string \<times> identity) list \<Rightarrow> json list \<Rightarrow> json list option" where
  "discover_from q org h [] acc = Some acc"
| "discover_from q org h ((name, i) # rest) acc =
     (case agent_matches q org h name i of
        None \<Rightarrow> None
      | Some False \<Rightarrow> discover_from q org h rest acc
      | Some True \<Rightarrow>
          (let acc' = acc @ [found_row h name i]
           in if int (length acc') \<ge> qy_limit q then Some acc' else discover_from q org h rest acc'))"

definition discover_agents :: "(string \<times> json) list \<Rightarrow> string \<Rightarrow> hub \<Rightarrow> json list option" where
  "discover_agents query org h = Option.bind (query_of query) (\<lambda>q. discover_from q org h (hb_identities h) [])"

section \<open>Load and telemetry snapshot\<close>

definition task_load :: "hub \<Rightarrow> int \<times> int" where
  "task_load h =
     (let open = List.filter (\<lambda>t. tk_status t \<notin> {Completed, Failed}) (List.map snd (hb_tasks h))
      in (int (length open), int (length (List.filter (\<lambda>t. tk_status t = Pending) open))))"

definition snapshot_agents :: "hub \<Rightarrow> json list" where
  "snapshot_agents h = List.map (\<lambda>(name, m).
     let i = map_of (hb_identities h) name in JObj
       [(''name'', JStr name), (''agent_id'', case i of None \<Rightarrow> JNull | Some i \<Rightarrow> JStr (id_agent_id i)),
        (''roles'', JList (case i of None \<Rightarrow> [] | Some i \<Rightarrow> List.map JStr (id_roles i))),
        (''capabilities'', JList (case i of None \<Rightarrow> [] | Some i \<Rightarrow> List.map JStr (id_capabilities i))),
        (''status'', JStr (mt_status m)), (''connected_at'', JFloat (mt_connected_at m)),
        (''last_seen'', JFloat (mt_last_seen m)), (''msg_count'', JInt (mt_count m)),
        (''online'', JBool (map_of (hb_agents h) name \<noteq> None))]) (hb_meta h)"

definition sibling_hub_urls :: "('sk, 'pk) hub_conf \<Rightarrow> rat \<Rightarrow> hub \<Rightarrow> string list" where
  "sibling_hub_urls cf now h =
     (if hc_cluster_url cf = [] then []
      else List.map (\<lambda>(i, r). hr_url r) (List.filter (\<lambda>(i, r). i \<noteq> hc_id cf \<and> hr_url r \<noteq> [])
             (list_hubs now (Some (hc_org cf)) presence_ttl (hb_store h))))"

section \<open>Writing\<close>

text \<open>\<open>str\<close> of a member of the enumeration.\<close>

definition message_type_name :: "message_type \<Rightarrow> string" where
  "message_type_name t = ''MessageType.'' @ (if t = MTelemetry then ''TELEMETRY'' else str_upper (message_type_value t))"

definition emit :: "effect \<Rightarrow> hub \<Rightarrow> hub" where
  "emit e h = h\<lparr>hb_out := hb_out h @ [e]\<rparr>"

definition hub_message ::
  "tick \<Rightarrow> hub \<Rightarrow> message_type \<Rightarrow> string \<Rightarrow> string option \<Rightarrow> json \<Rightarrow> string option \<Rightarrow> string option \<Rightarrow> message" where
  "hub_message tk h ty sender to content reply token =
     message_new (tc_fresh tk (length (hb_out h))) (tc_now tk) ty sender to content reply None JNull ''intermesh/v1'' token"

text \<open>A send: \<open>False\<close> is the exception of a closed connection.\<close>

definition send_msg :: "tick \<Rightarrow> conn \<Rightarrow> message \<Rightarrow> hub \<Rightarrow> bool \<times> hub" where
  "send_msg tk c m h = (if tc_alive tk c then (True, emit (Send c m) h) else (False, h))"

definition say ::
  "tick \<Rightarrow> conn \<Rightarrow> message_type \<Rightarrow> string \<Rightarrow> string option \<Rightarrow> json \<Rightarrow> string option \<Rightarrow> string option \<Rightarrow> hub \<Rightarrow> bool \<times> hub" where
  "say tk c ty sender to content reply token h = send_msg tk c (hub_message tk h ty sender to content reply token) h"

definition tell :: "tick \<Rightarrow> conn \<Rightarrow> json \<Rightarrow> hub \<Rightarrow> bool \<times> hub" where
  "tell tk c v h = (if tc_alive tk c then (True, emit (Tell c v) h) else (False, h))"

definition telemetry :: "string \<Rightarrow> (string \<times> json) list \<Rightarrow> json" where
  "telemetry event data = JObj [(''type'', JStr (message_type_value MTelemetry)), (''content'', JObj ((''event'', JStr event) # data))]"

definition broadcast :: "tick \<Rightarrow> string \<Rightarrow> (string \<times> json) list \<Rightarrow> hub \<Rightarrow> hub" where
  "broadcast tk event data h =
     (let live = List.filter (tc_alive tk) (hb_observers h)
      in h\<lparr>hb_observers := live, hb_out := hb_out h @ List.map (\<lambda>c. Tell c (telemetry event data)) live\<rparr>)"

definition hub_log ::
  "('sk, 'pk) hub_conf \<Rightarrow> tick \<Rightarrow> string \<Rightarrow> string \<Rightarrow> string option \<Rightarrow> (string \<times> json) list \<Rightarrow> hub \<Rightarrow> hub" where
  "hub_log cf tk event sender target md h =
     (let chain = audit_log (hc_rt cf) (tc_now tk) event sender target (JObj md) (hb_audit h)
      in h\<lparr>hb_audit := chain, hb_store := append_audit (hc_rt cf) (last chain) (hb_store h)\<rparr>)"

definition broadcast_entry :: "tick \<Rightarrow> hub \<Rightarrow> hub" where
  "broadcast_entry tk h = broadcast tk ''audit_entry'' [(''entry'', audit_entry_to_dict (last (hb_audit h)))] h"

definition remember_task :: "('sk, 'pk) hub_conf \<Rightarrow> task \<Rightarrow> hub \<Rightarrow> hub" where
  "remember_task cf t h =
     h\<lparr>hb_tasks := dict_set (tk_task_id t) t (hb_tasks h), hb_store := save_task (hc_rt cf) t (hb_store h)\<rparr>"

text \<open>\<open>msg.content or {}\<close>, on which a method of a dictionary is then called; \<open>None\<close> is an \<open>AttributeError\<close>.\<close>

definition obj_of :: "json \<Rightarrow> (string \<times> json) list option" where
  "obj_of v = (if \<not> py_true v then Some [] else (case v of JObj d \<Rightarrow> Some d | _ \<Rightarrow> None))"

text \<open>Steps one after the other, up to the first exception.\<close>

fun steps :: "(hub \<Rightarrow> bool \<times> hub) list \<Rightarrow> hub \<Rightarrow> bool \<times> hub" where
  "steps [] h = (True, h)"
| "steps (f # fs) h = (case f h of (True, h') \<Rightarrow> steps fs h' | (False, h') \<Rightarrow> (False, h'))"

definition quietly :: "(hub \<Rightarrow> hub) \<Rightarrow> hub \<Rightarrow> bool \<times> hub" where
  "quietly f h = (True, f h)"

end
