(* ===== verification/HubTasks.thy ===== *)
theory HubTasks
  imports HubCore
begin

text \<open>
  \<open>hub.py\<close>, second part: delivery - to an agent here, through a sibling hub of the cluster, or to the hub of a peered
  organisation, behind the egress filter - and the life of a task: submission with its guards, suspension for a human's
  approval, escrow, assignment, updates.

  A function of type \<open>hub \<Rightarrow> bool \<times> hub\<close> that is named after a handler returns \<open>False\<close> where an exception leaves the
  handler, with the state the exception leaves behind.  A submission whose \<open>task_id\<close>, \<open>parent_task_id\<close>, \<open>assignee\<close> or
  escrow currency is neither a text nor absent, or whose escrow amount is not finite, is outside the model and reads
  as such an exception.
\<close>

section \<open>Delivery\<close>

text \<open>The link to a sibling: the one that is open, or a new one if the sibling answers \<open>CLUSTER_JOINED\<close> in time.\<close>

definition cluster_link ::
  "('sk, 'pk) hub_conf \<Rightarrow> tick \<Rightarrow> string \<Rightarrow> string \<Rightarrow> hub \<Rightarrow> conn option \<times> hub" where
  "cluster_link cf tk hub_id url h = (case map_of (hb_links h) hub_id of
     Some c \<Rightarrow> (Some c, h)
   | None \<Rightarrow>
       (case tc_dial tk url of
          None \<Rightarrow> (None, h)
        | Some (c, reply) \<Rightarrow>
            (case say tk c MClusterJoin (hc_id cf) None (JObj
                    [(''hub_id'', JStr (hc_id cf)), (''org'', JStr (hc_org cf)),
                     (''token'', JStr (generate_token cf (tc_now tk) ''hub'' (hc_id cf) [''hub''] (hc_org cf) ''cluster''))])
                    None None h of
               (False, h1) \<Rightarrow> (None, h1)
             | (True, h1) \<Rightarrow>
                 (case Option.bind reply (\<lambda>t. case message_from_json (tc_fresh tk (length (hb_out h1))) (tc_now tk) t of
                         Inl e \<Rightarrow> None | Inr m \<Rightarrow> Some m) of
                    None \<Rightarrow> (None, h1)
                  | Some m \<Rightarrow>
                      if ms_type m \<noteq> MClusterJoined then (None, emit (Close c) h1)
                      else (Some c, h1\<lparr>hb_links := dict_set hub_id c (hb_links h1)\<rparr>)))))"

definition forward_to_sibling ::
  "('sk, 'pk) hub_conf \<Rightarrow> tick \<Rightarrow> message \<Rightarrow> presence_row \<Rightarrow> hub \<Rightarrow> bool \<times> hub" where
  "forward_to_sibling cf tk msg p h = (case cluster_link cf tk (pr_hub p) (pr_url p) h of
     (None, h1) \<Rightarrow> (False, h1)
   | (Some c, h1) \<Rightarrow>
       (case say tk c MClusterRelay (hc_id cf) (Some (pr_hub p)) (message_to_dict msg) None None h1 of
          (True, h2) \<Rightarrow> (True, h2)
        | (False, h2) \<Rightarrow> (False, h2\<lparr>hb_links := dict_del (pr_hub p) (hb_links h2)\<rparr>)))"

definition via_cluster ::
  "('sk, 'pk) hub_conf \<Rightarrow> tick \<Rightarrow> message \<Rightarrow> string \<Rightarrow> hub \<Rightarrow> bool \<times> hub" where
  "via_cluster cf tk msg target h =
     (if hc_cluster_url cf = [] then (False, h)
      else (case find_presence (tc_now tk) target presence_ttl (hb_store h) of
              None \<Rightarrow> (False, h)
            | Some p \<Rightarrow>
                if pr_hub p \<noteq> hc_id cf \<and> pr_org p = hc_org cf then forward_to_sibling cf tk msg p h else (False, h)))"

definition via_peer ::
  "('sk, 'pk) hub_conf \<Rightarrow> tick \<Rightarrow> message \<Rightarrow> string \<Rightarrow> hub \<Rightarrow> bool \<times> hub" where
  "via_peer cf tk msg target h =
     (let org = agent_org cf h target in
      case map_of (hb_peers h) org of
        None \<Rightarrow> (False, h)
      | Some c \<Rightarrow>
          (case apply_egress (hc_egress_rx cf) (ms_content msg) org (Some (hc_egress cf)) of
             Inl rule \<Rightarrow>
               (False, broadcast tk ''egress_blocked''
                  [(''sender'', JStr (ms_sender msg)), (''target_org'', JStr org), (''rule'', JStr rule)]
                  (hub_log cf tk ''EGRESS_BLOCKED'' (ms_sender msg) (Some org)
                     [(''rule'', JStr rule), (''message_type'', JStr (message_type_name (ms_type msg)))] h))
           | Inr (content, triggered) \<Rightarrow>
               (let h1 = (if triggered = [] then h
                          else hub_log cf tk ''EGRESS_REDACTED'' (ms_sender msg) (Some org)
                             [(''rules'', JList (List.map JStr triggered)),
                              (''message_type'', JStr (message_type_name (ms_type msg)))] h)
                in say tk c MFederationRelay (hc_org cf) (Some org) (message_to_dict (msg\<lparr>ms_content := content\<rparr>)) None None h1)))"

text \<open>Whether the message was delivered or relayed.\<close>

definition deliver_or_relay :: "('sk, 'pk) hub_conf \<Rightarrow> tick \<Rightarrow> message \<Rightarrow> hub \<Rightarrow> bool \<times> hub" where
  "deliver_or_relay cf tk msg h = (case ms_to msg of
     None \<Rightarrow> (False, h)
   | Some target \<Rightarrow>
       if target = [] then (False, h)
       else (case local_name h (Some target) of
               Some l \<Rightarrow> send_msg tk (the (map_of (hb_agents h) l)) msg h
             | None \<Rightarrow>
                 (case via_cluster cf tk msg target h of
                    (True, h1) \<Rightarrow> (True, h1)
                  | (False, h1) \<Rightarrow> via_peer cf tk msg target h1)))"

definition deliver_new ::
  "('sk, 'pk) hub_conf \<Rightarrow> tick \<Rightarrow> message_type \<Rightarrow> string \<Rightarrow> string option \<Rightarrow> json \<Rightarrow> string option \<Rightarrow> string option
    \<Rightarrow> hub \<Rightarrow> bool \<times> hub" where
  "deliver_new cf tk ty sender to content reply token h =
     deliver_or_relay cf tk (hub_message tk h ty sender to content reply token) h"

definition send_task_to_agent :: "('sk, 'pk) hub_conf \<Rightarrow> tick \<Rightarrow> task \<Rightarrow> hub \<Rightarrow> bool \<times> hub" where
  "send_task_to_agent cf tk t h =
     deliver_new cf tk MTaskAssign ''hub'' (Some (tk_assignee t)) (task_to_dict t) None None h"

section \<open>Submission\<close>

definition text_or_absent :: "(string \<times> json) list \<Rightarrow> string \<Rightarrow> string option option" where
  "text_or_absent d k = (case py_get d k of JNull \<Rightarrow> Some None | JStr s \<Rightarrow> Some (Some s) | _ \<Rightarrow> None)"

definition text_of :: "string option \<Rightarrow> string" where
  "text_of x = (case x of None \<Rightarrow> [] | Some s \<Rightarrow> s)"

text \<open>\<open>float(escrow_req.get("amount", 0) or 0)\<close> and the rest of an escrow request.\<close>

record escrow_request =
  eq_amount :: rat
  eq_currency :: string
  eq_auto_release :: bool

definition escrow_request_of :: "json \<Rightarrow> escrow_request option" where
  "escrow_request_of v = (case v of
     JObj d \<Rightarrow>
       (case (py_float (py_or (py_get d ''amount'') (JInt 0)), map_of d ''currency'') of
          (Inr a, None) \<Rightarrow> Some \<lparr> eq_amount = a, eq_currency = ''USD'',
             eq_auto_release = py_true (case map_of d ''auto_release'' of None \<Rightarrow> JBool True | Some x \<Rightarrow> x) \<rparr>
        | (Inr a, Some (JStr c)) \<Rightarrow> Some \<lparr> eq_amount = a, eq_currency = c,
             eq_auto_release = py_true (case map_of d ''auto_release'' of None \<Rightarrow> JBool True | Some x \<Rightarrow> x) \<rparr>
        | _ \<Rightarrow> None)
   | _ \<Rightarrow> None)"

datatype finalized = Submitted | EscrowFailed escrow_error | SubmitRaises

text \<open>The hold, if one is asked for; \<open>fresh\<close> names it.\<close>

definition hold_for ::
  "('sk, 'pk) hub_conf \<Rightarrow> tick \<Rightarrow> (string \<times> json) list \<Rightarrow> string \<Rightarrow> hub \<Rightarrow> finalized \<times> hub" where
  "hold_for cf tk raw submitter h =
     (if \<not> py_true (py_get raw ''escrow'') then (Submitted, h)
      else (case (escrow_request_of (py_get raw ''escrow''), text_or_absent raw ''task_id'', text_or_absent raw ''assignee'') of
              (Some rq, Some tid, Some assignee) \<Rightarrow>
                (let payee = (case assignee of None \<Rightarrow> hc_org cf | Some a \<Rightarrow> agent_org cf h a) in
                 case create_hold (tc_fresh tk (length (hb_out h))) (tc_now tk) (text_of tid) (agent_org cf h submitter) payee
                        (eq_amount rq) (eq_currency rq) (eq_auto_release rq) JNull (hb_escrow h) of
                   (Inl e, es) \<Rightarrow>
                     (EscrowFailed e, hub_log cf tk ''ESCROW_REJECTED'' submitter assignee
                        [(''reason'', JStr (hc_wording cf (EscrowSays e))), (''task_id'', py_get raw ''task_id'')]
                        (h\<lparr>hb_escrow := es\<rparr>))
                 | (Inr hold, es) \<Rightarrow>
                     (Submitted, hub_log cf tk ''ESCROW_HELD'' submitter assignee
                        [(''task_id'', JStr (eh_task_id hold)), (''amount'', JFloat (eh_amount hold)),
                         (''currency'', JStr (eh_currency hold))]
                        (h\<lparr>hb_escrow := es\<rparr>)))
            | _ \<Rightarrow> (SubmitRaises, h)))"

definition announce_task :: "('sk, 'pk) hub_conf \<Rightarrow> tick \<Rightarrow> task \<Rightarrow> string \<Rightarrow> hub \<Rightarrow> hub" where
  "announce_task cf tk t submitter h =
     broadcast_entry tk
       (broadcast tk ''task_submitted''
          [(''task_id'', JStr (tk_task_id t)), (''title'', JStr (tk_title t)), (''orchestrator'', JStr submitter),
           (''assignee'', JStr (tk_assignee t))]
          (hub_log cf tk ''TASK_SUBMITTED'' submitter (Some (tk_assignee t))
             [(''task_id'', JStr (tk_task_id t)), (''title'', JStr (tk_title t))]
             (remember_task cf t h)))"

definition finalize_task_submission ::
  "('sk, 'pk) hub_conf \<Rightarrow> tick \<Rightarrow> (string \<times> json) list \<Rightarrow> string \<Rightarrow> string option \<Rightarrow> string option \<Rightarrow> hub \<Rightarrow> finalized \<times> hub" where
  "finalize_task_submission cf tk raw submitter token reply_to h = (case hold_for cf tk raw submitter h of
     (Submitted, h1) \<Rightarrow>
       (case task_from_dict (tc_fresh tk (length (hb_out h1))) (tc_now tk) (JObj raw) of
          Inl e \<Rightarrow> (SubmitRaises, h1)
        | Inr t \<Rightarrow>
            (Submitted, snd (deliver_new cf tk MTaskAssign ''hub'' (Some (tk_assignee t)) (task_to_dict t) reply_to token
               (announce_task cf tk t submitter h1))))
   | r \<Rightarrow> r)"

text \<open>\<open>float(raw_task.get("estimated_cost") or 0.0)\<close>; \<open>None\<close> where it raises.  The cost is only compared with the cap,
  so a float that is no number is passed to the engine as a number that compares alike.\<close>

definition submitted_cost :: "(string \<times> json) list \<Rightarrow> cost option" where
  "submitted_cost raw = (case py_or (py_get raw ''estimated_cost'') (JFloat 0) of
     JNonFinite s \<Rightarrow> Some (if s = ''NaN'' then NotANumber else if s = ''Infinity'' then PosInf else NegInf)
   | JStr s \<Rightarrow> (case cost_of_text s of
       Finite q \<Rightarrow> map_option Finite (float_of_text s) | c \<Rightarrow> Some c)
   | v \<Rightarrow> (case py_float v of Inl e \<Rightarrow> None | Inr q \<Rightarrow> Some (Finite q)))"

definition comparable_cost :: "guardrail_policy \<Rightarrow> cost \<Rightarrow> rat" where
  "comparable_cost p c = (case c of Finite q \<Rightarrow> q | PosInf \<Rightarrow> gp_max_cost_per_task p + 1 | _ \<Rightarrow> gp_max_cost_per_task p)"

definition violation_rule :: "violation \<Rightarrow> string" where
  "violation_rule v = (case v of BreakerTripped \<Rightarrow> ''CIRCUIT_BREAKER_TRIPPED'' | CascadeTooDeep \<Rightarrow> ''INFINITE_CASCADE_RECURSION''
     | CostCapExceeded \<Rightarrow> ''TASK_COST_CAP_EXCEEDED'' | RateExceeded \<Rightarrow> ''RATE_LIMIT_EXCEEDED''
     | ForbiddenPattern p \<Rightarrow> ''FORBIDDEN_PATTERN_INTERCEPTED'')"

text \<open>The guardrails on a submission; \<open>None\<close> where the arguments cannot be built.\<close>

definition guard_submission ::
  "('sk, 'pk) hub_conf \<Rightarrow> tick \<Rightarrow> (string \<times> json) list \<Rightarrow> string \<Rightarrow> hub \<Rightarrow> (violation option \<times> hub) option" where
  "guard_submission cf tk raw sender h =
     (case (text_or_absent raw ''task_id'', text_or_absent raw ''parent_task_id'', submitted_cost raw) of
        (Some tid, Some parent, Some cost) \<Rightarrow>
          (let org = agent_org cf h sender;
               shown = (case map_of raw ''input_data'' of Some v \<Rightarrow> v
                        | None \<Rightarrow> (case map_of raw ''title'' of Some v \<Rightarrow> v | None \<Rightarrow> JStr []));
               (v, e) = validate_task_submission (hc_guard_rx cf) (tc_now tk) sender (text_of tid) (text_of parent)
                          (comparable_cost (get_policy (Some org) (hb_engine h)) cost) (py_str (hc_rt cf) shown) (Some org)
                          (hb_engine h)
           in Some (v, h\<lparr>hb_engine := e\<rparr>))
      | _ \<Rightarrow> None)"

definition log_violation ::
  "('sk, 'pk) hub_conf \<Rightarrow> tick \<Rightarrow> (string \<times> json) list \<Rightarrow> string \<Rightarrow> violation \<Rightarrow> (string \<times> json) list \<Rightarrow> hub \<Rightarrow> hub" where
  "log_violation cf tk raw sender v extra h =
     hub_log cf tk ''ASIMOV_GUARDRAIL_VIOLATION'' sender (opt_of_json (py_get raw ''assignee''))
       ([(''rule'', JStr (violation_rule v)), (''reason'', JStr (hc_wording cf (GuardrailSays v))),
         (''task_id'', py_get raw ''task_id'')] @ extra) h"

text \<open>The refusal of a saturated hub: logged once per period, and answered with the task it is about.\<close>

definition with_task_id :: "json \<Rightarrow> json \<Rightarrow> json" where
  "with_task_id v tid = (case v of JObj d \<Rightarrow> JObj (dict_set ''task_id'' tid d) | _ \<Rightarrow> v)"

definition saturated ::
  "('sk, 'pk) hub_conf \<Rightarrow> tick \<Rightarrow> conn \<Rightarrow> message \<Rightarrow> (string \<times> json) list \<Rightarrow> bp_rejection \<Rightarrow> hub \<Rightarrow> bool \<times> hub" where
  "saturated cf tk c msg raw r h =
     (let (first, g) = note_rejection (tc_now tk) 10 (hb_gate h);
          h1 = h\<lparr>hb_gate := g\<rparr>;
          h2 = (if first
                then broadcast tk ''hub_saturated'' (case rejection_to_dict r of JObj d \<Rightarrow> d | _ \<Rightarrow> [])
                       (hub_log cf tk ''HUB_SATURATED'' (ms_sender msg) (opt_of_json (py_get raw ''assignee''))
                          [(''reason'', JStr (bp_reason_text (rj_reason r))), (''in_flight'', JInt (rj_in_flight r)),
                           (''queue_depth'', JInt (rj_queue_depth r)), (''note'', JStr (hc_wording cf SaturationNote))] h1)
                else h1)
      in say tk c MError ''hub'' (Some (ms_sender msg)) (with_task_id (rejection_to_dict r) (py_get raw ''task_id''))
           (Some (ms_id msg)) (ms_token msg) h2)"

text \<open>The first approval rule that holds the task back.\<close>

definition held_back ::
  "('sk, 'pk) hub_conf \<Rightarrow> (string \<times> json) list \<Rightarrow> string \<Rightarrow> string \<Rightarrow> hub \<Rightarrow> task_rule option" where
  "held_back cf raw assignee org h =
     requires_approval (hc_rt cf) (hc_approval_rx cf) raw (Some (hc_approval cf))
       (case map_of (hb_identities h) assignee of None \<Rightarrow> [] | Some i \<Rightarrow> id_capabilities i)
       (agent_org cf h assignee \<noteq> org)"

definition suspend_task ::
  "('sk, 'pk) hub_conf \<Rightarrow> tick \<Rightarrow> message \<Rightarrow> (string \<times> json) list \<Rightarrow> string \<Rightarrow> string \<Rightarrow> task_rule \<Rightarrow> hub \<Rightarrow> hub" where
  "suspend_task cf tk msg raw assignee org r h =
     (let h1 = h\<lparr>hb_pending := dict_set (text_of (opt_of_json (py_get raw ''task_id'')))
                   \<lparr> su_task = raw, su_submitter = ms_sender msg, su_org = org, su_rule = tr_name r, su_reason = tr_reason r,
                     su_token = ms_token msg, su_reply_to = ms_id msg, su_submitted_at = tc_now tk \<rparr> (hb_pending h)\<rparr>;
          h2 = hub_log cf tk ''APPROVAL_REQUIRED'' (ms_sender msg) (Some assignee)
                 [(''task_id'', py_get raw ''task_id''), (''title'', py_get raw ''title''), (''rule'', JStr (tr_name r)),
                  (''reason'', JStr (tr_reason r))] h1
      in broadcast_entry tk (broadcast tk ''approval_required''
           [(''task_id'', py_get raw ''task_id''), (''title'', py_get raw ''title''), (''orchestrator'', JStr (ms_sender msg)),
            (''assignee'', JStr assignee), (''rule'', JStr (tr_name r)), (''reason'', JStr (tr_reason r))] h2))"

definition admit_submission ::
  "('sk, 'pk) hub_conf \<Rightarrow> tick \<Rightarrow> conn \<Rightarrow> message \<Rightarrow> (string \<times> json) list \<Rightarrow> string \<Rightarrow> hub \<Rightarrow> bool \<times> hub" where
  "admit_submission cf tk c msg raw org h =
     (let (in_flight, queued) = task_load h in
      case bp_admit in_flight queued (tc_now tk) (hb_gate h) of
        (Some r, g) \<Rightarrow> saturated cf tk c msg raw r (h\<lparr>hb_gate := g\<rparr>)
      | (None, g) \<Rightarrow>
          (let h1 = h\<lparr>hb_gate := g\<rparr> in
           case text_or_absent raw ''assignee'' of
             None \<Rightarrow> (False, h1)
           | Some a \<Rightarrow>
               (let assignee = text_of a in
                case held_back cf raw assignee org h1 of
                  Some r \<Rightarrow> (True, suspend_task cf tk msg raw assignee org r h1)
                | None \<Rightarrow>
                    (case finalize_task_submission cf tk raw (ms_sender msg) (ms_token msg) (Some (ms_id msg)) h1 of
                       (Submitted, h2) \<Rightarrow> (True, h2)
                     | (EscrowFailed e, h2) \<Rightarrow>
                         say tk c MError ''hub'' (Some (ms_sender msg)) (JStr (hc_wording cf (EscrowSays e)))
                           (Some (ms_id msg)) (ms_token msg) h2
                     | (SubmitRaises, h2) \<Rightarrow> (False, h2)))))"

definition handle_task_submit :: "('sk, 'pk) hub_conf \<Rightarrow> tick \<Rightarrow> conn \<Rightarrow> message \<Rightarrow> hub \<Rightarrow> bool \<times> hub" where
  "handle_task_submit cf tk c msg h = (case obj_of (ms_content msg) of
     None \<Rightarrow> (False, h)
   | Some raw \<Rightarrow>
       (case guard_submission cf tk raw (ms_sender msg) h of
          None \<Rightarrow> (False, h)
        | Some (Some v, h1) \<Rightarrow>
            say tk c MError ''hub'' (Some (ms_sender msg)) (JStr (hc_wording cf (GuardrailSays v))) (Some (ms_id msg))
              (ms_token msg) (log_violation cf tk raw (ms_sender msg) v [] h1)
        | Some (None, h1) \<Rightarrow> admit_submission cf tk c msg raw (agent_org cf h (ms_sender msg)) h1))"

section \<open>Updates\<close>

definition settle_completed :: "('sk, 'pk) hub_conf \<Rightarrow> tick \<Rightarrow> string \<Rightarrow> hub \<Rightarrow> hub" where
  "settle_completed cf tk tid h = (case get_hold (hb_escrow h) tid of
     None \<Rightarrow> h
   | Some hold \<Rightarrow>
       if eh_status hold = Held \<and> eh_auto_release hold
       then hub_log cf tk ''ESCROW_RELEASED'' ''hub'' (Some (eh_payee hold))
              [(''task_id'', JStr tid), (''amount'', JFloat (eh_amount hold)), (''currency'', JStr (eh_currency hold))]
              (h\<lparr>hb_escrow := snd (release (tc_now tk) tid (hb_escrow h))\<rparr>)
       else h)"

definition settle_failed :: "('sk, 'pk) hub_conf \<Rightarrow> tick \<Rightarrow> string \<Rightarrow> hub \<Rightarrow> hub" where
  "settle_failed cf tk tid h = (case get_hold (hb_escrow h) tid of
     None \<Rightarrow> h
   | Some hold \<Rightarrow>
       if eh_status hold = Held
       then hub_log cf tk ''ESCROW_REFUNDED'' ''hub'' (Some (eh_payer hold))
              [(''task_id'', JStr tid), (''amount'', JFloat (eh_amount hold)), (''currency'', JStr (eh_currency hold))]
              (h\<lparr>hb_escrow := snd (refund (tc_now tk) tid (hb_escrow h))\<rparr>)
       else h)"

definition finish_task ::
  "('sk, 'pk) hub_conf \<Rightarrow> tick \<Rightarrow> string \<Rightarrow> task \<Rightarrow> string \<Rightarrow> string option \<Rightarrow> hub \<Rightarrow> hub" where
  "finish_task cf tk tid t sender orch h =
     (case tk_status t of
        Completed \<Rightarrow>
          settle_completed cf tk tid
            (broadcast_entry tk (broadcast tk ''task_completed''
               [(''task_id'', JStr tid), (''summary'', json_of_opt (tk_summary t))]
               (hub_log cf tk ''TASK_COMPLETED'' sender orch
                  [(''task_id'', JStr tid), (''summary'', json_of_opt (tk_summary t))] h)))
      | Failed \<Rightarrow>
          settle_failed cf tk tid
            (broadcast tk ''task_failed''
               [(''task_id'', JStr tid), (''summary'', json_of_opt (tk_summary t)), (''error_message'', tk_error t)]
               (hub_log cf tk ''TASK_FAILED'' sender orch [(''task_id'', JStr tid), (''error'', tk_error t)] h))
      | _ \<Rightarrow> h)"

text \<open>\<open>tid in task_registry\<close>: a list or an object raises \<open>TypeError\<close>; the keys are texts.\<close>

definition known_task :: "hub \<Rightarrow> json \<Rightarrow> string option option" where
  "known_task h v = (if \<not> hashable v then None
     else Some (case v of JStr s \<Rightarrow> if map_of (hb_tasks h) s \<noteq> None then Some s else None | _ \<Rightarrow> None))"

text \<open>The update goes on to the orchestrator that it names itself.\<close>

definition relay_update ::
  "('sk, 'pk) hub_conf \<Rightarrow> tick \<Rightarrow> string \<Rightarrow> (string \<times> json) list \<Rightarrow> string option \<Rightarrow> hub \<Rightarrow> bool \<times> hub" where
  "relay_update cf tk sender td token h = (case py_get td ''orchestrator'' of
     JStr s \<Rightarrow> (True, snd (deliver_new cf tk MTaskUpdate sender (Some s) (JObj td) None token h))
   | v \<Rightarrow> (\<not> py_true v, h))"

definition handle_task_update :: "('sk, 'pk) hub_conf \<Rightarrow> tick \<Rightarrow> message \<Rightarrow> hub \<Rightarrow> bool \<times> hub" where
  "handle_task_update cf tk msg h = (case obj_of (ms_content msg) of
     None \<Rightarrow> (False, h)
   | Some td \<Rightarrow>
       (case known_task h (py_get td ''task_id'') of
          None \<Rightarrow> (False, h)
        | Some None \<Rightarrow> relay_update cf tk ''hub'' td (ms_token msg) h
        | Some (Some tid) \<Rightarrow>
            (case task_from_dict (tc_fresh tk (length (hb_out h))) (tc_now tk) (JObj td) of
               Inl e \<Rightarrow> (False, h)
             | Inr t \<Rightarrow>
                 relay_update cf tk ''hub'' td (ms_token msg)
                   (finish_task cf tk tid t (ms_sender msg) (opt_of_json (py_get td ''orchestrator'')) (remember_task cf t h)))))"

section \<open>Messages between agents\<close>

definition handle_message :: "('sk, 'pk) hub_conf \<Rightarrow> tick \<Rightarrow> conn \<Rightarrow> message \<Rightarrow> hub \<Rightarrow> bool \<times> hub" where
  "handle_message cf tk c msg h =
     (let target = text_of (ms_to msg);
          sender_org = agent_org cf h (ms_sender msg);
          target_org = (if target = [] then sender_org else agent_org cf h target)
      in if target \<noteq> [] \<and> target_org \<noteq> sender_org \<and> \<not> is_peered h target_org
         then say tk c MError ''hub'' (Some (ms_sender msg)) (JStr (hc_wording cf (OtherTenant target))) (Some (ms_id msg)) None h
         else (True, snd (deliver_or_relay cf tk msg h)))"

end
