(* ===== verification/HubSession.thy ===== *)
theory HubSession
  imports HubTasks
begin

text \<open>
  \<open>hub.py\<close>, third part: what each kind of frame does on a connection (\<open>handle_agent\<close>), what a peered hub may ask for
  (\<open>process_relayed\<close>), and what happens when a connection ends.  Two variables of the handler outlive a frame, the
  name it registered and whether it is an observer: they are the connection's \<open>session\<close>.  Administration frames are not
  in this theory's dispatch.
\<close>

definition session_of :: "hub \<Rightarrow> conn \<Rightarrow> session" where
  "session_of h c = (case map_of (hb_sessions h) c of None \<Rightarrow> \<lparr> se_agent = None, se_observer = False \<rparr> | Some s \<Rightarrow> s)"

definition set_agent :: "conn \<Rightarrow> string option \<Rightarrow> hub \<Rightarrow> hub" where
  "set_agent c n h = h\<lparr>hb_sessions := dict_set c ((session_of h c)\<lparr>se_agent := n\<rparr>) (hb_sessions h)\<rparr>"

definition set_observer :: "conn \<Rightarrow> hub \<Rightarrow> hub" where
  "set_observer c h = h\<lparr>hb_sessions := dict_set c ((session_of h c)\<lparr>se_observer := True\<rparr>) (hb_sessions h),
                        hb_observers := List.insert c (hb_observers h)\<rparr>"

section \<open>Remote kill switch\<close>

definition kill_target :: "message \<Rightarrow> json option" where
  "kill_target msg = (case ms_content msg of
     JObj d \<Rightarrow>
       if py_get d ''action'' = JStr ''kill_agent''
       then Some (case ms_to msg of Some (x # xs) \<Rightarrow> JStr (x # xs) | _ \<Rightarrow> py_get d ''target_agent'')
       else None
   | _ \<Rightarrow> None)"

definition handle_kill :: "('sk, 'pk) hub_conf \<Rightarrow> tick \<Rightarrow> message \<Rightarrow> json \<Rightarrow> hub \<Rightarrow> bool \<times> hub" where
  "handle_kill cf tk msg target h = (case target of
     JStr s \<Rightarrow>
       (case local_name h (Some s) of
          None \<Rightarrow> (True, h)
        | Some l \<Rightarrow>
            (let c = the (map_of (hb_agents h) l);
                 h1 = broadcast_entry tk (hub_log cf tk ''REMOTE_KILL_SWITCH'' (ms_sender msg) (Some l)
                        [(''reason'', JStr ''Control Plane Revocation'')] h)
             in (True, (case say tk c MError ''hub'' (Some l) (JStr (hc_wording cf Disconnected)) None None h1 of
                          (True, h2) \<Rightarrow> emit (Close c) h2
                        | (False, h2) \<Rightarrow> h2))))
   | v \<Rightarrow> (\<not> py_true v, h))"

section \<open>Cluster\<close>

definition join_refusal :: "('sk, 'pk) hub_conf \<Rightarrow> tick \<Rightarrow> (string \<times> json) list \<Rightarrow> hub \<Rightarrow> notice option option" where
  "join_refusal cf tk d h =
     (if py_get d ''org'' \<noteq> JStr (hc_org cf) then Some (Some ClusterOrg)
      else (case decode_token cf (hb_peer_keys h) (str_of_json (py_get d ''token'')) None of
              None \<Rightarrow> Some (Some ClusterToken)
            | Some p \<Rightarrow>
                if py_get p ''auth_method'' \<noteq> JStr ''cluster'' then Some (Some ClusterPurpose)
                else (case expired p (tc_now tk) of
                        None \<Rightarrow> None
                      | Some True \<Rightarrow> Some (Some ClusterExpired)
                      | Some False \<Rightarrow> Some None)))"

text \<open>An identifier of the sibling that is no text reads as absent.\<close>

definition handle_cluster_join :: "('sk, 'pk) hub_conf \<Rightarrow> tick \<Rightarrow> conn \<Rightarrow> message \<Rightarrow> hub \<Rightarrow> bool \<times> hub" where
  "handle_cluster_join cf tk c msg h = (case obj_of (ms_content msg) of
     None \<Rightarrow> (False, h)
   | Some d \<Rightarrow>
       (let sibling = str_or (opt_of_json (py_get d ''hub_id'')) (ms_sender msg) in
        case join_refusal cf tk d h of
          None \<Rightarrow> (False, h)
        | Some (Some n) \<Rightarrow>
            steps [say tk c MError (hc_id cf) (Some sibling) (JStr (hc_wording cf n)) None None,
                   quietly (hub_log cf tk ''CLUSTER_REJECTED'' sibling (Some (hc_id cf)) [(''reason'', JStr (hc_wording cf n))])] h
        | Some None \<Rightarrow>
            steps [say tk c MClusterJoined (hc_id cf) (Some sibling) (JObj [(''hub_id'', JStr (hc_id cf))]) None None,
                   quietly (hub_log cf tk ''CLUSTER_JOINED'' sibling (Some (hc_id cf)) [])] h))"

definition handle_cluster_relay :: "('sk, 'pk) hub_conf \<Rightarrow> tick \<Rightarrow> message \<Rightarrow> hub \<Rightarrow> bool \<times> hub" where
  "handle_cluster_relay cf tk msg h =
     (case message_from_dict (tc_fresh tk (length (hb_out h))) (tc_now tk) (py_or (ms_content msg) (JObj [])) of
        Inl e \<Rightarrow> (False, h)
      | Inr inner \<Rightarrow>
          (case local_name h (ms_to inner) of
             None \<Rightarrow> (True, hub_log cf tk ''CLUSTER_RELAY_UNDELIVERED'' (ms_sender msg) (ms_to inner)
                       [(''message_type'', JStr (message_type_name (ms_type inner)))] h)
           | Some l \<Rightarrow> (True, snd (send_msg tk (the (map_of (hb_agents h) l)) inner h))))"

section \<open>Peering\<close>

definition reject_peer ::
  "('sk, 'pk) hub_conf \<Rightarrow> tick \<Rightarrow> conn \<Rightarrow> string \<Rightarrow> notice \<Rightarrow> string \<Rightarrow> hub \<Rightarrow> bool \<times> hub" where
  "reject_peer cf tk c org n why h =
     steps [say tk c MError (hc_org cf) (Some org) (JStr (hc_wording cf n)) None None,
            quietly (hub_log cf tk ''PEER_REJECTED'' org (Some (hc_org cf)) [(''reason'', JStr why)])] h"

definition handle_peer_connect :: "('sk, 'pk) hub_conf \<Rightarrow> tick \<Rightarrow> conn \<Rightarrow> message \<Rightarrow> hub \<Rightarrow> bool \<times> hub" where
  "handle_peer_connect cf tk c msg h = (case obj_of (ms_content msg) of
     None \<Rightarrow> (False, h)
   | Some d \<Rightarrow>
       (let org = str_or (opt_of_json (py_get d ''org'')) (ms_sender msg) in
        if \<not> py_true (py_get d ''public_key'') then reject_peer cf tk c org PeerWithoutKey ''no_public_key'' h
        else (case py_get d ''public_key'' of
                JStr pem \<Rightarrow>
                  (case load_public_pem (hc_rt cf) pem of
                     Inl e \<Rightarrow> reject_peer cf tk c org PeerKeyUnreadable ''bad_public_key'' h
                   | Inr k \<Rightarrow>
                       steps
                         [quietly (\<lambda>h. h\<lparr>hb_peer_keys := dict_set org pem (hb_peer_keys h), hb_peers := dict_set org c (hb_peers h)\<rparr>),
                          say tk c MPeerConnected (hc_org cf) None (JObj
                            [(''org'', JStr (hc_org cf)), (''public_key'', JStr (hc_pem cf)), (''kid'', JStr (hc_kid cf))]) None None,
                          quietly (hub_log cf tk ''PEER_CONNECTED'' org (Some (hc_org cf))
                            [(''direction'', JStr ''inbound''), (''peer_kid'', JStr (key_fingerprint (hc_rt cf) pem))])] h)
              | _ \<Rightarrow> reject_peer cf tk c org PeerKeyUnreadable ''bad_public_key'' h)))"

section \<open>Requests of a peered hub\<close>

definition relayed_submit ::
  "('sk, 'pk) hub_conf \<Rightarrow> tick \<Rightarrow> conn \<Rightarrow> message \<Rightarrow> (string \<times> json) list \<Rightarrow> hub \<Rightarrow> bool \<times> hub" where
  "relayed_submit cf tk c msg raw h = (case guard_submission cf tk raw (ms_sender msg) h of
     None \<Rightarrow> (False, h)
   | Some (Some v, h1) \<Rightarrow>
       say tk c MError ''hub'' (Some (ms_sender msg)) (JStr (hc_wording cf (GuardrailSays v))) (Some (ms_id msg)) (ms_token msg)
         (broadcast_entry tk (log_violation cf tk raw (ms_sender msg) v [(''federated'', JBool True)] h1))
   | Some (None, h1) \<Rightarrow>
       (case task_from_dict (tc_fresh tk (length (hb_out h1))) (tc_now tk) (JObj raw) of
          Inl e \<Rightarrow> (False, h1)
        | Inr t \<Rightarrow>
            (True, snd (deliver_new cf tk MTaskAssign ''hub'' (Some (tk_assignee t)) (JObj raw) (Some (ms_id msg)) (ms_token msg)
               (broadcast_entry tk (hub_log cf tk ''TASK_SUBMITTED'' (ms_sender msg) (Some (tk_assignee t))
                  [(''task_id'', JStr (tk_task_id t)), (''title'', JStr (tk_title t)), (''federated'', JBool True)]
                  (remember_task cf t h1)))))))"

definition relayed_update :: "('sk, 'pk) hub_conf \<Rightarrow> tick \<Rightarrow> message \<Rightarrow> (string \<times> json) list \<Rightarrow> hub \<Rightarrow> bool \<times> hub" where
  "relayed_update cf tk msg td h = (case known_task h (py_get td ''task_id'') of
     None \<Rightarrow> (False, h)
   | Some known \<Rightarrow>
       (case (case known of None \<Rightarrow> Some h
              | Some tid \<Rightarrow> (case task_from_dict (tc_fresh tk (length (hb_out h))) (tc_now tk) (JObj td) of
                               Inl e \<Rightarrow> None | Inr t \<Rightarrow> Some (remember_task cf t h))) of
          None \<Rightarrow> (False, h)
        | Some h1 \<Rightarrow>
            (let h2 = (if py_get td ''status'' = JStr (task_status_value Completed)
                       then broadcast_entry tk (hub_log cf tk ''TASK_COMPLETED'' (ms_sender msg) (opt_of_json (py_get td ''orchestrator''))
                              [(''task_id'', py_get td ''task_id''), (''federated'', JBool True), (''summary'', py_get td ''summary'')] h1)
                       else h1)
             in relay_update cf tk (ms_sender msg) td (ms_token msg) h2)))"

definition process_relayed :: "('sk, 'pk) hub_conf \<Rightarrow> tick \<Rightarrow> conn \<Rightarrow> message \<Rightarrow> string \<Rightarrow> hub \<Rightarrow> bool \<times> hub" where
  "process_relayed cf tk c msg origin h =
     (case verify_federated_token cf (hb_peer_keys h) (tc_now tk) (text_of (ms_token msg)) origin (ms_sender msg) of
        None \<Rightarrow> (False, h)
      | Some False \<Rightarrow>
          say tk c MError ''hub'' (Some (ms_sender msg)) (JStr (hc_wording cf (FederationDenied origin))) (Some (ms_id msg)) None
            (hub_log cf tk ''FEDERATION_TOKEN_REJECTED'' (ms_sender msg) (Some (hc_org cf))
               [(''origin_org'', JStr origin), (''message_type'', JStr (message_type_name (ms_type msg)))] h)
      | Some True \<Rightarrow>
          (case ms_type msg of
             MWhoIs \<Rightarrow>
               if \<not> hashable (ms_content msg) then (False, h)
               else (case Option.bind (opt_of_json (ms_content msg)) (map_of (hb_identities h)) of
                       Some i \<Rightarrow>
                         if id_org_id i = hc_org cf
                         then say tk c MIdentity ''hub'' (Some (ms_sender msg)) (identity_to_dict i) (Some (ms_id msg)) (ms_token msg) h
                         else (True, h)
                     | None \<Rightarrow> (True, h))
           | MDiscover \<Rightarrow>
               (case obj_of (ms_content msg) of
                  None \<Rightarrow> (False, h)
                | Some q \<Rightarrow>
                    (case discover_agents q (hc_org cf) h of
                       None \<Rightarrow> (False, h)
                     | Some rows \<Rightarrow>
                         say tk c MDiscoverResult ''hub'' (Some (ms_sender msg))
                           (JObj [(''query'', JObj q), (''count'', JInt (int (length rows))), (''agents'', JList rows)])
                           (Some (ms_id msg)) (ms_token msg) h))
           | MTaskSubmit \<Rightarrow> (case obj_of (ms_content msg) of None \<Rightarrow> (False, h) | Some raw \<Rightarrow> relayed_submit cf tk c msg raw h)
           | MTaskUpdate \<Rightarrow> (case obj_of (ms_content msg) of None \<Rightarrow> (False, h) | Some td \<Rightarrow> relayed_update cf tk msg td h)
           | ty \<Rightarrow>
               if ty \<in> {MMessage, MRequest, MResponse, MTaskAssign} then (True, snd (deliver_or_relay cf tk msg h)) else (True, h)))"

definition handle_federation_relay :: "('sk, 'pk) hub_conf \<Rightarrow> tick \<Rightarrow> conn \<Rightarrow> message \<Rightarrow> hub \<Rightarrow> bool \<times> hub" where
  "handle_federation_relay cf tk c msg h =
     (case message_from_dict (tc_fresh tk (length (hb_out h))) (tc_now tk) (ms_content msg) of
        Inl e \<Rightarrow> (True, h)
      | Inr inner \<Rightarrow> process_relayed cf tk c inner (ms_sender msg) h)"

text \<open>The answer of a peered hub, handed to the agent it names.\<close>

definition handle_answer :: "tick \<Rightarrow> message \<Rightarrow> hub \<Rightarrow> bool \<times> hub" where
  "handle_answer tk msg h = (case local_name h (ms_to msg) of
     None \<Rightarrow> (True, h)
   | Some l \<Rightarrow> (True, snd (send_msg tk (the (map_of (hb_agents h) l)) msg h)))"

section \<open>Registration\<close>

definition is_local_connection :: "tick \<Rightarrow> conn \<Rightarrow> bool" where
  "is_local_connection tk c = (case tc_host tk c of
     None \<Rightarrow> False
   | Some host \<Rightarrow> host \<in> set [''127.0.0.1'', ''::1'', ''localhost''] \<or> str_prefix ''127.'' host)"

definition registration_refused :: "('sk, 'pk) hub_conf \<Rightarrow> tick \<Rightarrow> conn \<Rightarrow> bool" where
  "registration_refused cf tk c \<longleftrightarrow>
     hc_require_api_key cf \<or> \<not> is_local_connection tk c \<and> \<not> hc_allow_self_declared cf"

text \<open>\<open>x in v\<close> for a text \<open>x\<close>; \<open>None\<close> is a \<open>TypeError\<close>.\<close>

definition text_in :: "string \<Rightarrow> json \<Rightarrow> bool option" where
  "text_in x v = (case v of
     JList vs \<Rightarrow> Some (JStr x \<in> set vs) | JStr s \<Rightarrow> Some (str_in x s) | JObj d \<Rightarrow> Some (map_of d x \<noteq> None) | _ \<Rightarrow> None)"

definition wants_telemetry :: "(string \<times> json) list \<Rightarrow> string \<Rightarrow> bool option" where
  "wants_telemetry d name =
     map_option (\<lambda>b. b \<or> list_ex (\<lambda>p. str_prefix p name) observer_prefixes)
       (text_in ''observer'' (case map_of d ''roles'' of None \<Rightarrow> JList [JStr ''standard''] | Some v \<Rightarrow> v))"

definition telemetry_snapshot :: "tick \<Rightarrow> hub \<Rightarrow> json" where
  "telemetry_snapshot tk h = telemetry ''snapshot''
     [(''agents'', JList (snapshot_agents h)), (''audit_chain'', JList (List.map audit_entry_to_dict (hb_audit h))),
      (''server_time'', JFloat (tc_now tk))]"

definition tell_snapshot :: "tick \<Rightarrow> conn \<Rightarrow> hub \<Rightarrow> bool \<times> hub" where
  "tell_snapshot tk c h = tell tk c (telemetry_snapshot tk h) h"

definition register_observer :: "('sk, 'pk) hub_conf \<Rightarrow> tick \<Rightarrow> conn \<Rightarrow> string \<Rightarrow> hub \<Rightarrow> bool \<times> hub" where
  "register_observer cf tk c name h =
     (if registration_refused cf tk c then
        steps [say tk c MError ''hub'' (Some name) (JStr (hc_wording cf (SelfDeclaredRefused (is_local_connection tk c)))) None None,
               quietly (hub_log cf tk ''OBSERVER_REJECTED'' name None [(''reason'', JStr ''no_api_key'')])] h
      else
        steps [quietly (set_observer c), tell_snapshot tk c,
               say tk c MRegistered ''hub'' (Some name)
                 (JObj [(''status'', JStr ''ready''), (''token'', JStr ''observer'')]) None None] h)"

text \<open>The organisation, roles and permissions an agent gets, and on what ground: from its key, or from itself.\<close>

datatype credentials = Granted json json json string | UnknownKey | NotAllowed | CredentialsRaise

definition credentials_of ::
  "('sk, 'pk) hub_conf \<Rightarrow> tick \<Rightarrow> conn \<Rightarrow> (string \<times> json) list \<Rightarrow> hub \<Rightarrow> credentials" where
  "credentials_of cf tk c d h =
     (if py_true (py_get d ''api_key'') then
        (case py_get d ''api_key'' of
           JStr k \<Rightarrow>
             (case lookup_key (hc_rt cf) k (hb_api_keys h) of
                None \<Rightarrow> UnknownKey
              | Some i \<Rightarrow> Granted (ki_org i) (JList (ki_roles i)) (JList (ki_permissions i)) ''api_key'')
         | _ \<Rightarrow> CredentialsRaise)
      else if registration_refused cf tk c then NotAllowed
      else Granted (case map_of d ''org_id'' of None \<Rightarrow> JStr (hc_org cf) | Some v \<Rightarrow> v)
             (case map_of d ''roles'' of None \<Rightarrow> JList [JStr ''standard''] | Some v \<Rightarrow> v)
             (case map_of d ''permissions'' of None \<Rightarrow> JList [] | Some v \<Rightarrow> v) ''self_declared'')"

definition identity_of_registration ::
  "('sk, 'pk) hub_conf \<Rightarrow> tick \<Rightarrow> string \<Rightarrow> (string \<times> json) list \<Rightarrow> json \<Rightarrow> json \<Rightarrow> json \<Rightarrow> hub \<Rightarrow> identity option" where
  "identity_of_registration cf tk name d org roles perms h =
     identity_from_dict (hc_rt cf) (tc_fresh tk (length (hb_out h))) (tc_now tk) (JObj
       [(''name'', JStr name), (''org_id'', org), (''agent_id'', py_get d ''agent_id''),
        (''capabilities'', case map_of d ''capabilities'' of None \<Rightarrow> JList [] | Some v \<Rightarrow> v), (''roles'', roles),
        (''permissions'', perms), (''created_at'', py_get d ''created_at''),
        (''metadata'', case map_of d ''metadata'' of None \<Rightarrow> JObj [] | Some v \<Rightarrow> v),
        (''public_key'', py_get d ''public_key''), (''schema'', py_get d ''schema'')])"

definition admit_agent :: "('sk, 'pk) hub_conf \<Rightarrow> tick \<Rightarrow> conn \<Rightarrow> string \<Rightarrow> identity \<Rightarrow> hub \<Rightarrow> hub" where
  "admit_agent cf tk c name i h =
     (let st = save_identity (hc_rt cf) i (hb_store h) in
      h\<lparr>hb_agents := dict_set name c (hb_agents h), hb_identities := dict_set name i (hb_identities h),
        hb_meta := dict_set name \<lparr> mt_connected_at = tc_now tk, mt_last_seen = tc_now tk, mt_count = 0, mt_status = ''healthy'' \<rparr>
                     (hb_meta h),
        hb_store := (if hc_cluster_url cf = [] then st
                     else record_presence name (hc_id cf) (hc_cluster_url cf) (id_org_id i) (tc_now tk) st)\<rparr>)"

definition announce_agent :: "('sk, 'pk) hub_conf \<Rightarrow> tick \<Rightarrow> conn \<Rightarrow> string \<Rightarrow> identity \<Rightarrow> string \<Rightarrow> hub \<Rightarrow> hub" where
  "announce_agent cf tk c name i auth h =
     (let cn = certificate_subject (tc_cert tk c) in
      broadcast_entry tk (broadcast tk ''agent_connected''
        [(''agent'', JObj ((case identity_to_dict i of JObj d \<Rightarrow> d | _ \<Rightarrow> []) @ [(''status'', JStr ''healthy''), (''online'', JBool True)]))]
        (hub_log cf tk ''AGENT_REGISTERED'' name (Some ''hub'')
          ([(''roles'', JList (List.map JStr (id_roles i))), (''org_id'', JStr (id_org_id i)), (''auth_method'', JStr auth)]
            @ (case cn of None \<Rightarrow> [] | Some s \<Rightarrow> if s = [] then [] else [(''client_cert_cn'', JStr s)])) h)))"

definition send_registered :: "('sk, 'pk) hub_conf \<Rightarrow> tick \<Rightarrow> conn \<Rightarrow> string \<Rightarrow> identity \<Rightarrow> string \<Rightarrow> hub \<Rightarrow> bool \<times> hub" where
  "send_registered cf tk c name i token h =
     say tk c MRegistered ''hub'' (Some name) (JObj
       [(''status'', JStr ''ready''), (''agent_id'', JStr (id_agent_id i)), (''qualified_name'', JStr name),
        (''roles'', JList (List.map JStr (id_roles i))), (''permissions'', JList (List.map JStr (id_permissions i))),
        (''org_id'', JStr (id_org_id i)), (''token'', JStr token),
        (''online_agents'', JList (List.map (JStr \<circ> fst) (hb_agents h))),
        (''cluster_hubs'', JList (List.map JStr (sibling_hub_urls cf (tc_now tk) h)))]) None None h"

definition resume_task :: "('sk, 'pk) hub_conf \<Rightarrow> tick \<Rightarrow> conn \<Rightarrow> string \<Rightarrow> task \<Rightarrow> hub \<Rightarrow> bool \<times> hub" where
  "resume_task cf tk c name t h =
     steps [say tk c MTaskAssign ''hub'' (Some name) (task_to_dict t) None None,
            quietly (hub_log cf tk ''TASK_RESUMED'' ''hub'' (Some name) [(''task_id'', JStr (tk_task_id t))])] h"

definition waiting_tasks :: "hub \<Rightarrow> string \<Rightarrow> task list" where
  "waiting_tasks h name = List.filter (\<lambda>t. tk_assignee t = name \<and> tk_status t = Pending) (List.map snd (hb_tasks h))"

definition complete_registration ::
  "('sk, 'pk) hub_conf \<Rightarrow> tick \<Rightarrow> conn \<Rightarrow> string \<Rightarrow> identity \<Rightarrow> string \<Rightarrow> bool \<Rightarrow> hub \<Rightarrow> bool \<times> hub" where
  "complete_registration cf tk c name i auth watch h =
     (let token = generate_token cf (tc_now tk) name (id_agent_id i) (id_roles i) (id_org_id i) auth in
      steps
        ([quietly (set_agent c (Some name)), quietly (admit_agent cf tk c name i), quietly (announce_agent cf tk c name i auth),
          send_registered cf tk c name i token]
         @ (if watch then [quietly (set_observer c), tell_snapshot tk c] else [])
         @ List.map (resume_task cf tk c name) (waiting_tasks h name)) h)"

text \<open>The roles an agent was granted, as a set, decide whether it gets the telemetry it asked for; they are only looked
  at then.\<close>

definition may_watch :: "bool \<Rightarrow> json \<Rightarrow> bool option" where
  "may_watch wants roles =
     (if \<not> wants then Some False
      else (case roles of
              JList vs \<Rightarrow> if list_all hashable vs then Some (JStr ''admin'' \<in> set vs \<or> JStr ''observer'' \<in> set vs) else None
            | JStr s \<Rightarrow> Some False
            | JObj d \<Rightarrow> Some (map_of d ''admin'' \<noteq> None \<or> map_of d ''observer'' \<noteq> None)
            | _ \<Rightarrow> None))"

definition register_agent :: "('sk, 'pk) hub_conf \<Rightarrow> tick \<Rightarrow> conn \<Rightarrow> string \<Rightarrow> (string \<times> json) list \<Rightarrow> bool \<Rightarrow> hub \<Rightarrow> bool \<times> hub" where
  "register_agent cf tk c name d wants h = (case credentials_of cf tk c d h of
     UnknownKey \<Rightarrow> say tk c MError ''hub'' (Some name) (JStr (hc_wording cf BadApiKey)) None None h
   | NotAllowed \<Rightarrow>
       steps [say tk c MError ''hub'' (Some name) (JStr (hc_wording cf (SelfDeclaredRefused (is_local_connection tk c)))) None None,
              quietly (hub_log cf tk ''SELF_DECLARED_REFUSED'' name None
                [(''local'', JBool (is_local_connection tk c)), (''require_api_key'', JBool (hc_require_api_key cf))])] h
   | CredentialsRaise \<Rightarrow> (False, h)
   | Granted org roles perms auth \<Rightarrow>
       (case (may_watch wants roles, identity_of_registration cf tk name d org roles perms h) of
          (Some watch, Some i) \<Rightarrow>
            (let qname = registered_name i;
                 (tripped, e) = is_tripped (tc_now tk) qname (hb_engine h);
                 h1 = h\<lparr>hb_engine := e\<rparr>
             in if tripped
                then (case say tk c MError ''hub'' (Some qname) (JStr (hc_wording cf Isolated)) None None (set_agent c (Some qname) h1) of
                        (True, h2) \<Rightarrow> (True, set_agent c None (emit (Close c) h2))
                      | (False, h2) \<Rightarrow> (False, h2))
                else complete_registration cf tk c qname i auth watch h1)
        | _ \<Rightarrow> (False, h)))"

definition handle_register :: "('sk, 'pk) hub_conf \<Rightarrow> tick \<Rightarrow> conn \<Rightarrow> message \<Rightarrow> hub \<Rightarrow> bool \<times> hub" where
  "handle_register cf tk c msg h = (case obj_of (ms_content msg) of
     None \<Rightarrow> (False, h)
   | Some d \<Rightarrow>
       (case wants_telemetry d (ms_sender msg) of
          None \<Rightarrow> (False, h)
        | Some wants \<Rightarrow>
            if wants \<and> \<not> py_true (py_get d ''api_key'') then register_observer cf tk c (ms_sender msg) h
            else if hc_max_agents cf \<noteq> 0 \<and> \<not> wants \<and> int (length (hb_agents h)) \<ge> hc_max_agents cf
            then say tk c MError ''hub'' (Some (ms_sender msg))
                   (JStr (hc_wording cf (AgentLimit (hc_max_agents cf) (int (length (hb_agents h)))))) None None h
            else register_agent cf tk c (ms_sender msg) d wants h))"

section \<open>Questions of an agent\<close>

definition handle_who_is :: "('sk, 'pk) hub_conf \<Rightarrow> tick \<Rightarrow> conn \<Rightarrow> message \<Rightarrow> hub \<Rightarrow> bool \<times> hub" where
  "handle_who_is cf tk c msg h =
     (if \<not> hashable (ms_content msg) then (False, h)
      else (let sender_org = agent_org cf h (ms_sender msg) in
        case Option.bind (opt_of_json (ms_content msg)) (map_of (hb_identities h)) of
          Some i \<Rightarrow>
            if id_org_id i = sender_org
            then say tk c MIdentity ''hub'' (Some (ms_sender msg)) (identity_to_dict i) (Some (ms_id msg)) (ms_token msg) h
            else (True, h)
        | None \<Rightarrow>
            if py_true (ms_content msg) \<and> \<not> py_is_str (ms_content msg) then (False, h)
            else (let org = agent_org cf h (str_of_json (ms_content msg)) in
                  case (if org \<noteq> sender_org then map_of (hb_peers h) org else None) of
                    None \<Rightarrow> (True, h)
                  | Some pc \<Rightarrow> say tk pc MFederationRelay (hc_org cf) (Some org) (message_to_dict msg) None None h)))"

definition handle_discover :: "('sk, 'pk) hub_conf \<Rightarrow> tick \<Rightarrow> conn \<Rightarrow> message \<Rightarrow> hub \<Rightarrow> bool \<times> hub" where
  "handle_discover cf tk c msg h = (case obj_of (ms_content msg) of
     None \<Rightarrow> (False, h)
   | Some q \<Rightarrow>
       (case discover_agents q (agent_org cf h (ms_sender msg)) h of
          None \<Rightarrow> (False, h)
        | Some rows \<Rightarrow>
            say tk c MDiscoverResult ''hub'' (Some (ms_sender msg))
              (JObj [(''query'', JObj q), (''count'', JInt (int (length rows))), (''agents'', JList rows)])
              (Some (ms_id msg)) (ms_token msg) h))"

section \<open>Dispatch\<close>

definition count_message :: "tick \<Rightarrow> conn \<Rightarrow> hub \<Rightarrow> hub" where
  "count_message tk c h = (case se_agent (session_of h c) of
     None \<Rightarrow> h
   | Some n \<Rightarrow>
       if n = [] then h
       else (case map_of (hb_meta h) n of
               None \<Rightarrow> h
             | Some m \<Rightarrow> h\<lparr>hb_meta := dict_set n (m\<lparr>mt_last_seen := tc_now tk, mt_count := mt_count m + 1\<rparr>) (hb_meta h)\<rparr>))"

definition authenticated_types :: "message_type list" where
  "authenticated_types = [MMessage, MRequest, MResponse, MTaskSubmit, MTaskUpdate, MWhoIs, MDiscover]"

definition handle_authenticated :: "('sk, 'pk) hub_conf \<Rightarrow> tick \<Rightarrow> conn \<Rightarrow> message \<Rightarrow> hub \<Rightarrow> bool \<times> hub" where
  "handle_authenticated cf tk c msg h =
     (case verify_token cf (hb_peer_keys h) (tc_now tk) (text_of (ms_token msg)) (ms_sender msg) None of
        None \<Rightarrow> (False, h)
      | Some False \<Rightarrow> say tk c MError ''hub'' (Some (ms_sender msg)) (JStr (hc_wording cf BadToken)) (Some (ms_id msg)) None h
      | Some True \<Rightarrow>
          (let h1 = count_message tk c h in
           case ms_type msg of
             MWhoIs \<Rightarrow> handle_who_is cf tk c msg h1
           | MDiscover \<Rightarrow> handle_discover cf tk c msg h1
           | MTaskSubmit \<Rightarrow> handle_task_submit cf tk c msg h1
           | MTaskUpdate \<Rightarrow> handle_task_update cf tk msg h1
           | _ \<Rightarrow> handle_message cf tk c msg h1))"

definition handle_frame :: "('sk, 'pk) hub_conf \<Rightarrow> tick \<Rightarrow> conn \<Rightarrow> message \<Rightarrow> hub \<Rightarrow> bool \<times> hub" where
  "handle_frame cf tk c msg h = (case kill_target msg of
     Some v \<Rightarrow> handle_kill cf tk msg v h
   | None \<Rightarrow>
       (case ms_type msg of
          MClusterJoin \<Rightarrow> handle_cluster_join cf tk c msg h
        | MClusterRelay \<Rightarrow> handle_cluster_relay cf tk msg h
        | MPeerConnect \<Rightarrow> handle_peer_connect cf tk c msg h
        | MFederationRelay \<Rightarrow> handle_federation_relay cf tk c msg h
        | MIdentity \<Rightarrow> handle_answer tk msg h
        | MDiscoverResult \<Rightarrow> handle_answer tk msg h
        | MRegister \<Rightarrow> handle_register cf tk c msg h
        | ty \<Rightarrow> if ty \<in> set authenticated_types then handle_authenticated cf tk c msg h else (True, h)))"

section \<open>The end of a connection\<close>

definition drop_peers :: "conn \<Rightarrow> hub \<Rightarrow> hub" where
  "drop_peers c h =
     (let gone = List.map fst (List.filter (\<lambda>(org, pc). pc = c) (hb_peers h))
      in h\<lparr>hb_peers := List.filter (\<lambda>(org, pc). pc \<noteq> c) (hb_peers h),
           hb_peer_keys := List.filter (\<lambda>(org, k). org \<notin> set gone) (hb_peer_keys h)\<rparr>)"

definition drop_agent :: "('sk, 'pk) hub_conf \<Rightarrow> tick \<Rightarrow> string \<Rightarrow> hub \<Rightarrow> hub" where
  "drop_agent cf tk name h =
     (let h1 = h\<lparr>hb_agents := dict_del name (hb_agents h),
                 hb_store := (if hc_cluster_url cf = [] then hb_store h else clear_presence name (hc_id cf) (hb_store h)),
                 hb_meta := (case map_of (hb_meta h) name of None \<Rightarrow> hb_meta h
                             | Some m \<Rightarrow> dict_set name (m\<lparr>mt_status := ''unhealthy''\<rparr>) (hb_meta h))\<rparr>
      in broadcast_entry tk (broadcast tk ''agent_disconnected''
           [(''agent_name'', JStr name), (''status'', JStr ''unhealthy'')]
           (hub_log cf tk ''AGENT_DISCONNECTED'' name (Some ''hub'') [(''status'', JStr ''unhealthy'')] h1)))"

definition close_session :: "('sk, 'pk) hub_conf \<Rightarrow> tick \<Rightarrow> conn \<Rightarrow> hub \<Rightarrow> hub" where
  "close_session cf tk c h =
     (let s = session_of h c;
          h1 = (if se_observer s then h\<lparr>hb_observers := List.filter (\<lambda>x. x \<noteq> c) (hb_observers h)\<rparr> else h);
          h2 = drop_peers c h1;
          h3 = (case se_agent s of
                  None \<Rightarrow> h2
                | Some n \<Rightarrow> if n \<noteq> [] \<and> map_of (hb_agents h2) n \<noteq> None then drop_agent cf tk n h2 else h2)
      in h3\<lparr>hb_sessions := dict_del c (hb_sessions h3)\<rparr>)"

text \<open>A frame as it arrives: one that is no message is answered with an error; an exception ends the connection.\<close>

definition receive :: "('sk, 'pk) hub_conf \<Rightarrow> tick \<Rightarrow> conn \<Rightarrow> string \<Rightarrow> hub \<Rightarrow> hub" where
  "receive cf tk c raw h =
     (case (case message_from_json (tc_fresh tk (length (hb_out h))) (tc_now tk) raw of
              Inl e \<Rightarrow> say tk c MError ''hub'' None (JStr (hc_wording cf (BadFrame e))) None None h
            | Inr msg \<Rightarrow> handle_frame cf tk c msg h) of
        (True, h1) \<Rightarrow> h1
      | (False, h1) \<Rightarrow> close_session cf tk c h1)"

section \<open>Links to peers, cluster, and runs\<close>

text \<open>One attempt of \<open>connect_peer\<close>: dial, offer the key, and keep the link if the answer carries a readable key.\<close>

definition connect_peer :: "('sk, 'pk) hub_conf \<Rightarrow> tick \<Rightarrow> string \<Rightarrow> string \<Rightarrow> hub \<Rightarrow> hub" where
  "connect_peer cf tk org url h = (case tc_dial tk url of
     None \<Rightarrow> h
   | Some (c, reply) \<Rightarrow>
       (case say tk c MPeerConnect (hc_org cf) None (JObj
               [(''org'', JStr (hc_org cf)), (''public_key'', JStr (hc_pem cf)), (''kid'', JStr (hc_kid cf))]) None None h of
          (False, h1) \<Rightarrow> h1
        | (True, h1) \<Rightarrow>
            (case reply of
               None \<Rightarrow> h1
             | Some raw \<Rightarrow>
                 (case message_from_json (tc_fresh tk (length (hb_out h1))) (tc_now tk) raw of
                    Inl e \<Rightarrow> h1
                  | Inr m \<Rightarrow>
                      if ms_type m \<noteq> MPeerConnected then h1
                      else (case Option.bind (obj_of (ms_content m)) (\<lambda>d. opt_of_json (py_get d ''public_key'')) of
                              None \<Rightarrow> h1
                            | Some pem \<Rightarrow>
                                if pem = [] then h1
                                else (case load_public_pem (hc_rt cf) pem of
                                        Inl e \<Rightarrow> h1
                                      | Inr k \<Rightarrow> h1\<lparr>hb_peer_keys := dict_set org pem (hb_peer_keys h1),
                                                     hb_peers := dict_set org c (hb_peers h1)\<rparr>))))))"

definition peer_lost :: "('sk, 'pk) hub_conf \<Rightarrow> tick \<Rightarrow> string \<Rightarrow> conn \<Rightarrow> hub \<Rightarrow> hub" where
  "peer_lost cf tk org c h =
     (let h1 = close_session cf tk c h
      in h1\<lparr>hb_peers := dict_del org (hb_peers h1), hb_peer_keys := dict_del org (hb_peer_keys h1)\<rparr>)"

text \<open>The heartbeat of a hub of a cluster, and what its siblings write into the shared tables.\<close>

definition heartbeat :: "('sk, 'pk) hub_conf \<Rightarrow> tick \<Rightarrow> hub \<Rightarrow> hub" where
  "heartbeat cf tk h = (if hc_cluster_url cf = [] then h
     else h\<lparr>hb_store := record_hub (hc_id cf) (hc_cluster_url cf) (hc_org cf) (tc_now tk)
                          (touch_presence (hc_id cf) (tc_now tk) (hb_store h))\<rparr>)"

definition sibling_writes :: "presence_op \<Rightarrow> hub \<Rightarrow> hub" where
  "sibling_writes op h = h\<lparr>hb_store := presence_exec op (hb_store h)\<rparr>"

datatype hub_event =
    Frame_in conn string
  | Ends conn
  | Peer_up string string
  | Peer_down string conn
  | Heartbeat
  | Sibling presence_op

fun hub_step :: "('sk, 'pk) hub_conf \<Rightarrow> tick \<times> hub_event \<Rightarrow> hub \<Rightarrow> hub" where
  "hub_step cf (tk, Frame_in c raw) h = receive cf tk c raw h"
| "hub_step cf (tk, Ends c) h = close_session cf tk c h"
| "hub_step cf (tk, Peer_up org url) h = connect_peer cf tk org url h"
| "hub_step cf (tk, Peer_down org c) h = peer_lost cf tk org c h"
| "hub_step cf (tk, Heartbeat) h = heartbeat cf tk h"
| "hub_step cf (tk, Sibling op) h = sibling_writes op h"

definition hub_run :: "('sk, 'pk) hub_conf \<Rightarrow> (tick \<times> hub_event) list \<Rightarrow> hub \<Rightarrow> hub" where
  "hub_run cf events h = foldl (\<lambda>h e. hub_step cf e h) h events"

section \<open>Start\<close>

text \<open>What \<open>main\<close> reads from the store and the key file before it serves; \<open>None\<close> is an exception that stops it.  With
  an empty journal the log begins with its first entry, which it stores as well.\<close>

definition journal_of_store :: "('sk, 'pk) hub_conf \<Rightarrow> rat \<Rightarrow> store \<Rightarrow> (audit_entry list \<times> store) option" where
  "journal_of_store cf now st =
     (case load_audit st of
        None \<Rightarrow> None
      | Some [] \<Rightarrow> Some (audit_new (hc_rt cf) now, append_audit (hc_rt cf) (genesis_block (hc_rt cf) now) st)
      | Some rows \<Rightarrow> map_option (\<lambda>chain. (chain, st)) (audit_open (hc_rt cf) now rows))"

definition hub_start ::
  "('sk, 'pk) hub_conf \<Rightarrow> (string \<Rightarrow> string) \<Rightarrow> rat \<Rightarrow> key_store \<Rightarrow> bp_limits \<Rightarrow> store \<Rightarrow> hub option" where
  "hub_start cf fresh now keys limits st =
     (case (load_identities (hc_rt cf) fresh now st, load_tasks fresh now st, journal_of_store cf now st) of
        (Some ids, Some ts, Some (chain, st1)) \<Rightarrow>
          (let st2 = (if hc_cluster_url cf = [] then st1
                      else record_hub (hc_id cf) (hc_cluster_url cf) (hc_org cf) now st1)
           in Some \<lparr> hb_agents = [], hb_identities = ids, hb_tasks = ts, hb_peers = [], hb_peer_keys = [], hb_links = [],
                hb_observers = [], hb_meta = [], hb_audit = chain, hb_engine = engine_new guardrail_default,
                hb_escrow = escrow_new, hb_gate = bp_new (Some limits) now, hb_pending = [], hb_api_keys = keys,
                hb_store = st2, hb_sessions = [], hb_out = [] \<rparr>)
      | _ \<Rightarrow> None)"

text \<open>The limits: the environment, and the command line over it.\<close>

record limit_options =
  lo_per_sec :: "int option"
  lo_in_flight :: "int option"
  lo_queue_depth :: "int option"
  lo_disabled :: bool

definition limits_of_options :: "(string \<Rightarrow> string option) \<Rightarrow> limit_options \<Rightarrow> bp_limits" where
  "limits_of_options env o' =
     (let l = limits_from_env env in
      \<lparr> bl_tasks_per_sec = (case lo_per_sec o' of None \<Rightarrow> bl_tasks_per_sec l | Some n \<Rightarrow> n),
        bl_in_flight = (case lo_in_flight o' of None \<Rightarrow> bl_in_flight l | Some n \<Rightarrow> n),
        bl_queue_depth = (case lo_queue_depth o' of None \<Rightarrow> bl_queue_depth l | Some n \<Rightarrow> n),
        bl_enabled = (if lo_disabled o' then False else bl_enabled l) \<rparr>)"

text \<open>The peers of the command line that are dialled: those whose form and link are accepted.\<close>

definition dialled_peers :: "(string \<Rightarrow> bool option) \<Rightarrow> bool \<Rightarrow> string list \<Rightarrow> (string \<times> string) list" where
  "dialled_peers ip6 allow_insecure specs = concat (List.map (\<lambda>spec. case parse_peer_spec spec of
     Inl e \<Rightarrow> []
   | Inr (org, url) \<Rightarrow> (case assert_peer_link_is_secure ip6 url allow_insecure of Inl e \<Rightarrow> [] | Inr _ \<Rightarrow> [(org, url)])) specs)"

end
