(* ===== verification/HubInvariants.thy ===== *)
theory HubInvariants
  imports HubSession
begin

text \<open>
  What every event keeps.  The handlers of a hub write through few operations.  The locale \<open>hub_talks\<close> states for a
  relation between two states of a hub that routing, logging and sending respect it, and shows that then everything does
  but submissions and updates of tasks; \<open>hub_writes\<close> extends it by the operations on tasks and funds, and reaches every
  event.  They are interpreted for the journal and its copy in the store, for the funds, for the task registry and its copy, and
  for what the hub sends (\<open>HubLedgers\<close>), and for the tasks and the funds
  a hub holds (\<open>HubSafety\<close>).
\<close>

text \<open>The fields of a hub that only route: names, links, sessions, counters.\<close>

definition same_ledgers :: "hub \<Rightarrow> hub \<Rightarrow> bool" where
  "same_ledgers h h' \<longleftrightarrow> hb_audit h' = hb_audit h \<and> hb_escrow h' = hb_escrow h \<and> hb_tasks h' = hb_tasks h \<and>
     hb_out h' = hb_out h \<and> hb_api_keys h' = hb_api_keys h \<and>
     st_audit (hb_store h') = st_audit (hb_store h) \<and> st_tasks (hb_store h') = st_tasks (hb_store h)"

locale hub_talks =
  fixes cf :: "('sk, 'pk) hub_conf" and R :: "hub \<Rightarrow> hub \<Rightarrow> bool"
  assumes routed: "\<And>h h'. same_ledgers h h' \<Longrightarrow> R h h'"
    and chain: "\<And>h g k. R h g \<Longrightarrow> R g k \<Longrightarrow> R h k"
    and logged: "\<And>tk ev s t md h. R h (hub_log cf tk ev s t md h)"
    and emitted: "\<And>es h. R h (h\<lparr>hb_out := hb_out h @ es\<rparr>)"
begin

lemma same: "R h h"
  by (rule routed) (simp add: same_ledgers_def)

lemma route: "R h0 h \<Longrightarrow> same_ledgers h h' \<Longrightarrow> R h0 h'"
  by (rule chain, assumption, rule routed)

lemma w_log: "R h0 h \<Longrightarrow> R h0 (hub_log cf tk ev s t md h)"
  by (rule chain [OF _ logged])

lemma w_emit: "R h0 h \<Longrightarrow> R h0 (emit e h)"
  unfolding emit_def by (rule chain [OF _ emitted])

lemma w_broadcast: "R h0 h \<Longrightarrow> R h0 (broadcast tk ev d h)"
proof -
  assume h: "R h0 h"
  let ?live = "List.filter (tc_alive tk) (hb_observers h)"
  have "R h (h\<lparr>hb_out := hb_out h @ List.map (\<lambda>c. Tell c (telemetry ev d)) ?live\<rparr>)" by (rule emitted)
  then have "R h (broadcast tk ev d h)"
    unfolding broadcast_def Let_def by (rule route) (simp add: same_ledgers_def)
  with h show ?thesis by (rule chain)
qed

lemma w_entry: "R h0 h \<Longrightarrow> R h0 (broadcast_entry tk h)"
  unfolding broadcast_entry_def by (rule w_broadcast)

lemma w_send: "R h0 h \<Longrightarrow> R h0 (snd (send_msg tk c m h))"
  by (simp add: send_msg_def w_emit)

lemma w_say: "R h0 h \<Longrightarrow> R h0 (snd (say tk c ty s t v r tok h))"
  unfolding say_def by (rule w_send)

lemma w_tell: "R h0 h \<Longrightarrow> R h0 (snd (tell tk c v h))"
  by (simp add: tell_def w_emit)

lemma w_quietly: "R h0 (f h) \<Longrightarrow> R h0 (snd (quietly f h))"
  by (simp add: quietly_def)

lemma w_steps: "(\<And>f h. f \<in> set fs \<Longrightarrow> R h0 h \<Longrightarrow> R h0 (snd (f h))) \<Longrightarrow> R h0 h \<Longrightarrow> R h0 (snd (steps fs h))"
proof (induction fs arbitrary: h)
  case (Cons f fs)
  have f: "R h0 (snd (f h))" using Cons.prems by simp
  have "R h0 (snd (steps fs (snd (f h))))" using Cons.prems(1) f by (intro Cons.IH) simp_all
  with f show ?case by (simp add: case_prod_unfold split: bool.split)
qed simp

lemmas writes = w_log w_emit w_broadcast w_entry w_send w_say w_tell w_quietly

lemma w_cluster_link: "R h0 h \<Longrightarrow> R h0 (snd (cluster_link cf tk i url h))"
  unfolding cluster_link_def
  by (auto simp: case_prod_unfold same_ledgers_def split: option.split bool.split intro!: writes intro: route [OF w_say])

lemma w_forward: "R h0 h \<Longrightarrow> R h0 (snd (forward_to_sibling cf tk msg p h))"
  unfolding forward_to_sibling_def
  by (auto simp: case_prod_unfold same_ledgers_def split: option.split bool.split intro!: writes w_cluster_link
      intro: route [OF w_say [OF w_cluster_link]])

lemma w_via_cluster: "R h0 h \<Longrightarrow> R h0 (snd (via_cluster cf tk msg t h))"
  by (auto simp: via_cluster_def split: option.split intro: w_forward)

lemma w_via_peer: "R h0 h \<Longrightarrow> R h0 (snd (via_peer cf tk msg t h))"
  by (auto simp: via_peer_def Let_def split: option.split sum.split intro!: writes)

lemma w_deliver: "R h0 h \<Longrightarrow> R h0 (snd (deliver_or_relay cf tk msg h))"
  by (auto simp: deliver_or_relay_def case_prod_unfold split: option.split bool.split intro!: w_send w_via_peer w_via_cluster)

lemma w_deliver_new: "R h0 h \<Longrightarrow> R h0 (snd (deliver_new cf tk ty s t v r tok h))"
  unfolding deliver_new_def by (rule w_deliver)

lemma guard_routed: "guard_submission cf tk raw s h = Some (v, h1) \<Longrightarrow> same_ledgers h h1"
  by (auto simp: guard_submission_def Let_def case_prod_unfold same_ledgers_def split: option.splits)

lemma w_saturated: "R h0 h \<Longrightarrow> R h0 (snd (saturated cf tk c msg raw r h))"
  by (auto simp: saturated_def Let_def case_prod_unfold same_ledgers_def intro!: writes elim: route)

lemma w_suspend: "R h0 h \<Longrightarrow> R h0 (suspend_task cf tk msg raw a org r h)"
  by (auto simp: suspend_task_def Let_def same_ledgers_def intro!: writes elim: route)

lemma w_relay_update: "R h0 h \<Longrightarrow> R h0 (snd (relay_update cf tk s td tok h))"
  by (auto simp: relay_update_def split: json.split intro!: w_deliver_new)

lemma w_message: "R h0 h \<Longrightarrow> R h0 (snd (handle_message cf tk c msg h))"
  by (auto simp: handle_message_def Let_def intro!: w_say w_deliver)

lemma w_kill: "R h0 h \<Longrightarrow> R h0 (snd (handle_kill cf tk msg v h))"
  by (auto simp: handle_kill_def Let_def case_prod_unfold split: json.split option.split bool.split intro!: writes)

lemma w_cluster: "R h0 h \<Longrightarrow> R h0 (snd (handle_cluster_join cf tk c msg h))"
  "R h0 h \<Longrightarrow> R h0 (snd (handle_cluster_relay cf tk msg h))"
  by (auto simp: handle_cluster_join_def handle_cluster_relay_def Let_def simp del: steps.simps
      split: option.split sum.split intro!: w_steps writes)

lemma w_reject_peer: "R h0 h \<Longrightarrow> R h0 (snd (reject_peer cf tk c org n why h))"
  by (auto simp: reject_peer_def intro!: w_steps writes simp del: steps.simps)

lemma w_peer: "R h0 h \<Longrightarrow> R h0 (snd (handle_peer_connect cf tk c msg h))"
proof -
  have k: "R h0 g \<Longrightarrow> R h0 (g\<lparr>hb_peer_keys := ks, hb_peers := ps\<rparr>)" for g ks ps
    by (erule route) (simp add: same_ledgers_def)
  show "R h0 h \<Longrightarrow> R h0 (snd (handle_peer_connect cf tk c msg h))"
    by (auto simp: handle_peer_connect_def Let_def simp del: steps.simps
        split: option.split json.split sum.split intro!: w_steps w_reject_peer k writes)
qed

lemma w_answer: "R h0 h \<Longrightarrow> R h0 (snd (handle_answer tk msg h))"
  by (auto simp: handle_answer_def split: option.split intro!: w_send)

lemma routed_sessions: "same_ledgers h (set_agent c n h)" "same_ledgers h (set_observer c h)"
  "same_ledgers h (count_message tk c h)" "same_ledgers h (admit_agent cf tk c name i h)"
  by (auto simp: set_agent_def set_observer_def count_message_def admit_agent_def Let_def same_ledgers_def
      save_identity_def record_presence_def split: option.split)

lemma w_sessions: "R h0 h \<Longrightarrow> R h0 (set_agent c n h)" "R h0 h \<Longrightarrow> R h0 (set_observer c h)"
  "R h0 h \<Longrightarrow> R h0 (count_message tk c h)" "R h0 h \<Longrightarrow> R h0 (admit_agent cf tk c name i h)"
  by (erule route, rule routed_sessions)+

lemma w_snapshot: "R h0 h \<Longrightarrow> R h0 (snd (tell_snapshot tk c h))"
  unfolding tell_snapshot_def by (rule w_tell)

lemma w_observer: "R h0 h \<Longrightarrow> R h0 (snd (register_observer cf tk c name h))"
  by (auto simp: register_observer_def simp del: steps.simps intro!: w_steps w_snapshot w_sessions writes)

lemma w_announce_agent: "R h0 h \<Longrightarrow> R h0 (announce_agent cf tk c name i auth h)"
  unfolding announce_agent_def Let_def by (intro writes)

lemma w_resume: "R h0 h \<Longrightarrow> R h0 (snd (resume_task cf tk c name t h))"
  by (auto simp: resume_task_def simp del: steps.simps intro!: w_steps writes)

lemma w_registered: "R h0 h \<Longrightarrow> R h0 (snd (send_registered cf tk c name i token h))"
  unfolding send_registered_def by (rule w_say)

lemma w_complete: "R h0 h \<Longrightarrow> R h0 (snd (complete_registration cf tk c name i auth watch h))"
  unfolding complete_registration_def Let_def
  by (rule w_steps) (auto intro!: w_announce_agent w_resume w_registered w_snapshot w_sessions w_quietly split: if_splits)

lemma w_register_agent: "R h0 h \<Longrightarrow> R h0 (snd (register_agent cf tk c name d wants h))"
proof -
  assume h: "R h0 h"
  have e: "R h0 (h\<lparr>hb_engine := e\<rparr>)" for e by (rule route [OF h]) (simp add: same_ledgers_def)
  show ?thesis
    by (auto simp: register_agent_def Let_def case_prod_unfold h e simp del: steps.simps
        split: credentials.split option.split bool.split intro!: w_steps w_complete w_sessions writes)
qed

lemma w_register: "R h0 h \<Longrightarrow> R h0 (snd (handle_register cf tk c msg h))"
  by (auto simp: handle_register_def split: option.split intro!: w_observer w_register_agent w_say)

lemma w_questions: "R h0 h \<Longrightarrow> R h0 (snd (handle_who_is cf tk c msg h))"
  "R h0 h \<Longrightarrow> R h0 (snd (handle_discover cf tk c msg h))"
  by (auto simp: handle_who_is_def handle_discover_def Let_def split: option.split intro!: w_say)

lemma w_drop: "R h0 h \<Longrightarrow> R h0 (drop_agent cf tk name h)"
  unfolding drop_agent_def Let_def
  by (intro writes, erule route) (auto simp: same_ledgers_def clear_presence_def)

lemma w_close: "R h0 h \<Longrightarrow> R h0 (close_session cf tk c h)"
proof -
  assume h: "R h0 h"
  define h1 where "h1 = (if se_observer (session_of h c) then h\<lparr>hb_observers := List.filter (\<lambda>x. x \<noteq> c) (hb_observers h)\<rparr> else h)"
  define h2 where "h2 = drop_peers c h1"
  have h2: "R h0 h2"
    by (rule route [OF h]) (simp add: h2_def h1_def drop_peers_def Let_def same_ledgers_def)
  then have "R h0 (case se_agent (session_of h c) of None \<Rightarrow> h2
      | Some n \<Rightarrow> if n \<noteq> [] \<and> map_of (hb_agents h2) n \<noteq> None then drop_agent cf tk n h2 else h2)"
    by (auto split: option.split intro: w_drop)
  then show ?thesis
    unfolding close_session_def Let_def h1_def [symmetric] h2_def [symmetric]
    by (rule route) (simp add: same_ledgers_def)
qed

lemma w_connect_peer: "R h0 h \<Longrightarrow> R h0 (connect_peer cf tk org url h)"
  unfolding connect_peer_def
  by (auto simp: case_prod_unfold same_ledgers_def split: option.split bool.split sum.split intro!: w_say
      intro: route [OF w_say])

end

text \<open>The operations that change tasks or funds.\<close>

locale hub_writes = hub_talks +
  assumes remembered: "\<And>t h. R h (remember_task cf t h)"
    and held: "\<And>i now t p q a c auto md h.
      R h (h\<lparr>hb_escrow := snd (create_hold i now t p q a c auto md (hb_escrow h))\<rparr>)"
    and released: "\<And>now t h. R h (h\<lparr>hb_escrow := snd (release now t (hb_escrow h))\<rparr>)"
    and refunded: "\<And>now t h. R h (h\<lparr>hb_escrow := snd (refund now t (hb_escrow h))\<rparr>)"
begin

lemma w_remember: "R h0 h \<Longrightarrow> R h0 (remember_task cf t h)"
  by (rule chain [OF _ remembered])

lemmas writes_all = writes w_remember

lemma w_hold: "R h0 h \<Longrightarrow> R h0 (snd (hold_for cf tk raw s h))"
proof -
  assume h: "R h0 h"
  have "R h0 (h\<lparr>hb_escrow := snd (create_hold i now t p q a c auto md (hb_escrow h))\<rparr>)" for i now t p q a c auto md
    by (rule chain [OF h held])
  then show ?thesis
    by (auto simp: hold_for_def Let_def case_prod_unfold h split: option.split sum.split intro!: w_log)
qed

lemma w_announce: "R h0 h \<Longrightarrow> R h0 (announce_task cf tk t s h)"
  unfolding announce_task_def by (intro writes_all)

lemma w_finalize: "R h0 h \<Longrightarrow> R h0 (snd (finalize_task_submission cf tk raw s tok r h))"
  using w_hold [of h0 h tk raw s]
  by (auto simp: finalize_task_submission_def split: prod.split finalized.split sum.split
      intro!: w_deliver_new w_announce)

lemma w_admit: "R h0 h \<Longrightarrow> R h0 (snd (admit_submission cf tk c msg raw org h))"
proof -
  assume "R h0 h"
  then have g: "R h0 (h\<lparr>hb_gate := g\<rparr>)" for g by (rule route) (simp add: same_ledgers_def)
  show ?thesis
    using w_finalize [OF g]
    by (auto simp: admit_submission_def Let_def case_prod_unfold g split: option.split finalized.split
        intro!: w_saturated w_suspend w_say)
qed

lemma w_submit: "R h0 h \<Longrightarrow> R h0 (snd (handle_task_submit cf tk c msg h))"
  by (auto simp: handle_task_submit_def log_violation_def split: option.split prod.split
      intro!: w_admit w_say w_log elim: route dest: guard_routed)

lemma w_settle: "R h0 h \<Longrightarrow> R h0 (settle_completed cf tk tid h)" "R h0 h \<Longrightarrow> R h0 (settle_failed cf tk tid h)"
  by (auto simp: settle_completed_def settle_failed_def split: option.split intro!: w_log elim: chain intro: released refunded)

lemma w_finish: "R h0 h \<Longrightarrow> R h0 (finish_task cf tk tid t s orch h)"
  by (auto simp: finish_task_def split: task_status.split intro!: w_settle writes_all)

lemma w_update: "R h0 h \<Longrightarrow> R h0 (snd (handle_task_update cf tk msg h))"
  by (auto simp: handle_task_update_def split: option.split sum.split intro!: w_relay_update w_finish w_remember)

lemma w_relayed_submit: "R h0 h \<Longrightarrow> R h0 (snd (relayed_submit cf tk c msg raw h))"
  by (auto simp: relayed_submit_def log_violation_def split: option.split prod.split sum.split
      intro!: w_deliver_new writes_all elim: route dest: guard_routed)

lemma w_relayed_update: "R h0 h \<Longrightarrow> R h0 (snd (relayed_update cf tk msg td h))"
  by (auto simp: relayed_update_def Let_def split: option.split sum.split intro!: w_relay_update writes_all)

lemma w_relayed: "R h0 h \<Longrightarrow> R h0 (snd (process_relayed cf tk c msg origin h))"
  by (auto simp: process_relayed_def split: option.split bool.split message_type.split
      intro!: w_relayed_submit w_relayed_update w_deliver writes_all)

lemma w_federation: "R h0 h \<Longrightarrow> R h0 (snd (handle_federation_relay cf tk c msg h))"
  by (auto simp: handle_federation_relay_def split: sum.split intro!: w_relayed)

lemma w_authenticated: "R h0 h \<Longrightarrow> R h0 (snd (handle_authenticated cf tk c msg h))"
proof -
  assume h: "R h0 h"
  note n = w_sessions(3) [OF h, of tk c]
  show ?thesis
    using w_questions [OF n] w_submit [OF n] w_update [OF n] w_message [OF n] w_say [OF h] h
    by (cases "ms_type msg") (simp_all add: handle_authenticated_def Let_def split: option.split bool.split)
qed

lemma w_frame: "R h0 h \<Longrightarrow> R h0 (snd (handle_frame cf tk c msg h))"
proof -
  assume h: "R h0 h"
  show ?thesis
  proof (cases "kill_target msg")
    case None
    have a: "R h0 (snd (if b then handle_authenticated cf tk c msg h else (True, h)))" for b
      using h by (simp add: w_authenticated)
    show ?thesis
      unfolding handle_frame_def None option.case
      by (cases "ms_type msg"; simp only: message_type.case)
        (rule a w_cluster [OF h] w_peer [OF h] w_federation [OF h] w_answer [OF h] w_register [OF h])+
  qed (simp add: handle_frame_def w_kill [OF h])
qed

lemma w_receive: "R h0 h \<Longrightarrow> R h0 (receive cf tk c raw h)"
  using w_say [of h0 h] w_frame [of h0 h]
  by (auto simp: receive_def case_prod_unfold split: sum.split bool.split intro!: w_close)

lemma w_step: "R h0 h \<Longrightarrow> R h0 (hub_step cf e h)"
proof -
  assume h: "R h0 h"
  obtain tk ev where e: "e = (tk, ev)" by (cases e)
  show ?thesis
  proof (cases ev)
    case (Peer_down org c)
    show ?thesis
      unfolding e Peer_down hub_step.simps peer_lost_def Let_def
      by (rule route [OF w_close [OF h]]) (simp add: same_ledgers_def)
  next
    case Heartbeat
    then show ?thesis
      using route [OF h] by (simp add: e heartbeat_def h same_ledgers_def record_hub_def touch_presence_def)
  next
    case (Sibling op)
    have "same_ledgers h (sibling_writes op h)"
      by (cases op) (simp_all add: sibling_writes_def same_ledgers_def record_presence_def clear_presence_def
          clear_hub_presence_def touch_presence_def)
    then show ?thesis using route [OF h] by (simp add: e Sibling)
  qed (simp_all add: e h w_receive w_close w_connect_peer)
qed

lemma w_run: "R h (hub_run cf events h)"
proof -
  have "R h0 h \<Longrightarrow> R h0 (foldl (\<lambda>h e. hub_step cf e h) h events)" for h0 h
    by (induction events arbitrary: h) (simp_all add: w_step)
  then show ?thesis unfolding hub_run_def using same by blast
qed
end

end
