(* ===== verification/HubLedgers.thy ===== *)
theory HubLedgers
  imports HubInvariants
begin

text \<open>
  What a hub never loses: its journal and the copy of it in the store, its task registry and the copy of it, and the
  funds it holds.  Each is an interpretation of \<open>hub_writes\<close>, so the results hold for whatever arrives on whatever
  connections, in any order and however often connections break.
\<close>

section \<open>The journal\<close>

definition journal_kept :: "('sk, 'pk) hub_conf \<Rightarrow> hub \<Rightarrow> bool" where
  "journal_kept cf h \<longleftrightarrow> audit_sound (hc_rt cf) (hb_audit h) \<and>
     st_audit (hb_store h) = audit_rows (hc_rt cf) (hb_audit h)"

definition keeps_journal :: "('sk, 'pk) hub_conf \<Rightarrow> hub \<Rightarrow> hub \<Rightarrow> bool" where
  "keeps_journal cf h h' \<longleftrightarrow> (journal_kept cf h \<longrightarrow> journal_kept cf h') \<and> (\<exists>new. hb_audit h' = hb_audit h @ new)"

lemma hub_log_audit: "hb_audit (hub_log cf tk ev s t md h) = audit_log (hc_rt cf) (tc_now tk) ev s t (JObj md) (hb_audit h)"
  by (simp add: hub_log_def Let_def)

lemma audit_rows_log:
  assumes "audit_indexed chain"
  shows "upsert (ae_index (last (audit_log rt now ev s t md chain))) (payload rt (audit_entry_to_dict (last (audit_log rt now ev s t md chain))))
      (audit_rows rt chain) = audit_rows rt (audit_log rt now ev s t md chain)"
proof -
  have "ae_index ` set chain = int ` {0..<length chain}"
    using indexed_map [OF assms] by (metis list.set_map set_upt)
  then have "int (length chain) \<notin> fst ` set (audit_rows rt chain)" by (auto simp: audit_rows_def image_image)
  then show ?thesis by (simp add: audit_log_def upsert_new) (simp add: audit_rows_def)
qed

lemma journal_logged: "keeps_journal cf h (hub_log cf tk ev s t md h)"
proof -
  have "journal_kept cf (hub_log cf tk ev s t md h)" if "journal_kept cf h"
    using that audit_log_sound [of "hc_rt cf" "hb_audit h"] audit_rows_log [of "hb_audit h" "hc_rt cf"]
    by (simp add: journal_kept_def hub_log_def Let_def append_audit_def audit_sound_def)
  then show ?thesis by (simp add: keeps_journal_def hub_log_audit audit_log_def)
qed

interpretation journal: hub_writes cf "keeps_journal cf" for cf :: "('sk, 'pk) hub_conf"
proof
  show "keeps_journal cf h k" if "keeps_journal cf h g" "keeps_journal cf g k" for h g k
    using that by (auto simp: keeps_journal_def)
next
  show "keeps_journal cf h (hub_log cf tk ev s t md h)" for tk ev s t md h by (rule journal_logged)
qed (auto simp: keeps_journal_def journal_kept_def same_ledgers_def remember_task_def save_task_def)

section \<open>The funds\<close>

definition keeps_funds :: "hub \<Rightarrow> hub \<Rightarrow> bool" where
  "keeps_funds h h' \<longleftrightarrow> (escrow_ok (hb_escrow h) \<longrightarrow> escrow_ok (hb_escrow h') \<and>
     (\<forall>cur. total_funds cur (hb_escrow h') = total_funds cur (hb_escrow h)))"

lemma escrow_op_keeps:
  "escrow_ok es \<Longrightarrow> granted_in cur op = 0 \<Longrightarrow> escrow_ok (escrow_exec op es) \<and> total_funds cur (escrow_exec op es) = total_funds cur es"
  using escrow_step [of es op] by simp

interpretation funds: hub_writes cf keeps_funds for cf :: "('sk, 'pk) hub_conf"
proof
  fix i now t p q a c auto md h
  show "keeps_funds h (h\<lparr>hb_escrow := snd (create_hold i now t p q a c auto md (hb_escrow h))\<rparr>)"
    using escrow_op_keeps [of "hb_escrow h" _ "CreateHold i now t p q a c auto md"] by (auto simp: keeps_funds_def)
next
  fix now t h
  show "keeps_funds h (h\<lparr>hb_escrow := snd (release now t (hb_escrow h))\<rparr>)"
    using escrow_op_keeps [of "hb_escrow h" _ "Release now t"] by (auto simp: keeps_funds_def)
next
  fix now t h
  show "keeps_funds h (h\<lparr>hb_escrow := snd (refund now t (hb_escrow h))\<rparr>)"
    using escrow_op_keeps [of "hb_escrow h" _ "Refund now t"] by (auto simp: keeps_funds_def)
next
  show "keeps_funds h k" if "keeps_funds h g" "keeps_funds g k" for h g k
    using that by (simp add: keeps_funds_def)
qed (simp_all add: keeps_funds_def same_ledgers_def hub_log_def remember_task_def Let_def)

section \<open>The task registry\<close>

text \<open>The abstraction of the stored table: the row of each task.  The registry and the table agree on it.\<close>

definition registry_rows :: "('sk, 'pk) hub_conf \<Rightarrow> hub \<Rightarrow> string \<Rightarrow> (string \<times> string) option" where
  "registry_rows cf h i = map_option (task_row (hc_rt cf)) (map_of (hb_tasks h) i)"

definition tasks_stored :: "('sk, 'pk) hub_conf \<Rightarrow> hub \<Rightarrow> bool" where
  "tasks_stored cf h \<longleftrightarrow> (\<forall>i. map_of (st_tasks (hb_store h)) i = registry_rows cf h i) \<and> distinct (List.map fst (st_tasks (hb_store h)))"

definition keeps_tasks :: "('sk, 'pk) hub_conf \<Rightarrow> hub \<Rightarrow> hub \<Rightarrow> bool" where
  "keeps_tasks cf h h' \<longleftrightarrow> (tasks_stored cf h \<longrightarrow> tasks_stored cf h') \<and>
     (\<forall>i. map_of (hb_tasks h) i \<noteq> None \<longrightarrow> map_of (hb_tasks h') i \<noteq> None)"

interpretation tasks: hub_writes cf "keeps_tasks cf" for cf :: "('sk, 'pk) hub_conf"
proof
  fix t h
  have "tasks_stored cf (remember_task cf t h)" if "tasks_stored cf h"
    using that by (auto simp: tasks_stored_def registry_rows_def remember_task_def save_task_def update_conv' distinct_upsert)
  then show "keeps_tasks cf h (remember_task cf t h)"
    by (auto simp: keeps_tasks_def) (auto simp: remember_task_def update_conv' split: if_splits)
next
  show "keeps_tasks cf h k" if "keeps_tasks cf h g" "keeps_tasks cf g k" for h g k
    using that by (simp add: keeps_tasks_def)
qed (simp_all add: keeps_tasks_def tasks_stored_def registry_rows_def same_ledgers_def hub_log_def append_audit_def Let_def)

section \<open>What was sent\<close>

definition keeps_frames :: "hub \<Rightarrow> hub \<Rightarrow> bool" where
  "keeps_frames h h' \<longleftrightarrow> (\<exists>es. hb_out h' = hb_out h @ es) \<and> hb_api_keys h' = hb_api_keys h"

interpretation frames: hub_writes cf keeps_frames for cf :: "('sk, 'pk) hub_conf"
proof
  show "keeps_frames h k" if "keeps_frames h g" "keeps_frames g k" for h g k
    using that by (auto simp: keeps_frames_def)
qed (simp_all add: keeps_frames_def same_ledgers_def hub_log_def remember_task_def Let_def)

section \<open>From the start on\<close>

lemma started_fresh:
  assumes "hub_start cf fresh now keys limits empty_store = Some h0"
  shows "journal_kept cf h0 \<and> tasks_stored cf h0 \<and> hb_audit h0 = audit_new (hc_rt cf) now"
proof -
  have "audit_rows (hc_rt cf) (audit_new (hc_rt cf) now)
      = [(0, payload (hc_rt cf) (audit_entry_to_dict (genesis_block (hc_rt cf) now)))]"
    by (simp add: audit_rows_def audit_new_def genesis_block_def)
  moreover have "ae_index (genesis_block (hc_rt cf) now) = 0" by (simp add: genesis_block_def)
  ultimately show ?thesis
    using assms
    by (auto simp: hub_start_def journal_of_store_def load_audit_def load_identities_def load_tasks_def empty_store_def
        journal_kept_def tasks_stored_def registry_rows_def append_audit_def record_hub_def upsert_def split: if_splits)
qed

lemma stored_tasks_reload:
  assumes "tasks_stored cf h" "\<forall>(i, t) \<in> set (hb_tasks h). task_storable (hc_rt cf) t"
  shows "\<exists>ts. load_tasks fresh now (hb_store h) = Some ts \<and> map_of ts = map_of (hb_tasks h)"
proof -
  define current where "current i = the (map_of (hb_tasks h) i)" for i
  let ?rows = "st_tasks (hb_store h)"
  have row: "\<exists>t. map_of (hb_tasks h) i = Some t \<and> r = task_row (hc_rt cf) t \<and> task_storable (hc_rt cf) t" if "(i, r) \<in> set ?rows" for i r
  proof -
    have "map_of ?rows i = Some r" using assms(1) that by (intro map_of_is_SomeI) (simp_all add: tasks_stored_def)
    then obtain t where "map_of (hb_tasks h) i = Some t" "r = task_row (hc_rt cf) t"
      using assms(1) by (auto simp: tasks_stored_def registry_rows_def)
    then show ?thesis using assms(2) by (auto dest: map_of_SomeD)
  qed
  have "load_tasks fresh now (hb_store h) = Some (List.map (\<lambda>(i, r). (i, current i)) ?rows)"
    unfolding load_tasks_def
  proof (rule those_Some_map)
    fix x assume x: "x \<in> set ?rows"
    obtain i r where e: "x = (i, r)" by (cases x)
    from row [of i r] x e obtain t where "map_of (hb_tasks h) i = Some t" "r = task_row (hc_rt cf) t" "task_storable (hc_rt cf) t"
      by blast
    then show "(case x of (i, status, p) \<Rightarrow> map_option (Pair i) (read_task fresh now i p)) = Some (case x of (i, r) \<Rightarrow> (i, current i))"
      using read_task_row [of "hc_rt cf" t fresh now i] by (simp add: e current_def case_prod_unfold)
  qed
  moreover have "map_of (List.map (\<lambda>(i, r). (i, current i)) ?rows) i = map_of (hb_tasks h) i" for i
  proof -
    have "map_of (List.map (\<lambda>(i, r). (i, current i)) xs) i = map_option (\<lambda>_. current i) (map_of xs i)" for xs :: "(string \<times> string \<times> string) list"
      by (induction xs) auto
    then show ?thesis using assms(1) by (cases "map_of (hb_tasks h) i") (auto simp: tasks_stored_def registry_rows_def current_def)
  qed
  ultimately show ?thesis by blast
qed

section \<open>Properties\<close>

text \<open>Whatever arrives on whatever connections after a hub has started on an empty store, its journal is a chain
  that passes its own check, still begins with all it had, and the store holds exactly its rows.\<close>

theorem hub_journal_is_kept:
  assumes "hub_start cf fresh now keys limits empty_store = Some h0"
  shows "audit_sound (hc_rt cf) (hb_audit (hub_run cf (before @ after) h0)) \<and>
    (\<exists>new. hb_audit (hub_run cf (before @ after) h0) = hb_audit (hub_run cf before h0) @ new) \<and>
    st_audit (hb_store (hub_run cf (before @ after) h0)) = audit_rows (hc_rt cf) (hb_audit (hub_run cf (before @ after) h0))"
proof -
  have "keeps_journal cf h0 (hub_run cf before h0)" "keeps_journal cf (hub_run cf before h0) (hub_run cf after (hub_run cf before h0))"
    by (rule journal.w_run)+
  then show ?thesis
    using started_fresh [OF assms] by (auto simp: keeps_journal_def journal_kept_def hub_run_def)
qed



section \<open>A concrete hub\<close>

definition carol_rule :: task_rule where
  "carol_rule = \<lparr> tr_name = ''carol'', tr_reason = ''new'', tr_assignees = [''carol''], tr_capabilities = any_star,
     tr_pattern = None, tr_min_cost = None, tr_cross_org_only = False \<rparr>"

definition toy_conf :: "(string, string) hub_conf" where
  "toy_conf = \<lparr> hc_rt = five_runtime, hc_jwt_encode = (\<lambda>k kid v. ''t''),
     hc_jwt_decode = (\<lambda>token pem. if pem = ''PEM acme''
       then Some [(''agent_name'', JStr token), (''expires_at'', JInt 9), (''iss_org'', JStr ''acme'')] else None),
     hc_guard_rx = (\<lambda>p s. False), hc_approval_rx = (\<lambda>p. None),
     hc_egress_rx = \<lparr> rx_search = (\<lambda>p. None), rx_subn = (\<lambda>p r t. (t, 0)) \<rparr>, hc_wording = (\<lambda>_. ''no''), hc_org = ''acme'',
     hc_id = ''h1'', hc_cluster_url = [], hc_key = ''acme'', hc_pem = ''PEM acme'', hc_kid = ''k'', hc_max_agents = 0,
     hc_allow_self_declared = False, hc_require_api_key = False, hc_egress = \<lparr> ep_name = ''e'', ep_rules = [] \<rparr>,
     hc_approval = \<lparr> tp_name = ''a'', tp_rules = [carol_rule] \<rparr> \<rparr>"

lemma toy_conf_fields [simp]:
  "hc_rt toy_conf = five_runtime" "hc_cluster_url toy_conf = []" "hc_org toy_conf = ''acme''" "hc_pem toy_conf = ''PEM acme''"
  "hc_approval toy_conf = \<lparr> tp_name = ''a'', tp_rules = [carol_rule] \<rparr>" "hc_guard_rx toy_conf = (\<lambda>p s. False)"
  "hc_require_api_key toy_conf = False" "hc_max_agents toy_conf = 0" "hc_allow_self_declared toy_conf = False"
  by (simp_all add: toy_conf_def)

definition toy_tick :: tick where
  "toy_tick = \<lparr> tc_now = 5, tc_alive = (\<lambda>_. True), tc_fresh = (\<lambda>_. ''u''), tc_host = (\<lambda>_. Some ''127.0.0.1''),
     tc_cert = (\<lambda>_. []), tc_dial = (\<lambda>_. None) \<rparr>"

definition toy_keys :: key_store where
  "toy_keys = \<lparr> ks_keys = [], ks_path = False \<rparr>"

definition toy_started :: hub where
  "toy_started = \<lparr> hb_agents = [], hb_identities = [], hb_tasks = [], hb_peers = [], hb_peer_keys = [], hb_links = [],
     hb_observers = [], hb_meta = [], hb_audit = audit_new five_runtime 5, hb_engine = engine_new guardrail_default,
     hb_escrow = escrow_new, hb_gate = bp_new (Some limits_default) 5, hb_pending = [], hb_api_keys = toy_keys,
     hb_store = append_audit five_runtime (genesis_block five_runtime 5) empty_store, hb_sessions = [], hb_out = [] \<rparr>"

lemma toy_start: "hub_start toy_conf (\<lambda>_. ''x'') 5 toy_keys limits_default empty_store = Some toy_started"
  by (simp add: hub_start_def toy_conf_def toy_started_def load_identities_def load_tasks_def empty_store_def
      journal_of_store_def load_audit_def)

definition toy_events :: "(tick \<times> hub_event) list" where
  "toy_events = [(toy_tick, Frame_in 1 ''x''), (toy_tick, Ends 1), (toy_tick, Heartbeat)]"

theorem hub_journal_is_kept_witness:
  "audit_sound five_runtime (hb_audit (hub_run toy_conf (toy_events @ [(toy_tick, Peer_down ''beta'' 2)]) toy_started))"
  using hub_journal_is_kept [OF toy_start, of toy_events "[(toy_tick, Peer_down ''beta'' 2)]"] by simp


text \<open>The connection that sends no message is answered with an error.\<close>

lemma toy_run: "hub_run toy_conf [(toy_tick, Frame_in 1 ''x'')] toy_started
   = snd (say toy_tick 1 MError ''hub'' None (JStr ''no'') None None toy_started)"
proof -
  have "\<exists>e. message_from_json ''u'' 5 ''x'' = Inl e" 
    by (rule exI [of _ "projl (message_from_json ''u'' 5 ''x'')"]) code_simp
  then obtain e where "message_from_json ''u'' 5 ''x'' = Inl e" by blast
  then show ?thesis by (simp add: hub_run_def receive_def toy_tick_def toy_conf_def say_def send_msg_def)
qed


end
