(* ===== verification/HubSafety.thy ===== *)
theory HubSafety
  imports HubLedgers "HOL-Library.Countable"
begin

text \<open>
  What a hub allows: a token is worth only the name it was issued for, a message does not leave its organisation for
  one the hub is not peered with, tasks and funds change only by a submission that passed every guard or by an update,
  and a registration gets what its key says.  The last part states where the code allows more than it means to.
\<close>

section \<open>Tasks and funds left alone\<close>

definition same_tasks :: "hub \<Rightarrow> hub \<Rightarrow> bool" where
  "same_tasks h h' \<longleftrightarrow> hb_tasks h' = hb_tasks h \<and> hb_escrow h' = hb_escrow h"

interpretation quiet: hub_talks cf same_tasks for cf :: "('sk, 'pk) hub_conf"
  by unfold_locales (simp_all add: same_tasks_def same_ledgers_def hub_log_def Let_def)

lemma agent_org_same: "hb_identities g = hb_identities h \<Longrightarrow> agent_org cf g = agent_org cf h"
  by (auto simp: agent_org_def fun_eq_iff split: option.split)

lemma agent_org_updates [simp]:
  "agent_org cf (h\<lparr>hb_engine := e\<rparr>) = agent_org cf h" "agent_org cf (h\<lparr>hb_gate := g\<rparr>) = agent_org cf h"
  by (rule agent_org_same, simp)+

lemma agent_org_count [simp]: "agent_org cf (count_message tk c h) = agent_org cf h"
  by (auto simp: count_message_def agent_org_def fun_eq_iff split: option.split)

lemma count_message_simps [simp]:
  "hb_peers (count_message tk c h) = hb_peers h" "hb_gate (count_message tk c h) = hb_gate h"
  "hb_out (count_message tk c h) = hb_out h" "hb_tasks (count_message tk c h) = hb_tasks h"
  "hb_escrow (count_message tk c h) = hb_escrow h" "hb_audit (count_message tk c h) = hb_audit h"
  "hb_agents (count_message tk c h) = hb_agents h" "hb_identities (count_message tk c h) = hb_identities h"
  "hb_engine (count_message tk c h) = hb_engine h" "hb_store (count_message tk c h) = hb_store h"
  "hb_observers (count_message tk c h) = hb_observers h" "hb_pending (count_message tk c h) = hb_pending h"
  by (auto simp: count_message_def split: option.split)

text \<open>The token that a frame carries is its sender's.\<close>

definition frame_authenticated :: "('sk, 'pk) hub_conf \<Rightarrow> tick \<Rightarrow> message \<Rightarrow> hub \<Rightarrow> bool" where
  "frame_authenticated cf tk msg h \<longleftrightarrow>
     verify_token cf (hb_peer_keys h) (tc_now tk) (text_of (ms_token msg)) (ms_sender msg) None = Some True"

text \<open>A submission passes every guard: it is an object, the guardrails let it through, the gate admits it, and no
  approval rule holds it back.\<close>

definition submission_passes :: "('sk, 'pk) hub_conf \<Rightarrow> tick \<Rightarrow> message \<Rightarrow> hub \<Rightarrow> bool" where
  "submission_passes cf tk msg h \<longleftrightarrow> (\<exists>raw h1 assignee. obj_of (ms_content msg) = Some raw \<and>
     guard_submission cf tk raw (ms_sender msg) h = Some (None, h1) \<and>
     fst (bp_admit (fst (task_load h)) (snd (task_load h)) (tc_now tk) (hb_gate h)) = None \<and>
     text_or_absent raw ''assignee'' = Some assignee \<and>
     held_back cf raw (text_of assignee) (agent_org cf h (ms_sender msg)) h = None)"

lemma guard_keeps:
  assumes "guard_submission cf tk raw s h = Some (v, h1)"
  shows "h1 = h\<lparr>hb_engine := hb_engine h1\<rparr>"
  using assms by (auto simp: guard_submission_def Let_def case_prod_unfold split: option.splits)

lemma held_back_engine [simp]:
  "held_back cf raw a org (h\<lparr>hb_engine := e\<rparr>) = held_back cf raw a org h"
  "held_back cf raw a org (h\<lparr>hb_gate := g\<rparr>) = held_back cf raw a org h"
  by (simp_all add: held_back_def)

lemma task_load_engine [simp]: "task_load (h\<lparr>hb_engine := e\<rparr>) = task_load h"
  by (simp add: task_load_def)

text \<open>An admission with the gate's answer, the assignee and the approval rule spelled out.\<close>

lemma admit_cases:
  obtains (full) r where "fst (bp_admit (fst (task_load h)) (snd (task_load h)) (tc_now tk) (hb_gate h)) = Some r"
  | (odd) "fst (bp_admit (fst (task_load h)) (snd (task_load h)) (tc_now tk) (hb_gate h)) = None"
      "text_or_absent raw ''assignee'' = None"
  | (held) a r where "fst (bp_admit (fst (task_load h)) (snd (task_load h)) (tc_now tk) (hb_gate h)) = None"
      "text_or_absent raw ''assignee'' = Some a" "held_back cf raw (text_of a) org h = Some r"
  | (passes) a where "fst (bp_admit (fst (task_load h)) (snd (task_load h)) (tc_now tk) (hb_gate h)) = None"
      "text_or_absent raw ''assignee'' = Some a" "held_back cf raw (text_of a) org h = None"
  by fastforce

lemma submit_changes:
  assumes "\<not> same_tasks h (snd (handle_task_submit cf tk c msg h))"
  shows "submission_passes cf tk msg h"
proof (cases "obj_of (ms_content msg)")
  case (Some raw)
  show ?thesis
  proof (cases "guard_submission cf tk raw (ms_sender msg) h")
    case guard: (Some vh)
    obtain v h1 where vh: "vh = (v, h1)" by (cases vh)
    note g = guard [unfolded vh]
    have h1: "same_tasks h h1" by (subst guard_keeps [OF g]) (simp add: same_tasks_def)
    show ?thesis
    proof (cases v)
      case (Some w)
      have "same_tasks h (snd (handle_task_submit cf tk c msg h))"
        by (simp add: handle_task_submit_def \<open>obj_of _ = _\<close> g Some log_violation_def)
          (rule quiet.w_say [OF quiet.w_log [OF h1]])
      with assms show ?thesis by simp
    next
      case None
      have step: "handle_task_submit cf tk c msg h = admit_submission cf tk c msg raw (agent_org cf h (ms_sender msg)) h1"
        by (simp add: handle_task_submit_def \<open>obj_of _ = _\<close> g None)
      obtain r gt where adm: "bp_admit (fst (task_load h1)) (snd (task_load h1)) (tc_now tk) (hb_gate h1) = (r, gt)"
        by (cases "bp_admit (fst (task_load h1)) (snd (task_load h1)) (tc_now tk) (hb_gate h1)")
      have h2: "same_tasks h (h1\<lparr>hb_gate := gt\<rparr>)" using h1 by (simp add: same_tasks_def)
      have eq: "task_load h1 = task_load h" "hb_gate h1 = hb_gate h"
        "held_back cf raw a org h1 = held_back cf raw a org h" for a org
        by (subst guard_keeps [OF g], simp)+
      show ?thesis
      proof (cases rule: admit_cases [where h = h1 and tk = tk and raw = raw and cf = cf and org = "agent_org cf h (ms_sender msg)"])
        case (full r')
        then have "same_tasks h (snd (admit_submission cf tk c msg raw (agent_org cf h (ms_sender msg)) h1))"
          using adm quiet.w_saturated [OF h2] by (simp add: admit_submission_def case_prod_unfold)
        with assms step show ?thesis by simp
      next
        case odd
        then have "same_tasks h (snd (admit_submission cf tk c msg raw (agent_org cf h (ms_sender msg)) h1))"
          using adm h2 by (simp add: admit_submission_def case_prod_unfold)
        with assms step show ?thesis by simp
      next
        case (held a r')
        then have "same_tasks h (snd (admit_submission cf tk c msg raw (agent_org cf h (ms_sender msg)) h1))"
          using adm quiet.w_suspend [OF h2] by (simp add: admit_submission_def case_prod_unfold)
        with assms step show ?thesis by simp
      next
        case (passes a)
        then show ?thesis using Some g None by (auto simp: submission_passes_def eq)
      qed
    qed
  qed (use Some assms in \<open>simp add: handle_task_submit_def same_tasks_def\<close>)
qed (use assms in \<open>simp add: handle_task_submit_def same_tasks_def\<close>)


lemma handle_frame_unkilled:
  "kill_target msg = None \<Longrightarrow> ms_type msg \<in> set authenticated_types \<Longrightarrow>
     handle_frame cf tk c msg h = handle_authenticated cf tk c msg h"
  by (auto simp: handle_frame_def authenticated_types_def split: message_type.splits)

section \<open>What is left alone\<close>

lemma logged_fields [simp]:
  "hb_agents (hub_log cf tk ev s t md h) = hb_agents h" "hb_identities (hub_log cf tk ev s t md h) = hb_identities h"
  "hb_tasks (hub_log cf tk ev s t md h) = hb_tasks h" "hb_escrow (hub_log cf tk ev s t md h) = hb_escrow h"
  "hb_pending (hub_log cf tk ev s t md h) = hb_pending h" "hb_out (hub_log cf tk ev s t md h) = hb_out h"
  "hb_peers (hub_log cf tk ev s t md h) = hb_peers h" "hb_observers (hub_log cf tk ev s t md h) = hb_observers h"
  "hb_peer_keys (hub_log cf tk ev s t md h) = hb_peer_keys h"
  by (simp_all add: hub_log_def Let_def)

lemma broadcast_fields [simp]:
  "hb_agents (broadcast tk ev d h) = hb_agents h" "hb_identities (broadcast tk ev d h) = hb_identities h"
  "hb_tasks (broadcast tk ev d h) = hb_tasks h" "hb_escrow (broadcast tk ev d h) = hb_escrow h"
  "hb_pending (broadcast tk ev d h) = hb_pending h" "hb_audit (broadcast tk ev d h) = hb_audit h"
  by (simp_all add: broadcast_def Let_def)

lemma entry_fields [simp]:
  "hb_agents (broadcast_entry tk h) = hb_agents h" "hb_identities (broadcast_entry tk h) = hb_identities h"
  "hb_tasks (broadcast_entry tk h) = hb_tasks h" "hb_escrow (broadcast_entry tk h) = hb_escrow h"
  "hb_pending (broadcast_entry tk h) = hb_pending h" "hb_audit (broadcast_entry tk h) = hb_audit h"
  by (simp_all add: broadcast_entry_def)

lemma remember_fields [simp]:
  "hb_agents (remember_task cf t h) = hb_agents h" "hb_escrow (remember_task cf t h) = hb_escrow h"
  "hb_tasks (remember_task cf t h) = dict_set (tk_task_id t) t (hb_tasks h)" "hb_pending (remember_task cf t h) = hb_pending h"
  by (simp_all add: remember_task_def)

lemma announce_fields [simp]:
  "hb_agents (announce_task cf tk t s h) = hb_agents h" "hb_escrow (announce_task cf tk t s h) = hb_escrow h"
  "hb_tasks (announce_task cf tk t s h) = dict_set (tk_task_id t) t (hb_tasks h)"
  by (simp_all add: announce_task_def)

lemma send_fields [simp]:
  "hb_agents (snd (send_msg tk c m h)) = hb_agents h" "hb_tasks (snd (send_msg tk c m h)) = hb_tasks h"
  "hb_escrow (snd (send_msg tk c m h)) = hb_escrow h" "hb_identities (snd (send_msg tk c m h)) = hb_identities h"
  "hb_audit (snd (send_msg tk c m h)) = hb_audit h" "hb_pending (snd (send_msg tk c m h)) = hb_pending h"
  by (simp_all add: send_msg_def emit_def)

lemma send_alive: "tc_alive tk c \<Longrightarrow> send_msg tk c m h = (True, h\<lparr>hb_out := hb_out h @ [Send c m]\<rparr>)"
  by (simp add: send_msg_def emit_def)

lemma local_name_same: "hb_agents g = hb_agents h \<Longrightarrow> local_name g = local_name h"
  by (auto simp: local_name_def fun_eq_iff split: option.split)

lemma deliver_local:
  assumes "ms_to msg = Some a" "local_name h (Some a) = Some l"
  shows "deliver_or_relay cf tk msg h = send_msg tk (the (map_of (hb_agents h) l)) msg h"
  using assms by (auto simp: deliver_or_relay_def local_name_def)

text \<open>A submission that passes is finalised in the state that the guards leave.\<close>

lemma passing_submission:
  assumes "obj_of (ms_content msg) = Some raw" "guard_submission cf tk raw (ms_sender msg) h = Some (None, h1)"
    and "bp_admit (fst (task_load h)) (snd (task_load h)) (tc_now tk) (hb_gate h) = (None, g)"
    and "text_or_absent raw ''assignee'' = Some a" "held_back cf raw (text_of a) (agent_org cf h (ms_sender msg)) h = None"
    and "finalize_task_submission cf tk raw (ms_sender msg) (ms_token msg) (Some (ms_id msg)) (h1\<lparr>hb_gate := g\<rparr>) = (Submitted, h2)"
  shows "handle_task_submit cf tk c msg h = (True, h2)"
proof -
  have eq: "task_load h1 = task_load h" "hb_gate h1 = hb_gate h"
    "held_back cf raw a org h1 = held_back cf raw a org h" for a org
    by (subst guard_keeps [OF assms(2)], simp)+
  show ?thesis
    using assms by (simp add: handle_task_submit_def admit_submission_def case_prod_unfold eq)
qed

lemma hold_placed:
  assumes "py_true (py_get raw ''escrow'')" "escrow_request_of (py_get raw ''escrow'') = Some rq"
    and "text_or_absent raw ''task_id'' = Some (Some tid)" "text_or_absent raw ''assignee'' = Some a"
    and "tid \<noteq> []" "0 < eq_amount rq" "map_of (es_holds (hb_escrow h)) tid = None"
    and "eq_amount rq \<le> funds (es_balances (hb_escrow h)) (agent_org cf h s) (eq_currency rq)"
  obtains h' hold where "hold_for cf tk raw s h = (Submitted, h')" "hb_tasks h' = hb_tasks h" "hb_agents h' = hb_agents h"
    "hb_out h' = hb_out h"
    "get_hold (hb_escrow h') tid = Some hold" "eh_status hold = Held" "eh_amount hold = eq_amount rq"
    "funds (es_balances (hb_escrow h')) (agent_org cf h s) (eq_currency rq)
       = funds (es_balances (hb_escrow h)) (agent_org cf h s) (eq_currency rq) - eq_amount rq"
proof -
  let ?q = "case a of None \<Rightarrow> hc_org cf | Some a \<Rightarrow> agent_org cf h a"
  let ?create = "create_hold (tc_fresh tk (length (hb_out h))) (tc_now tk) (text_of (Some tid)) (agent_org cf h s) ?q
    (eq_amount rq) (eq_currency rq) (eq_auto_release rq) JNull (hb_escrow h)"
  show thesis
  proof (cases rule: create_cases [of "tc_fresh tk (length (hb_out h))" "tc_now tk" "text_of (Some tid)" "agent_org cf h s" ?q
      "eq_amount rq" "eq_currency rq" "eq_auto_release rq" JNull "hb_escrow h"])
    case (refused e)
    then show thesis using assms(5-8) by (simp add: create_hold_def debit_def text_of_def Let_def)
  next
    case (held hold)
    show thesis
      by (rule that [of "snd (hold_for cf tk raw s h)" hold])
        (use assms held(1,6-) in \<open>simp_all add: hold_for_def text_of_def get_hold_def funds_def update_conv'\<close>)
  qed
qed

section \<open>Registration\<close>

lemma steps_keep: "(\<And>f g. f \<in> set fs \<Longrightarrow> P g \<Longrightarrow> P (snd (f g))) \<Longrightarrow> P h \<Longrightarrow> P (snd (steps fs h))"
proof (induction fs arbitrary: h)
  case (Cons f fs)
  have "P (snd (f h))" using Cons.prems by simp
  then have "P (snd (steps fs (snd (f h))))" using Cons.prems(1) by (intro Cons.IH) simp_all
  with \<open>P (snd (f h))\<close> show ?case by (simp add: case_prod_unfold split: bool.split)
qed simp

lemma register_identities [simp]:
  "hb_identities (snd (say tk c ty s t v r tok h)) = hb_identities h" "hb_identities (snd (tell_snapshot tk c h)) = hb_identities h"
  "hb_identities (set_agent c n h) = hb_identities h" "hb_identities (set_observer c h) = hb_identities h"
  "hb_identities (announce_agent cf tk c name i auth h) = hb_identities h"
  "hb_identities (snd (send_registered cf tk c name i token h)) = hb_identities h"
  "hb_identities (snd (quietly f h)) = hb_identities (f h)" "hb_identities (emit e h) = hb_identities h"
  by (simp_all add: say_def send_msg_def emit_def tell_snapshot_def tell_def set_agent_def set_observer_def
      announce_agent_def Let_def send_registered_def quietly_def)

lemma admit_identities: "hb_identities (admit_agent cf tk c name i h) = dict_set name i (hb_identities h)"
  by (simp add: admit_agent_def Let_def)

text \<open>The steps after the first two leave the identities as those two made them.\<close>

lemma complete_identities:
  "hb_identities (snd (complete_registration cf tk c name i auth watch h)) = dict_set name i (hb_identities h)"
proof -
  let ?P = "\<lambda>g. hb_identities g = dict_set name i (hb_identities h)"
  have res: "?P g \<Longrightarrow> ?P (snd (resume_task cf tk c name t g))" for t g
    unfolding resume_task_def by (rule steps_keep) auto
  have "complete_registration cf tk c name i auth watch h = steps
      ([quietly (announce_agent cf tk c name i auth),
        send_registered cf tk c name i (generate_token cf (tc_now tk) name (id_agent_id i) (id_roles i) (id_org_id i) auth)]
       @ (if watch then [quietly (set_observer c), tell_snapshot tk c] else [])
       @ List.map (resume_task cf tk c name) (waiting_tasks h name)) (admit_agent cf tk c name i (set_agent c (Some name) h))"
    by (simp add: complete_registration_def Let_def quietly_def)
  also have "?P (snd \<dots>)"
    by (rule steps_keep) (auto simp: admit_identities res split: if_splits)
  finally show ?thesis .
qed

text \<open>Only a registration with granted credentials and a readable identity writes an identity.\<close>

lemma register_changes:
  assumes "map_of (hb_identities (snd (handle_register cf tk c msg h))) n \<noteq> map_of (hb_identities h) n"
  obtains d org roles perms auth i where "obj_of (ms_content msg) = Some d"
    "credentials_of cf tk c d h = Granted org roles perms auth"
    "identity_of_registration cf tk (ms_sender msg) d org roles perms h = Some i" "n = registered_name i"
    "map_of (hb_identities (snd (handle_register cf tk c msg h))) n = Some i"
proof -
  obtain d where d: "obj_of (ms_content msg) = Some d" using assms by (cases "obj_of (ms_content msg)") (auto simp: handle_register_def)
  obtain wants where w: "wants_telemetry d (ms_sender msg) = Some wants"
    using assms by (cases "wants_telemetry d (ms_sender msg)") (auto simp: handle_register_def d)
  have obs: "hb_identities (snd (register_observer cf tk c (ms_sender msg) h)) = hb_identities h"
    unfolding register_observer_def
    by (cases "registration_refused cf tk c"; simp only: if_True if_False; rule steps_keep) auto
  have r: "snd (handle_register cf tk c msg h) = snd (register_agent cf tk c (ms_sender msg) d wants h)"
    using assms obs by (auto simp: handle_register_def d w split: if_splits)
  obtain org roles perms auth where g: "credentials_of cf tk c d h = Granted org roles perms auth"
  proof (cases "credentials_of cf tk c d h")
    case NotAllowed
    have "hb_identities (snd (register_agent cf tk c (ms_sender msg) d wants h)) = hb_identities h"
      unfolding register_agent_def NotAllowed credentials.case by (rule steps_keep) auto
    with assms r show ?thesis by simp
  qed (use assms r in \<open>auto simp: register_agent_def\<close>)
  obtain watch i where i: "may_watch wants roles = Some watch"
      "identity_of_registration cf tk (ms_sender msg) d org roles perms h = Some i"
    using assms r by (auto simp: register_agent_def g split: option.splits)
  obtain b e where t: "is_tripped (tc_now tk) (registered_name i) (hb_engine h) = (b, e)" by (cases "is_tripped (tc_now tk) (registered_name i) (hb_engine h)")
  have "hb_identities (snd (register_agent cf tk c (ms_sender msg) d wants h))
      = (if b then hb_identities h else dict_set (registered_name i) i (hb_identities h))"
    by (simp add: register_agent_def g i t Let_def complete_identities case_prod_unfold split: bool.split)
  then have "n = registered_name i" "map_of (hb_identities (snd (handle_register cf tk c msg h))) n = Some i"
    using assms r by (auto simp: update_conv' split: if_splits)
  with that d g i show thesis by blast
qed

lemma texts_of_list: "those (List.map opt_of_json vs) = Some ss \<Longrightarrow> vs = List.map JStr ss"
proof (induction vs arbitrary: ss)
  case (Cons v vs)
  then show ?case by (cases v) (auto split: option.splits)
qed simp

lemma strings_field_list: "strings_field d k dflt = Some ss \<Longrightarrow> map_of d k = Some (JList vs) \<Longrightarrow> vs = List.map JStr ss"
  by (simp add: strings_field_def texts_of_list)

lemma identity_from_dict_fields:
  assumes "identity_from_dict rt uuid now (JObj d) = Some i" "map_of d ''name'' = Some (JStr n)" "map_of d ''org_id'' = Some org"
    and "map_of d ''roles'' = Some (JList roles)" "map_of d ''permissions'' = Some (JList perms)"
  shows "org = JStr (id_org_id i) \<and> List.map JStr (id_roles i) = (if roles = [] then [JStr ''standard''] else roles) \<and>
    List.map JStr (id_permissions i) = perms \<and> id_name i = n"
proof -
  obtain caps rs ps o' where f: "strings_field d ''capabilities'' [] = Some caps" "strings_field d ''roles'' [''standard''] = Some rs"
      "strings_field d ''permissions'' [] = Some ps" "org = JStr o'"
    using assms(1-3) by (cases org) (auto simp: identity_from_dict_def split: option.splits)
  have i: "id_org_id i = o' \<and> id_roles i = (if rs = [] then [''standard''] else rs) \<and> id_permissions i = ps \<and> id_name i = n"
    using assms(1-3) by (auto simp: identity_from_dict_def f identity_new_def Let_def split: option.splits json.splits if_splits)
  show ?thesis using i strings_field_list [OF f(2) assms(4)] strings_field_list [OF f(3) assms(5)] f(4) by auto
qed

lemma identity_granted:
  assumes "identity_of_registration cf tk name d org (JList roles) (JList perms) h = Some i"
  shows "org = JStr (id_org_id i) \<and> List.map JStr (id_roles i) = (if roles = [] then [JStr ''standard''] else roles) \<and>
    List.map JStr (id_permissions i) = perms \<and> id_name i = name"
  using assms unfolding identity_of_registration_def by (rule identity_from_dict_fields) simp_all

section \<open>Properties\<close>


text \<open>C21: a submission of an authenticated agent that passes the guards and asks for an escrow its organisation can
  pay for is accepted as a whole: the funds are held, the task is registered, and the assignee gets it.\<close>

theorem hub_accepts_submission:
  assumes frame: "ms_type msg = MTaskSubmit" "kill_target msg = None" "frame_authenticated cf tk msg h"
    and raw: "obj_of (ms_content msg) = Some raw"
      "guard_submission cf tk raw (ms_sender msg) (count_message tk c h) = Some (None, h1)"
      "bp_admit (fst (task_load h)) (snd (task_load h)) (tc_now tk) (hb_gate h) = (None, g)"
      "held_back cf raw (tk_assignee t) (agent_org cf h (ms_sender msg)) h = None"
    and escrow: "py_true (py_get raw ''escrow'')" "escrow_request_of (py_get raw ''escrow'') = Some rq"
      "text_or_absent raw ''task_id'' = Some (Some tid)" "tid \<noteq> []" "0 < eq_amount rq" "get_hold (hb_escrow h) tid = None"
      "eq_amount rq \<le> funds (es_balances (hb_escrow h)) (agent_org cf h (ms_sender msg)) (eq_currency rq)"
    and task: "text_or_absent raw ''assignee'' = Some (Some (tk_assignee t))"
      "task_from_dict (tc_fresh tk (length (hb_out h))) (tc_now tk) (JObj raw) = Inr t"
    and assignee: "local_name h (Some (tk_assignee t)) = Some l" "map_of (hb_agents h) l = Some b" "tc_alive tk b"
    and result: "handle_frame cf tk c msg h = (ok, h')"
  shows "ok \<and> map_of (hb_tasks h') (tk_task_id t) = Some t \<and>
    (\<exists>hold. get_hold (hb_escrow h') tid = Some hold \<and> eh_status hold = Held \<and> eh_amount hold = eq_amount rq) \<and>
    funds (es_balances (hb_escrow h')) (agent_org cf h (ms_sender msg)) (eq_currency rq)
      = funds (es_balances (hb_escrow h)) (agent_org cf h (ms_sender msg)) (eq_currency rq) - eq_amount rq \<and>
    (\<exists>m. last (hb_out h') = Send b m \<and> ms_type m = MTaskAssign \<and> ms_content m = task_to_dict t \<and>
       ms_reply_to m = Some (ms_id msg))"
proof -
  let ?h0 = "count_message tk c h" and ?s = "ms_sender msg"
  define h2 where "h2 = h1\<lparr>hb_gate := g\<rparr>"
  have h1: "h1 = ?h0\<lparr>hb_engine := hb_engine h1\<rparr>" by (rule guard_keeps [OF raw(2)])
  have f: "hb_tasks h2 = hb_tasks h" "hb_escrow h2 = hb_escrow h" "hb_agents h2 = hb_agents h" "hb_out h2 = hb_out h"
    unfolding h2_def by (subst h1, simp)+
  have "hb_identities h2 = hb_identities h" unfolding h2_def by (subst h1, simp)
  then have org: "agent_org cf h2 = agent_org cf h" by (rule agent_org_same)
  obtain h3 hold where h3: "hold_for cf tk raw ?s h2 = (Submitted, h3)" "hb_tasks h3 = hb_tasks h" "hb_agents h3 = hb_agents h"
      "hb_out h3 = hb_out h" "get_hold (hb_escrow h3) tid = Some hold" "eh_status hold = Held" "eh_amount hold = eq_amount rq"
      "funds (es_balances (hb_escrow h3)) (agent_org cf h ?s) (eq_currency rq)
         = funds (es_balances (hb_escrow h)) (agent_org cf h ?s) (eq_currency rq) - eq_amount rq"
    using hold_placed [OF escrow(1,2,3) task(1) escrow(4,5), of h2 cf ?s tk] escrow(6,7) by (auto simp: f org get_hold_def)
  define h4 where "h4 = announce_task cf tk t ?s h3"
  define m where "m = hub_message tk h4 MTaskAssign ''hub'' (Some (tk_assignee t)) (task_to_dict t) (Some (ms_id msg)) (ms_token msg)"
  have m: "ms_to m = Some (tk_assignee t)" "ms_type m = MTaskAssign" "ms_content m = task_to_dict t" "ms_reply_to m = Some (ms_id msg)"
    by (simp_all add: m_def hub_message_def message_new_def)
  have "hb_agents h4 = hb_agents h" by (simp add: h4_def h3)
  then have "deliver_new cf tk MTaskAssign ''hub'' (Some (tk_assignee t)) (task_to_dict t) (Some (ms_id msg)) (ms_token msg) h4
      = (True, h4\<lparr>hb_out := hb_out h4 @ [Send b m]\<rparr>)"
    using assignee by (simp add: deliver_new_def m_def [symmetric] deliver_local [OF m(1)] local_name_same [of h4 h] send_alive)
  then have fin: "finalize_task_submission cf tk raw ?s (ms_token msg) (Some (ms_id msg)) h2
      = (Submitted, h4\<lparr>hb_out := hb_out h4 @ [Send b m]\<rparr>)"
    using task(2) by (simp add: finalize_task_submission_def h3 h4_def)
  have "handle_task_submit cf tk c msg ?h0 = (True, h4\<lparr>hb_out := hb_out h4 @ [Send b m]\<rparr>)"
  proof (rule passing_submission [OF raw(1,2)])
    show "bp_admit (fst (task_load ?h0)) (snd (task_load ?h0)) (tc_now tk) (hb_gate ?h0) = (None, g)"
      using raw(3) by (simp add: task_load_def)
    show "held_back cf raw (text_of (Some (tk_assignee t))) (agent_org cf ?h0 ?s) ?h0 = None"
      using raw(4) by (simp add: held_back_def text_of_def)
  qed (use task(1) fin in \<open>simp_all add: h2_def\<close>)
  then have "handle_frame cf tk c msg h = (True, h4\<lparr>hb_out := hb_out h4 @ [Send b m]\<rparr>)"
    using frame handle_frame_unkilled [OF frame(2), of cf tk c h]
    by (simp add: authenticated_types_def handle_authenticated_def frame_authenticated_def Let_def)
  with result have "ok" "h' = h4\<lparr>hb_out := hb_out h4 @ [Send b m]\<rparr>" by simp_all
  then show ?thesis using h3 m by (simp add: h4_def update_conv')
qed

text \<open>A submission that an approval rule holds back is put aside as it came, for a human to decide: no funds are
  held, no task is registered, and nobody but the observers is told.\<close>

theorem hub_holds_back:
  assumes frame: "ms_type msg = MTaskSubmit" "kill_target msg = None" "frame_authenticated cf tk msg h"
    and raw: "obj_of (ms_content msg) = Some raw" "text_or_absent raw ''task_id'' = Some (Some tid)"
      "text_or_absent raw ''assignee'' = Some a"
      "guard_submission cf tk raw (ms_sender msg) (count_message tk c h) = Some (None, h1)"
      "bp_admit (fst (task_load h)) (snd (task_load h)) (tc_now tk) (hb_gate h) = (None, g)"
    and rule: "held_back cf raw (text_of a) (agent_org cf h (ms_sender msg)) h = Some r"
    and result: "handle_frame cf tk c msg h = (ok, h')"
  shows "ok \<and> hb_tasks h' = hb_tasks h \<and> hb_escrow h' = hb_escrow h \<and>
    (\<exists>p. map_of (hb_pending h') tid = Some p \<and> su_task p = raw \<and> su_submitter p = ms_sender msg \<and>
       su_rule p = tr_name r \<and> su_token p = ms_token msg) \<and>
    (\<exists>es. hb_out h' = hb_out h @ es \<and> (\<forall>e \<in> set es. \<exists>d v. e = Tell d v))"
proof -
  let ?h0 = "count_message tk c h" and ?org = "agent_org cf h (ms_sender msg)"
  define h2 where "h2 = h1\<lparr>hb_gate := g\<rparr>"
  have h1: "h1 = ?h0\<lparr>hb_engine := hb_engine h1\<rparr>" by (rule guard_keeps [OF raw(4)])
  have f: "hb_tasks h2 = hb_tasks h" "hb_escrow h2 = hb_escrow h" "hb_out h2 = hb_out h"
    unfolding h2_def by (subst h1, simp)+
  have eq: "task_load h1 = task_load h" "hb_gate h1 = hb_gate h"
    by (subst h1, simp add: task_load_def)+
  have "held_back cf raw (text_of a) ?org h2 = held_back cf raw (text_of a) ?org h"
    unfolding h2_def by (subst h1) (simp add: held_back_def)
  then have "handle_task_submit cf tk c msg ?h0 = (True, suspend_task cf tk msg raw (text_of a) ?org r h2)"
    using raw rule by (simp add: handle_task_submit_def admit_submission_def case_prod_unfold eq h2_def)
  then have "ok" and h': "h' = suspend_task cf tk msg raw (text_of a) ?org r h2"
    using result frame handle_frame_unkilled [OF frame(2), of cf tk c h]
    by (simp_all add: authenticated_types_def handle_authenticated_def frame_authenticated_def Let_def)
  moreover have "hb_tasks h' = hb_tasks h" "hb_escrow h' = hb_escrow h" by (simp_all add: h' suspend_task_def Let_def f)
  moreover have "text_of (opt_of_json (py_get raw ''task_id'')) = tid"
    using raw(2) by (auto simp: text_or_absent_def text_of_def split: json.splits)
  then have "\<exists>p. map_of (hb_pending h') tid = Some p \<and> su_task p = raw \<and> su_submitter p = ms_sender msg \<and>
       su_rule p = tr_name r \<and> su_token p = ms_token msg"
    by (simp add: h' suspend_task_def Let_def update_conv')
  moreover have "\<exists>es. hb_out h' = hb_out h @ es \<and> (\<forall>e \<in> set es. \<exists>d v. e = Tell d v)"
    by (auto simp: h' suspend_task_def Let_def broadcast_entry_def broadcast_def f)
  ultimately show ?thesis by blast
qed


text \<open>C25: a token opens nothing but what it was issued for.  Where the library recovers what was signed from a token
  under the signer's key, and nothing under another, the hub accepts a token it issued exactly from the name it was
  issued to, and for an hour; and it never accepts it as the token of a peered organisation.\<close>

theorem hub_tokens_bind_names:
  assumes law: "\<And>p pem. hc_jwt_decode cf (hc_jwt_encode cf (hc_key cf) (hc_kid cf) (JObj p)) pem = (if pem = hc_pem cf then Some p else None)"
    and "token = generate_token cf now name agent_id roles org auth" "token \<noteq> []"
    and "peer \<noteq> hc_org cf" "map_of keys peer \<noteq> Some (hc_pem cf)"
  shows "verify_token cf keys later token claimed None = Some (claimed = name \<and> later \<le> now + 3600) \<and>
    verify_federated_token cf keys later token peer claimed' = Some False"
proof -
  have d: "decode_token cf keys token None = Some
      [(''agent_name'', JStr name), (''agent_id'', JStr agent_id), (''roles'', JList (List.map JStr roles)),
       (''org_id'', JStr org), (''auth_method'', JStr auth), (''issued_at'', JFloat now),
       (''expires_at'', JFloat (now + 3600)), (''issuer'', JStr ''intermesh-hub''), (''iss_org'', JStr (hc_org cf))]"
    using assms(3) by (simp add: decode_token_def assms(2) generate_token_def law token_expiry_def)
  have "verify_token cf keys later token claimed None = Some (claimed = name \<and> later \<le> now + 3600)"
    by (auto simp: verify_token_def d py_get_def expired_def json_below_def Let_def not_less split: bool.split)
  moreover have "decode_token cf keys token (Some peer) = None"
    using assms(3-5) by (auto simp: decode_token_def assms(2) generate_token_def law split: option.split)
  then have "verify_federated_token cf keys later token peer claimed' = Some False"
    by (simp add: verify_federated_token_def)
  ultimately show ?thesis by blast
qed

text \<open>C26: who registers gets what the key says.  A registration that writes an identity presents a key that the hub
  knows, and then the organisation, roles and permissions are the key's, whatever the frame claims; or it presents none,
  on a connection where self-declared identities are accepted.\<close>

theorem hub_registers_what_the_key_says:
  assumes "map_of (hb_identities (snd (handle_register cf tk c msg h))) n \<noteq> map_of (hb_identities h) n"
  shows "\<exists>d i. obj_of (ms_content msg) = Some d \<and>
    map_of (hb_identities (snd (handle_register cf tk c msg h))) n = Some i \<and> n = registered_name i \<and>
    ((\<exists>k info. py_get d ''api_key'' = JStr k \<and> lookup_key (hc_rt cf) k (hb_api_keys h) = Some info \<and>
        ki_org info = JStr (id_org_id i) \<and> id_name i = ms_sender msg \<and>
        List.map JStr (id_roles i) = (if ki_roles info = [] then [JStr ''standard''] else ki_roles info) \<and>
        List.map JStr (id_permissions i) = ki_permissions info) \<or>
     (\<not> py_true (py_get d ''api_key'') \<and> \<not> registration_refused cf tk c))"
proof -
  obtain d org roles perms auth i where r: "obj_of (ms_content msg) = Some d"
    "credentials_of cf tk c d h = Granted org roles perms auth"
    "identity_of_registration cf tk (ms_sender msg) d org roles perms h = Some i" "n = registered_name i"
    "map_of (hb_identities (snd (handle_register cf tk c msg h))) n = Some i"
    using assms by (rule register_changes)
  show ?thesis
  proof (cases "py_true (py_get d ''api_key'')")
    case True
    then obtain k info where "py_get d ''api_key'' = JStr k" "lookup_key (hc_rt cf) k (hb_api_keys h) = Some info"
        "org = ki_org info" "roles = JList (ki_roles info)" "perms = JList (ki_permissions info)"
      using r(2) by (auto simp: credentials_of_def split: json.splits option.splits)
    with r identity_granted [of cf tk "ms_sender msg" d org "ki_roles info" "ki_permissions info" h i] show ?thesis by auto
  next
    case False
    then have "\<not> registration_refused cf tk c" using r(2) by (auto simp: credentials_of_def split: if_splits)
    with False r show ?thesis by blast
  qed
qed

section \<open>Concrete frames\<close>

definition toy_hub :: hub where
  "toy_hub = toy_started\<lparr>hb_agents := [(''bob'', 2)],
     hb_escrow := \<lparr> es_balances = [((''acme'', ''USD''), 100)], es_holds = [] \<rparr>\<rparr>"

lemma toy_hub_fields [simp]:
  "hb_agents toy_hub = [(''bob'', 2)]" "hb_identities toy_hub = []" "hb_tasks toy_hub = []" "hb_peers toy_hub = []"
  "hb_peer_keys toy_hub = []" "hb_escrow toy_hub = \<lparr> es_balances = [((''acme'', ''USD''), 100)], es_holds = [] \<rparr>"
  "hb_engine toy_hub = engine_new guardrail_default" "hb_gate toy_hub = bp_new (Some limits_default) 5"
  "hb_sessions toy_hub = []" "hb_out toy_hub = []" "hb_api_keys toy_hub = toy_keys"
  by (simp_all add: toy_hub_def toy_started_def)

lemma toy_tick_fields [simp]: "tc_now toy_tick = 5" "tc_fresh toy_tick n = ''u''" "tc_alive toy_tick c"
  by (simp_all add: toy_tick_def)

lemma toy_count [simp]: "count_message toy_tick c toy_hub = toy_hub"
  by (simp add: count_message_def session_of_def)

lemma toy_agent_org [simp]: "agent_org toy_conf toy_hub n = (if CHR ''/'' \<in> set n then takeWhile (\<lambda>c. c \<noteq> CHR ''/'') n else ''acme'')"
  by (simp add: agent_org_def toy_conf_def)

lemma toy_verify [simp]: "verify_token toy_conf keys 5 token name None = Some (token \<noteq> [] \<and> token = name)"
  by (auto simp: verify_token_def decode_token_def toy_conf_def py_get_def expired_def json_below_def)

definition toy_raw :: "string \<Rightarrow> (string \<times> json) list" where
  "toy_raw assignee = [(''task_id'', JStr ''t1''), (''title'', JStr ''T''), (''orchestrator'', JStr ''alice''),
     (''assignee'', JStr assignee), (''input_data'', JStr ''x''), (''escrow'', JObj [(''amount'', JInt 10)])]"

definition toy_assigned :: task where
  "toy_assigned = task_new ''u'' 5 ''T'' ''alice'' ''bob'' (JStr ''x'') (Some ''t1'') Pending JNull JNull None JNull JNull"

lemma toy_raw_get [simp]:
  "py_get (toy_raw a) ''task_id'' = JStr ''t1''" "py_get (toy_raw a) ''assignee'' = JStr a"
  "py_get (toy_raw a) ''parent_task_id'' = JNull" "py_get (toy_raw a) ''estimated_cost'' = JNull"
  "py_get (toy_raw a) ''escrow'' = JObj [(''amount'', JInt 10)]" "map_of (toy_raw a) ''input_data'' = Some (JStr ''x'')"
  "py_get (toy_raw a) ''action'' = JNull" "toy_raw a \<noteq> []"
  by (simp_all add: py_get_def toy_raw_def)

lemma toy_raw_text [simp]:
  "text_or_absent (toy_raw a) ''task_id'' = Some (Some ''t1'')" "text_or_absent (toy_raw a) ''assignee'' = Some (Some a)"
  "text_or_absent (toy_raw a) ''parent_task_id'' = Some None" "obj_of (JObj (toy_raw a)) = Some (toy_raw a)"
  by (simp_all add: text_or_absent_def obj_of_def)

lemma toy_raw_task: "task_from_dict ''u'' 5 (JObj (toy_raw ''bob'')) = Inr toy_assigned"
proof -
  have "task_status_of (JStr ''pending'') = Some Pending" using task_status_of_value [of Pending] by (simp add: task_status_value_def)
  moreover have "nonblank (JStr ''T'')" "nonblank (JStr ''alice'')" "nonblank (JStr ''bob'')" by code_simp+
  ultimately show ?thesis
    by (simp add: task_from_dict_def mandatory_task_fields_def toy_raw_def py_get_def opt_str_def opt_number_def toy_assigned_def)
qed

lemma toy_guard: "\<exists>h1. guard_submission toy_conf toy_tick (toy_raw a) ''alice'' toy_hub = Some (None, h1)"
proof -
  have "List.find (\<lambda>p. False) ps = None" for ps :: "string list" by (induction ps) auto
  then have "find_pattern (\<lambda>p s. False) p t = None" for p t by (simp add: find_pattern_def)
  then show ?thesis
    by (simp add: guard_submission_def submitted_cost_def py_or_def text_of_def comparable_cost_def
        validate_task_submission_def is_tripped_def engine_new_def guardrail_default_def register_task_def count_recent_def
        get_policy_def inspect_payload_def record_event_def Let_def py_str_def)
qed

lemma toy_held:
  "held_back toy_conf (toy_raw ''bob'') a org toy_hub = None" "held_back toy_conf (toy_raw ''carol'') a org toy_hub = Some carol_rule"
  by (simp_all add: held_back_def requires_approval_def carol_rule_def rule_holds_back_def pattern_found_def any_star_def
      py_or_def py_str_def Let_def)

definition toy_frame :: "message_type \<Rightarrow> string option \<Rightarrow> json \<Rightarrow> message" where
  "toy_frame ty target content = message_new ''m1'' 5 ty ''alice'' target content None None JNull ''intermesh/v1'' (Some ''alice'')"

lemma toy_frame_fields [simp]:
  "ms_type (toy_frame ty target v) = ty" "ms_sender (toy_frame ty target v) = ''alice''" "ms_to (toy_frame ty target v) = target"
  "ms_content (toy_frame ty target v) = v" "ms_token (toy_frame ty target v) = Some ''alice''"
  "frame_authenticated toy_conf toy_tick (toy_frame ty target v) h"
  by (simp_all add: toy_frame_def message_new_def frame_authenticated_def text_of_def)

lemma toy_kill [simp]: "kill_target (toy_frame ty target (JObj (toy_raw a))) = None" "kill_target (toy_frame ty target (JStr s)) = None"
  by (simp_all add: kill_target_def)

lemma toy_gate: "\<exists>g. bp_admit (fst (task_load toy_hub)) (snd (task_load toy_hub)) 5 (hb_gate toy_hub) = (None, g)"
  by (simp add: task_load_def bp_admit_def bp_new_def limits_default_def bp_refill_def Let_def)

definition toy_escrow_request :: escrow_request where
  "toy_escrow_request = \<lparr> eq_amount = 10, eq_currency = ''USD'', eq_auto_release = True \<rparr>"

lemma toy_request: "escrow_request_of (JObj [(''amount'', JInt 10)]) = Some toy_escrow_request"
  "eq_amount toy_escrow_request = 10" "eq_currency toy_escrow_request = ''USD''"
  by (simp_all add: escrow_request_of_def py_get_def py_or_def py_float_def toy_escrow_request_def)

theorem hub_accepts_submission_witness:
  "\<exists>h'. handle_frame toy_conf toy_tick 3 (toy_frame MTaskSubmit None (JObj (toy_raw ''bob''))) toy_hub = (True, h') \<and>
     map_of (hb_tasks h') ''t1'' = Some toy_assigned \<and> funds (es_balances (hb_escrow h')) ''acme'' ''USD'' = 90 \<and>
     (\<exists>m. last (hb_out h') = Send 2 m \<and> ms_content m = task_to_dict toy_assigned)"
proof -
  let ?m = "toy_frame MTaskSubmit None (JObj (toy_raw ''bob''))"
  obtain h1 where g1: "guard_submission toy_conf toy_tick (toy_raw ''bob'') ''alice'' toy_hub = Some (None, h1)" using toy_guard by blast
  obtain g where g2: "bp_admit (fst (task_load toy_hub)) (snd (task_load toy_hub)) 5 (hb_gate toy_hub) = (None, g)"
    using toy_gate by blast
  obtain ok h' where r: "handle_frame toy_conf toy_tick 3 ?m toy_hub = (ok, h')" by fastforce
  have id: "tk_task_id toy_assigned = ''t1''" "tk_assignee toy_assigned = ''bob''"
    by (simp_all add: toy_assigned_def task_new_def str_or_def)
  have "ok \<and> map_of (hb_tasks h') (tk_task_id toy_assigned) = Some toy_assigned \<and>
    (\<exists>hold. get_hold (hb_escrow h') ''t1'' = Some hold \<and> eh_status hold = Held \<and> eh_amount hold = eq_amount toy_escrow_request) \<and>
    funds (es_balances (hb_escrow h')) (agent_org toy_conf toy_hub (ms_sender ?m)) (eq_currency toy_escrow_request)
      = funds (es_balances (hb_escrow toy_hub)) (agent_org toy_conf toy_hub (ms_sender ?m)) (eq_currency toy_escrow_request)
        - eq_amount toy_escrow_request \<and>
    (\<exists>m. last (hb_out h') = Send 2 m \<and> ms_type m = MTaskAssign \<and> ms_content m = task_to_dict toy_assigned \<and>
       ms_reply_to m = Some (ms_id ?m))"
  proof (rule hub_accepts_submission [where raw = "toy_raw ''bob''" and g = g and l = "''bob''" and ?h1.0 = h1 and c = 3])
    show "bp_admit (fst (task_load toy_hub)) (snd (task_load toy_hub)) (tc_now toy_tick) (hb_gate toy_hub) = (None, g)"
      using g2 by simp
  qed (simp_all add: g1 r id toy_request toy_raw_task toy_held get_hold_def funds_def local_name_def)
  then show ?thesis using r by (auto simp: id funds_def toy_request)
qed

theorem hub_holds_back_witness:
  "\<exists>h'. handle_frame toy_conf toy_tick 3 (toy_frame MTaskSubmit None (JObj (toy_raw ''carol''))) toy_hub = (True, h') \<and>
     hb_tasks h' = [] \<and> (\<exists>p. map_of (hb_pending h') ''t1'' = Some p \<and> su_task p = toy_raw ''carol'')"
proof -
  let ?m = "toy_frame MTaskSubmit None (JObj (toy_raw ''carol''))"
  obtain h1 where g1: "guard_submission toy_conf toy_tick (toy_raw ''carol'') ''alice'' toy_hub = Some (None, h1)" using toy_guard by blast
  obtain g where g2: "bp_admit (fst (task_load toy_hub)) (snd (task_load toy_hub)) 5 (hb_gate toy_hub) = (None, g)"
    using toy_gate by blast
  obtain ok h' where r: "handle_frame toy_conf toy_tick 3 ?m toy_hub = (ok, h')" by fastforce
  have "ok \<and> hb_tasks h' = hb_tasks toy_hub \<and> hb_escrow h' = hb_escrow toy_hub \<and>
    (\<exists>p. map_of (hb_pending h') ''t1'' = Some p \<and> su_task p = toy_raw ''carol'' \<and> su_submitter p = ms_sender ?m \<and>
       su_rule p = tr_name carol_rule \<and> su_token p = ms_token ?m) \<and>
    (\<exists>es. hb_out h' = hb_out toy_hub @ es \<and> (\<forall>e \<in> set es. \<exists>d v. e = Tell d v))"
  proof (rule hub_holds_back [where cf = toy_conf and raw = "toy_raw ''carol''" and a = "Some ''carol''" and g = g and ?h1.0 = h1 and c = 3])
    show "bp_admit (fst (task_load toy_hub)) (snd (task_load toy_hub)) (tc_now toy_tick) (hb_gate toy_hub) = (None, g)"
      using g2 by simp
  qed (simp_all add: g1 r toy_held)
  then show ?thesis using r by auto
qed

text \<open>An update of a known task that its orchestrator, who is not here, is not told of.\<close>

definition toy_working :: hub where
  "toy_working = toy_hub\<lparr>hb_tasks := [(''t1'', toy_assigned)]\<rparr>"

definition toy_running :: "(string \<times> json) list" where
  "toy_running = [(''task_id'', JStr ''t1''), (''title'', JStr ''T''), (''orchestrator'', JStr ''alice''), (''assignee'', JStr ''bob''),
     (''input_data'', JStr ''x''), (''status'', JStr ''running'')]"



text \<open>Signing that the tokens' law describes: a token carries the number of what it says.\<close>

instance json :: countable
  by countable_datatype

definition numbered_conf :: "(string, string) hub_conf" where
  "numbered_conf = toy_conf\<lparr>hc_jwt_encode := \<lambda>k kid v. replicate (Suc (to_nat v)) (CHR ''x''),
     hc_jwt_decode := \<lambda>token pem. (case from_nat (length token - 1) of JObj p \<Rightarrow> if pem = ''PEM acme'' then Some p else None | _ \<Rightarrow> None)\<rparr>"

theorem hub_tokens_bind_names_witness:
  "\<exists>token. verify_token numbered_conf [(''beta'', ''PEM beta'')] 3600 token ''alice'' None = Some True \<and>
     verify_token numbered_conf [(''beta'', ''PEM beta'')] 3700 token ''alice'' None = Some False \<and>
     verify_federated_token numbered_conf [(''beta'', ''PEM beta'')] 3600 token ''beta'' ''alice'' = Some False"
proof -
  define token where "token = generate_token numbered_conf 60 ''alice'' ''a1'' [''standard''] ''acme'' ''api_key''"
  have c: "hc_pem numbered_conf = ''PEM acme''" "hc_org numbered_conf = ''acme''" by (simp_all add: numbered_conf_def toy_conf_def)
  have law: "hc_jwt_decode numbered_conf (hc_jwt_encode numbered_conf (hc_key numbered_conf) (hc_kid numbered_conf) (JObj p)) pem
      = (if pem = hc_pem numbered_conf then Some p else None)" for p pem
    by (simp add: c) (simp add: numbered_conf_def)
  have "token \<noteq> []" by (simp add: token_def generate_token_def numbered_conf_def)
  then have "verify_token numbered_conf [(''beta'', ''PEM beta'')] later token ''alice'' None = Some (''alice'' = ''alice'' \<and> later \<le> 60 + 3600) \<and>
      verify_federated_token numbered_conf [(''beta'', ''PEM beta'')] later token ''beta'' ''alice'' = Some False" for later
    by (intro hub_tokens_bind_names [OF law token_def]) (simp_all add: c)
  from this [of 3600] this [of 3700] show ?thesis by auto
qed

theorem hub_registers_what_the_key_says_witness:
  "\<exists>i. map_of (hb_identities (snd (handle_register toy_conf toy_tick 3 (toy_frame MRegister None (JObj [])) toy_hub)))
     ''acme/alice'' = Some i \<and> \<not> registration_refused toy_conf toy_tick 3"
proof -
  have w: "wants_telemetry [] ''alice'' = Some False" by code_simp
  have "\<not> registration_refused toy_conf toy_tick 3"
    by (simp add: registration_refused_def is_local_connection_def) (simp add: toy_tick_def)
  then have c: "credentials_of toy_conf toy_tick 3 [] toy_hub = Granted (JStr ''acme'') (JList [JStr ''standard'']) (JList []) ''self_declared''"
    by (simp add: credentials_of_def py_get_def)
  obtain i where i: "identity_of_registration toy_conf toy_tick ''alice'' [] (JStr ''acme'') (JList [JStr ''standard'']) (JList []) toy_hub = Some i"
      "registered_name i = ''acme/alice''"
    by (simp add: identity_of_registration_def identity_from_dict_def py_get_def strings_field_def opt_str_def identity_new_def
        registered_name_def qualified_name_def Let_def)
  have t: "is_tripped 5 n (engine_new guardrail_default) = (False, engine_new guardrail_default)" for n by (simp add: is_tripped_def engine_new_def)
  have "hb_identities (snd (handle_register toy_conf toy_tick 3 (toy_frame MRegister None (JObj [])) toy_hub)) = [(''acme/alice'', i)]"
    using i by (simp add: handle_register_def obj_of_def w py_get_def register_agent_def c may_watch_def t Let_def complete_identities)
  then have ch: "map_of (hb_identities (snd (handle_register toy_conf toy_tick 3 (toy_frame MRegister None (JObj [])) toy_hub))) ''acme/alice''
      \<noteq> map_of (hb_identities toy_hub) ''acme/alice''" by simp
  from hub_registers_what_the_key_says [OF this] show ?thesis by (auto simp: obj_of_def py_get_def)
qed

end
