(* ===== verification/HubGaps.thy ===== *)
theory HubGaps
  imports HubSafety
begin

text \<open>
  Where a hub allows more than it means to.  Each lemma states what the code does, without the condition that one would
  expect to find among its hypotheses.
\<close>

text \<open>The kill switch asks for no token: any frame on any connection that names a connected agent closes it.\<close>

theorem kill_switch_needs_no_token:
  assumes "kill_target msg = Some (JStr s)" "local_name h (Some s) = Some l" "map_of (hb_agents h) l = Some victim"
    and "tc_alive tk victim"
  shows "Close victim \<in> set (hb_out (snd (handle_frame cf tk c msg h)))"
  using assms by (simp add: handle_frame_def handle_kill_def Let_def say_def send_alive emit_def)

text \<open>A relay frame that claims to come from the hub's own organisation is checked against the hub's own key.  An agent
  that wraps a message in one sends it to any organisation, peered or not.\<close>

theorem own_relay_skips_isolation:
  assumes "ms_type msg = MFederationRelay" "kill_target msg = None" "ms_sender msg = hc_org cf"
    and "message_from_dict (tc_fresh tk (length (hb_out h))) (tc_now tk) (ms_content msg) = Inr inner" "ms_type inner = MMessage"
    and "verify_federated_token cf (hb_peer_keys h) (tc_now tk) (text_of (ms_token inner)) (hc_org cf) (ms_sender inner) = Some True"
    and "ms_to inner = Some target" "local_name h (Some target) = Some l" "map_of (hb_agents h) l = Some d" "tc_alive tk d"
  shows "hb_out (snd (handle_frame cf tk c msg h)) = hb_out h @ [Send d inner]"
  using assms by (simp add: handle_frame_def handle_federation_relay_def process_relayed_def deliver_local send_alive)

text \<open>A cluster relay is delivered whoever sent it: no frame is asked to have joined the cluster before.\<close>

theorem cluster_relay_needs_no_join:
  assumes "ms_type msg = MClusterRelay" "kill_target msg = None"
    and "message_from_dict (tc_fresh tk (length (hb_out h))) (tc_now tk) (py_or (ms_content msg) (JObj [])) = Inr inner"
    and "local_name h (ms_to inner) = Some l" "map_of (hb_agents h) l = Some d" "tc_alive tk d"
  shows "hb_out (snd (handle_frame cf tk c msg h)) = hb_out h @ [Send d inner]"
  using assms by (simp add: handle_frame_def handle_cluster_relay_def send_alive)

text \<open>Any connection may announce itself as the hub of an organisation that is already peered; its key replaces the one
  in use.\<close>

theorem peer_key_can_be_replaced:
  assumes "ms_type msg = MPeerConnect" "kill_target msg = None" "obj_of (ms_content msg) = Some d"
    and "py_get d ''org'' = JStr org" "org \<noteq> []" "py_get d ''public_key'' = JStr pem" "pem \<noteq> []"
    and "load_public_pem (hc_rt cf) pem = Inr k" "tc_alive tk c"
  shows "map_of (hb_peer_keys (snd (handle_frame cf tk c msg h))) org = Some pem"
  using assms
  by (simp add: handle_frame_def handle_peer_connect_def Let_def quietly_def say_def send_msg_def emit_def update_conv' str_or_def)

text \<open>The end of a connection takes its agent's name off the hub even when the agent has registered again on another
  connection since.\<close>

theorem old_connection_unregisters:
  assumes "map_of (hb_sessions h) old = Some s" "se_agent s = Some name" "name \<noteq> []"
    and "map_of (hb_agents h) name = Some current" "current \<noteq> old" "distinct (List.map fst (hb_agents h))"
  shows "map_of (hb_agents (close_session cf tk old h)) name = None"
proof -
  have "map_of (dict_del name (hb_agents h)) name = None" by (simp add: delete_conv')
  with assms show ?thesis
    by (simp add: close_session_def session_of_def Let_def drop_peers_def drop_agent_def)
qed

text \<open>The funds of a submission are held before its task is read: when the task cannot be read, they stay held for a
  task that does not exist.\<close>

theorem hold_survives_unreadable_task:
  assumes "py_true (py_get raw ''escrow'')" "escrow_request_of (py_get raw ''escrow'') = Some rq"
    and "text_or_absent raw ''task_id'' = Some (Some tid)" "text_or_absent raw ''assignee'' = Some a"
    and "tid \<noteq> []" "0 < eq_amount rq" "map_of (es_holds (hb_escrow h)) tid = None"
    and "eq_amount rq \<le> funds (es_balances (hb_escrow h)) (agent_org cf h s) (eq_currency rq)"
    and "task_from_dict (tc_fresh tk (length (hb_out h))) (tc_now tk) (JObj raw) = Inl e"
  shows "\<exists>h' hold. finalize_task_submission cf tk raw s tok r h = (SubmitRaises, h') \<and>
    get_hold (hb_escrow h') tid = Some hold \<and> eh_status hold = Held \<and> hb_tasks h' = hb_tasks h"
  by (rule hold_placed [where tk = tk, OF assms(1-8)]) (use assms(9) in \<open>auto simp: finalize_task_submission_def\<close>)

end
