(* ===== verification/HubAdmin.thy ===== *)
theory HubAdmin
  imports HubSafety
begin

text \<open>
  \<open>admin.py\<close> and the hub's handling of its frames: commands of the administration console.  A command needs a token that
  was issued for an API key with the role \<open>admin\<close> or \<open>org_admin\<close>; the latter is confined to the organisation of the key.
  The commands on snapshots are in \<open>Snapshots\<close>, the dispatch and the frames in \<open>HubConsole\<close>.

  A parameter of a command that is of another type than the command works with, where Python would go on with it, is
  outside the model and reads as an exception.
\<close>

section \<open>Who may\<close>

text \<open>What the hub tells of itself, and the texts of errors.\<close>

datatype snapshot_error =
    BadName
  | SnapshotExists
  | SnapshotMissing
  | Unreadable
  | UnknownFormat
  | PassphraseRequired
  | CannotDecrypt

datatype admin_error =
    NoToken
  | NeedsApiKey
  | NeedsRole
  | UnknownCommand json
  | OutsideOrg
  | NotConnected
  | UnknownTask
  | TaskFinished task_status
  | KeyForOtherOrg
  | OrgRequired
  | KeysReadOnly
  | FingerprintRequired
  | FingerprintUnknown
  | PolicyOfOtherOrg
  | AmountRequired
  | EscrowRefused escrow_error
  | NoSuchHold
  | NotPending
  | NotDelivered escrow_error
  | HubAdminOnly
  | NameRequired
  | SnapshotSays snapshot_error
  | NoSafetySnapshot snapshot_error
  | UnknownSnapshot

record admin_env =
  ad_version :: string
  ad_store :: string
  ad_ephemeral :: bool
  ad_key_source :: string
  ad_wording :: "admin_error \<Rightarrow> string"

record scope =
  sc_org :: string
  sc_scoped :: bool

datatype admin_answer = Answer json | Denied admin_error | AdminRaises

type_synonym command = "hub \<Rightarrow> admin_answer \<times> hub"

text \<open>\<open>None\<close> is a \<open>TypeError\<close>, \<open>Some None\<close> that the token may administer.\<close>

definition token_roles :: "(string \<times> json) list \<Rightarrow> json" where
  "token_roles p = (case map_of p ''roles'' of None \<Rightarrow> JList [] | Some v \<Rightarrow> v)"

definition authorize_admin :: "(string \<times> json) list \<Rightarrow> admin_error option option" where
  "authorize_admin p =
     (if py_get p ''auth_method'' \<noteq> JStr ''api_key'' then Some (Some NeedsApiKey)
      else (case (text_in ''admin'' (token_roles p), text_in ''org_admin'' (token_roles p)) of
              (Some a, Some oa) \<Rightarrow> Some (if a \<or> oa then None else Some NeedsRole)
            | _ \<Rightarrow> None))"

definition caller_scope :: "(string \<times> json) list \<Rightarrow> scope" where
  "caller_scope p =
     \<lparr> sc_org = str_of_json (case map_of p ''org_id'' of None \<Rightarrow> JStr ''default'' | Some v \<Rightarrow> v),
       sc_scoped = (text_in ''admin'' (token_roles p) \<noteq> Some True \<and> text_in ''org_admin'' (token_roles p) = Some True) \<rparr>"

definition org_of :: "string \<Rightarrow> string" where
  "org_of name = (if CHR ''/'' \<in> set name then takeWhile (\<lambda>c. c \<noteq> CHR ''/'') name else ''default'')"

definition hub_level_events :: "string list" where
  "hub_level_events = [''GENESIS'', ''PEERING_ESTABLISHED'', ''PEERING_ACCEPTED'']"

definition task_visible :: "scope \<Rightarrow> task \<Rightarrow> bool" where
  "task_visible sc t \<longleftrightarrow> \<not> sc_scoped sc \<or> sc_org sc \<in> {org_of (tk_orchestrator t), org_of (tk_assignee t)}"

definition entry_visible :: "scope \<Rightarrow> audit_entry \<Rightarrow> bool" where
  "entry_visible sc e \<longleftrightarrow> \<not> sc_scoped sc \<or>
     ae_event_type e \<notin> set hub_level_events \<and> sc_org sc \<in> {org_of (ae_sender e), org_of (text_of (ae_target e))}"

definition identity_visible :: "scope \<Rightarrow> identity \<Rightarrow> bool" where
  "identity_visible sc i \<longleftrightarrow> \<not> sc_scoped sc \<or> id_org_id i = sc_org sc"

definition key_row_visible :: "scope \<Rightarrow> json \<Rightarrow> bool" where
  "key_row_visible sc row \<longleftrightarrow> \<not> sc_scoped sc \<or> (case row of JObj d \<Rightarrow> py_get d ''org_id'' = JStr (sc_org sc) | _ \<Rightarrow> False)"

definition hold_visible :: "scope \<Rightarrow> escrow_hold \<Rightarrow> bool" where
  "hold_visible sc x \<longleftrightarrow> \<not> sc_scoped sc \<or> sc_org sc \<in> {eh_payer x, eh_payee x}"

definition pending_visible :: "scope \<Rightarrow> suspended \<Rightarrow> bool" where
  "pending_visible sc p \<longleftrightarrow> \<not> sc_scoped sc \<or>
     sc_org sc \<in> {org_of (su_submitter p), org_of (str_of_json (py_get (su_task p) ''assignee''))}"

text \<open>A key of one of the hub's dictionaries: \<open>None\<close> is the \<open>TypeError\<close> of a list or an object; what is no text is no
  key.\<close>

definition key_text :: "json \<Rightarrow> string option option" where
  "key_text v = (if hashable v then Some (opt_of_json v) else None)"

definition looked_up :: "'v dict \<Rightarrow> json \<Rightarrow> (string \<times> 'v) option option" where
  "looked_up d v = map_option (\<lambda>k. Option.bind k (\<lambda>s. map_option (Pair s) (map_of d s))) (key_text v)"

text \<open>\<open>xs[a:b]\<close>.\<close>

definition py_index :: "int \<Rightarrow> nat \<Rightarrow> nat" where
  "py_index i n = nat (if i < 0 then int n + i else i)"

definition py_slice :: "int \<Rightarrow> int \<Rightarrow> 'a list \<Rightarrow> 'a list" where
  "py_slice a b xs = drop (py_index a (length xs)) (take (py_index b (length xs)) xs)"

section \<open>Reading\<close>

definition status_counts :: "task list \<Rightarrow> (string \<times> json) list" where
  "status_counts ts = List.map (\<lambda>(s, n). (s, JInt n))
     (foldl (\<lambda>d t. let s = task_status_value (tk_status t) in
        dict_set s ((case map_of d s of None \<Rightarrow> 0 | Some n \<Rightarrow> n) + 1) d) [] ts)"

definition hub_info :: "('sk, 'pk) hub_conf \<Rightarrow> admin_env \<Rightarrow> tick \<Rightarrow> scope \<Rightarrow> command" where
  "hub_info cf env tk sc h =
     (let ids = List.filter (identity_visible sc) (List.map snd (hb_identities h));
          ts = List.filter (task_visible sc) (List.map snd (hb_tasks h));
          (in_flight, queued) = task_load h
      in (Answer (JObj
           [(''org'', JStr (if sc_scoped sc then sc_org sc else hc_org cf)), (''version'', JStr (ad_version env)),
            (''agents_online'', JInt (int (length (List.filter (\<lambda>i. map_of (hb_agents h) (id_qualified_name i) \<noteq> None) ids)))),
            (''agents_known'', JInt (int (length ids))), (''tasks_total'', JInt (int (length ts))),
            (''tasks_by_status'', JObj (status_counts ts)),
            (''audit_entries'', JInt (int (length (List.filter (entry_visible sc) (hb_audit h))))),
            (''audit_intact'', JBool (verify_integrity (hc_rt cf) (hb_audit h))),
            (''federation_peers'', JList (if sc_scoped sc then [] else List.map JStr (sort (List.map fst (hb_peers h))))),
            (''state_backend'', JStr (ad_store env)), (''state_ephemeral'', JBool (ad_ephemeral env)),
            (''api_keys'', JInt (int (length (List.filter (key_row_visible sc) (key_describe (hb_api_keys h)))))),
            (''api_keys_source'', JStr (ad_key_source env)), (''api_keys_mutable'', JBool (ks_path (hb_api_keys h))),
            (''load'', bp_snapshot in_flight queued (hb_gate h)), (''server_time'', JFloat (tc_now tk))]), h))"

definition agent_row :: "hub \<Rightarrow> string \<Rightarrow> identity \<Rightarrow> json" where
  "agent_row h name i = JObj
     [(''name'', JStr name), (''agent_id'', JStr (id_agent_id i)), (''org_id'', JStr (id_org_id i)),
      (''capabilities'', JList (List.map JStr (id_capabilities i))), (''roles'', JList (List.map JStr (id_roles i))),
      (''permissions'', JList (List.map JStr (id_permissions i))), (''metadata'', id_metadata i),
      (''fingerprint'', JStr (id_fingerprint i)), (''encrypted'', JBool (py_true (json_of_opt (id_public_key i)))),
      (''online'', JBool (map_of (hb_agents h) name \<noteq> None)),
      (''pending_tasks'', JInt (int (length (List.filter
         (\<lambda>t. tk_assignee t = name \<and> tk_status t \<in> {Pending, Running}) (List.map snd (hb_tasks h))))))]"

definition agents_list :: "scope \<Rightarrow> command" where
  "agents_list sc h =
     (let shown = List.filter (\<lambda>(name, i). identity_visible sc i) (sort_key fst (hb_identities h))
      in (Answer (JObj
           [(''agents'', JList (List.map (\<lambda>(name, i). agent_row h name i) shown)),
            (''online'', JInt (int (length (List.filter (\<lambda>(name, i). map_of (hb_agents h) name \<noteq> None) shown)))),
            (''known'', JInt (int (length shown)))]), h))"

text \<open>Times are finite numbers.\<close>

definition num_of :: "json \<Rightarrow> rat" where
  "num_of v = (case py_float v of Inr q \<Rightarrow> q | Inl e \<Rightarrow> 0)"

definition task_listing :: "task \<Rightarrow> json" where
  "task_listing t = JObj
     [(''task_id'', JStr (tk_task_id t)), (''title'', JStr (tk_title t)), (''summary'', json_of_opt (tk_summary t)),
      (''orchestrator'', JStr (tk_orchestrator t)), (''assignee'', JStr (tk_assignee t)),
      (''status'', JStr (task_status_value (tk_status t))), (''error_message'', tk_error t),
      (''created_at'', tk_created_at t), (''updated_at'', tk_updated_at t), (''encrypted_payload'', JBool (py_is_str (tk_input t)))]"

definition int_param :: "(string \<times> json) list \<Rightarrow> string \<Rightarrow> int \<Rightarrow> int option" where
  "int_param d k dflt = (case py_int (case map_of d k of None \<Rightarrow> JInt dflt | Some v \<Rightarrow> v) of Inl e \<Rightarrow> None | Inr n \<Rightarrow> Some n)"

definition tasks_list :: "scope \<Rightarrow> (string \<times> json) list \<Rightarrow> command" where
  "tasks_list sc d h = (case int_param d ''limit'' 100 of
     None \<Rightarrow> (AdminRaises, h)
   | Some limit \<Rightarrow>
       (let status = py_get d ''status''; assignee = py_get d ''assignee'';
            ts = sort_key (\<lambda>t. - num_of (tk_updated_at t)) (List.filter (\<lambda>t. task_visible sc t \<and>
                   (py_true status \<longrightarrow> JStr (task_status_value (tk_status t)) = status) \<and>
                   (py_true assignee \<longrightarrow> JStr (tk_assignee t) = assignee)) (List.map snd (hb_tasks h)))
        in (Answer (JObj [(''tasks'', JList (List.map task_listing (py_slice 0 (min limit 500) ts))),
                          (''total'', JInt (int (length ts)))]), h)))"

definition audit_list :: "('sk, 'pk) hub_conf \<Rightarrow> scope \<Rightarrow> (string \<times> json) list \<Rightarrow> command" where
  "audit_list cf sc d h = (case (int_param d ''limit'' 100, int_param d ''offset'' 0) of
     (Some limit, Some offset) \<Rightarrow>
       (let ty = py_get d ''event_type'';
            es = rev (List.filter (\<lambda>e. entry_visible sc e \<and> (py_true ty \<longrightarrow> JStr (ae_event_type e) = ty)) (hb_audit h))
        in (Answer (JObj
             [(''entries'', JList (List.map audit_entry_to_dict (py_slice offset (offset + min limit 1000) es))),
              (''total'', JInt (int (length es))), (''chain_length'', JInt (int (length (hb_audit h)))),
              (''intact'', JBool (verify_integrity (hc_rt cf) (hb_audit h)))]), h))
   | _ \<Rightarrow> (AdminRaises, h))"

definition first_break :: "('sk, 'pk) runtime \<Rightarrow> audit_entry list \<Rightarrow> nat option" where
  "first_break rt chain = List.find (\<lambda>i. ae_prev_hash (chain ! i) \<noteq> ae_hash (chain ! (i - 1)) \<or>
     ae_hash (chain ! i) \<noteq> compute_hash rt (chain ! i)) [1..<length chain]"

definition audit_verify :: "('sk, 'pk) hub_conf \<Rightarrow> tick \<Rightarrow> command" where
  "audit_verify cf tk h =
     (let b = first_break (hc_rt cf) (hb_audit h)
      in (Answer (JObj [(''intact'', JBool (b = None)), (''chain_length'', JInt (int (length (hb_audit h)))),
            (''broken_at_index'', case b of None \<Rightarrow> JNull | Some i \<Rightarrow> JInt (int i)), (''verified_at'', JFloat (tc_now tk))]), h))"

definition apikeys_list :: "admin_env \<Rightarrow> scope \<Rightarrow> command" where
  "apikeys_list env sc h =
     (Answer (JObj [(''keys'', JList (List.filter (key_row_visible sc) (key_describe (hb_api_keys h)))),
        (''source'', JStr (ad_key_source env)), (''mutable'', JBool (ks_path (hb_api_keys h)))]), h)"

definition approvals_list :: "scope \<Rightarrow> command" where
  "approvals_list sc h =
     (let shown = sort_key (\<lambda>(i, p). su_submitted_at p) (List.filter (\<lambda>(i, p). pending_visible sc p) (hb_pending h))
      in (Answer (JObj
           [(''pending'', JList (List.map (\<lambda>(i, p). JObj
               [(''task_id'', JStr i), (''title'', py_get (su_task p) ''title''), (''submitter'', JStr (su_submitter p)),
                (''assignee'', py_get (su_task p) ''assignee''), (''rule'', JStr (su_rule p)), (''reason'', JStr (su_reason p)),
                (''estimated_cost'', py_get (su_task p) ''estimated_cost''), (''submitted_at'', JFloat (su_submitted_at p))]) shown)),
            (''count'', JInt (int (length shown)))]), h))"

section \<open>Agents and tasks\<close>

definition agent_disconnect :: "tick \<Rightarrow> scope \<Rightarrow> (string \<times> json) list \<Rightarrow> command" where
  "agent_disconnect tk sc d h = (case (looked_up (hb_identities h) (py_get d ''name''), looked_up (hb_agents h) (py_get d ''name'')) of
     (Some known, Some online) \<Rightarrow>
       if sc_scoped sc \<and> (case known of None \<Rightarrow> True | Some (n, i) \<Rightarrow> id_org_id i \<noteq> sc_org sc) then (Denied OutsideOrg, h)
       else (case online of
               None \<Rightarrow> (Denied NotConnected, h)
             | Some (n, c) \<Rightarrow> (Answer (JObj [(''disconnected'', JStr n)]), emit (Close c) h))
   | _ \<Rightarrow> (AdminRaises, h))"

definition cancelled_text :: string where
  "cancelled_text = ''Annul'' @ [char_of (233 :: nat)] @ ''e par un administrateur.''"

definition task_cancel :: "('sk, 'pk) hub_conf \<Rightarrow> tick \<Rightarrow> scope \<Rightarrow> (string \<times> json) list \<Rightarrow> command" where
  "task_cancel cf tk sc d h = (case looked_up (hb_tasks h) (py_get d ''task_id'') of
     None \<Rightarrow> (AdminRaises, h)
   | Some None \<Rightarrow> (Denied UnknownTask, h)
   | Some (Some (i, t)) \<Rightarrow>
       if \<not> task_visible sc t then (Denied OutsideOrg, h)
       else if tk_status t \<in> {Completed, Failed} then (Denied (TaskFinished (tk_status t)), h)
       else (let t' = update_status (tc_now tk) Failed JNull (JStr cancelled_text) None t
             in (Answer (JObj [(''task_id'', JStr (tk_task_id t')), (''status'', JStr (task_status_value (tk_status t')))]),
                 remember_task cf t' h)))"

definition task_retry :: "('sk, 'pk) hub_conf \<Rightarrow> tick \<Rightarrow> scope \<Rightarrow> (string \<times> json) list \<Rightarrow> command" where
  "task_retry cf tk sc d h = (case looked_up (hb_tasks h) (py_get d ''task_id'') of
     None \<Rightarrow> (AdminRaises, h)
   | Some None \<Rightarrow> (Denied UnknownTask, h)
   | Some (Some (i, t)) \<Rightarrow>
       if \<not> task_visible sc t then (Denied OutsideOrg, h)
       else (let t' = update_status (tc_now tk) Pending JNull JNull None t;
                 (delivered, h') = send_task_to_agent cf tk t' (remember_task cf t' h)
             in (Answer (JObj [(''task_id'', JStr (tk_task_id t')), (''status'', JStr (task_status_value (tk_status t'))),
                               (''delivered'', JBool delivered)]), h')))"

section \<open>Keys\<close>

definition key_warning :: string where
  "key_warning = ''Cette cl'' @ [char_of (233 :: nat)] @ '' ne sera plus jamais affich'' @ [char_of (233 :: nat)] @ ''e.''"

definition apikey_create :: "('sk, 'pk) hub_conf \<Rightarrow> tick \<Rightarrow> scope \<Rightarrow> (string \<times> json) list \<Rightarrow> command" where
  "apikey_create cf tk sc d h =
     (let org = py_get d ''org_id'' in
      if sc_scoped sc \<and> py_true org \<and> org \<noteq> JStr (sc_org sc) then (Denied KeyForOtherOrg, h)
      else if \<not> sc_scoped sc \<and> \<not> py_true org then (Denied OrgRequired, h)
      else (case (case map_of d ''label'' of None \<Rightarrow> Some [] | Some v \<Rightarrow> opt_of_json v) of
              None \<Rightarrow> (AdminRaises, h)
            | Some label \<Rightarrow>
                (case create_key (hc_rt cf) (tc_fresh tk (length (hb_out h))) (tc_now tk)
                        (if sc_scoped sc then JStr (sc_org sc) else org)
                        (py_or (py_get d ''roles'') (JList [JStr ''service_account'']))
                        (py_or (py_get d ''permissions'') (JList [])) label (hb_api_keys h) of
                   (Inr raw, ks) \<Rightarrow>
                     (Answer (JObj [(''key'', JStr raw), (''warning'', JStr key_warning)]), h\<lparr>hb_api_keys := ks\<rparr>)
                 | (Inl ReadOnlyKeys, ks) \<Rightarrow> (Denied KeysReadOnly, h\<lparr>hb_api_keys := ks\<rparr>)
                 | (Inl e, ks) \<Rightarrow> (AdminRaises, h\<lparr>hb_api_keys := ks\<rparr>))))"

definition apikey_revoke :: "scope \<Rightarrow> (string \<times> json) list \<Rightarrow> command" where
  "apikey_revoke sc d h =
     (if \<not> py_true (py_get d ''fingerprint'') then (Denied FingerprintRequired, h)
      else (case py_get d ''fingerprint'' of
              JStr fp \<Rightarrow>
                (let rows = List.filter (\<lambda>row. case row of JObj r \<Rightarrow> str_prefix fp (str_of_json (py_get r ''fingerprint'')) | _ \<Rightarrow> False)
                              (key_describe (hb_api_keys h))
                 in if sc_scoped sc \<and> \<not> (length rows = 1 \<and> key_row_visible sc (hd rows)) then (Denied FingerprintUnknown, h)
                    else (case revoke_key fp (hb_api_keys h) of
                            (Inr True, ks) \<Rightarrow> (Answer (JObj [(''revoked'', JStr fp)]), h\<lparr>hb_api_keys := ks\<rparr>)
                          | (Inr False, ks) \<Rightarrow> (Denied FingerprintUnknown, h\<lparr>hb_api_keys := ks\<rparr>)
                          | (Inl e, ks) \<Rightarrow> (Denied KeysReadOnly, h\<lparr>hb_api_keys := ks\<rparr>)))
            | _ \<Rightarrow> (AdminRaises, h)))"

section \<open>Guardrails\<close>

text \<open>\<open>None\<close> is an \<open>AdminError\<close>, \<open>Some None\<close> an organisation that is no text.\<close>

definition target_org :: "('sk, 'pk) hub_conf \<Rightarrow> scope \<Rightarrow> (string \<times> json) list \<Rightarrow> string option option" where
  "target_org cf sc d =
     (let org = py_get d ''org_id'' in
      if sc_scoped sc then (if py_true org \<and> org \<noteq> JStr (sc_org sc) then None else Some (Some (sc_org sc)))
      else if py_true org then Some (opt_of_json org) else Some (Some (hc_org cf)))"

definition for_org :: "('sk, 'pk) hub_conf \<Rightarrow> scope \<Rightarrow> (string \<times> json) list \<Rightarrow> (string \<Rightarrow> command) \<Rightarrow> command" where
  "for_org cf sc d f h = (case target_org cf sc d of
     None \<Rightarrow> (Denied PolicyOfOtherOrg, h) | Some None \<Rightarrow> (AdminRaises, h) | Some (Some org) \<Rightarrow> f org h)"

definition policy_answer :: "string \<Rightarrow> guardrail_policy \<Rightarrow> admin_answer" where
  "policy_answer org p = Answer (JObj [(''org_id'', JStr org), (''policy'', guardrail_to_dict p)])"

definition guardrails_policy :: "('sk, 'pk) hub_conf \<Rightarrow> scope \<Rightarrow> (string \<times> json) list \<Rightarrow> command" where
  "guardrails_policy cf sc d = for_org cf sc d (\<lambda>org h. (policy_answer org (get_policy (Some org) (hb_engine h)), h))"

definition editable_fields :: "string list" where
  "editable_fields = [''max_cascade_depth'', ''max_cost_per_task'', ''max_tasks_per_minute'', ''circuit_breaker_threshold'',
     ''blocked_patterns'']"

definition edited_policy :: "(string \<times> json) list \<Rightarrow> guardrail_policy \<Rightarrow> guardrail_policy option" where
  "edited_policy d p = (case guardrail_to_dict p of
     JObj cur \<Rightarrow> guardrail_of_dict (JObj (foldl (\<lambda>c (k, v). if k \<in> set editable_fields then dict_set k v c else c) cur d))
   | _ \<Rightarrow> None)"

definition guardrails_set_policy :: "('sk, 'pk) hub_conf \<Rightarrow> scope \<Rightarrow> (string \<times> json) list \<Rightarrow> command" where
  "guardrails_set_policy cf sc d = for_org cf sc d (\<lambda>org h.
     case edited_policy d (get_policy (Some org) (hb_engine h)) of
       None \<Rightarrow> (AdminRaises, h)
     | Some p \<Rightarrow> (policy_answer org p, h\<lparr>hb_engine := set_org_policy org p (hb_engine h)\<rparr>))"

section \<open>Escrow\<close>

definition currency_param :: "(string \<times> json) list \<Rightarrow> string option" where
  "currency_param d = (case map_of d ''currency'' of None \<Rightarrow> Some ''USD'' | Some v \<Rightarrow> opt_of_json v)"

definition balance_answer :: "string \<Rightarrow> string \<Rightarrow> rat \<Rightarrow> (string \<times> json) list \<Rightarrow> admin_answer" where
  "balance_answer org cur b rest = Answer (JObj ([(''org_id'', JStr org), (''currency'', JStr cur), (''balance'', JFloat b)] @ rest))"

definition escrow_balance :: "('sk, 'pk) hub_conf \<Rightarrow> scope \<Rightarrow> (string \<times> json) list \<Rightarrow> command" where
  "escrow_balance cf sc d = for_org cf sc d (\<lambda>org h. case currency_param d of
     None \<Rightarrow> (AdminRaises, h)
   | Some cur \<Rightarrow> (balance_answer org cur (funds (es_balances (hb_escrow h)) org cur) [], h))"

definition escrow_grant :: "('sk, 'pk) hub_conf \<Rightarrow> scope \<Rightarrow> (string \<times> json) list \<Rightarrow> command" where
  "escrow_grant cf sc d = for_org cf sc d (\<lambda>org h.
     if \<not> py_true (py_get d ''amount'') then (Denied AmountRequired, h)
     else (case (currency_param d, py_float (py_get d ''amount'')) of
             (Some cur, Inr a) \<Rightarrow>
               (case Escrow.grant org a cur (es_balances (hb_escrow h)) of
                  Inl e \<Rightarrow> (Denied (EscrowRefused e), h)
                | Inr b \<Rightarrow>
                    (balance_answer org cur (funds b org cur) [(''simulated'', JBool True)],
                     h\<lparr>hb_escrow := (hb_escrow h)\<lparr>es_balances := b\<rparr>\<rparr>))
           | _ \<Rightarrow> (AdminRaises, h)))"

definition escrow_list :: "scope \<Rightarrow> (string \<times> json) list \<Rightarrow> command" where
  "escrow_list sc d h = (case (if sc_scoped sc then Some (Some (sc_org sc)) else text_or_absent d ''org_id'') of
     None \<Rightarrow> (AdminRaises, h)
   | Some org \<Rightarrow>
       (let hs = list_holds (hb_escrow h) org
        in (Answer (JObj [(''holds'', JList (List.map hold_to_dict hs)), (''total'', JInt (int (length hs)))]), h)))"

definition resolve_hold ::
  "scope \<Rightarrow> (string \<times> json) list \<Rightarrow> (string \<Rightarrow> escrow \<Rightarrow> (escrow_error + escrow_hold) \<times> escrow) \<Rightarrow> command" where
  "resolve_hold sc d act h =
     (if \<not> py_true (py_get d ''task_id'') then (Denied NoSuchHold, h)
      else (case looked_up (es_holds (hb_escrow h)) (py_get d ''task_id'') of
              None \<Rightarrow> (AdminRaises, h)
            | Some None \<Rightarrow> (Denied NoSuchHold, h)
            | Some (Some (i, x)) \<Rightarrow>
                if \<not> hold_visible sc x then (Denied OutsideOrg, h)
                else (case act i (hb_escrow h) of
                        (Inl e, es) \<Rightarrow> (Denied (EscrowRefused e), h\<lparr>hb_escrow := es\<rparr>)
                      | (Inr y, es) \<Rightarrow> (Answer (hold_to_dict y), h\<lparr>hb_escrow := es\<rparr>))))"

definition escrow_release :: "tick \<Rightarrow> scope \<Rightarrow> (string \<times> json) list \<Rightarrow> command" where
  "escrow_release tk sc d = resolve_hold sc d (release (tc_now tk))"

definition escrow_refund :: "tick \<Rightarrow> scope \<Rightarrow> (string \<times> json) list \<Rightarrow> command" where
  "escrow_refund tk sc d = resolve_hold sc d (refund (tc_now tk))"

section \<open>Approvals\<close>

text \<open>A suspended task without an identifier is kept under the empty text.\<close>

definition pop_pending :: "scope \<Rightarrow> (string \<times> json) list \<Rightarrow> hub \<Rightarrow> (admin_answer + string \<times> suspended) \<times> hub" where
  "pop_pending sc d h =
     (case looked_up (hb_pending h) (case py_get d ''task_id'' of JNull \<Rightarrow> JStr [] | v \<Rightarrow> v) of
        None \<Rightarrow> (Inl AdminRaises, h)
      | Some None \<Rightarrow> (Inl (Denied NotPending), h)
      | Some (Some (i, p)) \<Rightarrow>
          if \<not> pending_visible sc p then (Inl (Denied OutsideOrg), h)
          else (Inr (i, p), h\<lparr>hb_pending := dict_del i (hb_pending h)\<rparr>))"

definition approver_param :: "(string \<times> json) list \<Rightarrow> string option" where
  "approver_param d = opt_of_json (py_or (py_get d ''_approver'') (JStr ''admin''))"

definition approval_approve :: "('sk, 'pk) hub_conf \<Rightarrow> tick \<Rightarrow> scope \<Rightarrow> (string \<times> json) list \<Rightarrow> command" where
  "approval_approve cf tk sc d h = (case pop_pending sc d h of
     (Inl a, h1) \<Rightarrow> (a, h1)
   | (Inr (i, p), h1) \<Rightarrow>
       (case approver_param d of
          None \<Rightarrow> (AdminRaises, h1)
        | Some approver \<Rightarrow>
            (case finalize_task_submission cf tk (su_task p) (su_submitter p) (su_token p) None h1 of
               (Submitted, h2) \<Rightarrow>
                 (Answer (JObj [(''task_id'', JStr i), (''status'', JStr ''approved'')]),
                  hub_log cf tk ''APPROVAL_GRANTED'' approver (opt_of_json (py_get (su_task p) ''assignee''))
                    [(''task_id'', JStr i), (''rule'', JStr (su_rule p)), (''submitter'', JStr (su_submitter p))] h2)
             | (EscrowFailed e, h2) \<Rightarrow> (Denied (NotDelivered e), h2\<lparr>hb_pending := dict_set i p (hb_pending h2)\<rparr>)
             | (SubmitRaises, h2) \<Rightarrow> (AdminRaises, h2))))"

definition approval_deny :: "('sk, 'pk) hub_conf \<Rightarrow> tick \<Rightarrow> scope \<Rightarrow> (string \<times> json) list \<Rightarrow> command" where
  "approval_deny cf tk sc d h = (case pop_pending sc d h of
     (Inl a, h1) \<Rightarrow> (a, h1)
   | (Inr (i, p), h1) \<Rightarrow>
       (case approver_param d of
          None \<Rightarrow> (AdminRaises, h1)
        | Some approver \<Rightarrow>
            (let note = py_or (py_get d ''note'') (JStr [])
             in (Answer (JObj [(''task_id'', JStr i), (''status'', JStr ''denied''), (''note'', note)]),
                 hub_log cf tk ''APPROVAL_DENIED'' approver (opt_of_json (py_get (su_task p) ''assignee''))
                   [(''task_id'', JStr i), (''rule'', JStr (su_rule p)), (''submitter'', JStr (su_submitter p)), (''note'', note)] h1))))"

end
