(* ===== verification/Crypto.thy ===== *)
theory Crypto
  imports Canonical PyValues
begin

text \<open>
  \<open>crypto.py\<close>: the envelope for a recipient (RSA-OAEP around an AES-GCM key) and the blob under a passphrase (PBKDF2
  and AES-GCM), with the texts they travel as.  The primitives are a parameter; the bytes that \<open>os.urandom\<close> and the key
  generator draw are arguments.  Bytes are characters below 256.
\<close>

section \<open>Standard Base64\<close>

text \<open>The library's URL-safe variant is the standard one with two characters exchanged.\<close>

definition std_char :: "char \<Rightarrow> char" where
  "std_char c = (if c = CHR ''-'' then CHR ''+'' else if c = CHR ''_'' then CHR ''/'' else c)"

definition b64encode :: "string \<Rightarrow> string" where
  "b64encode s = List.map std_char (urlsafe_b64encode s)"

definition b64decode :: "string \<Rightarrow> string option" where
  "b64decode s = (if \<exists>c \<in> set s. (128 :: nat) \<le> of_char c then None
     else a2b 0 0 0 (List.filter (\<lambda>c. c \<noteq> CHR ''-'' \<and> c \<noteq> CHR ''_'') s))"

text \<open>With \<open>validate=True\<close>: nothing but the alphabet, and at most two padding characters at the end.\<close>

definition b64_alphabet :: "char \<Rightarrow> bool" where
  "b64_alphabet c \<longleftrightarrow> b64_val c \<noteq> None \<and> c \<noteq> CHR ''-'' \<and> c \<noteq> CHR ''_''"

definition b64decode_strict :: "string \<Rightarrow> string option" where
  "b64decode_strict s =
     (let pad = dropWhile b64_alphabet s
      in if length pad \<le> 2 \<and> (\<forall>c \<in> set pad. c = CHR ''='') then b64decode s else None)"

section \<open>The primitives\<close>

record ('rsk, 'rpk) crypto_lib =
  cl_pem :: "string \<Rightarrow> 'rpk option"
  cl_rsa_encrypt :: "'rpk \<Rightarrow> string \<Rightarrow> string \<Rightarrow> string"
  cl_rsa_decrypt :: "'rsk \<Rightarrow> string \<Rightarrow> string option"
  cl_aes_encrypt :: "string \<Rightarrow> string \<Rightarrow> string \<Rightarrow> string"
  cl_aes_decrypt :: "string \<Rightarrow> string \<Rightarrow> string \<Rightarrow> string option"
  cl_pbkdf2 :: "int \<Rightarrow> string \<Rightarrow> string \<Rightarrow> string"

text \<open>What a private key recovers: what was encrypted for its public key.\<close>

definition aes_ok :: "('rsk, 'rpk) crypto_lib \<Rightarrow> bool" where
  "aes_ok L \<longleftrightarrow> (\<forall>k n m. cl_aes_decrypt L k n (cl_aes_encrypt L k n m) = Some m)"

definition key_pair :: "('rsk, 'rpk) crypto_lib \<Rightarrow> 'rsk \<Rightarrow> string \<Rightarrow> bool" where
  "key_pair L sk pem \<longleftrightarrow> (\<exists>pk. cl_pem L pem = Some pk \<and> (\<forall>r m. cl_rsa_decrypt L sk (cl_rsa_encrypt L pk r m) = Some m))"

section \<open>Envelopes\<close>

definition plain_format :: json_format where
  "plain_format = \<lparr> ascii_only = True, item_sep = '', '', key_sep = '': '', float_text = (\<lambda>q. []) \<rparr>"

definition envelope_json :: "string \<Rightarrow> string \<Rightarrow> string \<Rightarrow> json" where
  "envelope_json ek n ct = JObj [(''ek'', JStr (b64encode ek)), (''n'', JStr (b64encode n)), (''ct'', JStr (b64encode ct))]"

text \<open>\<open>None\<close> is the exception of a key that cannot be read.  The envelope has no floats, so their format does not matter.\<close>

definition encrypt_for ::
  "('rsk, 'rpk) crypto_lib \<Rightarrow> string \<Rightarrow> string \<Rightarrow> string \<Rightarrow> string \<Rightarrow> string \<Rightarrow> string option" where
  "encrypt_for L aes_key nonce seed pem plaintext =
     (let ct = cl_aes_encrypt L aes_key nonce (utf8_encode plaintext)
      in case cl_pem L pem of
           None \<Rightarrow> None
         | Some pk \<Rightarrow> Some (b64encode (utf8_encode (ser plain_format (envelope_json (cl_rsa_encrypt L pk seed aes_key) nonce ct)))))"

definition member_bytes :: "(string \<times> json) list \<Rightarrow> string \<Rightarrow> string option" where
  "member_bytes d k = (case map_of d k of Some (JStr s) \<Rightarrow> b64decode s | _ \<Rightarrow> None)"

definition decrypt_with :: "('rsk, 'rpk) crypto_lib \<Rightarrow> 'rsk \<Rightarrow> string \<Rightarrow> string option" where
  "decrypt_with L sk text =
     (case Option.bind (b64decode text) loads_bytes of
        Some (JObj d) \<Rightarrow>
          (case (Option.bind (member_bytes d ''ek'') (cl_rsa_decrypt L sk), member_bytes d ''n'', member_bytes d ''ct'') of
             (Some k, Some n, Some ct) \<Rightarrow> Option.bind (cl_aes_decrypt L k n ct) utf8_decode
           | _ \<Rightarrow> None)
      | _ \<Rightarrow> None)"

definition envelope_keys :: "string list" where
  "envelope_keys = [''ek'', ''n'', ''ct'']"

definition looks_encrypted :: "json \<Rightarrow> bool" where
  "looks_encrypted v = (case v of
     JStr s \<Rightarrow>
       if length s < 32 then False
       else (case Option.bind (b64decode_strict s) loads_bytes of
               Some (JObj d) \<Rightarrow> set (List.map fst d) = set envelope_keys
             | _ \<Rightarrow> False)
   | _ \<Rightarrow> False)"

section \<open>Blobs under a passphrase\<close>

definition pbkdf2_iterations :: int where "pbkdf2_iterations = 100000"

definition derive_key :: "('rsk, 'rpk) crypto_lib \<Rightarrow> string \<Rightarrow> string \<Rightarrow> string" where
  "derive_key L passphrase salt = cl_pbkdf2 L pbkdf2_iterations salt (utf8_encode passphrase)"

definition encrypt_blob :: "('rsk, 'rpk) crypto_lib \<Rightarrow> string \<Rightarrow> string \<Rightarrow> string \<Rightarrow> string \<Rightarrow> (string \<times> json) list" where
  "encrypt_blob L salt nonce plaintext passphrase =
     [(''salt'', JStr (b64encode salt)), (''nonce'', JStr (b64encode nonce)),
      (''ciphertext'', JStr (b64encode (cl_aes_encrypt L (derive_key L passphrase salt) nonce (utf8_encode plaintext))))]"

definition decrypt_blob :: "('rsk, 'rpk) crypto_lib \<Rightarrow> json \<Rightarrow> string \<Rightarrow> string option" where
  "decrypt_blob L blob passphrase = (case blob of
     JObj d \<Rightarrow>
       (case (member_bytes d ''salt'', member_bytes d ''nonce'', member_bytes d ''ciphertext'') of
          (Some salt, Some nonce, Some ct) \<Rightarrow>
            Option.bind (cl_aes_decrypt L (derive_key L passphrase salt) nonce ct) utf8_decode
        | _ \<Rightarrow> None)
   | _ \<Rightarrow> None)"

definition vault :: "('rsk, 'rpk) crypto_lib \<Rightarrow> string \<Rightarrow> string \<Rightarrow> string \<Rightarrow> string \<Rightarrow> json" where
  "vault L salt nonce pem passphrase = JObj (encrypt_blob L salt nonce pem passphrase @ [(''version'', JStr ''nexus_vault_v1'')])"

section \<open>Lemmas\<close>

lemma a2b_map:
  assumes "\<And>c. b64_val (f c) = b64_val c" "\<And>c. f c = CHR ''='' \<longleftrightarrow> c = CHR ''=''"
  shows "a2b q l p (List.map f s) = a2b q l p s"
proof (induction s arbitrary: q l p)
  case (Cons c s)
  show ?case by (simp add: assms Cons.IH split: option.split)
qed simp

lemma std_char_props: "b64_val (std_char c) = b64_val c" "std_char c = CHR ''='' \<longleftrightarrow> c = CHR ''=''"
  "std_char c \<noteq> CHR ''-''" "std_char c \<noteq> CHR ''_''"
proof -
  have "b64_val (CHR ''+'') = b64_val (CHR ''-'')" "b64_val (CHR ''/'') = b64_val (CHR ''_'')" by code_simp+
  then show "b64_val (std_char c) = b64_val c" by (simp add: std_char_def)
qed (simp_all add: std_char_def)

lemma std_chr_alphabet [simp]: "n < 64 \<Longrightarrow> b64_alphabet (std_char (b64_chr n))"
  by (simp add: b64_alphabet_def std_char_props)

lemma b64_padding:
  "\<not> b64_alphabet (CHR ''='')" "std_char (CHR ''='') = CHR ''=''"
  by code_simp+

lemma a2b_urlsafe: "a2b 0 l p (urlsafe_b64encode s) = Some s"
  by (induction s arbitrary: l p rule: urlsafe_b64encode.induct)
    (simp_all add: byte_parts byte_div b64_chr_props numeral_2_eq_2)

lemma dropWhile_b64encode: "\<exists>k \<le> 2. dropWhile b64_alphabet (b64encode s) = replicate k (CHR ''='')"
  by (induction s rule: urlsafe_b64encode.induct)
    (auto simp: b64encode_def byte_parts b64_padding intro: exI [of _ 0] exI [of _ "Suc 0"] exI [of _ "Suc (Suc 0)"])

lemma b64encode_chars: "c \<in> set (b64encode s) \<Longrightarrow> c \<noteq> CHR ''-'' \<and> c \<noteq> CHR ''_'' \<and> \<not> (128 :: nat) \<le> of_char c"
proof -
  assume "c \<in> set (b64encode s)"
  then obtain d where d: "d \<in> set (urlsafe_b64encode s)" "c = std_char d" by (auto simp: b64encode_def)
  obtain k where "urlsafe_b64encode s = b64_body s @ replicate k (CHR ''='')" using urlsafe_b64encode_body by blast
  with d(1) b64_body_all [of "\<lambda>c. of_char c < (128 :: nat)" s] b64_chr_props(2)
  have "of_char d < (128 :: nat)" by auto
  then have "\<not> (128 :: nat) \<le> of_char c" by (simp add: d(2) std_char_def)
  with d(2) show ?thesis by (simp add: std_char_props)
qed

lemma b64decode_encode [simp]: "b64decode (b64encode s) = Some s"
proof -
  have "List.filter (\<lambda>c. c \<noteq> CHR ''-'' \<and> c \<noteq> CHR ''_'') (b64encode s) = b64encode s"
    using b64encode_chars by (auto simp: filter_id_conv)
  moreover have "a2b 0 0 0 (b64encode s) = Some s"
    by (simp add: b64encode_def a2b_map std_char_props a2b_urlsafe)
  ultimately show ?thesis using b64encode_chars by (auto simp: b64decode_def)
qed

lemma b64decode_strict_encode [simp]: "b64decode_strict (b64encode s) = Some s"
  using dropWhile_b64encode [of s] by (auto simp: b64decode_strict_def Let_def)

lemma length_b64encode: "4 * length s \<le> 3 * length (b64encode s)"
  by (induction s rule: urlsafe_b64encode.induct) (simp_all add: b64encode_def)

lemma envelope_read [simp]: "loads (ser plain_format (envelope_json ek n ct)) = Some (envelope_json ek n ct)"
  by (rule loads_ser) (simp_all add: plain_format_def format_ok_def envelope_json_def)

lemma length_utf8: "length s \<le> length (utf8_encode s)"
proof (induction s)
  case (Cons c s)
  have "1 \<le> length (utf8_char c)" by (simp add: utf8_char_def Let_def)
  with Cons show ?case by (simp add: utf8_encode_def)
qed simp

lemma length_envelope: "27 \<le> length (ser plain_format (envelope_json ek n ct))"
  by (simp add: envelope_json_def plain_format_def ser_str_def esc_char_def)

lemma encrypt_for_Some:
  "encrypt_for L k n r pem text = Some e \<longleftrightarrow>
     (\<exists>pk. cl_pem L pem = Some pk \<and>
       e = b64encode (utf8_encode (ser plain_format
             (envelope_json (cl_rsa_encrypt L pk r k) n (cl_aes_encrypt L k n (utf8_encode text))))))"
  by (auto simp: encrypt_for_def split: option.splits)

lemma envelope_long: "32 \<le> length (b64encode (utf8_encode (ser plain_format (envelope_json ek n ct))))"
  using length_b64encode [of "utf8_encode (ser plain_format (envelope_json ek n ct))"]
    length_envelope [of ek n ct] length_utf8 [of "ser plain_format (envelope_json ek n ct)"] by linarith

lemma member_bytes_envelope:
  "member_bytes [(''ek'', JStr (b64encode a)), (''n'', JStr (b64encode b)), (''ct'', JStr (b64encode c))] ''ek'' = Some a"
  "member_bytes [(''ek'', JStr (b64encode a)), (''n'', JStr (b64encode b)), (''ct'', JStr (b64encode c))] ''n'' = Some b"
  "member_bytes [(''ek'', JStr (b64encode a)), (''n'', JStr (b64encode b)), (''ct'', JStr (b64encode c))] ''ct'' = Some c"
  by (simp_all add: member_bytes_def)

lemma blob_opens:
  assumes "aes_ok L"
  shows "decrypt_blob L (JObj (encrypt_blob L salt nonce text passphrase)) passphrase = Some text"
  using assms by (simp add: decrypt_blob_def encrypt_blob_def member_bytes_def aes_ok_def)

section \<open>Properties\<close>

lemma envelope_opens:
  assumes "encrypt_for L k n r pem text = Some e" "key_pair L sk pem" "aes_ok L"
  shows "decrypt_with L sk e = Some text \<and> looks_encrypted (JStr e)"
proof -
  from assms(1,2) obtain pk where pk: "\<forall>r m. cl_rsa_decrypt L sk (cl_rsa_encrypt L pk r m) = Some m"
    and e: "e = b64encode (utf8_encode (ser plain_format
          (envelope_json (cl_rsa_encrypt L pk r k) n (cl_aes_encrypt L k n (utf8_encode text)))))"
    by (auto simp: encrypt_for_Some key_pair_def)
  have "decrypt_with L sk e = Some text"
    using assms(3) pk
    by (simp add: decrypt_with_def e loads_bytes_def aes_ok_def)
      (simp add: envelope_json_def member_bytes_envelope)
  moreover have "looks_encrypted (JStr e)"
    using envelope_long
    by (simp add: looks_encrypted_def e loads_bytes_def not_less)
      (simp add: envelope_json_def envelope_keys_def)
  ultimately show ?thesis by simp
qed

text \<open>What \<open>encrypt_for\<close> produces is opened by \<open>decrypt_with\<close> under the private key of the recipient, for every text,
  every drawn key, nonce and padding, and \<open>looks_encrypted\<close> recognises it: an agent without its key refuses it rather
  than take it for data.  The hypotheses say that RSA-OAEP and AES-GCM undo what they did.
\<close>

theorem envelope_roundtrip:
  assumes "encrypt_for L k n r pem text = Some e" "key_pair L sk pem" "aes_ok L"
  shows "decrypt_with L sk e = Some text \<and> looks_encrypted (JStr e)"
  using assms by (rule envelope_opens)

definition toy_crypto :: "(string, string) crypto_lib" where
  "toy_crypto = \<lparr> cl_pem = (\<lambda>p. if p = [] then None else Some p),
     cl_rsa_encrypt = (\<lambda>pk r m. pk @ m),
     cl_rsa_decrypt = (\<lambda>sk c. if take (length sk) c = sk then Some (drop (length sk) c) else None),
     cl_aes_encrypt = (\<lambda>k n m. k @ n @ m),
     cl_aes_decrypt = (\<lambda>k n c. if take (length k + length n) c = k @ n then Some (drop (length k + length n) c) else None),
     cl_pbkdf2 = (\<lambda>i salt pw. salt @ pw) \<rparr>"

lemma toy_crypto_ok: "aes_ok toy_crypto" "key_pair toy_crypto ''bob'' ''bob''"
  by (simp_all add: aes_ok_def key_pair_def toy_crypto_def)

theorem envelope_roundtrip_witness:
  "\<exists>e. encrypt_for toy_crypto ''k'' ''n'' ''r'' ''bob'' ''hello'' = Some e \<and>
     decrypt_with toy_crypto ''bob'' e = Some ''hello'' \<and> looks_encrypted (JStr e)"
proof -
  obtain e where "encrypt_for toy_crypto ''k'' ''n'' ''r'' ''bob'' ''hello'' = Some e"
    by (auto simp: encrypt_for_Some toy_crypto_def)
  with envelope_roundtrip [OF this toy_crypto_ok(2,1)] show ?thesis by blast
qed

text \<open>
  A text encrypted at rest is read back under its passphrase, whatever salt and nonce were drawn; the vault that
  holds a private key is such a text with a version beside it.
\<close>

theorem blob_roundtrip:
  assumes "aes_ok L"
  shows "decrypt_blob L (JObj (encrypt_blob L salt nonce text passphrase)) passphrase = Some text \<and>
    decrypt_blob L (vault L salt nonce text passphrase) passphrase = Some text"
  using assms blob_opens [OF assms] by (simp add: decrypt_blob_def encrypt_blob_def vault_def member_bytes_def aes_ok_def)

theorem blob_roundtrip_witness:
  "decrypt_blob toy_crypto (JObj (encrypt_blob toy_crypto ''s'' ''n'' ''key'' ''pw'')) ''pw'' = Some ''key'' \<and>
   decrypt_blob toy_crypto (vault toy_crypto ''s'' ''n'' ''key'' ''pw'') ''pw'' = Some ''key''"
  by (rule blob_roundtrip [OF toy_crypto_ok(1)])

end
