(* ===== verification/Snapshots.thy ===== *)
theory Snapshots
  imports HubAdmin Crypto
begin

text \<open>
  \<open>snapshot.py\<close> and the commands of \<open>admin.py\<close> that use it: what a snapshot captures of a hub, how it is put back, and the
  directory of the files.  A file is the JSON document it holds, filed under its name without the suffix, or \<open>None\<close> when
  it holds none; the layout of the text (\<open>indent=2\<close>), the temporary file and the access rights are not modelled.  The
  salt, the nonce and the identifiers that are drawn are in \<open>snap_env\<close>.
\<close>

type_synonym snap_dir = "json option dict"

record ('rsk, 'rpk) snap_env =
  sv_crypto :: "('rsk, 'rpk) crypto_lib"
  sv_salt :: string
  sv_nonce :: string
  sv_uuid :: "string \<Rightarrow> string"
  sv_warning :: string

text \<open>A \<open>SnapshotError\<close>, or another exception.\<close>

datatype snap_exc = Snap snapshot_error | SnapRaises

definition snap_format :: string where "snap_format = ''intermesh-snapshot/1''"
definition snap_suffix :: string where "snap_suffix = ''.nxsnap''"

section \<open>Names\<close>

definition alnum :: "char \<Rightarrow> bool" where
  "alnum c \<longleftrightarrow> (let n = of_char c :: nat in 48 \<le> n \<and> n \<le> 57 \<or> 65 \<le> n \<and> n \<le> 90 \<or> 97 \<le> n \<and> n \<le> 122)"

definition name_char :: "char \<Rightarrow> bool" where
  "name_char c \<longleftrightarrow> alnum c \<or> c \<in> set ''._-''"

text \<open>\<open>^[A-Za-z0-9][A-Za-z0-9._-]{0,63}$\<close>; the dollar sign also matches before a final line feed.\<close>

definition plain_name :: "string \<Rightarrow> bool" where
  "plain_name s = (case s of [] \<Rightarrow> False | c # cs \<Rightarrow> alnum c \<and> list_all name_char cs \<and> length cs \<le> 63)"

definition name_matches_re :: "string \<Rightarrow> bool" where
  "name_matches_re s \<longleftrightarrow> plain_name s \<or> s \<noteq> [] \<and> last s = CHR 0x0A \<and> plain_name (butlast s)"

definition validate_name :: "json \<Rightarrow> snap_exc + string" where
  "validate_name v =
     (if \<not> py_true v then Inl (Snap BadName)
      else (case v of JStr s \<Rightarrow> if name_matches_re s then Inr s else Inl (Snap BadName) | _ \<Rightarrow> Inl SnapRaises))"

section \<open>Capture and restoration\<close>

definition captured_tasks :: "task dict \<Rightarrow> json" where
  "captured_tasks d = JObj (List.map (\<lambda>(i, t). (i, task_to_dict t)) d)"

definition captured_identities :: "identity dict \<Rightarrow> json" where
  "captured_identities d = JObj (List.map (\<lambda>(name, i). (name, identity_to_dict i)) d)"

definition capture_state :: "hub \<Rightarrow> (string \<times> json) list" where
  "capture_state h =
     [(''identities'', captured_identities (hb_identities h)), (''tasks'', captured_tasks (hb_tasks h)),
      (''api_keys'', JObj (export_hashed (hb_api_keys h))), (''guardrails'', JObj (export_policies (hb_engine h))),
      (''escrow'', escrow_export (hb_escrow h))]"

text \<open>Every entry of a part of the state; \<open>None\<close> is an exception.\<close>

definition part_entries :: "(string \<Rightarrow> json \<Rightarrow> 'a option) \<Rightarrow> (string \<times> json) list \<Rightarrow> string \<Rightarrow> 'a dict option" where
  "part_entries f state k =
     Option.bind (obj_of (py_get state k)) (\<lambda>d. those (List.map (\<lambda>(n, raw). map_option (Pair n) (f n raw)) d))"

definition read_identities ::
  "('sk, 'pk) hub_conf \<Rightarrow> ('rsk, 'rpk) snap_env \<Rightarrow> tick \<Rightarrow> (string \<times> json) list \<Rightarrow> identity dict option" where
  "read_identities cf sv tk state =
     part_entries (\<lambda>n. identity_from_dict (hc_rt cf) (sv_uuid sv n) (tc_now tk)) state ''identities''"

definition read_tasks :: "('rsk, 'rpk) snap_env \<Rightarrow> tick \<Rightarrow> (string \<times> json) list \<Rightarrow> task dict option" where
  "read_tasks sv tk state = part_entries (\<lambda>n raw. case task_from_dict (sv_uuid sv n) (tc_now tk) raw of
     Inl e \<Rightarrow> None | Inr t \<Rightarrow> Some t) state ''tasks''"

record restore_report =
  rp_restored :: "string list"
  rp_skipped :: "(string \<times> string) list"
  rp_counts :: "(string \<times> int) list"
  rp_orphans :: "string list"

definition restored :: "string \<Rightarrow> restore_report \<Rightarrow> restore_report" where
  "restored what r = r\<lparr>rp_restored := rp_restored r @ [what]\<rparr>"

definition report_dict :: "restore_report \<Rightarrow> (string \<times> json) list" where
  "report_dict r =
     [(''restored'', JList (List.map JStr (rp_restored r))),
      (''skipped'', JList (List.map (\<lambda>(w, why). JObj [(''what'', JStr w), (''reason'', JStr why)]) (rp_skipped r)))]
     @ List.map (\<lambda>(k, n). (k, JInt n)) (rp_counts r)
     @ (if rp_orphans r = [] then [] else [(''orphaned_online'', JList (List.map JStr (rp_orphans r)))])"

text \<open>The parts in the order in which they are put back, each with whether it completed.  An exception leaves behind what
  was put back before it.\<close>

type_synonym restoration = "restore_report \<times> hub \<Rightarrow> bool \<times> restore_report \<times> hub"

definition restore_registries :: "identity dict \<Rightarrow> task dict \<Rightarrow> restoration" where
  "restore_registries ids ts = (\<lambda>(r, h).
     (True, r\<lparr>rp_restored := rp_restored r @ [''identities'', ''tasks''],
              rp_counts := rp_counts r @ [(''identities'', int (length ids)), (''tasks'', int (length ts))]\<rparr>,
      h\<lparr>hb_identities := ids, hb_tasks := ts\<rparr>))"

definition restore_store :: "('sk, 'pk) hub_conf \<Rightarrow> admin_env \<Rightarrow> restoration" where
  "restore_store cf env = (\<lambda>(r, h).
     if ad_ephemeral env then (True, r, h)
     else (case replace_tasks (hc_rt cf) (List.map snd (hb_tasks h))
                  (replace_identities (hc_rt cf) (hb_identities h) (hb_store h)) of
             (True, st) \<Rightarrow> (True, restored ''store'' r, h\<lparr>hb_store := st\<rparr>)
           | (False, st) \<Rightarrow> (False, r, h\<lparr>hb_store := st\<rparr>)))"

definition restore_keys :: "admin_env \<Rightarrow> (string \<times> json) list \<Rightarrow> restoration" where
  "restore_keys env state = (\<lambda>(r, h). case map_of state ''api_keys'' of
     None \<Rightarrow> (True, r, h)
   | Some v \<Rightarrow>
       if \<not> ks_path (hb_api_keys h) then (True, r\<lparr>rp_skipped := rp_skipped r @ [(''api_keys'', ad_wording env KeysReadOnly)]\<rparr>, h)
       else (case v of
               JObj d \<Rightarrow>
                 (case import_hashed d (hb_api_keys h) of
                    (Inr u, ks) \<Rightarrow> (True, (restored ''api_keys'' r)\<lparr>rp_counts := rp_counts r @ [(''api_keys'', int (length d))]\<rparr>,
                                    h\<lparr>hb_api_keys := ks\<rparr>)
                  | (Inl e, ks) \<Rightarrow> (False, r, h\<lparr>hb_api_keys := ks\<rparr>))
             | _ \<Rightarrow> (False, r, h)))"

definition restore_guardrails :: "(string \<times> json) list \<Rightarrow> restoration" where
  "restore_guardrails state = (\<lambda>(r, h). case map_of state ''guardrails'' of
     None \<Rightarrow> (True, r, h)
   | Some (JObj d) \<Rightarrow>
       (case import_policies d (hb_engine h) of
          (True, e) \<Rightarrow> (True, restored ''guardrails'' r, h\<lparr>hb_engine := e\<rparr>)
        | (False, e) \<Rightarrow> (False, r, h\<lparr>hb_engine := e\<rparr>))
   | _ \<Rightarrow> (False, r, h))"

definition restore_escrow :: "(string \<times> json) list \<Rightarrow> restoration" where
  "restore_escrow state = (\<lambda>(r, h). case map_of state ''escrow'' of
     None \<Rightarrow> (True, r, h)
   | Some (JObj d) \<Rightarrow>
       (case escrow_import d (hb_escrow h) of
          (True, es) \<Rightarrow> (True, restored ''escrow'' r, h\<lparr>hb_escrow := es\<rparr>)
        | (False, es) \<Rightarrow> (False, r, h\<lparr>hb_escrow := es\<rparr>))
   | _ \<Rightarrow> (False, r, h))"

fun in_turn :: "restoration list \<Rightarrow> restoration" where
  "in_turn [] (r, h) = (True, r, h)"
| "in_turn (f # fs) (r, h) = (case f (r, h) of (True, r', h') \<Rightarrow> in_turn fs (r', h') | (False, r', h') \<Rightarrow> (False, r', h'))"

definition orphans :: "hub \<Rightarrow> string list" where
  "orphans h = sort (remdups (List.filter (\<lambda>n. map_of (hb_identities h) n = None) (List.map fst (hb_agents h))))"

definition apply_state ::
  "('sk, 'pk) hub_conf \<Rightarrow> admin_env \<Rightarrow> ('rsk, 'rpk) snap_env \<Rightarrow> tick \<Rightarrow> (string \<times> json) list \<Rightarrow> hub \<Rightarrow> restore_report option \<times> hub" where
  "apply_state cf env sv tk state h = (case (read_identities cf sv tk state, read_tasks sv tk state) of
     (Some ids, Some ts) \<Rightarrow>
       (case in_turn [restore_registries ids ts, restore_store cf env, restore_keys env state, restore_guardrails state,
                      restore_escrow state] (\<lparr> rp_restored = [], rp_skipped = [], rp_counts = [], rp_orphans = [] \<rparr>, h) of
          (True, r, h') \<Rightarrow> (Some (r\<lparr>rp_orphans := orphans h'\<rparr>), h')
        | (False, r, h') \<Rightarrow> (None, h'))
   | _ \<Rightarrow> (None, h))"

section \<open>Files\<close>

text \<open>The manifest of a captured state.\<close>

definition snap_manifest :: "string \<Rightarrow> rat \<Rightarrow> string \<Rightarrow> bool \<Rightarrow> json \<Rightarrow> hub \<Rightarrow> (string \<times> json) list" where
  "snap_manifest name now org encrypted head h =
     [(''name'', JStr name), (''format'', JStr snap_format), (''created_at'', JFloat now), (''hub_org'', JStr org),
      (''encrypted'', JBool encrypted),
      (''counts'', JObj [(''identities'', JInt (int (length (hb_identities h)))), (''tasks'', JInt (int (length (hb_tasks h)))),
         (''api_keys'', JInt (int (length (ks_keys (hb_api_keys h))))),
         (''escrow_holds'', JInt (int (length (es_holds (hb_escrow h)))))]),
      (''audit_head'', head)]"

text \<open>The state as the document carries it: in clear, or as the JSON text encrypted under the passphrase.  A passphrase of
  another type than a text raises.\<close>

definition stored_state ::
  "('sk, 'pk) runtime \<Rightarrow> ('rsk, 'rpk) snap_env \<Rightarrow> json \<Rightarrow> (string \<times> json) list \<Rightarrow> (string \<times> json) option" where
  "stored_state rt sv passphrase state =
     (if \<not> py_true passphrase then Some (''state'', JObj state)
      else (case passphrase of
              JStr p \<Rightarrow> Some (''encrypted_state'',
                JObj (encrypt_blob (sv_crypto sv) (sv_salt sv) (sv_nonce sv) (ser (default_format rt) (JObj state)) p))
            | _ \<Rightarrow> None))"

definition save_snapshot ::
  "('sk, 'pk) hub_conf \<Rightarrow> ('rsk, 'rpk) snap_env \<Rightarrow> rat \<Rightarrow> json \<Rightarrow> json \<Rightarrow> json \<Rightarrow> bool \<Rightarrow> hub \<Rightarrow> snap_dir
    \<Rightarrow> (snap_exc + (string \<times> json) list) \<times> snap_dir" where
  "save_snapshot cf sv now v head passphrase overwrite h dir = (case validate_name v of
     Inl e \<Rightarrow> (Inl e, dir)
   | Inr name \<Rightarrow>
       if map_of dir name \<noteq> None \<and> \<not> overwrite then (Inl (Snap SnapshotExists), dir)
       else (case stored_state (hc_rt cf) sv passphrase (capture_state h) of
               None \<Rightarrow> (Inl SnapRaises, dir)
             | Some part \<Rightarrow>
                 (let manifest = snap_manifest name now (hc_org cf) (py_true passphrase) head h
                  in (Inr manifest, dict_set name
                       (Some (JObj [(''format'', JStr snap_format), (''manifest'', JObj manifest), part])) dir))))"

definition read_document :: "json option option \<Rightarrow> snap_exc + (string \<times> json) list" where
  "read_document file = (case file of
     None \<Rightarrow> Inl (Snap SnapshotMissing)
   | Some None \<Rightarrow> Inl (Snap Unreadable)
   | Some (Some (JObj d)) \<Rightarrow> if py_get d ''format'' = JStr snap_format then Inr d else Inl (Snap UnknownFormat)
   | _ \<Rightarrow> Inl SnapRaises)"

definition load_snapshot ::
  "('rsk, 'rpk) snap_env \<Rightarrow> json \<Rightarrow> json \<Rightarrow> snap_dir \<Rightarrow> snap_exc + json \<times> json" where
  "load_snapshot sv v passphrase dir = rbind (validate_name v) (\<lambda>name. rbind (read_document (map_of dir name)) (\<lambda>d.
     let manifest = py_or (py_get d ''manifest'') (JObj []) in
     case map_of d ''encrypted_state'' of
       None \<Rightarrow> Inr (manifest, py_or (py_get d ''state'') (JObj []))
     | Some blob \<Rightarrow>
         if \<not> py_true passphrase then Inl (Snap PassphraseRequired)
         else (case Option.bind (opt_of_json passphrase) (\<lambda>p. Option.bind (decrypt_blob (sv_crypto sv) blob p) loads) of
                 None \<Rightarrow> Inl (Snap CannotDecrypt)
               | Some state \<Rightarrow> Inr (manifest, state))))"

text \<open>The manifests, the latest first.  A file that raises anything but a \<open>SnapshotError\<close> ends the listing; so does a time
  of creation that is no number, when there is another to compare it with (\<open>None\<close>).\<close>

fun manifests_of :: "(string \<times> json option) list \<Rightarrow> json list option" where
  "manifests_of [] = Some []"
| "manifests_of ((name, file) # rest) = (case read_document (Some file) of
     Inl (Snap e) \<Rightarrow> manifests_of rest
   | Inl SnapRaises \<Rightarrow> None
   | Inr d \<Rightarrow>
       (case py_or (py_get d ''manifest'') (JObj []) of
          JObj m \<Rightarrow> map_option ((#) (JObj (if map_of m ''name'' = None then m @ [(''name'', JStr name)] else m))) (manifests_of rest)
        | _ \<Rightarrow> None))"

definition created_at :: "json \<Rightarrow> json" where
  "created_at m = (case m of JObj d \<Rightarrow> (case map_of d ''created_at'' of None \<Rightarrow> JInt 0 | Some v \<Rightarrow> v) | _ \<Rightarrow> JNull)"

definition list_snapshots :: "snap_dir \<Rightarrow> json list option" where
  "list_snapshots dir = Option.bind (manifests_of (sort_key (\<lambda>(n, f). n @ snap_suffix) dir)) (\<lambda>ms.
     if length ms \<le> 1 \<or> list_all (py_is_num \<circ> created_at) ms then Some (sort_key (\<lambda>m. - num_of (created_at m)) ms) else None)"

definition delete_snapshot :: "json \<Rightarrow> snap_dir \<Rightarrow> (snap_exc + bool) \<times> snap_dir" where
  "delete_snapshot v dir = (case validate_name v of
     Inl e \<Rightarrow> (Inl e, dir)
   | Inr name \<Rightarrow> if map_of dir name = None then (Inr False, dir) else (Inr True, dict_del name dir))"

section \<open>Commands\<close>

type_synonym dir_command = "hub \<times> snap_dir \<Rightarrow> admin_answer \<times> hub \<times> snap_dir"

definition audit_head :: "hub \<Rightarrow> json" where
  "audit_head h = (if hb_audit h = [] then JObj []
     else JObj [(''index'', JInt (ae_index (last (hb_audit h)))), (''hash'', JStr (ae_hash (last (hb_audit h))))])"

definition snapshot_refusal :: "snap_exc \<Rightarrow> admin_answer" where
  "snapshot_refusal e = (case e of Snap s \<Rightarrow> Denied (SnapshotSays s) | SnapRaises \<Rightarrow> AdminRaises)"

text \<open>The role \<open>admin\<close> and a name are required.\<close>

definition named_command :: "scope \<Rightarrow> (string \<times> json) list \<Rightarrow> (json \<Rightarrow> dir_command) \<Rightarrow> dir_command" where
  "named_command sc d f s =
     (if sc_scoped sc then (Denied HubAdminOnly, s)
      else if \<not> py_true (py_get d ''name'') then (Denied NameRequired, s)
      else f (py_get d ''name'') s)"

definition snapshot_create ::
  "('sk, 'pk) hub_conf \<Rightarrow> ('rsk, 'rpk) snap_env \<Rightarrow> tick \<Rightarrow> scope \<Rightarrow> (string \<times> json) list \<Rightarrow> dir_command" where
  "snapshot_create cf sv tk sc d = named_command sc d (\<lambda>v (h, dir).
     case save_snapshot cf sv (tc_now tk) v (audit_head h) (py_get d ''passphrase'')
            (py_true (case map_of d ''overwrite'' of None \<Rightarrow> JBool True | Some b \<Rightarrow> b)) h dir of
       (Inl e, dir') \<Rightarrow> (snapshot_refusal e, h, dir')
     | (Inr m, dir') \<Rightarrow>
         (Answer (JObj (if py_true (py_get m ''encrypted'') then m else m @ [(''warning'', JStr (sv_warning sv))])), h, dir'))"

definition snapshot_list :: "scope \<Rightarrow> dir_command" where
  "snapshot_list sc = (\<lambda>(h, dir).
     if sc_scoped sc then (Denied HubAdminOnly, h, dir)
     else (case list_snapshots dir of
             None \<Rightarrow> (AdminRaises, h, dir)
           | Some ms \<Rightarrow> (Answer (JObj [(''snapshots'', JList ms), (''total'', JInt (int (length ms)))]), h, dir)))"

definition snapshot_delete :: "scope \<Rightarrow> (string \<times> json) list \<Rightarrow> dir_command" where
  "snapshot_delete sc d = named_command sc d (\<lambda>v (h, dir). case delete_snapshot v dir of
     (Inl e, dir') \<Rightarrow> (snapshot_refusal e, h, dir')
   | (Inr b, dir') \<Rightarrow> (if b then Answer (JObj [(''deleted'', v)]) else Denied UnknownSnapshot, h, dir'))"

text \<open>The safety snapshot is taken after the document was read and before anything is put back.\<close>

definition safety_save ::
  "('sk, 'pk) hub_conf \<Rightarrow> ('rsk, 'rpk) snap_env \<Rightarrow> tick \<Rightarrow> (string \<times> json) list \<Rightarrow> hub \<Rightarrow> snap_dir
    \<Rightarrow> (snap_exc + string option) \<times> snap_dir" where
  "safety_save cf sv tk d h dir =
     (if \<not> py_true (case map_of d ''safety_snapshot'' of None \<Rightarrow> JBool True | Some b \<Rightarrow> b) then (Inr None, dir)
      else (let name = ''pre-restore-'' @ int_str (trunc (tc_now tk)) in
            case save_snapshot cf sv (tc_now tk) (JStr name) (audit_head h) (py_get d ''passphrase'') True h dir of
              (Inl e, dir') \<Rightarrow> (Inl e, dir') | (Inr m, dir') \<Rightarrow> (Inr (Some name), dir')))"

definition snapshot_restore ::
  "('sk, 'pk) hub_conf \<Rightarrow> admin_env \<Rightarrow> ('rsk, 'rpk) snap_env \<Rightarrow> tick \<Rightarrow> scope \<Rightarrow> (string \<times> json) list \<Rightarrow> dir_command" where
  "snapshot_restore cf env sv tk sc d = named_command sc d (\<lambda>v (h, dir).
     case load_snapshot sv v (py_get d ''passphrase'') dir of
       Inl e \<Rightarrow> (snapshot_refusal e, h, dir)
     | Inr (manifest, state) \<Rightarrow>
         (case safety_save cf sv tk d h dir of
            (Inl e, dir') \<Rightarrow> (case e of Snap s \<Rightarrow> Denied (NoSafetySnapshot s) | SnapRaises \<Rightarrow> AdminRaises, h, dir')
          | (Inr safety, dir') \<Rightarrow>
              (case state of
                 JObj st \<Rightarrow>
                   (case apply_state cf env sv tk st h of
                      (None, h') \<Rightarrow> (AdminRaises, h', dir')
                    | (Some r, h') \<Rightarrow>
                        (case manifest of
                           JObj m \<Rightarrow>
                             (Answer (JObj ([(''restored_from'', v), (''manifest'', manifest), (''safety_snapshot'', json_of_opt safety),
                                (''audit_preserved'', JBool True)] @ report_dict r)),
                              hub_log cf tk ''SNAPSHOT_RESTORED'' ''hub'' None
                                [(''snapshot'', v), (''snapshot_created_at'', py_get m ''created_at''),
                                 (''safety_snapshot'', json_of_opt safety), (''restored'', JList (List.map JStr (rp_restored r))),
                                 (''skipped'', JList (List.map (JStr \<circ> fst) (rp_skipped r)))] h', dir')
                         | _ \<Rightarrow> (AdminRaises, h', dir')))
               | _ \<Rightarrow> (AdminRaises, h, dir'))))"

end
