(* ===== verification/HubConsole.thy ===== *)
theory HubConsole
  imports Snapshots
begin

text \<open>
  The console as the hub serves it: \<open>admin.py\<close>'s table of commands and \<open>hub.py\<close>'s \<open>_handle_admin_request\<close>, and the
  hub's handling of every kind of frame, the console's included.  The state is the hub's and the directory of its
  snapshots.
\<close>

type_synonym console = "hub \<times> snap_dir"

record ('rsk, 'rpk) console_env =
  ce_admin :: admin_env
  ce_snap :: "('rsk, 'rpk) snap_env"

section \<open>Commands\<close>

definition on_hub :: "command \<Rightarrow> dir_command" where
  "on_hub f = (\<lambda>(h, dir). case f h of (a, h') \<Rightarrow> (a, h', dir))"

text \<open>The parameters of a command that looks at them; what is no object raises.\<close>

definition with_params :: "json \<Rightarrow> ((string \<times> json) list \<Rightarrow> dir_command) \<Rightarrow> dir_command" where
  "with_params v f s = (case obj_of v of None \<Rightarrow> (AdminRaises, s) | Some d \<Rightarrow> f d s)"

text \<open>The snapshot commands look at the role first.\<close>

definition admin_only :: "scope \<Rightarrow> dir_command \<Rightarrow> dir_command" where
  "admin_only sc f s = (if sc_scoped sc then (Denied HubAdminOnly, s) else f s)"

definition handlers ::
  "('sk, 'pk) hub_conf \<Rightarrow> ('rsk, 'rpk) console_env \<Rightarrow> tick \<Rightarrow> scope \<Rightarrow> json \<Rightarrow> (string \<times> dir_command) list" where
  "handlers cf ce tk sc v =
     [(''hub.info'', on_hub (hub_info cf (ce_admin ce) tk sc)),
      (''agents.list'', on_hub (agents_list sc)),
      (''agent.disconnect'', with_params v (\<lambda>d. on_hub (agent_disconnect tk sc d))),
      (''tasks.list'', with_params v (\<lambda>d. on_hub (tasks_list sc d))),
      (''task.cancel'', with_params v (\<lambda>d. on_hub (task_cancel cf tk sc d))),
      (''task.retry'', with_params v (\<lambda>d. on_hub (task_retry cf tk sc d))),
      (''audit.list'', with_params v (\<lambda>d. on_hub (audit_list cf sc d))),
      (''audit.verify'', on_hub (audit_verify cf tk)),
      (''apikeys.list'', on_hub (apikeys_list (ce_admin ce) sc)),
      (''apikey.create'', with_params v (\<lambda>d. on_hub (apikey_create cf tk sc d))),
      (''apikey.revoke'', with_params v (\<lambda>d. on_hub (apikey_revoke sc d))),
      (''approvals.list'', on_hub (approvals_list sc)),
      (''approval.approve'', with_params v (\<lambda>d. on_hub (approval_approve cf tk sc d))),
      (''approval.deny'', with_params v (\<lambda>d. on_hub (approval_deny cf tk sc d))),
      (''guardrails.policy'', with_params v (\<lambda>d. on_hub (guardrails_policy cf sc d))),
      (''guardrails.set_policy'', with_params v (\<lambda>d. on_hub (guardrails_set_policy cf sc d))),
      (''escrow.balance'', with_params v (\<lambda>d. on_hub (escrow_balance cf sc d))),
      (''escrow.grant'', with_params v (\<lambda>d. on_hub (escrow_grant cf sc d))),
      (''escrow.list'', if sc_scoped sc then on_hub (escrow_list sc []) else with_params v (\<lambda>d. on_hub (escrow_list sc d))),
      (''escrow.release'', with_params v (\<lambda>d. on_hub (escrow_release tk sc d))),
      (''escrow.refund'', with_params v (\<lambda>d. on_hub (escrow_refund tk sc d))),
      (''snapshot.create'', admin_only sc (with_params v (snapshot_create cf (ce_snap ce) tk sc))),
      (''snapshot.list'', snapshot_list sc),
      (''snapshot.restore'', admin_only sc (with_params v (snapshot_restore cf (ce_admin ce) (ce_snap ce) tk sc))),
      (''snapshot.delete'', admin_only sc (with_params v (snapshot_delete sc)))]"

definition mutating :: "string list" where
  "mutating = [''agent.disconnect'', ''task.cancel'', ''task.retry'', ''apikey.create'', ''apikey.revoke'', ''approval.approve'',
     ''approval.deny'', ''guardrails.set_policy'', ''escrow.grant'', ''escrow.release'', ''escrow.refund'', ''snapshot.create'',
     ''snapshot.restore'', ''snapshot.delete'']"

text \<open>\<open>execute\<close>: the name of a command that is no text names none.\<close>

definition execute ::
  "('sk, 'pk) hub_conf \<Rightarrow> ('rsk, 'rpk) console_env \<Rightarrow> tick \<Rightarrow> scope \<Rightarrow> json \<Rightarrow> json \<Rightarrow> dir_command" where
  "execute cf ce tk sc cmd v s =
     (if \<not> hashable cmd then (AdminRaises, s)
      else (case Option.bind (opt_of_json cmd) (map_of (handlers cf ce tk sc v)) of
              None \<Rightarrow> (Denied (UnknownCommand cmd), s)
            | Some f \<Rightarrow> f s))"

section \<open>The frame\<close>

definition admin_request :: "message \<Rightarrow> json \<times> json" where
  "admin_request msg =
     (let d = (case ms_content msg of JObj d \<Rightarrow> d | _ \<Rightarrow> [])
      in (py_get d ''command'', py_or (py_get d ''params'') (JObj [])))"

text \<open>Who asks: the scope, or why not; \<open>None\<close> is an exception.\<close>

definition admin_caller :: "('sk, 'pk) hub_conf \<Rightarrow> message \<Rightarrow> hub \<Rightarrow> (admin_error + scope) option" where
  "admin_caller cf msg h =
     (case decode_token cf (hb_peer_keys h) (text_of (ms_token msg)) None of
        None \<Rightarrow> Some (Inl NoToken)
      | Some p \<Rightarrow>
          (case authorize_admin p of
             None \<Rightarrow> None
           | Some (Some e) \<Rightarrow> Some (Inl e)
           | Some None \<Rightarrow> Some (Inr (caller_scope p))))"

definition admin_refusal ::
  "('sk, 'pk) hub_conf \<Rightarrow> admin_env \<Rightarrow> tick \<Rightarrow> conn \<Rightarrow> message \<Rightarrow> admin_error \<Rightarrow> console \<Rightarrow> bool \<times> console" where
  "admin_refusal cf env tk c msg e = (\<lambda>(h, dir).
     let h1 = hub_log cf tk ''ADMIN_DENIED'' (ms_sender msg) None
                [(''command'', fst (admin_request msg)), (''reason'', JStr (ad_wording env e))] h;
         (sent, h2) = say tk c MError ''hub'' (Some (ms_sender msg)) (JStr (ad_wording env e)) (Some (ms_id msg)) (ms_token msg) h1
     in (sent, h2, dir))"

definition admin_reply ::
  "('sk, 'pk) hub_conf \<Rightarrow> tick \<Rightarrow> conn \<Rightarrow> message \<Rightarrow> json \<Rightarrow> console \<Rightarrow> bool \<times> console" where
  "admin_reply cf tk c msg v = (\<lambda>(h, dir).
     let cmd = fst (admin_request msg);
         h1 = (if cmd \<in> JStr ` set mutating
               then hub_log cf tk ''ADMIN_ACTION'' (ms_sender msg) None [(''command'', cmd)] h else h);
         (sent, h2) = say tk c MAdminResult ''hub'' (Some (ms_sender msg)) v (Some (ms_id msg)) (ms_token msg) h1
     in (sent, h2, dir))"

definition handle_admin_request ::
  "('sk, 'pk) hub_conf \<Rightarrow> ('rsk, 'rpk) console_env \<Rightarrow> tick \<Rightarrow> conn \<Rightarrow> message \<Rightarrow> console \<Rightarrow> bool \<times> console" where
  "handle_admin_request cf ce tk c msg s = (case admin_caller cf msg (fst s) of
     None \<Rightarrow> (False, s)
   | Some (Inl e) \<Rightarrow> admin_refusal cf (ce_admin ce) tk c msg e s
   | Some (Inr sc) \<Rightarrow>
       (case execute cf ce tk sc (fst (admin_request msg)) (snd (admin_request msg)) s of
          (Answer v, s') \<Rightarrow> admin_reply cf tk c msg v s'
        | (Denied e, s') \<Rightarrow> admin_refusal cf (ce_admin ce) tk c msg e s'
        | (AdminRaises, s') \<Rightarrow> (False, s')))"

text \<open>A frame of the console, after the check of the token that every kind of request passes.\<close>

definition admin_frame ::
  "('sk, 'pk) hub_conf \<Rightarrow> ('rsk, 'rpk) console_env \<Rightarrow> tick \<Rightarrow> conn \<Rightarrow> message \<Rightarrow> console \<Rightarrow> bool \<times> console" where
  "admin_frame cf ce tk c msg = (\<lambda>(h, dir).
     case verify_token cf (hb_peer_keys h) (tc_now tk) (text_of (ms_token msg)) (ms_sender msg) None of
       None \<Rightarrow> (False, h, dir)
     | Some False \<Rightarrow>
         (case say tk c MError ''hub'' (Some (ms_sender msg)) (JStr (hc_wording cf BadToken)) (Some (ms_id msg)) None h of
            (sent, h') \<Rightarrow> (sent, h', dir))
     | Some True \<Rightarrow> handle_admin_request cf ce tk c msg (count_message tk c h, dir))"

definition full_frame ::
  "('sk, 'pk) hub_conf \<Rightarrow> ('rsk, 'rpk) console_env \<Rightarrow> tick \<Rightarrow> conn \<Rightarrow> message \<Rightarrow> console \<Rightarrow> bool \<times> console" where
  "full_frame cf ce tk c msg s =
     (if ms_type msg = MAdminRequest \<and> kill_target msg = None then admin_frame cf ce tk c msg s
      else (case handle_frame cf tk c msg (fst s) of (ok, h) \<Rightarrow> (ok, h, snd s)))"

definition console_receive ::
  "('sk, 'pk) hub_conf \<Rightarrow> ('rsk, 'rpk) console_env \<Rightarrow> tick \<Rightarrow> conn \<Rightarrow> string \<Rightarrow> console \<Rightarrow> console" where
  "console_receive cf ce tk c raw s =
     (case message_from_json (tc_fresh tk (length (hb_out (fst s)))) (tc_now tk) raw of
        Inl e \<Rightarrow> (receive cf tk c raw (fst s), snd s)
      | Inr msg \<Rightarrow>
          (case full_frame cf ce tk c msg s of
             (True, s') \<Rightarrow> s'
           | (False, s') \<Rightarrow> (close_session cf tk c (fst s'), snd s')))"

fun console_step ::
  "('sk, 'pk) hub_conf \<Rightarrow> ('rsk, 'rpk) console_env \<Rightarrow> tick \<times> hub_event \<Rightarrow> console \<Rightarrow> console" where
  "console_step cf ce (tk, Frame_in c raw) s = console_receive cf ce tk c raw s"
| "console_step cf ce (tk, ev) s = (hub_step cf (tk, ev) (fst s), snd s)"

definition console_run ::
  "('sk, 'pk) hub_conf \<Rightarrow> ('rsk, 'rpk) console_env \<Rightarrow> (tick \<times> hub_event) list \<Rightarrow> console \<Rightarrow> console" where
  "console_run cf ce events s = foldl (\<lambda>s e. console_step cf ce e s) s events"

end
