(* ===== verification/SnapshotSafety.thy ===== *)
theory SnapshotSafety
  imports Snapshots
begin

text \<open>
  A snapshot puts back what it captured - registries, keys, guardrail policies, holds and funds - and leaves the journal
  and the connections as they are; its name stays a name in its directory.
\<close>

section \<open>Entries that read back\<close>

definition identity_ok :: "identity \<Rightarrow> bool" where
  "identity_ok i \<longleftrightarrow> id_agent_id i \<noteq> [] \<and> id_roles i \<noteq> [] \<and> id_qualified_name i = qualified_name (id_org_id i) (id_name i) \<and>
     py_true (id_created_at i) \<and> py_or (id_metadata i) (JObj []) = id_metadata i \<and>
     id_public_key i \<noteq> Some [] \<and> id_schema i \<noteq> Some []"

lemma strings_of_list [simp]: "those (List.map (opt_of_json \<circ> JStr) xs) = Some xs"
  by (induction xs) auto

lemma identity_dict_roundtrip:
  assumes "identity_ok i"
  shows "identity_from_dict rt uuid now (identity_to_dict i) = Some i"
proof -
  have t: "truthy_field k x = (case x of None \<Rightarrow> [] | Some s \<Rightarrow> [(k, JStr s)])" if "x \<noteq> Some []" for k x
    using that by (auto simp: truthy_field_def split: option.split)
  have "py_or (id_created_at i) (JFloat now) = id_created_at i" using assms by (simp add: identity_ok_def py_or_def)
  then show ?thesis
    using assms
    by (cases i; cases "id_public_key i"; cases "id_schema i")
      (simp_all add: identity_ok_def identity_to_dict_def identity_from_dict_def t strings_field_def py_get_def identity_new_def
        str_or_def Let_def opt_str_def)
qed

definition restorable :: "hub \<Rightarrow> bool" where
  "restorable h \<longleftrightarrow> (\<forall>(n, i) \<in> set (hb_identities h). identity_ok i) \<and>
     (\<forall>(i, t) \<in> set (hb_tasks h). task_ok t \<and> tk_task_id t = i) \<and> distinct (List.map fst (hb_tasks h)) \<and>
     key_store_ok (hb_api_keys h) \<and> escrow_ok (hb_escrow h)"

lemma part_captured:
  assumes "\<And>n x. (n, x) \<in> set d \<Longrightarrow> f n (g x) = Some x" "py_get state k = JObj (List.map (\<lambda>(n, x). (n, g x)) d)"
  shows "part_entries f state k = Some d"
proof -
  have "those (List.map (\<lambda>(n, raw). map_option (Pair n) (f n raw)) (List.map (\<lambda>(n, x). (n, g x)) d)) = Some d"
    using assms(1) by (induction d) auto
  then show ?thesis using assms(2) by (auto simp: part_entries_def obj_of_def)
qed

lemma captured_parts:
  assumes "restorable h"
  shows "read_identities cf sv tk (capture_state h) = Some (hb_identities h)" "read_tasks sv tk (capture_state h) = Some (hb_tasks h)"
proof -
  show "read_identities cf sv tk (capture_state h) = Some (hb_identities h)"
    unfolding read_identities_def
    by (rule part_captured [where g = identity_to_dict])
      (use assms in \<open>auto simp: restorable_def capture_state_def captured_identities_def py_get_def intro: identity_dict_roundtrip\<close>)
  show "read_tasks sv tk (capture_state h) = Some (hb_tasks h)"
    unfolding read_tasks_def
    by (rule part_captured [where g = task_to_dict])
      (use assms in \<open>auto simp: restorable_def capture_state_def captured_tasks_def py_get_def task_dict_roundtrip\<close>)
qed

section \<open>Putting back\<close>

definition same_contents :: "hub \<Rightarrow> hub \<Rightarrow> bool" where
  "same_contents h g \<longleftrightarrow> hb_identities g = hb_identities h \<and> hb_tasks g = hb_tasks h \<and>
     ks_keys (hb_api_keys g) = ks_keys (hb_api_keys h) \<and> (\<forall>org. get_policy org (hb_engine g) = get_policy org (hb_engine h)) \<and>
     es_holds (hb_escrow g) = es_holds (hb_escrow h) \<and>
     (\<forall>org cur. funds (es_balances (hb_escrow g)) org cur = funds (es_balances (hb_escrow h)) org cur)"

lemma policy_restored:
  "import_policies (export_policies e) f = (True, f') \<Longrightarrow> get_policy org f' = get_policy org e"
  by (auto simp: policies_roundtrip get_policy_def split: option.split)

lemma apply_captured:
  assumes "restorable h" "ks_path (hb_api_keys g)"
  shows "\<exists>r g'. apply_state cf env sv tk (capture_state h) g = (Some r, g') \<and> same_contents h g' \<and>
    hb_audit g' = hb_audit g \<and> hb_agents g' = hb_agents g \<and> hb_pending g' = hb_pending g"
proof -
  have es: "escrow_export (hb_escrow h) = JObj (members_of (escrow_export (hb_escrow h)))" by (simp add: escrow_export_def)
  obtain e where e: "escrow_import (members_of (escrow_export (hb_escrow h))) (hb_escrow g) = (True, e)" "es_holds e = es_holds (hb_escrow h)"
      "\<forall>org cur. funds (es_balances e) org cur = funds (es_balances (hb_escrow h)) org cur"
    using escrow_export_import [of "hb_escrow h" "hb_escrow g"] assms(1) by (auto simp: restorable_def)
  obtain f where f: "import_policies (export_policies (hb_engine h)) (hb_engine g) = (True, f)" by (simp add: policies_roundtrip)
  have k: "import_hashed (export_hashed (hb_api_keys h)) (hb_api_keys g) = (Inr (), (hb_api_keys g)\<lparr>ks_keys := ks_keys (hb_api_keys h)\<rparr>)"
    using assms by (simp add: import_hashed_def restorable_def keys_of_pairs_export)
  have ids: "List.map (\<lambda>x. tk_task_id (snd x)) (hb_tasks h) = List.map fst (hb_tasks h)"
    using assms(1) by (auto simp: restorable_def)
  have "distinct (List.map (\<lambda>x. tk_task_id (snd x)) (hb_tasks h))"
    unfolding ids using assms(1) by (simp add: restorable_def)
  then have st: "fst (replace_tasks (hc_rt cf) (List.map snd (hb_tasks h)) s)" for s
    by (simp add: replace_tasks_def Let_def comp_def)
  have m: "map_of (capture_state h) ''api_keys'' = Some (JObj (export_hashed (hb_api_keys h)))"
    "map_of (capture_state h) ''guardrails'' = Some (JObj (export_policies (hb_engine h)))"
    "map_of (capture_state h) ''escrow'' = Some (JObj (members_of (escrow_export (hb_escrow h))))"
    using es by (simp_all add: capture_state_def)
  show ?thesis
    using st policy_restored [OF f] e assms(2)
    by (auto simp: apply_state_def captured_parts [OF assms(1)] restore_registries_def restore_store_def restore_keys_def m k
        restore_guardrails_def f restore_escrow_def same_contents_def case_prod_unfold split: bool.split)
qed

section \<open>Saving and loading\<close>

lemma saved:
  assumes "save_snapshot cf sv now v head passphrase overwrite h dir = (Inr m, dir')"
  shows "\<exists>name part. validate_name v = Inr name \<and> stored_state (hc_rt cf) sv passphrase (capture_state h) = Some part \<and>
    m = snap_manifest name now (hc_org cf) (py_true passphrase) head h \<and>
    map_of dir' name = Some (Some (JObj [(''format'', JStr snap_format), (''manifest'', JObj m), part]))"
  using assms by (auto simp: save_snapshot_def Let_def update_conv' split: sum.splits if_splits option.splits)

lemma loaded:
  assumes "stored_state rt sv passphrase state = Some part" "sv_crypto sv' = sv_crypto sv" "aes_ok (sv_crypto sv)"
    and "py_true passphrase \<longrightarrow> ser_ok (default_format rt) (JObj state) \<and> wf_json (JObj state)" "state \<noteq> []" "m \<noteq> []"
    and "validate_name v = Inr name"
    and "map_of dir name = Some (Some (JObj [(''format'', JStr snap_format), (''manifest'', JObj m), part]))"
  shows "load_snapshot sv' v passphrase dir = Inr (JObj m, JObj state)"
proof (cases "py_true passphrase")
  case False
  then have "part = (''state'', JObj state)" using assms(1) by (simp add: stored_state_def)
  with False show ?thesis
    using assms by (simp add: load_snapshot_def read_document_def py_get_def py_or_def Let_def)
next
  case True
  then obtain p where p: "passphrase = JStr p" using assms(1) by (auto simp: stored_state_def split: json.splits)
  have "loads (ser (default_format rt) (JObj state)) = Some (JObj state)" using assms(4) True by (intro loads_ser) simp_all
  with blob_opens [OF assms(3)] show ?thesis
    using assms True p
    by (auto simp: load_snapshot_def stored_state_def read_document_def py_get_def py_or_def Let_def)
qed

lemma digit_alnum: "is_digit c \<Longrightarrow> alnum c"
  by (auto simp: is_digit_def alnum_def Let_def)

lemma int_str_name: "list_all name_char (int_str i)"
proof -
  have "list_all name_char (nat_str n)" for n
    using nat_str_digits [of n] by (auto simp: list_all_iff name_char_def intro: digit_alnum)
  moreover have "name_char (CHR ''-'')" by code_simp
  ultimately show ?thesis by (simp add: int_str_def)
qed

lemma safety_name: "length (int_str i) \<le> 52 \<Longrightarrow> validate_name (JStr (''pre-restore-'' @ int_str i)) = Inr (''pre-restore-'' @ int_str i)"
proof -
  have "alnum (CHR ''p'')" "list_all name_char ''re-restore-''" by code_simp+
  then show "length (int_str i) \<le> 52 \<Longrightarrow> validate_name (JStr (''pre-restore-'' @ int_str i)) = Inr (''pre-restore-'' @ int_str i)"
    using int_str_name [of i] by (simp add: validate_name_def name_matches_re_def plain_name_def)
qed

lemma safety_saved:
  assumes "stored_state (hc_rt cf) sv passphrase state = Some part" "py_get d ''passphrase'' = passphrase"
    and "length (int_str (trunc (tc_now tk))) \<le> 52"
  shows "\<exists>x dir'. safety_save cf sv' tk d g dir = (Inr x, dir')"
proof -
  have "\<exists>q. stored_state (hc_rt cf) sv' passphrase (capture_state g) = Some q"
    using assms(1) by (auto simp: stored_state_def split: json.splits if_splits)
  then show ?thesis
    using safety_name [OF assms(3)] assms(2) by (auto simp: safety_save_def save_snapshot_def Let_def)
qed

section \<open>Properties\<close>

text \<open>C10: a snapshot that was written is put back exactly, whatever happened to the hub since, in clear or under its
  passphrase: identities, tasks, keys, guardrail policies, holds and funds are those captured; connections and suspended
  tasks stay; the journal is not replaced but gets one entry more.  The hypotheses say that AES-GCM undoes what it did,
  that the captured entries are well formed and, for an encrypted snapshot, that their numbers are printed so that they
  read back, that the keys can be written, and that the clock is a number of at most 52 digits.\<close>

theorem snapshot_restores:
  assumes "restorable h" "snapshot_create cf sv tk sc d (h, dir) = (Answer v, h, dir1)"
    and "\<not> sc_scoped sc'" "py_get d' ''name'' = py_get d ''name''" "py_get d' ''passphrase'' = py_get d ''passphrase''"
    and "sv_crypto sv' = sv_crypto sv" "aes_ok (sv_crypto sv)"
    and "py_true (py_get d ''passphrase'') \<longrightarrow>
      ser_ok (default_format (hc_rt cf)) (JObj (capture_state h)) \<and> wf_json (JObj (capture_state h))"
    and "ks_path (hb_api_keys g)" "length (int_str (trunc (tc_now tk'))) \<le> 52"
  shows "\<exists>w g' dir2 e. snapshot_restore cf env sv' tk' sc' d' (g, dir1) = (Answer w, g', dir2) \<and> same_contents h g' \<and>
    hb_agents g' = hb_agents g \<and> hb_pending g' = hb_pending g \<and> hb_audit g' = hb_audit g @ [e] \<and> ae_event_type e = ''SNAPSHOT_RESTORED''"
proof -
  obtain m overwrite where s: "save_snapshot cf sv (tc_now tk) (py_get d ''name'') (audit_head h) (py_get d ''passphrase'') overwrite h dir
      = (Inr m, dir1)" and n: "py_true (py_get d ''name'')"
    using assms(2) by (auto simp: snapshot_create_def named_command_def snapshot_refusal_def split: if_splits prod.splits sum.splits snap_exc.splits)
  from saved [OF s] obtain name part where p: "validate_name (py_get d ''name'') = Inr name"
      "stored_state (hc_rt cf) sv (py_get d ''passphrase'') (capture_state h) = Some part"
      "map_of dir1 name = Some (Some (JObj [(''format'', JStr snap_format), (''manifest'', JObj m), part]))"
      and m: "m \<noteq> []" by (auto simp: snap_manifest_def)
  have l: "load_snapshot sv' (py_get d ''name'') (py_get d ''passphrase'') dir1 = Inr (JObj m, JObj (capture_state h))"
    by (rule loaded [OF p(2) assms(6,7,8) _ m p(1,3)]) (simp add: capture_state_def)
  obtain x dir2 where x: "safety_save cf sv' tk' d' g dir1 = (Inr x, dir2)"
    using safety_saved [OF p(2) assms(5,10)] by blast
  obtain r g' where a: "apply_state cf env sv' tk' (capture_state h) g = (Some r, g')" "same_contents h g'"
      "hb_audit g' = hb_audit g" "hb_agents g' = hb_agents g" "hb_pending g' = hb_pending g"
    using apply_captured [OF assms(1,9)] by blast
  have "same_contents h (hub_log cf tk' ev s t md g')" for ev s t md using a(2) by (simp add: same_contents_def hub_log_def Let_def)
  then show ?thesis
    using a(3-5) n
    by (simp add: snapshot_restore_def named_command_def assms(3-5) l x a(1))
      (simp add: hub_log_audit audit_log_def Let_def)
qed

text \<open>The name of a snapshot that is accepted names a file of its directory: it starts with a letter or a digit, holds
  no slash, and has at most 65 characters, a final line feed included.\<close>

theorem snapshot_name_is_local:
  assumes "validate_name v = Inr name"
  shows "v = JStr name \<and> name \<noteq> [] \<and> alnum (hd name) \<and> CHR ''/'' \<notin> set name \<and> length name \<le> 65"
proof -
  have "\<not> name_char (CHR ''/'')" "\<not> alnum (CHR ''/'')" by code_simp+
  then have plain: "s \<noteq> [] \<and> alnum (hd s) \<and> CHR ''/'' \<notin> set s \<and> length s \<le> 64" if "plain_name s" for s
    using that by (auto simp: plain_name_def list_all_iff split: list.splits)
  have v: "v = JStr name" "name_matches_re name"
    using assms by (auto simp: validate_name_def split: if_splits json.splits)
  have "name \<noteq> [] \<and> alnum (hd name) \<and> CHR ''/'' \<notin> set name \<and> length name \<le> 65"
  proof (cases "plain_name name")
    case False
    then have n: "name \<noteq> []" "last name = CHR 0x0A" "plain_name (butlast name)" using v(2) by (simp_all add: name_matches_re_def)
    then obtain s where s: "name = s @ [CHR 0x0A]" by (metis append_butlast_last_id)
    then show ?thesis using plain [of s] n(3) by (auto simp: hd_append)
  qed (use plain [of name] in auto)
  then show ?thesis using v(1) by simp
qed

section \<open>A concrete snapshot\<close>

definition toy_snap :: "(string, string) snap_env" where
  "toy_snap = \<lparr> sv_crypto = toy_crypto, sv_salt = ''s'', sv_nonce = ''n'', sv_uuid = (\<lambda>_. ''u''), sv_warning = ''w'' \<rparr>"

definition toy_admin :: admin_env where
  "toy_admin = \<lparr> ad_version = ''1.5'', ad_store = ''memory'', ad_ephemeral = False, ad_key_source = ''file'',
     ad_wording = (\<lambda>_. ''no'') \<rparr>"

definition captured_hub :: hub where
  "captured_hub = toy_hub\<lparr>hb_tasks := [(''t1'', toy_assigned)], hb_api_keys := \<lparr> ks_keys = [], ks_path = True \<rparr>\<rparr>"

definition toy_request_params :: "(string \<times> json) list" where
  "toy_request_params = [(''name'', JStr ''before'')]"

theorem snapshot_restores_witness:
  "\<exists>v dir1 w g' dir2. snapshot_create toy_conf toy_snap toy_tick \<lparr> sc_org = ''acme'', sc_scoped = False \<rparr> toy_request_params (captured_hub, [])
      = (Answer v, captured_hub, dir1) \<and>
    snapshot_restore toy_conf toy_admin toy_snap toy_tick \<lparr> sc_org = ''acme'', sc_scoped = False \<rparr> toy_request_params
      (captured_hub\<lparr>hb_tasks := [], hb_escrow := escrow_new\<rparr>, dir1) = (Answer w, g', dir2) \<and> hb_tasks g' = [(''t1'', toy_assigned)]"
proof -
  have p: "py_get toy_request_params ''passphrase'' = JNull" "py_get toy_request_params ''name'' = JStr ''before''"
    "map_of toy_request_params ''overwrite'' = None"
    by (simp_all add: toy_request_params_def py_get_def)
  have "task_ok toy_assigned" "tk_task_id toy_assigned = ''t1''"
    by (simp_all add: toy_assigned_def task_new_def task_ok_def str_or_def py_or_def) (code_simp+)
  then have r: "restorable captured_hub"
    by (simp add: restorable_def captured_hub_def key_store_ok_def keys_ok_def escrow_ok_def)
  have n: "validate_name (JStr ''before'') = Inr ''before''" by code_simp
  obtain v dir1 where c: "snapshot_create toy_conf toy_snap toy_tick \<lparr> sc_org = ''acme'', sc_scoped = False \<rparr> toy_request_params (captured_hub, [])
      = (Answer v, captured_hub, dir1)"
    by (simp add: snapshot_create_def named_command_def p save_snapshot_def n stored_state_def Let_def)
  have "length (int_str (trunc 5)) \<le> 52" by code_simp
  then show ?thesis
    using snapshot_restores [OF r c, of "\<lparr> sc_org = ''acme'', sc_scoped = False \<rparr>" toy_request_params toy_snap
        "captured_hub\<lparr>hb_tasks := [], hb_escrow := escrow_new\<rparr>" toy_tick toy_admin] c
    by (auto simp: p toy_snap_def toy_crypto_ok captured_hub_def same_contents_def)
qed

theorem snapshot_name_is_local_witness:
  "validate_name (JStr ''pre-restore-5'') = Inr ''pre-restore-5'' \<and> CHR ''/'' \<notin> set ''pre-restore-5''"
proof -
  have "validate_name (JStr ''pre-restore-5'') = Inr ''pre-restore-5''" by code_simp
  with snapshot_name_is_local [OF this] show ?thesis by blast
qed

end
