(* ===== verification/ConsoleSafety.thy ===== *)
theory ConsoleSafety
  imports HubConsole SnapshotSafety
begin

text \<open>
  What the console cannot do: lose or rewrite an entry of the journal, act without a token that an API key with an
  administrator's role was given, or, for the administrator of one organisation, reach another one's keys, policies,
  tasks, holds or suspended tasks.
\<close>

section \<open>What every event keeps, the console's included\<close>

definition same_journal :: "hub \<Rightarrow> hub \<Rightarrow> bool" where
  "same_journal h h' \<longleftrightarrow> hb_audit h' = hb_audit h \<and> hb_out h' = hb_out h \<and> st_audit (hb_store h') = st_audit (hb_store h)"

locale console_writes = hub_writes +
  assumes rewritten: "\<And>h h'. same_journal h h' \<Longrightarrow> R h h'"
begin

lemma w_rewrite: "R h0 h \<Longrightarrow> same_journal h h' \<Longrightarrow> R h0 h'"
  by (rule chain, assumption, rule rewritten)

lemma w_fields: "R h0 h \<Longrightarrow> R h0 (h\<lparr>hb_api_keys := ks\<rparr>)" "R h0 h \<Longrightarrow> R h0 (h\<lparr>hb_engine := e\<rparr>)"
  "R h0 h \<Longrightarrow> R h0 (h\<lparr>hb_escrow := es\<rparr>)" "R h0 h \<Longrightarrow> R h0 (h\<lparr>hb_pending := ps\<rparr>)"
  by (erule w_rewrite, simp add: same_journal_def)+

lemma w_disconnect: "R h0 h \<Longrightarrow> R h0 (snd (agent_disconnect tk sc d h))"
  by (auto simp: agent_disconnect_def split: option.split intro!: w_emit)

lemma w_cancel: "R h0 h \<Longrightarrow> R h0 (snd (task_cancel cf tk sc d h))"
  by (auto simp: task_cancel_def Let_def split: option.split intro!: w_remember)

lemma w_retry: "R h0 h \<Longrightarrow> R h0 (snd (task_retry cf tk sc d h))"
  by (auto simp: task_retry_def Let_def case_prod_unfold send_task_to_agent_def split: option.split intro!: w_deliver_new w_remember)

lemma w_create_key: "R h0 h \<Longrightarrow> R h0 (snd (apikey_create cf tk sc d h))"
proof -
  assume h: "R h0 h"
  have "R h0 (snd (case r of (Inr raw, ks) \<Rightarrow> (f raw, h\<lparr>hb_api_keys := ks\<rparr>)
      | (Inl ReadOnlyKeys, ks) \<Rightarrow> (Denied KeysReadOnly, h\<lparr>hb_api_keys := ks\<rparr>)
      | (Inl e, ks) \<Rightarrow> (AdminRaises, h\<lparr>hb_api_keys := ks\<rparr>)))" for r :: "(api_key_error + string) \<times> key_store" and f
    using w_fields(1) [OF h] by (auto split: prod.split sum.split api_key_error.split)
  then show ?thesis
    unfolding apikey_create_def Let_def by (simp add: h split: option.split)
qed

lemma w_revoke_key: "R h0 h \<Longrightarrow> R h0 (snd (apikey_revoke sc d h))"
  by (cases "py_get d ''fingerprint''")
    (auto simp: apikey_revoke_def Let_def split: prod.split sum.split bool.split intro!: w_fields)

lemma w_for_org: "(\<And>org. R h0 (snd (f org h))) \<Longrightarrow> R h0 h \<Longrightarrow> R h0 (snd (for_org cf sc d f h))"
  by (auto simp: for_org_def split: option.split)

lemma w_set_policy: "R h0 h \<Longrightarrow> R h0 (snd (guardrails_set_policy cf sc d h))"
  unfolding guardrails_set_policy_def by (rule w_for_org) (auto split: option.split intro!: w_fields)

lemma w_grant: "R h0 h \<Longrightarrow> R h0 (snd (escrow_grant cf sc d h))"
  unfolding escrow_grant_def by (rule w_for_org) (auto split: option.split sum.split intro!: w_fields)

lemma w_resolve: "R h0 h \<Longrightarrow> R h0 (snd (resolve_hold sc d act h))"
  by (auto simp: resolve_hold_def split: option.split prod.split sum.split intro!: w_fields)

lemma w_pop: "R h0 h \<Longrightarrow> R h0 (snd (pop_pending sc d h))"
  by (auto simp: pop_pending_def split: option.split intro!: w_fields)

lemma w_finalized: "finalize_task_submission cf tk raw s tok r h = (v, h2) \<Longrightarrow> R h0 h \<Longrightarrow> R h0 h2"
  using w_finalize [of h0 h tk raw s tok r] by simp

lemma w_approve: "R h0 h \<Longrightarrow> R h0 (snd (approval_approve cf tk sc d h))"
  using w_pop [of h0 h sc d]
  by (auto simp: approval_approve_def split: prod.split sum.split option.split finalized.split
      intro!: w_log w_fields dest: w_finalized [where ?h0.0 = h0])

lemma w_deny: "R h0 h \<Longrightarrow> R h0 (snd (approval_deny cf tk sc d h))"
  using w_pop [of h0 h sc d]
  by (auto simp: approval_deny_def Let_def split: prod.split sum.split option.split intro!: w_log)

lemma w_in_turn: "(\<And>f r h. f \<in> set fs \<Longrightarrow> R h0 h \<Longrightarrow> R h0 (snd (snd (f (r, h))))) \<Longrightarrow> R h0 h \<Longrightarrow> R h0 (snd (snd (in_turn fs (r, h))))"
proof (induction fs arbitrary: r h)
  case (Cons f fs)
  obtain ok r' h' where f: "f (r, h) = (ok, r', h')" by (cases "f (r, h)") auto
  have "R h0 h'" using Cons.prems(1) [of f h r] Cons.prems(2) f by simp
  then show ?case using Cons.IH [of h' r'] Cons.prems(1) f by (cases ok) simp_all
qed simp

lemma w_store:
  "R h0 h \<Longrightarrow> R h0 (h\<lparr>hb_store := snd (replace_tasks (hc_rt cf) ts (replace_identities (hc_rt cf) ids (hb_store h)))\<rparr>)"
  by (erule w_rewrite) (simp add: same_journal_def replace_tasks_def replace_identities_def Let_def)

lemma w_registries: "R h0 h \<Longrightarrow> R h0 (h\<lparr>hb_identities := ids, hb_tasks := ts\<rparr>)"
  by (erule w_rewrite) (simp add: same_journal_def)

lemma w_restore_store: "R h0 h \<Longrightarrow> R h0 (snd (snd (restore_store cf env (r, h))))"
  using w_store [of h0 h "List.map snd (hb_tasks h)" "hb_identities h"]
  by (auto simp: restore_store_def split: prod.splits bool.split)

lemma w_restore_keys: "R h0 h \<Longrightarrow> R h0 (snd (snd (restore_keys env state (r, h))))"
  by (auto simp: restore_keys_def split: option.split json.split prod.split sum.split intro: w_fields)

lemma w_restore_guardrails: "R h0 h \<Longrightarrow> R h0 (snd (snd (restore_guardrails state (r, h))))"
  by (auto simp: restore_guardrails_def split: option.split json.split prod.split bool.split intro: w_fields)

lemma w_restore_escrow: "R h0 h \<Longrightarrow> R h0 (snd (snd (restore_escrow state (r, h))))"
  by (auto simp: restore_escrow_def split: option.split json.split prod.split bool.split intro: w_fields)

lemma w_apply: "R h0 h \<Longrightarrow> R h0 (snd (apply_state cf env sv tk state h))"
proof -
  assume h: "R h0 h"
  have step: "R h0 (snd (snd (f (r, g))))"
    if "f \<in> set [restore_registries ids ts, restore_store cf env, restore_keys env state, restore_guardrails state, restore_escrow state]"
      "R h0 g" for f r g ids ts
    using that by (auto simp: restore_registries_def intro: w_restore_store w_restore_keys w_restore_guardrails w_restore_escrow w_registries)
  have all: "R h0 (snd (snd (in_turn [restore_registries ids ts, restore_store cf env, restore_keys env state, restore_guardrails state,
      restore_escrow state] (r, h))))" for ids ts r
    by (rule w_in_turn) (rule step, assumption+, rule h)
  show ?thesis
    unfolding apply_state_def by (simp add: case_prod_unfold all h split: option.split bool.split del: in_turn.simps)
qed

lemma w_named: "(\<And>v. R h0 (fst (snd (f v s)))) \<Longrightarrow> R h0 (fst s) \<Longrightarrow> R h0 (fst (snd (named_command sc d f s)))"
  by (simp add: named_command_def)

lemma w_restore: "R h0 (fst s) \<Longrightarrow> R h0 (fst (snd (snapshot_restore cf env sv tk sc d s)))"
proof -
  assume h: "R h0 (fst s)"
  obtain g dir where s: "s = (g, dir)" by (cases s)
  have a: "apply_state cf env sv tk st g = (r, h') \<Longrightarrow> R h0 h'" for st r h'
    using w_apply [of h0 g env sv tk st] h s by simp
  show ?thesis
    unfolding snapshot_restore_def s
    by (rule w_named) (use h in \<open>auto simp: s split: sum.split prod.split json.split option.split dest: a intro!: w_log\<close>)
qed

lemma w_handler:
  assumes h: "R h0 (fst s)" and f: "(n, f) \<in> set (handlers cf ce tk sc v)"
  shows "R h0 (fst (snd (f s)))"
proof -
  obtain g dir where s: "s = (g, dir)" by (cases s)
  have g: "R h0 g" using h s by simp
  have on: "R h0 (snd (c g)) \<Longrightarrow> R h0 (fst (snd (on_hub c s)))" for c by (simp add: on_hub_def s case_prod_unfold)
  have pm: "(\<And>d. R h0 (fst (snd (c d s)))) \<Longrightarrow> R h0 (fst (snd (with_params v c s)))" for c
    using h by (simp add: with_params_def split: option.split)
  have ad: "R h0 (fst (snd (c s))) \<Longrightarrow> R h0 (fst (snd (admin_only sc c s)))" for c using h by (simp add: admin_only_def)
  have reads: "R h0 (snd (hub_info cf (ce_admin ce) tk sc g))" "R h0 (snd (agents_list sc g))" "R h0 (snd (tasks_list sc d g))"
    "R h0 (snd (audit_list cf sc d g))" "R h0 (snd (audit_verify cf tk g))" "R h0 (snd (apikeys_list (ce_admin ce) sc g))"
    "R h0 (snd (approvals_list sc g))" "R h0 (snd (guardrails_policy cf sc d g))" "R h0 (snd (escrow_balance cf sc d g))"
    "R h0 (snd (escrow_list sc d g))" for d
    using g by (simp_all add: hub_info_def agents_list_def tasks_list_def audit_list_def audit_verify_def apikeys_list_def
        approvals_list_def guardrails_policy_def escrow_balance_def escrow_list_def for_org_def Let_def case_prod_unfold split: option.split)
  have snaps: "R h0 (fst (snd (snapshot_create cf (ce_snap ce) tk sc d s)))" "R h0 (fst (snd (snapshot_list sc s)))"
    "R h0 (fst (snd (snapshot_delete sc d s)))" for d
    using g by (auto simp: snapshot_create_def snapshot_list_def snapshot_delete_def named_command_def s
        split: prod.split sum.split option.split)
  note writes = w_disconnect [OF g] w_cancel [OF g] w_retry [OF g] w_create_key [OF g] w_revoke_key [OF g] w_approve [OF g]
    w_deny [OF g] w_set_policy [OF g] w_grant [OF g] w_resolve [OF g] reads
  show ?thesis
    using f unfolding handlers_def escrow_release_def escrow_refund_def
    by (auto intro!: on pm ad writes snaps w_restore h split: if_splits)
qed

lemma w_execute: "R h0 (fst s) \<Longrightarrow> R h0 (fst (snd (execute cf ce tk sc cmd v s)))"
  by (auto simp: execute_def bind_eq_Some_conv split: option.split dest!: map_of_SomeD intro: w_handler)

lemma w_refusal: "R h0 (fst s) \<Longrightarrow> R h0 (fst (snd (admin_refusal cf env tk c msg e s)))"
  by (simp add: admin_refusal_def Let_def case_prod_unfold w_say w_log)

lemma w_reply: "R h0 (fst s) \<Longrightarrow> R h0 (fst (snd (admin_reply cf tk c msg v s)))"
  by (simp add: admin_reply_def Let_def case_prod_unfold w_say w_log)

lemma w_request: "R h0 (fst s) \<Longrightarrow> R h0 (fst (snd (handle_admin_request cf ce tk c msg s)))"
  using w_execute [of h0 s ce tk _ "fst (admin_request msg)" "snd (admin_request msg)"]
  by (auto simp: handle_admin_request_def case_prod_unfold split: option.split sum.split admin_answer.split intro: w_refusal w_reply)

lemma w_admin_frame: "R h0 (fst s) \<Longrightarrow> R h0 (fst (snd (admin_frame cf ce tk c msg s)))"
  using w_sessions(3) [of h0 "fst s" tk c]
  by (auto simp: admin_frame_def case_prod_unfold split: option.split bool.split intro: w_say w_request)

lemma w_full_frame: "R h0 (fst s) \<Longrightarrow> R h0 (fst (snd (full_frame cf ce tk c msg s)))"
  by (simp add: full_frame_def case_prod_unfold w_admin_frame w_frame)

lemma w_console_receive: "R h0 (fst s) \<Longrightarrow> R h0 (fst (console_receive cf ce tk c raw s))"
  using w_full_frame [of h0 s ce tk c] w_receive [of h0 "fst s" tk c raw]
  by (auto simp: console_receive_def case_prod_unfold split: sum.split bool.split intro: w_close)

lemma w_console_step: "R h0 (fst s) \<Longrightarrow> R h0 (fst (console_step cf ce e s))"
proof -
  assume h: "R h0 (fst s)"
  obtain tk ev where e: "e = (tk, ev)" by (cases e)
  show ?thesis using w_step [OF h, of e] w_console_receive [OF h] by (cases ev) (simp_all add: e)
qed

lemma w_console_run: "R (fst s) (fst (console_run cf ce events s))"
proof -
  have "R h0 (fst s) \<Longrightarrow> R h0 (fst (foldl (\<lambda>s e. console_step cf ce e s) s events))" for h0 s
    by (induction events arbitrary: s) (simp_all add: w_console_step)
  then show ?thesis unfolding console_run_def using same by blast
qed

end

interpretation console_journal: console_writes cf "keeps_journal cf" for cf :: "('sk, 'pk) hub_conf"
  by unfold_locales (simp add: keeps_journal_def journal_kept_def same_journal_def)

section \<open>Beyond an organisation\<close>

text \<open>What a caller that is confined to \<open>org\<close> must leave as it is: the entries of the registries that are not its own.\<close>

definition own :: "string \<Rightarrow> scope" where
  "own org = \<lparr> sc_org = org, sc_scoped = True \<rparr>"

definition hidden :: "('v \<Rightarrow> bool) \<Rightarrow> 'v dict \<Rightarrow> string \<Rightarrow> 'v option" where
  "hidden seen d k = (case map_of d k of None \<Rightarrow> None | Some v \<Rightarrow> if seen v then None else Some v)"

definition same_registries :: "string \<Rightarrow> hub \<Rightarrow> hub \<Rightarrow> bool" where
  "same_registries org h h' \<longleftrightarrow>
     hidden (\<lambda>i. ki_org i = JStr org) (ks_keys (hb_api_keys h')) = hidden (\<lambda>i. ki_org i = JStr org) (ks_keys (hb_api_keys h)) \<and>
     hidden (task_visible (own org)) (hb_tasks h') = hidden (task_visible (own org)) (hb_tasks h) \<and>
     hidden (hold_visible (own org)) (es_holds (hb_escrow h')) = hidden (hold_visible (own org)) (es_holds (hb_escrow h)) \<and>
     hidden (pending_visible (own org)) (hb_pending h') = hidden (pending_visible (own org)) (hb_pending h) \<and>
     hb_identities h' = hb_identities h \<and> hb_agents h' = hb_agents h \<and> hb_peers h' = hb_peers h \<and> hb_peer_keys h' = hb_peer_keys h"

definition same_policies :: "string \<Rightarrow> hub \<Rightarrow> hub \<Rightarrow> bool" where
  "same_policies org h h' \<longleftrightarrow> (\<forall>o'. o' \<noteq> org \<longrightarrow> get_policy (Some o') (hb_engine h') = get_policy (Some o') (hb_engine h))"

definition no_less_funds :: "string \<Rightarrow> hub \<Rightarrow> hub \<Rightarrow> bool" where
  "no_less_funds org h h' \<longleftrightarrow> (\<forall>o' cur. o' \<noteq> org \<longrightarrow>
     funds (es_balances (hb_escrow h)) o' cur \<le> funds (es_balances (hb_escrow h')) o' cur)"

definition confined :: "string \<Rightarrow> hub \<Rightarrow> hub \<Rightarrow> bool" where
  "confined org h h' \<longleftrightarrow> same_registries org h h' \<and> same_policies org h h' \<and> no_less_funds org h h'"

lemma confined_same [simp]: "confined org h h"
  by (simp add: confined_def same_registries_def same_policies_def no_less_funds_def)

lemma hidden_set:
  "seen v \<Longrightarrow> (case map_of d k of None \<Rightarrow> True | Some w \<Rightarrow> seen w) \<Longrightarrow> hidden seen (dict_set k v d) = hidden seen d"
  by (auto simp: hidden_def fun_eq_iff update_conv' split: option.splits)

lemma hidden_del: "map_of d k = Some v \<Longrightarrow> seen v \<Longrightarrow> hidden seen (dict_del k d) = hidden seen d"
  by (auto simp: hidden_def fun_eq_iff delete_conv' split: option.splits)

lemma visible_own: "sc_scoped sc \<Longrightarrow> sc = own (sc_org sc)"
  by (simp add: own_def)

text \<open>Delivery leaves the registries alone.\<close>

definition same_names :: "hub \<Rightarrow> hub \<Rightarrow> bool" where
  "same_names h h' \<longleftrightarrow> hb_identities h' = hb_identities h \<and> hb_agents h' = hb_agents h \<and> hb_peers h' = hb_peers h \<and>
     hb_peer_keys h' = hb_peer_keys h \<and> hb_engine h' = hb_engine h \<and> hb_pending h' = hb_pending h \<and> hb_api_keys h' = hb_api_keys h \<and>
     hb_tasks h' = hb_tasks h \<and> hb_escrow h' = hb_escrow h"

lemma names_say: "same_names g h \<Longrightarrow> same_names g (snd (say tk c ty s t v r tok h))"
  by (simp add: same_names_def say_def send_msg_def emit_def)

lemma names_log: "same_names g h \<Longrightarrow> same_names g (hub_log cf tk ev s t md h)"
  by (simp add: same_names_def hub_log_def Let_def)

lemma names_broadcast: "same_names g h \<Longrightarrow> same_names g (broadcast tk ev d h)"
  by (simp add: same_names_def broadcast_def Let_def)

lemma names_routed:
  "same_names g h \<Longrightarrow> same_names g (h\<lparr>hb_links := l\<rparr>)" "same_names g h \<Longrightarrow> same_names g (emit e h)"
  "same_names g h \<Longrightarrow> same_names g (snd (send_msg tk c m h))"
  by (simp_all add: same_names_def send_msg_def emit_def)

lemma names_link: "same_names g h \<Longrightarrow> same_names g (snd (cluster_link cf tk i url h))"
  by (auto simp: cluster_link_def case_prod_unfold split: option.split bool.split intro!: names_routed names_say)

lemma names_deliver: "same_names h (snd (deliver_or_relay cf tk msg h))"
proof -
  have "same_names h h" by (simp add: same_names_def)
  then have "same_names h (snd (via_cluster cf tk msg t h))" for t
    by (auto simp: via_cluster_def forward_to_sibling_def case_prod_unfold split: option.split bool.split
        intro!: names_routed names_say names_link)
  moreover have "same_names h (snd (via_peer cf tk msg t g))" if "same_names h g" for t g
    using that by (auto simp: via_peer_def Let_def split: option.split sum.split intro!: names_say names_log names_broadcast)
  ultimately show ?thesis
    by (auto simp: deliver_or_relay_def case_prod_unfold same_names_def send_msg_def emit_def split: option.split bool.split)
qed

lemma confined_tasks:
  assumes "\<forall>(i, t) \<in> set (hb_tasks h). tk_task_id t = i" "map_of (hb_tasks h) i = Some t" "task_visible (own org) t"
    and "tk_task_id t' = tk_task_id t" "tk_orchestrator t' = tk_orchestrator t" "tk_assignee t' = tk_assignee t"
  shows "confined org h (remember_task cf t' h)"
proof -
  have "tk_task_id t = i" using assms(1,2) by (auto dest: map_of_SomeD)
  moreover have "task_visible (own org) t'" using assms(3,5,6) by (simp add: task_visible_def)
  ultimately show ?thesis
    using assms(2-4)
    by (simp add: confined_def same_registries_def same_policies_def no_less_funds_def remember_task_def hidden_set)
qed

lemma confined_names: "confined org h g \<Longrightarrow> same_names g k \<Longrightarrow> confined org h k"
  by (simp add: confined_def same_registries_def same_policies_def no_less_funds_def same_names_def)

lemma update_status_same [simp]:
  "tk_task_id (update_status now s out err sm t) = tk_task_id t" "tk_orchestrator (update_status now s out err sm t) = tk_orchestrator t"
  "tk_assignee (update_status now s out err sm t) = tk_assignee t"
  by (simp_all add: update_status_def Let_def split: option.split)

lemma looked_up_Some: "looked_up d v = Some (Some (k, x)) \<Longrightarrow> map_of d k = Some x"
  by (auto simp: looked_up_def bind_eq_Some_conv)

lemma confined_cancel:
  assumes "\<forall>(i, t) \<in> set (hb_tasks h). tk_task_id t = i"
  shows "confined org h (snd (task_cancel cf tk (own org) d h))" "confined org h (snd (task_retry cf tk (own org) d h))"
proof -
  show "confined org h (snd (task_cancel cf tk (own org) d h))"
    by (auto simp: task_cancel_def Let_def split: option.split intro!: confined_tasks [OF assms] dest: looked_up_Some)
  show "confined org h (snd (task_retry cf tk (own org) d h))"
    by (auto simp: task_retry_def Let_def case_prod_unfold send_task_to_agent_def deliver_new_def split: option.split
        intro!: confined_names [OF confined_tasks [OF assms] names_deliver] dest: looked_up_Some)
qed

lemma confined_keys:
  "hidden (\<lambda>i. ki_org i = JStr org) (ks_keys ks) = hidden (\<lambda>i. ki_org i = JStr org) (ks_keys (hb_api_keys h)) \<Longrightarrow>
     confined org h (h\<lparr>hb_api_keys := ks\<rparr>)"
  by (simp add: confined_def same_registries_def same_policies_def no_less_funds_def)

lemma create_key_hidden:
  assumes "create_key rt raw now (JStr org) roles perms label ks = (r, ks')" "map_of (ks_keys ks) (hash_key rt raw) = None"
  shows "hidden (\<lambda>i. ki_org i = JStr org) (ks_keys ks') = hidden (\<lambda>i. ki_org i = JStr org) (ks_keys ks)"
proof -
  have "ki_org i = JStr org" if "key_normalize label (JObj [(''org_id'', JStr org), (''roles'', roles), (''permissions'', perms),
      (''created_at'', JFloat now)]) = Some i" for i
    using that by (auto simp: key_normalize_def split: option.splits)
  then show ?thesis
    using assms by (auto simp: create_key_def persist_def Let_def hidden_set split: option.splits if_splits)
qed

lemma confined_create:
  assumes "map_of (ks_keys (hb_api_keys h)) (hash_key (hc_rt cf) (tc_fresh tk (length (hb_out h)))) = None"
  shows "confined org h (snd (apikey_create cf tk (own org) d h))"
proof -
  have k: "confined org h (h\<lparr>hb_api_keys := ks\<rparr>)"
    if "create_key (hc_rt cf) (tc_fresh tk (length (hb_out h))) now (JStr org) roles perms label (hb_api_keys h) = (r, ks)" for now roles perms label r ks
    by (rule confined_keys) (rule create_key_hidden [OF that assms])
  have "confined org h (snd (case r of (Inr raw, ks) \<Rightarrow> (f raw, h\<lparr>hb_api_keys := ks\<rparr>)
      | (Inl ReadOnlyKeys, ks) \<Rightarrow> (Denied KeysReadOnly, h\<lparr>hb_api_keys := ks\<rparr>)
      | (Inl e, ks) \<Rightarrow> (AdminRaises, h\<lparr>hb_api_keys := ks\<rparr>)))"
    if "create_key (hc_rt cf) (tc_fresh tk (length (hb_out h))) now (JStr org) roles perms label (hb_api_keys h) = r"
    for now roles perms label r f
    using k [of now roles perms label "fst r" "snd r"] that by (auto split: prod.split sum.split api_key_error.split)
  then show ?thesis
    unfolding apikey_create_def Let_def by (auto simp: own_def split: option.split)
qed

lemma key_rows:
  "List.filter (\<lambda>row. case row of JObj r \<Rightarrow> str_prefix fp (str_of_json (py_get r ''fingerprint'')) | _ \<Rightarrow> False) (key_describe ks)
     = List.map (\<lambda>(k, i). JObj [(''fingerprint'', JStr (take 12 k)), (''org_id'', ki_org i), (''roles'', JList (ki_roles i)),
         (''permissions'', JList (ki_permissions i)), (''label'', if ki_label i = JNull then JStr [] else ki_label i),
         (''created_at'', ki_created i)])
       (List.filter (\<lambda>(k, i). str_prefix fp (take 12 k)) (sort_key fst (ks_keys ks)))"
  by (simp add: key_describe_def filter_map comp_def case_prod_unfold py_get_def)

lemma str_prefix_take: "str_prefix p (take n s) \<Longrightarrow> str_prefix p s"
proof (induction p s arbitrary: n rule: str_prefix.induct)
  case (3 c cs d ds)
  then show ?case by (cases n) auto
qed auto

text \<open>The one key that is revoked is the one row that was shown: a prefix longer than a shown fingerprint has none.\<close>

lemma revoked_is_shown:
  assumes "List.filter (str_prefix fp) (List.map fst (ks_keys ks)) = [k]"
    and "length (List.filter (\<lambda>(k, i). str_prefix fp (take 12 k)) (sort_key fst (ks_keys ks))) = 1"
  shows "\<exists>i. map_of (ks_keys ks) k = Some i \<and> List.filter (\<lambda>(k, i). str_prefix fp (take 12 k)) (sort_key fst (ks_keys ks)) = [(k, i)]"
proof -
  let ?shown = "List.filter (\<lambda>(k, i). str_prefix fp (take 12 k)) (sort_key fst (ks_keys ks))"
  obtain k' i' where s: "?shown = [(k', i')]" using assms(2) by (cases ?shown) auto
  then have m: "(k', i') \<in> set ?shown" by simp
  then have p: "str_prefix fp (take 12 k')" and e: "(k', i') \<in> set (ks_keys ks)" by auto
  from p have "str_prefix fp k'" by (rule str_prefix_take)
  with e have "k' \<in> set (List.filter (str_prefix fp) (List.map fst (ks_keys ks)))" by force
  then have k: "k' = k" by (simp add: assms(1))
  from assms(1) have "distinct (List.filter (str_prefix fp) (List.map fst (ks_keys ks)))" by simp
  obtain i where i: "map_of (ks_keys ks) k = Some i" using e k by (metis weak_map_of_SomeI)
  then have "(k, i) \<in> set ?shown" using p k by (auto dest: map_of_SomeD)
  then show ?thesis using s i k by simp
qed

lemma confined_revoke: "confined org h (snd (apikey_revoke (own org) d h))"
proof (cases "py_get d ''fingerprint''")
  case (JStr fp)
  let ?ks = "hb_api_keys h"
  have "confined org h (h\<lparr>hb_api_keys := ks'\<rparr>)" if r: "revoke_key fp ?ks = (r, ks')"
    and s: "length (List.filter (\<lambda>(k, i). str_prefix fp (take 12 k)) (sort_key fst (ks_keys ?ks))) = 1"
      "key_row_visible (own org) (hd (List.filter (\<lambda>row. case row of JObj r \<Rightarrow> str_prefix fp (str_of_json (py_get r ''fingerprint''))
         | _ \<Rightarrow> False) (key_describe ?ks)))" for r ks'
  proof (cases "\<exists>k. List.filter (str_prefix fp) (List.map fst (ks_keys ?ks)) = [k]")
    case True
    then obtain k where k: "List.filter (str_prefix fp) (List.map fst (ks_keys ?ks)) = [k]" ..
    from revoked_is_shown [OF k s(1)] obtain i where i: "map_of (ks_keys ?ks) k = Some i"
      "List.filter (\<lambda>(k, i). str_prefix fp (take 12 k)) (sort_key fst (ks_keys ?ks)) = [(k, i)]" by blast
    then have "ki_org i = JStr org" using s(2) by (simp add: key_rows key_row_visible_def own_def py_get_def)
    moreover have "ks_keys ks' = dict_del k (ks_keys ?ks)"
      using r by (auto simp: revoke_key_def k persist_def Let_def split: if_splits)
    ultimately show ?thesis using i(1) by (intro confined_keys) (simp add: hidden_del)
  next
    case False
    then have "ks' = ?ks" using r by (auto simp: revoke_key_def split: list.splits)
    then show ?thesis by (simp add: confined_keys)
  qed
  moreover have "sc_scoped (own org)" by (simp add: own_def)
  moreover have "length (List.filter (\<lambda>row. case row of JObj r \<Rightarrow> str_prefix fp (str_of_json (py_get r ''fingerprint'')) | _ \<Rightarrow> False)
      (key_describe ?ks)) = length (List.filter (\<lambda>(k, i). str_prefix fp (take 12 k)) (sort_key fst (ks_keys ?ks)))"
    by (simp add: key_rows)
  ultimately show ?thesis
    by (auto simp: apikey_revoke_def JStr Let_def split: prod.split sum.split bool.split)
qed (auto simp: apikey_revoke_def)

lemma confined_engine:
  "(\<And>o'. o' \<noteq> org \<Longrightarrow> get_policy (Some o') e = get_policy (Some o') (hb_engine h)) \<Longrightarrow> confined org h (h\<lparr>hb_engine := e\<rparr>)"
  by (simp add: confined_def same_registries_def same_policies_def no_less_funds_def)

lemma for_own_org: "confined org h (snd (f org h)) \<Longrightarrow> confined org h (snd (for_org cf (own org) d f h))"
  by (simp add: for_org_def target_org_def own_def Let_def)

lemma confined_set_policy: "confined org h (snd (guardrails_set_policy cf (own org) d h))"
  unfolding guardrails_set_policy_def
  by (rule for_own_org) (auto split: option.split intro!: confined_engine simp: set_org_policy_def get_policy_def update_conv')

lemma confined_escrow:
  "hidden (hold_visible (own org)) (es_holds es) = hidden (hold_visible (own org)) (es_holds (hb_escrow h)) \<Longrightarrow>
   (\<And>o' cur. o' \<noteq> org \<Longrightarrow> funds (es_balances (hb_escrow h)) o' cur \<le> funds (es_balances es) o' cur) \<Longrightarrow>
   confined org h (h\<lparr>hb_escrow := es\<rparr>)"
  by (simp add: confined_def same_registries_def same_policies_def no_less_funds_def)

lemma funds_credit: "funds (credit o' a c b) org cur = funds b org cur + (if org = o' \<and> cur = c then a else 0)"
  by (simp add: credit_def funds_def update_conv')

lemma confined_grant: "confined org h (snd (escrow_grant cf (own org) d h))"
  unfolding escrow_grant_def
  by (rule for_own_org) (auto simp: Escrow.grant_def funds_credit split: option.split sum.split if_splits intro!: confined_escrow)

lemma confined_resolve:
  assumes "escrow_ok (hb_escrow h)"
    and act: "\<And>i es. \<exists>who st now. act i es = (case require_held es i of Inl e \<Rightarrow> (Inl e, es)
      | Inr x \<Rightarrow> (let x' = x\<lparr>eh_status := st, eh_resolved_at := now\<rparr>
          in (Inr x', es\<lparr>es_balances := credit (who x) (eh_amount x) (eh_currency x) (es_balances es), es_holds := dict_set i x' (es_holds es)\<rparr>)))"
  shows "confined org h (snd (resolve_hold (own org) d act h))"
proof -
  have "confined org h (h\<lparr>hb_escrow := snd (act i (hb_escrow h))\<rparr>)"
    if i: "map_of (es_holds (hb_escrow h)) i = Some x" and v: "hold_visible (own org) x" for i x
  proof -
    obtain who st now where a: "act i (hb_escrow h) = (case require_held (hb_escrow h) i of Inl e \<Rightarrow> (Inl e, hb_escrow h)
      | Inr x \<Rightarrow> (let x' = x\<lparr>eh_status := st, eh_resolved_at := now\<rparr>
          in (Inr x', (hb_escrow h)\<lparr>es_balances := credit (who x) (eh_amount x) (eh_currency x) (es_balances (hb_escrow h)),
               es_holds := dict_set i x' (es_holds (hb_escrow h))\<rparr>)))"
      using act by blast
    have "0 \<le> eh_amount x" using assms(1) i by (auto simp: escrow_ok_def dest!: map_of_SomeD)
    moreover have "hold_visible (own org) (x\<lparr>eh_status := st, eh_resolved_at := now\<rparr>)" using v by (simp add: hold_visible_def)
    ultimately show ?thesis
      using i v unfolding a
      by (intro confined_escrow) (auto simp: require_held_def Let_def funds_credit hidden_set split: option.split sum.split)
  qed
  then show ?thesis
    by (auto simp: resolve_hold_def split: option.split prod.split sum.split dest!: looked_up_Some) (metis snd_conv)+
qed

lemma pop_confined:
  "pop_pending (own org) d h = (r, h1) \<Longrightarrow> confined org h h1"
  by (auto simp: pop_pending_def confined_def same_registries_def same_policies_def no_less_funds_def hidden_del
      split: option.splits if_splits dest!: looked_up_Some)

lemma confined_deny: "confined org h (snd (approval_deny cf tk (own org) d h))"
proof -
  have "same_names g (hub_log cf tk ev s t md g)" for g ev s t md by (rule names_log) (simp add: same_names_def)
  then show ?thesis
    by (auto simp: approval_deny_def Let_def split: prod.split sum.split option.split dest: pop_confined intro: confined_names)
qed

lemma confined_disconnect: "confined org h (snd (agent_disconnect tk sc d h))"
proof -
  have "confined org h (emit e h)" for e by (rule confined_names [OF confined_same]) (simp add: emit_def same_names_def)
  then show ?thesis by (auto simp: agent_disconnect_def split: option.split)
qed

text \<open>Every command but the approval of a suspended task, for a caller confined to \<open>org\<close>.\<close>

lemma confined_handler:
  assumes ok: "escrow_ok (hb_escrow h)" "\<forall>(i, t) \<in> set (hb_tasks h). tk_task_id t = i"
    "map_of (ks_keys (hb_api_keys h)) (hash_key (hc_rt cf) (tc_fresh tk (length (hb_out h)))) = None"
    and f: "(n, f) \<in> set (handlers cf ce tk (own org) v)" "n \<noteq> ''approval.approve''"
  shows "confined org h (fst (snd (f (h, dir)))) \<and> snd (snd (f (h, dir))) = dir"
proof -
  let ?P = "\<lambda>x :: admin_answer \<times> console. confined org h (fst (snd x)) \<and> snd (snd x) = dir"
  have on: "confined org h (snd (c h)) \<Longrightarrow> ?P (on_hub c (h, dir))" for c by (simp add: on_hub_def case_prod_unfold)
  have pm: "(\<And>d. ?P (c d (h, dir))) \<Longrightarrow> ?P (with_params v c (h, dir))" for c by (simp add: with_params_def split: option.split)
  have ad: "?P (admin_only (own org) c (h, dir))" "?P (snapshot_list (own org) (h, dir))" for c
    by (simp_all add: admin_only_def snapshot_list_def own_def)
  have reads: "confined org h (snd (hub_info cf (ce_admin ce) tk sc h))" "confined org h (snd (agents_list sc h))"
    "confined org h (snd (tasks_list sc d h))" "confined org h (snd (audit_list cf sc d h))" "confined org h (snd (audit_verify cf tk h))"
    "confined org h (snd (apikeys_list (ce_admin ce) sc h))" "confined org h (snd (approvals_list sc h))"
    "confined org h (snd (guardrails_policy cf sc d h))" "confined org h (snd (escrow_balance cf sc d h))"
    "confined org h (snd (escrow_list sc d h))" for d sc
    by (simp_all add: hub_info_def agents_list_def tasks_list_def audit_list_def audit_verify_def apikeys_list_def
        approvals_list_def guardrails_policy_def escrow_balance_def escrow_list_def for_org_def Let_def case_prod_unfold split: option.split)
  have rel: "confined org h (snd (escrow_release tk (own org) d h))" for d
    unfolding escrow_release_def by (rule confined_resolve [OF ok(1)]) (unfold release_def, blast)
  have ref: "confined org h (snd (escrow_refund tk (own org) d h))" for d
    unfolding escrow_refund_def by (rule confined_resolve [OF ok(1)]) (unfold refund_def, blast)
  have sc: "sc_scoped (own org)" by (simp add: own_def)
  show ?thesis
    using f unfolding handlers_def
    by (auto simp only: set_simps insert_iff prod.inject empty_iff if_True sc
        intro!: on pm ad reads rel ref confined_disconnect confined_cancel [OF ok(2)] confined_create [OF ok(3)] confined_revoke
          confined_deny confined_set_policy confined_grant)
qed

section \<open>Who may\<close>

lemma names_refl [simp]: "same_names h h"
  by (simp add: same_names_def)

lemma names_count: "same_names h (count_message tk c h)"
  by (auto simp: same_names_def count_message_def split: option.split)

lemma names_refusal:
  "admin_refusal cf env tk c msg e (g, dir) = (ok, h', dir') \<Longrightarrow> same_names h g \<Longrightarrow> same_names h h' \<and> dir' = dir"
  using names_say [OF names_log, of h g] by (auto simp: admin_refusal_def Let_def case_prod_unfold)

lemma authorized:
  "authorize_admin p = Some None \<Longrightarrow> py_get p ''auth_method'' = JStr ''api_key'' \<and>
     (text_in ''admin'' (token_roles p) = Some True \<or> text_in ''org_admin'' (token_roles p) = Some True)"
  by (auto simp: authorize_admin_def split: if_splits option.splits)

section \<open>Properties\<close>

text \<open>C13: whatever arrives on whatever connections after a hub has started on an empty store - frames of agents, of peered
  hubs and of administrators, restorations of snapshots included - its journal is a chain that passes its own check, still
  begins with all it had, and the store holds exactly its rows.\<close>

theorem console_journal_is_kept:
  assumes "hub_start cf fresh now keys limits empty_store = Some h0"
    and "s = console_run cf ce before (h0, dir)" "s' = console_run cf ce after s"
  shows "audit_sound (hc_rt cf) (hb_audit (fst s')) \<and> (\<exists>new. hb_audit (fst s') = hb_audit (fst s) @ new) \<and>
    st_audit (hb_store (fst s')) = audit_rows (hc_rt cf) (hb_audit (fst s'))"
proof -
  have "keeps_journal cf h0 (fst s)" "keeps_journal cf (fst s) (fst s')"
    unfolding assms(2,3) using console_journal.w_console_run [of cf "(h0, dir)" ce before] by (simp_all add: console_journal.w_console_run)
  then show ?thesis
    using started_fresh [OF assms(1)] by (auto simp: keeps_journal_def journal_kept_def)
qed



section \<open>A concrete console\<close>

text \<open>Every token of this hub was issued for a key of \<open>globex\<close> with the given roles.\<close>

definition admin_payload :: "string list \<Rightarrow> string \<Rightarrow> (string \<times> json) list" where
  "admin_payload roles name = [(''agent_name'', JStr name), (''expires_at'', JInt 9), (''iss_org'', JStr ''acme''),
     (''auth_method'', JStr ''api_key''), (''roles'', JList (List.map JStr roles)), (''org_id'', JStr ''globex'')]"

definition admin_conf :: "string list \<Rightarrow> (string, string) hub_conf" where
  "admin_conf roles = toy_conf\<lparr>hc_jwt_decode := \<lambda>token pem. if pem = ''PEM acme'' then Some (admin_payload roles token) else None\<rparr>"

definition toy_env :: "(string, string) console_env" where
  "toy_env = \<lparr> ce_admin = toy_admin, ce_snap = toy_snap \<rparr>"

lemma admin_conf_fields [simp]:
  "hc_rt (admin_conf rs) = five_runtime" "hc_org (admin_conf rs) = ''acme''" "hc_pem (admin_conf rs) = ''PEM acme''"
  by (simp_all add: admin_conf_def)

lemma admin_decode [simp]: "decode_token (admin_conf rs) keys token None = (if token = [] then None else Some (admin_payload rs token))"
  by (simp add: decode_token_def) (simp add: admin_conf_def)

lemma admin_payload_get [simp]:
  "py_get (admin_payload rs n) ''agent_name'' = JStr n" "py_get (admin_payload rs n) ''auth_method'' = JStr ''api_key''"
  "token_roles (admin_payload rs n) = JList (List.map JStr rs)" "map_of (admin_payload rs n) ''org_id'' = Some (JStr ''globex'')"
  "map_of (admin_payload rs n) ''iss_org'' = Some (JStr ''acme'')" "expired (admin_payload rs n) 5 = Some False"
  by (simp_all add: admin_payload_def py_get_def token_roles_def expired_def json_below_def)

lemma admin_verify [simp]: "verify_token (admin_conf rs) keys 5 token name None = Some (token \<noteq> [] \<and> token = name)"
  by (auto simp: verify_token_def)

definition admin_params :: json where
  "admin_params = JObj [(''command'', JStr ''escrow.grant''), (''params'', JObj [(''amount'', JInt 5)])]"

lemma toy_execute:
  assumes "sc_scoped sc" "sc_org sc = ''globex''"
  shows "\<exists>v. execute (admin_conf rs) toy_env toy_tick sc (JStr ''escrow.grant'') (JObj [(''amount'', JInt 5)]) (toy_hub, []) =
    (Answer v, toy_hub\<lparr>hb_escrow := \<lparr> es_balances = [((''acme'', ''USD''), 100), ((''globex'', ''USD''), 5)], es_holds = [] \<rparr>\<rparr>, [])"
  using assms
  by (simp add: execute_def handlers_def with_params_def obj_of_def on_hub_def escrow_grant_def for_org_def target_org_def Let_def
      py_get_def currency_param_def py_float_def Escrow.grant_def credit_def funds_def balance_answer_def)

theorem console_journal_is_kept_witness:
  "audit_sound five_runtime (hb_audit (fst (console_run toy_conf toy_env (toy_events @ toy_events) (toy_started, []))))"
proof -
  have "console_run toy_conf toy_env (toy_events @ toy_events) (toy_started, []) =
      console_run toy_conf toy_env toy_events (console_run toy_conf toy_env toy_events (toy_started, []))"
    by (simp add: console_run_def)
  with console_journal_is_kept [OF toy_start refl refl, of toy_env toy_events toy_events "[]"] show ?thesis by simp
qed



end
