(* ===== verification/ConsoleViews.thy ===== *)
theory ConsoleViews
  imports ConsoleSafety
begin

text \<open>
  What the console shows: the administrator of one organisation sees nothing that depends on another's entries, and
  \<open>audit.verify\<close> agrees with the journal's own check and names the first broken entry.  The last part states what the
  console allows beyond what it means to.
\<close>

section \<open>The journal's check\<close>

lemma verify_links_nth:
  "verify_links rt p es \<longleftrightarrow>
     (\<forall>i < length es. ae_prev_hash (es ! i) = ae_hash ((p # es) ! i) \<and> ae_hash (es ! i) = compute_hash rt (es ! i))"
proof (induction es arbitrary: p)
  case (Cons c cs)
  show ?case
    by (auto simp: Cons.IH nth_Cons less_Suc_eq_0_disj split: nat.split)
qed simp

definition link_ok :: "('sk, 'pk) runtime \<Rightarrow> audit_entry list \<Rightarrow> nat \<Rightarrow> bool" where
  "link_ok rt chain i \<longleftrightarrow> ae_prev_hash (chain ! i) = ae_hash (chain ! (i - 1)) \<and> ae_hash (chain ! i) = compute_hash rt (chain ! i)"

lemma integrity_links: "verify_integrity rt chain \<longleftrightarrow> (\<forall>i \<in> {1..<length chain}. link_ok rt chain i)"
proof (cases chain)
  case (Cons g es)
  have "{1..<length chain} = Suc ` {0..<length es}" by (simp add: Cons image_Suc_atLeastLessThan)
  moreover have "(\<forall>i \<in> Suc ` A. P i) \<longleftrightarrow> (\<forall>i \<in> A. P (Suc i))" for A P by blast
  ultimately have "(\<forall>i \<in> {1..<length chain}. link_ok rt chain i) \<longleftrightarrow> (\<forall>i < length es. link_ok rt chain (Suc i))"
    by (simp only: atLeast0LessThan Ball_def lessThan_iff)
  also have "\<dots> \<longleftrightarrow> verify_integrity rt chain" by (simp add: Cons verify_integrity_def verify_links_nth link_ok_def)
  finally show ?thesis by simp
qed (simp add: verify_integrity_def)

lemma find_upt_Some:
  assumes "List.find P [a..<b] = Some i"
  shows "a \<le> i \<and> i < b \<and> P i \<and> (\<forall>j. a \<le> j \<and> j < i \<longrightarrow> \<not> P j)"
proof -
  obtain k where k: "k < b - a" "P (a + k)" "i = a + k" "\<And>j. j < k \<Longrightarrow> \<not> P ([a..<b] ! j)"
    using assms by (auto simp: find_Some_iff)
  have "\<not> P j" if "a \<le> j" "j < i" for j
    using k(4) [of "j - a"] k(1,3) that by (simp add: less_diff_conv2)
  then show ?thesis using k by auto
qed

lemma first_break_find: "first_break rt chain = List.find (\<lambda>i. \<not> link_ok rt chain i) [1..<length chain]"
  unfolding first_break_def link_ok_def by (rule arg_cong2 [where f = List.find]) auto

section \<open>Views\<close>

text \<open>Two hubs that look the same to an administrator of \<open>org\<close>.\<close>

definition same_view :: "string \<Rightarrow> hub \<Rightarrow> hub \<Rightarrow> bool" where
  "same_view org h g \<longleftrightarrow>
     List.filter (\<lambda>(n, i). id_org_id i = org) (hb_identities g) = List.filter (\<lambda>(n, i). id_org_id i = org) (hb_identities h) \<and>
     (\<forall>(n, i) \<in> set (hb_identities h). id_org_id i = org \<longrightarrow> (map_of (hb_agents g) n = None) = (map_of (hb_agents h) n = None)) \<and>
     List.filter (task_visible (own org)) (List.map snd (hb_tasks g)) = List.filter (task_visible (own org)) (List.map snd (hb_tasks h)) \<and>
     List.filter (entry_visible (own org)) (hb_audit g) = List.filter (entry_visible (own org)) (hb_audit h) \<and>
     List.filter (\<lambda>(k, i). ki_org i = JStr org) (ks_keys (hb_api_keys g)) = List.filter (\<lambda>(k, i). ki_org i = JStr org) (ks_keys (hb_api_keys h)) \<and>
     ks_path (hb_api_keys g) = ks_path (hb_api_keys h) \<and>
     List.filter (hold_visible (own org)) (List.map snd (es_holds (hb_escrow g)))
       = List.filter (hold_visible (own org)) (List.map snd (es_holds (hb_escrow h))) \<and>
     List.filter (\<lambda>(i, p). pending_visible (own org) p) (hb_pending g) = List.filter (\<lambda>(i, p). pending_visible (own org) p) (hb_pending h) \<and>
     get_policy (Some org) (hb_engine g) = get_policy (Some org) (hb_engine h) \<and>
     (\<forall>cur. funds (es_balances (hb_escrow g)) org cur = funds (es_balances (hb_escrow h)) org cur)"

text \<open>The agents of an organisation are filed under its prefix.\<close>

definition named_by_org :: "string \<Rightarrow> hub \<Rightarrow> bool" where
  "named_by_org org h \<longleftrightarrow> (\<forall>(n, i) \<in> set (hb_identities h). id_org_id i = org \<longrightarrow> org_of n = org)"

lemma own_sees:
  "identity_visible (own org) i \<longleftrightarrow> id_org_id i = org"
  "task_visible (own org) t \<longleftrightarrow> org \<in> {org_of (tk_orchestrator t), org_of (tk_assignee t)}"
  "hold_visible (own org) x \<longleftrightarrow> org \<in> {eh_payer x, eh_payee x}"
  by (simp_all add: identity_visible_def task_visible_def hold_visible_def own_def)

lemma filter_twice: "List.filter P xs = List.filter P ys \<Longrightarrow> List.filter (\<lambda>x. P x \<and> Q x) xs = List.filter (\<lambda>x. P x \<and> Q x) ys"
  by (metis filter_filter [of Q P] )

lemma agent_row_same:
  assumes "same_view org h g" "org_of n = org" "(map_of (hb_agents g) n = None) = (map_of (hb_agents h) n = None)"
  shows "agent_row g n i = agent_row h n i"
proof -
  let ?open = "\<lambda>t. tk_assignee t = n \<and> tk_status t \<in> {Pending, Running}"
  have "?open t \<Longrightarrow> task_visible (own org) t" for t using assms(2) by (auto simp: own_sees)
  then have w: "List.filter ?open xs = List.filter ?open (List.filter (task_visible (own org)) xs)" for xs
    by (induction xs) auto
  have "List.filter ?open (List.filter (task_visible (own org)) (List.map snd (hb_tasks g)))
      = List.filter ?open (List.filter (task_visible (own org)) (List.map snd (hb_tasks h)))"
    using assms(1) unfolding same_view_def by presburger
  then have "List.filter ?open (List.map snd (hb_tasks g)) = List.filter ?open (List.map snd (hb_tasks h))"
    by (simp only: w [symmetric])
  with assms(3) show ?thesis by (simp add: agent_row_def)
qed

lemma filter_map_snd: "List.filter (\<lambda>(i, x). P x) d = List.filter (\<lambda>(i, x). P x) d' \<Longrightarrow>
    List.filter P (List.map snd d) = List.filter P (List.map snd d')"
  by (metis (mono_tags, lifting) case_prod_unfold comp_def filter_cong filter_map)

lemma keys_same:
  assumes "same_view org h g"
  shows "List.filter (key_row_visible (own org)) (key_describe (hb_api_keys g)) = List.filter (key_row_visible (own org)) (key_describe (hb_api_keys h))"
proof -
  have "List.filter (key_row_visible (own org)) (key_describe ks) =
      key_describe (ks\<lparr>ks_keys := List.filter (\<lambda>(k, i). ki_org i = JStr org) (ks_keys ks)\<rparr>)" for ks
    by (simp add: key_describe_def filter_map comp_def case_prod_unfold key_row_visible_def own_def py_get_def filter_sort)
  moreover have "key_describe (ks\<lparr>ks_keys := d\<rparr>) = key_describe (ks'\<lparr>ks_keys := d\<rparr>)" for ks ks' d by (simp add: key_describe_def)
  ultimately show ?thesis using assms unfolding same_view_def by metis
qed

lemma agents_same:
  assumes "same_view org h g" "named_by_org org h"
  shows "fst (agents_list (own org) g) = fst (agents_list (own org) h)"
proof -
  have f: "List.filter (\<lambda>(n, i). identity_visible (own org) i) (sort_key fst d) = sort_key fst (List.filter (\<lambda>(n, i). id_org_id i = org) d)"
    for d :: "identity dict" by (simp add: own_sees filter_sort case_prod_unfold)
  define shown where "shown = sort_key fst (List.filter (\<lambda>(n, i). id_org_id i = org) (hb_identities h))"
  have on: "(map_of (hb_agents g) n = None) = (map_of (hb_agents h) n = None)" "org_of n = org" if "(n, i) \<in> set shown" for n i
    using that assms by (auto simp: shown_def same_view_def named_by_org_def)
  have "List.map (\<lambda>(n, i). agent_row g n i) shown = List.map (\<lambda>(n, i). agent_row h n i) shown"
    using agent_row_same [OF assms(1) on(2) on(1)] by (auto intro: map_cong)
  moreover have "List.filter (\<lambda>(n, i). map_of (hb_agents g) n \<noteq> None) shown = List.filter (\<lambda>(n, i). map_of (hb_agents h) n \<noteq> None) shown"
  proof (rule filter_cong)
    show "(case x of (n, i) \<Rightarrow> map_of (hb_agents g) n \<noteq> None) = (case x of (n, i) \<Rightarrow> map_of (hb_agents h) n \<noteq> None)"
      if "x \<in> set shown" for x
      using on(1) [of "fst x" "snd x"] that by (simp add: case_prod_unfold del: not_None_eq)
  qed simp
  moreover have "sort_key fst (List.filter (\<lambda>(n, i). id_org_id i = org) (hb_identities g)) = shown"
    using assms(1) by (simp add: shown_def same_view_def)
  ultimately show ?thesis unfolding agents_list_def f Let_def by (simp add: shown_def [symmetric])
qed

lemma tasks_same:
  assumes "same_view org h g"
  shows "fst (tasks_list (own org) d g) = fst (tasks_list (own org) d h)"
proof -
  have "List.filter (\<lambda>t. task_visible (own org) t \<and> P t) (List.map snd (hb_tasks g)) =
      List.filter (\<lambda>t. task_visible (own org) t \<and> P t) (List.map snd (hb_tasks h))" for P
    using assms by (intro filter_twice) (simp add: same_view_def)
  then show ?thesis unfolding tasks_list_def Let_def by (simp split: option.split)
qed

text \<open>The entries of an answer of \<open>audit.list\<close> and how many there are in all.\<close>

definition shown_entries :: "admin_answer \<Rightarrow> (json \<times> json) option" where
  "shown_entries a = (case a of Answer (JObj d) \<Rightarrow> Some (py_get d ''entries'', py_get d ''total'') | _ \<Rightarrow> None)"

lemma entries_same:
  assumes "same_view org h g"
  shows "shown_entries (fst (audit_list cf (own org) d g)) = shown_entries (fst (audit_list cf (own org) d h))"
proof -
  have "List.filter (\<lambda>e. entry_visible (own org) e \<and> P e) (hb_audit g) = List.filter (\<lambda>e. entry_visible (own org) e \<and> P e) (hb_audit h)" for P
    using assms by (intro filter_twice) (simp add: same_view_def)
  then show ?thesis unfolding audit_list_def Let_def by (simp add: shown_entries_def py_get_def split: option.split)
qed

lemma holds_same:
  assumes "same_view org h g" "org \<noteq> []"
  shows "fst (escrow_list (own org) d g) = fst (escrow_list (own org) d h)"
proof -
  have "list_holds es (Some org) = List.filter (hold_visible (own org)) (List.map snd (es_holds es))" for es
  proof -
    have "hold_visible (own org) = (\<lambda>x. org \<in> {eh_payer x, eh_payee x})" by (rule ext) (simp add: own_sees)
    with assms(2) show ?thesis by (simp add: list_holds_def)
  qed
  then show ?thesis using assms(1) by (simp add: escrow_list_def own_def [symmetric] same_view_def Let_def) (simp add: own_def)
qed

section \<open>Properties\<close>

text \<open>\<open>audit.verify\<close> finds the journal intact exactly when the journal's own check does, and otherwise names the first
  entry that is broken: the entries before it pass the check, those up to it do not.\<close>

theorem audit_verify_finds_first_break:
  "(first_break rt chain = None \<longleftrightarrow> verify_integrity rt chain) \<and>
   (\<forall>i. first_break rt chain = Some i \<longrightarrow> 0 < i \<and> i < length chain \<and> verify_integrity rt (take i chain) \<and>
      \<not> verify_integrity rt (take (Suc i) chain))"
proof -
  have "first_break rt chain = None \<longleftrightarrow> verify_integrity rt chain"
    by (auto simp: first_break_find integrity_links find_None_iff)
  moreover have "0 < i \<and> i < length chain \<and> verify_integrity rt (take i chain) \<and> \<not> verify_integrity rt (take (Suc i) chain)"
    if "first_break rt chain = Some i" for i
  proof -
    have i: "1 \<le> i" "i < length chain" "\<not> link_ok rt chain i" "\<And>j. 1 \<le> j \<Longrightarrow> j < i \<Longrightarrow> link_ok rt chain j"
      using find_upt_Some [OF that [unfolded first_break_find]] by auto
    have t: "link_ok rt (take n chain) j = link_ok rt chain j" if "j < n" for n j
      using that by (simp add: link_ok_def)
    show ?thesis using i t [of _ i] t [of _ "Suc i"] by (auto simp: integrity_links)
  qed
  ultimately show ?thesis by blast
qed

theorem audit_verify_finds_first_break_witness:
  "first_break five_runtime (audit_new five_runtime 5) = None"
  using audit_verify_finds_first_break [of five_runtime "audit_new five_runtime 5"] by simp



section \<open>Where the console allows more than it means to\<close>

text \<open>The roles of a new key are not checked: the administrator of an organisation creates a key with the role \<open>admin\<close>, and
  a token for that key is no longer confined.\<close>

theorem org_admin_can_become_admin:
  assumes "sc_scoped sc" "ks_path (hb_api_keys h)" "raw = tc_fresh tk (length (hb_out h))" "raw \<noteq> []"
    and "map_of (ks_keys (hb_api_keys h)) (hash_key (hc_rt cf) raw) = None"
  shows "\<exists>v h' i. apikey_create cf tk sc [(''roles'', JList [JStr ''admin''])] h = (Answer v, h') \<and>
    lookup_key (hc_rt cf) raw (hb_api_keys h') = Some i \<and> ki_org i = JStr (sc_org sc) \<and> ki_roles i = [JStr ''admin''] \<and>
    \<not> sc_scoped (caller_scope [(''roles'', JList (ki_roles i)), (''org_id'', ki_org i)])"
proof -
  have new: "foldl (\<lambda>m (h, i). if h = k then Some i else m) None (dict_set k i d) = Some i" if "map_of d k = None" for k :: string and i :: key_info and d
  proof -
    have "foldl (\<lambda>m (h, i). if h = k then Some i else m) m d' = m" if "map_of d' k = None" for m and d' :: "key_info dict"
      using that by (induction d') (auto split: if_splits)
    moreover have "dict_set k i d = d @ [(k, i)]" using that by (induction d) (auto split: if_splits)
    ultimately show ?thesis by simp
  qed
  show ?thesis
    using assms
    by (simp add: apikey_create_def py_get_def Let_def create_key_def key_normalize_def list_of_value_def py_or_def persist_def
        lookup_key_def new if_true_def caller_scope_def token_roles_def text_in_def)
qed

text \<open>A suspended task may be approved from the organisation it is to be sent to.\<close>

theorem assignee_side_may_approve:
  assumes "py_get (su_task p) ''assignee'' = JStr a" "org_of a = org"
  shows "pending_visible (own org) p"
  using assms by (simp add: pending_visible_def own_def)

text \<open>The organisation that a hold pays may release it to itself, finished or not.\<close>

theorem payee_may_release_to_itself:
  assumes "map_of (es_holds (hb_escrow h)) i = Some x" "eh_status x = Held" "eh_payee x = org" "i \<noteq> []"
    and "escrow_release tk (own org) [(''task_id'', JStr i)] h = (a, h')"
  shows "funds (es_balances (hb_escrow h')) org (eh_currency x) = funds (es_balances (hb_escrow h)) org (eh_currency x) + eh_amount x"
  using assms
  by (auto simp: escrow_release_def resolve_hold_def py_get_def looked_up_def key_text_def hold_visible_def own_def release_def
      require_held_def Let_def funds_credit)

text \<open>Cancelling a task leaves its hold: the funds stay out of the payer's reach.\<close>

theorem cancelled_task_keeps_its_hold:
  "hb_escrow (snd (task_cancel cf tk sc d h)) = hb_escrow h"
  by (auto simp: task_cancel_def Let_def split: option.split)

text \<open>The name under which a decision is logged is a parameter of the command.\<close>

theorem approver_is_a_parameter:
  assumes "map_of (hb_pending h) i = Some p" "\<not> sc_scoped sc" "name \<noteq> []"
  shows "ae_sender (last (hb_audit (snd (approval_deny cf tk sc [(''task_id'', JStr i), (''_approver'', JStr name)] h)))) = name"
  using assms
  by (simp add: approval_deny_def pop_pending_def py_get_def looked_up_def key_text_def pending_visible_def approver_param_def
      py_or_def Let_def hub_log_audit audit_log_def)

text \<open>An approved task that cannot be read is taken off the list of suspended tasks before the exception.\<close>

theorem approval_loses_unreadable_task:
  assumes "map_of (hb_pending h) i = Some p" "\<not> sc_scoped sc"
    and "task_from_dict (tc_fresh tk (length (hb_out h))) (tc_now tk) (JObj (su_task p)) = Inl e" "py_get (su_task p) ''escrow'' = JNull"
  shows "approval_approve cf tk sc [(''task_id'', JStr i)] h = (AdminRaises, h\<lparr>hb_pending := dict_del i (hb_pending h)\<rparr>)"
  using assms
  by (simp add: approval_approve_def pop_pending_def py_get_def looked_up_def key_text_def pending_visible_def approver_param_def
      py_or_def finalize_task_submission_def hold_for_def)

text \<open>One file that is JSON but no object ends the listing of the snapshots.\<close>

theorem one_file_hides_all_snapshots:
  assumes "(n, Some v) \<in> set dir" "\<And>d. v \<noteq> JObj d"
  shows "list_snapshots dir = None"
proof -
  have "read_document (Some (Some v)) = Inl SnapRaises" using assms(2) by (cases v) (auto simp: read_document_def)
  then have "manifests_of xs = None" if "(n, Some v) \<in> set xs" for xs
    using that by (induction xs) (auto split: sum.split snap_exc.split json.split)
  then show ?thesis using assms(1) by (simp add: list_snapshots_def)
qed

text \<open>A name may end in a line feed.\<close>

theorem snapshot_name_with_line_feed:
  "validate_name (JStr (''a'' @ [CHR 0x0A])) = Inr (''a'' @ [CHR 0x0A])"
  by code_simp

text \<open>An agent of the default organisation that is filed under its bare name is never counted as online.\<close>

theorem default_agents_look_offline:
  assumes "hb_agents h = [(''bob'', c)]" "hb_identities h = [(''bob'', i)]" "id_qualified_name i = ''default/bob''" "\<not> sc_scoped sc"
  shows "\<exists>d. fst (hub_info cf env tk sc h) = Answer (JObj d) \<and> py_get d ''agents_online'' = JInt 0 \<and>
    fst (agents_list sc h) = Answer (JObj [(''agents'', JList [agent_row h ''bob'' i]), (''online'', JInt 1), (''known'', JInt 1)])"
  using assms by (simp add: hub_info_def case_prod_unfold Let_def py_get_def identity_visible_def agents_list_def)

end
