(* ===== verification/Relay.thy ===== *)
theory Relay
  imports Ledger
begin

text \<open>
  \<open>relay.py\<close>: the registry that keeps the directory of keys and the ledger in one file, and the HTTP requests
  on it.  A request is what \<open>http.server\<close> and \<open>urllib.parse\<close> hand over: the path and the query of the target,
  the header \<open>Content-Length\<close>, the bytes of the body.  The file is the JSON document it holds (\<open>None\<close> while it
  does not exist); the wording of reasons is a parameter.
\<close>

record 'pk relay =
  rl_ledger :: ledger
  rl_keyring :: "'pk keyring"
  rl_path :: bool
  rl_disk :: "json option"

datatype relay_error =
    BadKey
  | LedgerSays ledger_error
  | NoSuchKey string
  | FieldMissing string
  | BodyUnreadable

section \<open>The registry\<close>

definition relay_doc :: "'pk relay \<Rightarrow> json" where
  "relay_doc r = JObj
     [(''ledger'', JObj (ledger_export (rl_ledger r))),
      (''keyring'', JObj (List.map (\<lambda>(agent, pem). (agent, JStr pem)) (kr_keys (rl_keyring r))))]"

definition relay_save :: "'pk relay \<Rightarrow> 'pk relay" where
  "relay_save r = (if rl_path r then r\<lparr>rl_disk := Some (relay_doc r)\<rparr> else r)"

text \<open>\<open>register\<close>: the key first, then the account; a refused account raises past the second save.\<close>

definition relay_register ::
  "('sk, 'pk) runtime \<Rightarrow> rat \<Rightarrow> string \<Rightarrow> string \<Rightarrow> price_arg \<Rightarrow> 'pk relay \<Rightarrow> (relay_error + json) \<times> 'pk relay" where
  "relay_register rt clock agent pem limit r =
     (case keyring_add rt agent pem (rl_keyring r) of
        Inl e \<Rightarrow> (Inl BadKey, r)
      | Inr (fingerprint, kr) \<Rightarrow>
          (case open_account rt clock agent limit (rl_ledger r) of
             (Inl e, L) \<Rightarrow> (Inl (LedgerSays e), r\<lparr>rl_keyring := kr, rl_ledger := L\<rparr>)
           | (Inr a, L) \<Rightarrow>
               (Inr (JObj [(''agent_id'', JStr agent), (''fingerprint'', JStr fingerprint),
                           (''credit_limit'', JStr (decimal_str (ac_limit a))), (''currency'', JStr (ac_currency a))]),
                relay_save (r\<lparr>rl_keyring := kr, rl_ledger := L\<rparr>))))"

definition relay_account :: "'pk relay \<Rightarrow> string \<Rightarrow> relay_error + json" where
  "relay_account r agent =
     (case ledger_account (rl_ledger r) agent of
        Inl e \<Rightarrow> Inl (LedgerSays e)
      | Inr a \<Rightarrow>
          (case account_available a of
             Inl e \<Rightarrow> Inl (LedgerSays (PriceFailure e))
           | Inr available \<Rightarrow>
               Inr (JObj [(''agent_id'', JStr (ac_agent a)), (''currency'', JStr (ac_currency a)),
                          (''credit_limit'', JStr (decimal_str (ac_limit a))), (''balance'', JStr (balance_str a)),
                          (''available'', JStr (decimal_str available))])))"

text \<open>The bounds of a statement come from the query as \<open>float\<close>s: \<open>JNull\<close> for none.\<close>

definition not_before :: "json \<Rightarrow> int \<Rightarrow> bool" where
  "not_before since t = (case since of
     JFloat q \<Rightarrow> q \<le> of_int t | JNonFinite s \<Rightarrow> s = ''-Infinity'' | _ \<Rightarrow> True)"

definition is_before :: "json \<Rightarrow> int \<Rightarrow> bool" where
  "is_before until t = (case until of
     JFloat q \<Rightarrow> of_int t < q | JNonFinite s \<Rightarrow> s = ''Infinity'' | _ \<Rightarrow> True)"

definition statement_rows :: "ledger \<Rightarrow> string \<Rightarrow> json \<Rightarrow> json \<Rightarrow> charge list" where
  "statement_rows L agent since until = List.filter (\<lambda>c.
     (cg_payer c = agent \<or> cg_payee c = agent) \<and> not_before since (cg_at c) \<and> is_before until (cg_at c)) (lg_charges L)"

definition rows_owed :: "ledger \<Rightarrow> string \<Rightarrow> json \<Rightarrow> json \<Rightarrow> price_error + price" where
  "rows_owed L agent since until =
     rbind (quantize_sum 0 (sum_list (List.map cg_amount
              (List.filter (\<lambda>c. cg_payer c = agent) (statement_rows L agent since until)))))
       (\<lambda>t. Inr \<lparr> p_amount = t, p_currency = lg_currency L \<rparr>)"

definition relay_statement :: "'pk relay \<Rightarrow> string \<Rightarrow> json \<Rightarrow> json \<Rightarrow> relay_error + json" where
  "relay_statement r agent since until =
     (let L = rl_ledger r; charges = statement_rows L agent since until in
      case rows_owed L agent since until of
        Inl e \<Rightarrow> Inl (LedgerSays (PriceFailure e))
      | Inr owed \<Rightarrow>
          Inr (JObj [(''agent_id'', JStr agent), (''charges'', JList (List.map charge_to_dict charges)),
                     (''count'', JInt (int (length charges))), (''total_owed'', JStr (decimal_str (p_amount owed))),
                     (''currency'', JStr (lg_currency L))]))"

definition relay_settle ::
  "('sk, 'pk) runtime \<Rightarrow> rat \<Rightarrow> string \<Rightarrow> string \<Rightarrow> 'pk relay \<Rightarrow> (relay_error + json) \<times> 'pk relay" where
  "relay_settle rt clock agent amount r =
     (case ledger_settle rt clock agent (ArgText amount) (rl_ledger r) of
        (Inl e, L) \<Rightarrow> (Inl (LedgerSays e), r\<lparr>rl_ledger := L\<rparr>)
      | (Inr a, L) \<Rightarrow> (Inr (account_to_dict a), relay_save (r\<lparr>rl_ledger := L\<rparr>)))"

definition relay_public_key :: "('sk, 'pk) runtime \<Rightarrow> 'pk relay \<Rightarrow> string \<Rightarrow> relay_error + json" where
  "relay_public_key rt r agent =
     (case keyring_public_pem (rl_keyring r) agent of
        None \<Rightarrow> Inl (NoSuchKey agent)
      | Some pem \<Rightarrow>
          if pem = [] then Inl (NoSuchKey agent)
          else Inr (JObj [(''agent_id'', JStr agent), (''public_key'', JStr pem),
                          (''fingerprint'', JStr (key_fingerprint rt pem))]))"

definition relay_integrity :: "('sk, 'pk) runtime \<Rightarrow> 'pk relay \<Rightarrow> json" where
  "relay_integrity rt r = JObj
     [(''intact'', JBool (ledger_verify_integrity rt (rl_ledger r))),
      (''entries'', JInt (int (length (lg_audit (rl_ledger r)))))]"

text \<open>A server in the same process charges the ledger past the relay: the hook saves each charge that goes through.\<close>

definition relay_charge ::
  "('sk, 'pk) runtime \<Rightarrow> rat \<Rightarrow> payment_proof \<Rightarrow> int \<Rightarrow> 'pk relay \<Rightarrow> (ledger_error + charge) \<times> 'pk relay" where
  "relay_charge rt clock proof now r =
     (case ledger_charge rt clock proof now (rl_ledger r) of
        (Inl e, L) \<Rightarrow> (Inl e, r\<lparr>rl_ledger := L\<rparr>)
      | (Inr c, L) \<Rightarrow> (Inr c, relay_save (r\<lparr>rl_ledger := L\<rparr>)))"

text \<open>\<open>Registry.load\<close>.  \<open>None\<close>: a document that the code does not read, or whose fields have other types.\<close>

definition keys_of_doc :: "json option \<Rightarrow> (string \<times> string) list option" where
  "keys_of_doc v = (case v of
     None \<Rightarrow> Some []
   | Some (JObj d) \<Rightarrow> those (List.map (\<lambda>(k, v). map_option (Pair k) (opt_of_json v)) d)
   | Some _ \<Rightarrow> Some [])"

definition relay_load :: "('sk, 'pk) runtime \<Rightarrow> rat \<Rightarrow> json option \<Rightarrow> 'pk relay option" where
  "relay_load rt clock file = (case file of
     None \<Rightarrow> Some \<lparr> rl_ledger = ledger_new rt clock ''USD'', rl_keyring = keyring_new (\<lambda>a. None) [],
                   rl_path = True, rl_disk = None \<rparr>
   | Some (JObj d) \<Rightarrow>
       (case (case map_of d ''ledger'' of None \<Rightarrow> Some [] | Some (JObj l) \<Rightarrow> Some l | Some _ \<Rightarrow> None,
              keys_of_doc (map_of d ''keyring'')) of
          (Some l, Some keys) \<Rightarrow>
            map_option (\<lambda>L. \<lparr> rl_ledger = L, rl_keyring = keyring_new (\<lambda>a. None) keys,
                              rl_path = True, rl_disk = Some (JObj d) \<rparr>)
              (ledger_import rt clock l)
        | _ \<Rightarrow> None)
   | Some _ \<Rightarrow> None)"

section \<open>Requests\<close>

text \<open>\<open>Unhandled\<close>: an exception leaves the handler, the connection closes without an answer.  \<open>Foreign\<close>: a member
  of another type than the registry works with, which is not modelled.\<close>

datatype relay_result = Reply nat json | Unhandled | Foreign

record relay_request =
  rq_path :: string
  rq_query :: "(string \<times> string list) list"
  rq_length :: "string option"
  rq_raw :: string

definition split_path :: "relay_request \<Rightarrow> string" where
  "split_path rq =
     (let p = rev (dropWhile (\<lambda>c. c = CHR ''/'') (rev (rq_path rq))) in if p = [] then ''/'' else p)"

text \<open>\<open>repr\<close> of a text: what \<open>str\<close> makes of a \<open>KeyError\<close>.\<close>

definition hex2 :: "nat \<Rightarrow> string" where
  "hex2 n = [''0123456789abcdef'' ! (n div 16), ''0123456789abcdef'' ! (n mod 16)]"

definition repr_char :: "char \<Rightarrow> char \<Rightarrow> string" where
  "repr_char q c =
     (let n = of_char c :: nat in
      if c = q \<or> n = 92 then [char_of (92 :: nat), c]
      else if n = 9 then [char_of (92 :: nat), CHR ''t'']
      else if n = 10 then [char_of (92 :: nat), CHR ''n'']
      else if n = 13 then [char_of (92 :: nat), CHR ''r'']
      else if n < 32 \<or> (127 \<le> n \<and> n \<le> 160) \<or> n = 173 then [char_of (92 :: nat), CHR ''x''] @ hex2 n
      else [c])"

definition py_repr :: "string \<Rightarrow> string" where
  "py_repr s =
     (let single = char_of (39 :: nat); double = char_of (34 :: nat);
          q = (if single \<in> set s \<and> double \<notin> set s then double else single)
      in q # concat (List.map (repr_char q) s) @ [q])"

definition non_finite :: "string \<Rightarrow> json" where
  "non_finite s =
     (let (neg, u) = p_sign (str_lower (str_strip s)) in
      if u = ''inf'' \<or> u = ''infinity'' then JNonFinite (if neg then ''-Infinity'' else ''Infinity'')
      else if u = ''nan'' then JNonFinite ''NaN'' else JNull)"

definition query_float :: "(string \<times> string list) list \<Rightarrow> string \<Rightarrow> json" where
  "query_float q k = (case map_of q k of
     Some (v # vs) \<Rightarrow> (case float_of_text v of Some x \<Rightarrow> JFloat x | None \<Rightarrow> non_finite v)
   | _ \<Rightarrow> JNull)"

definition error_json :: "string \<Rightarrow> string \<Rightarrow> string \<Rightarrow> json" where
  "error_json error k v = JObj [(''error'', JStr error), (k, JStr v)]"

definition get_failure :: "(relay_error \<Rightarrow> string) \<Rightarrow> relay_error \<Rightarrow> relay_result" where
  "get_failure says e = (case e of
     NoSuchKey agent \<Rightarrow> Reply 404 (error_json ''unknown_agent'' ''agent_id'' (py_repr agent))
   | LedgerSays l \<Rightarrow> if is_LedgerError l then Reply 404 (error_json ''unknown_account'' ''reason'' (says e)) else Unhandled
   | _ \<Rightarrow> Unhandled)"

definition answered :: "(relay_error \<Rightarrow> relay_result) \<Rightarrow> nat \<Rightarrow> relay_error + json \<Rightarrow> relay_result" where
  "answered failure status x = (case x of Inl e \<Rightarrow> failure e | Inr v \<Rightarrow> Reply status v)"

definition middle :: "string \<Rightarrow> nat \<Rightarrow> nat \<Rightarrow> string" where
  "middle s i j = take (length s - j - i) (drop i s)"

definition do_GET :: "('sk, 'pk) runtime \<Rightarrow> (relay_error \<Rightarrow> string) \<Rightarrow> relay_request \<Rightarrow> 'pk relay \<Rightarrow> relay_result" where
  "do_GET rt says rq r =
     (let path = split_path rq in
      if path = ''/health'' then Reply 200 (JObj [(''status'', JStr ''ok'')])
      else if path = ''/verify'' then Reply 200 (relay_integrity rt r)
      else if str_prefix ''/keys/'' path then answered (get_failure says) 200 (relay_public_key rt r (drop 6 path))
      else if str_prefix ''/accounts/'' path \<and> str_suffix ''/statement'' path then
        answered (get_failure says) 200
          (relay_statement r (middle path 10 10) (query_float (rq_query rq) ''since'') (query_float (rq_query rq) ''until''))
      else if str_prefix ''/accounts/'' path then
        answered (get_failure says) 200 (relay_account r (drop 10 path))
      else Reply 404 (error_json ''not_found'' ''path'' path))"

text \<open>\<open>_body\<close>: \<open>Inl\<close> is the \<open>ValueError\<close> of a length, a text or a document that is not what it should be.\<close>

definition relay_body :: "relay_request \<Rightarrow> relay_error + (string \<times> json) list" where
  "relay_body rq =
     (case (case rq_length rq of None \<Rightarrow> Some 0 | Some s \<Rightarrow> if s = [] then Some 0 else int_of_text s) of
        None \<Rightarrow> Inl BodyUnreadable
      | Some n \<Rightarrow>
          if n = 0 then Inr []
          else (case loads_bytes (if n < 0 then rq_raw rq else take (nat n) (rq_raw rq)) of
                  Some (JObj d) \<Rightarrow> Inr d
                | _ \<Rightarrow> Inl BodyUnreadable))"

definition is_rejection :: "relay_error \<Rightarrow> bool" where
  "is_rejection e = (case e of
     BadKey \<Rightarrow> True
   | LedgerSays l \<Rightarrow> (is_LedgerError l \<or> (case l of PriceFailure p \<Rightarrow> is_PriceError p | _ \<Rightarrow> False))
   | _ \<Rightarrow> False)"

definition post_failure :: "(relay_error \<Rightarrow> string) \<Rightarrow> relay_error \<Rightarrow> relay_result" where
  "post_failure says e = (case e of
     FieldMissing k \<Rightarrow> Reply 400 (error_json ''missing_field'' ''field'' (py_repr k))
   | _ \<Rightarrow> if is_rejection e then Reply 400 (error_json ''rejected'' ''reason'' (says e)) else Unhandled)"

definition credit_limit_of :: "json option \<Rightarrow> price_arg" where
  "credit_limit_of v = (case v of None \<Rightarrow> default_credit_limit | Some (JStr s) \<Rightarrow> ArgText s | Some _ \<Rightarrow> ArgOther)"

definition post_register ::
  "('sk, 'pk) runtime \<Rightarrow> (relay_error \<Rightarrow> string) \<Rightarrow> rat \<Rightarrow> (string \<times> json) list \<Rightarrow> 'pk relay \<Rightarrow> relay_result \<times> 'pk relay" where
  "post_register rt says clock d r =
     (case (map_of d ''agent_id'', map_of d ''public_key'') of
        (None, _) \<Rightarrow> (post_failure says (FieldMissing ''agent_id''), r)
      | (_, None) \<Rightarrow> (post_failure says (FieldMissing ''public_key''), r)
      | (Some (JStr agent), Some (JStr pem)) \<Rightarrow>
          (let (x, r') = relay_register rt clock agent pem (credit_limit_of (map_of d ''credit_limit'')) r
           in (answered (post_failure says) 201 x, r'))
      | _ \<Rightarrow> (Foreign, r))"

definition post_settle ::
  "('sk, 'pk) runtime \<Rightarrow> (relay_error \<Rightarrow> string) \<Rightarrow> rat \<Rightarrow> (string \<times> json) list \<Rightarrow> 'pk relay \<Rightarrow> relay_result \<times> 'pk relay" where
  "post_settle rt says clock d r =
     (case (map_of d ''agent_id'', map_of d ''amount'') of
        (None, _) \<Rightarrow> (post_failure says (FieldMissing ''agent_id''), r)
      | (_, None) \<Rightarrow> (post_failure says (FieldMissing ''amount''), r)
      | (Some (JStr agent), Some amount) \<Rightarrow>
          (let (x, r') = relay_settle rt clock agent (py_str rt amount) r
           in (answered (post_failure says) 200 x, r'))
      | _ \<Rightarrow> (Foreign, r))"

definition do_POST ::
  "('sk, 'pk) runtime \<Rightarrow> (relay_error \<Rightarrow> string) \<Rightarrow> rat \<Rightarrow> relay_request \<Rightarrow> 'pk relay \<Rightarrow> relay_result \<times> 'pk relay" where
  "do_POST rt says clock rq r =
     (let path = split_path rq in
      case relay_body rq of
        Inl e \<Rightarrow> (Reply 400 (error_json ''bad_json'' ''reason'' (says e)), r)
      | Inr d \<Rightarrow>
          if path = ''/register'' then post_register rt says clock d r
          else if path = ''/settle'' then post_settle rt says clock d r
          else (Reply 404 (error_json ''not_found'' ''path'' path), r))"

section \<open>Runs\<close>

datatype relay_op =
    Get relay_request
  | Post rat relay_request
  | Sold rat payment_proof int

fun relay_step :: "('sk, 'pk) runtime \<Rightarrow> (relay_error \<Rightarrow> string) \<Rightarrow> relay_op \<Rightarrow> 'pk relay \<Rightarrow> 'pk relay" where
  "relay_step rt says (Get rq) r = r"
| "relay_step rt says (Post clock rq) r = snd (do_POST rt says clock rq r)"
| "relay_step rt says (Sold clock proof now) r = snd (relay_charge rt clock proof now r)"

definition relay_run :: "('sk, 'pk) runtime \<Rightarrow> (relay_error \<Rightarrow> string) \<Rightarrow> relay_op list \<Rightarrow> 'pk relay \<Rightarrow> 'pk relay" where
  "relay_run rt says ops r = fold (relay_step rt says) ops r"

text \<open>No charge of the run leaves the digits of the decimal context, where the ledger stops between its two writes.\<close>

fun in_digits :: "('sk, 'pk) runtime \<Rightarrow> (relay_error \<Rightarrow> string) \<Rightarrow> relay_op list \<Rightarrow> 'pk relay \<Rightarrow> bool" where
  "in_digits rt says [] r = True"
| "in_digits rt says (op # ops) r =
     ((case op of
         Sold clock proof now \<Rightarrow> fst (relay_charge rt clock proof now r) \<noteq> Inl (PriceFailure InvalidOperation)
       | _ \<Rightarrow> True) \<and> in_digits rt says ops (relay_step rt says op r))"

section \<open>What an operation leaves\<close>

definition accounts_of :: "'pk relay \<Rightarrow> string set" where
  "accounts_of r = fst ` set (lg_accounts (rl_ledger r))"

lemma relay_save_fields [simp]:
  "rl_ledger (relay_save r) = rl_ledger r" "rl_keyring (relay_save r) = rl_keyring r" "rl_path (relay_save r) = rl_path r"
  "rl_path r \<Longrightarrow> rl_disk (relay_save r) = Some (relay_doc r)"
  by (simp_all add: relay_save_def)

lemma relay_doc_disk [simp]: "relay_doc (r\<lparr>rl_disk := d\<rparr>) = relay_doc r"
  by (simp add: relay_doc_def)

lemma relay_doc_save [simp]: "relay_doc (relay_save r) = relay_doc r"
  by (simp add: relay_save_def)

lemma relay_save_doc: "rl_path r \<Longrightarrow> rl_disk (relay_save r) = Some (relay_doc (relay_save r))"
  by (simp add: relay_save_def)

lemma open_account_fails: "fst (open_account rt clock agent limit L) = Inl e \<Longrightarrow>
   snd (open_account rt clock agent limit L) = L \<and> agent \<notin> fst ` set (lg_accounts L)"
  by (auto simp: open_account_def Let_def map_of_eq_None_iff split: option.splits sum.splits if_splits)

lemma relay_register_cases:
  assumes "relay_register rt clock agent pem limit r = (x, r')"
  obtains (bad_key) "x = Inl BadKey" "r' = r"
  | (refused) fp kr e where "keyring_add rt agent pem (rl_keyring r) = Inr (fp, kr)" "x = Inl (LedgerSays e)"
      "r' = r\<lparr>rl_keyring := kr\<rparr>" "agent \<notin> accounts_of r"
  | (registered) fp kr v where "keyring_add rt agent pem (rl_keyring r) = Inr (fp, kr)" "x = Inr v"
      "r' = relay_save (r\<lparr>rl_keyring := kr, rl_ledger := snd (open_account rt clock agent limit (rl_ledger r))\<rparr>)"
proof (cases "keyring_add rt agent pem (rl_keyring r)")
  case (Inl e)
  then show thesis using assms by (intro bad_key) (simp_all add: relay_register_def)
next
  case (Inr z)
  then obtain fp kr where z: "keyring_add rt agent pem (rl_keyring r) = Inr (fp, kr)" by (cases z) auto
  obtain y L where y: "open_account rt clock agent limit (rl_ledger r) = (y, L)" by fastforce
  show thesis
  proof (cases y)
    case (Inl e)
    with open_account_fails [of rt clock agent limit "rl_ledger r" e] y
    have "L = rl_ledger r" "agent \<notin> accounts_of r" by (simp_all add: accounts_of_def)
    then show thesis using assms Inl by (intro refused [OF z, of e]) (simp_all add: relay_register_def z y)
  next
    case (Inr a)
    then have "\<exists>v. x = Inr v" "r' = relay_save (r\<lparr>rl_keyring := kr, rl_ledger := L\<rparr>)"
      using assms by (auto simp: relay_register_def z y)
    then show thesis using registered [OF z] by (auto simp: y)
  qed
qed

lemma relay_settle_cases:
  assumes "relay_settle rt clock agent amount r = (x, r')"
  obtains (refused) e where "x = Inl (LedgerSays e)" "r' = r"
  | (settled) v where "x = Inr v"
      "r' = relay_save (r\<lparr>rl_ledger := snd (ledger_settle rt clock agent (ArgText amount) (rl_ledger r))\<rparr>)"
proof -
  obtain y L where y: "ledger_settle rt clock agent (ArgText amount) (rl_ledger r) = (y, L)" by fastforce
  show thesis
  proof (cases y)
    case (Inl e)
    with ledger_settle_cases [OF y] have "L = rl_ledger r" by auto
    with assms Inl show thesis by (intro refused [of e]) (simp_all add: relay_settle_def y)
  next
    case (Inr a)
    with assms show thesis by (intro settled [of "account_to_dict a"]) (simp_all add: relay_settle_def y)
  qed
qed

lemma relay_charge_cases:
  assumes "relay_charge rt clock proof now r = (x, r')" "x \<noteq> Inl (PriceFailure InvalidOperation)"
  obtains (refused) e where "x = Inl e" "r' = r"
  | (sold) c where "x = Inr c"
      "r' = relay_save (r\<lparr>rl_ledger := snd (ledger_charge rt clock proof now (rl_ledger r))\<rparr>)"
proof -
  obtain y L where y: "ledger_charge rt clock proof now (rl_ledger r) = (y, L)" by fastforce
  show thesis
  proof (cases y)
    case (Inl e)
    with assms have x: "x = Inl e" "r' = r\<lparr>rl_ledger := L\<rparr>" by (simp_all add: relay_charge_def y)
    from y have "L = rl_ledger r"
      by (cases rule: ledger_charge_cases) (use Inl x assms(2) in auto)
    with x show thesis by (intro refused) simp_all
  next
    case (Inr c)
    with assms(1) show thesis by (intro sold [of c]) (simp_all add: relay_charge_def y)
  qed
qed

lemma credit_limit_ok: "price_arg_ok (credit_limit_of v)"
  by (simp add: credit_limit_of_def price_arg_ok_def default_credit_limit_def split: option.split json.split)

text \<open>The outcomes of a \<open>POST\<close>: nothing happened; a key was taken for an agent that then got no account; or an
  account was opened (or found) or settled, and the registry saved.\<close>

lemma do_POST_cases:
  assumes "do_POST rt says clock rq r = (x, r')"
  obtains (nothing) "r' = r" "\<forall>v. x \<noteq> Reply 200 v \<and> x \<noteq> Reply 201 v"
  | (half) agent pem fp kr where "keyring_add rt agent pem (rl_keyring r) = Inr (fp, kr)" "r' = r\<lparr>rl_keyring := kr\<rparr>"
      "agent \<notin> accounts_of r" "\<forall>v. x \<noteq> Reply 200 v \<and> x \<noteq> Reply 201 v"
  | (stored) agent pem limit fp kr v where "keyring_add rt agent pem (rl_keyring r) = Inr (fp, kr)" "x = Reply 201 v"
      "price_arg_ok limit"
      "r' = relay_save (r\<lparr>rl_keyring := kr, rl_ledger := snd (open_account rt clock agent limit (rl_ledger r))\<rparr>)"
  | (received) agent amount v where "x = Reply 200 v"
      "r' = relay_save (r\<lparr>rl_ledger := snd (ledger_settle rt clock agent (ArgText amount) (rl_ledger r))\<rparr>)"
proof -
  have failed: "post_failure says e \<noteq> Reply 200 v \<and> post_failure says e \<noteq> Reply 201 v" for e v
    by (simp add: post_failure_def split: relay_error.split)
  have reg: thesis if reg0: "post_register rt says clock d r = (x, r')" for d
  proof -
    consider (early) "r' = r" "\<forall>v. x \<noteq> Reply 200 v \<and> x \<noteq> Reply 201 v"
      | (call) agent pem limit y where "price_arg_ok limit" "relay_register rt clock agent pem limit r = (y, r')"
          "x = answered (post_failure says) 201 y"
    proof (cases "\<exists>agent pem. map_of d ''agent_id'' = Some (JStr agent) \<and> map_of d ''public_key'' = Some (JStr pem)")
      case True
      then obtain agent pem where m: "map_of d ''agent_id'' = Some (JStr agent)" "map_of d ''public_key'' = Some (JStr pem)"
        by blast
      obtain y r1 where y: "relay_register rt clock agent pem (credit_limit_of (map_of d ''credit_limit'')) r = (y, r1)"
        by fastforce
      with reg0 have x: "x = answered (post_failure says) 201 y" "r1 = r'" by (simp_all add: post_register_def m)
      show thesis by (rule call [OF credit_limit_ok y [unfolded x(2)] x(1)])
    next
      case False
      then show thesis
        using reg0 failed by (intro early) (auto simp: post_register_def split: option.splits json.splits)
    qed
    then show thesis
    proof cases
      case early
      then show thesis by (rule nothing)
    next
      case call
      from call(2) show thesis
      proof (cases rule: relay_register_cases)
        case bad_key
        show thesis by (rule nothing) (use bad_key call(3) failed in \<open>simp_all add: answered_def\<close>)
      next
        case (refused fp kr e)
        show thesis by (rule half [OF refused(1,3,4)]) (use refused(2) call(3) failed in \<open>simp_all add: answered_def\<close>)
      next
        case (registered fp kr v)
        show thesis by (rule stored [OF registered(1) _ call(1) registered(3)])
            (use registered(2) call(3) in \<open>simp add: answered_def\<close>)
      qed
    qed
  qed
  have set: thesis if set0: "post_settle rt says clock d r = (x, r')" for d
  proof -
    consider (early) "r' = r" "\<forall>v. x \<noteq> Reply 200 v \<and> x \<noteq> Reply 201 v"
      | (call) agent amount y where "relay_settle rt clock agent amount r = (y, r')"
          "x = answered (post_failure says) 200 y"
      using set0 failed by (auto simp: post_settle_def split: option.splits json.splits prod.splits)
    then show thesis
    proof cases
      case early
      then show thesis by (rule nothing)
    next
      case call
      from call(1) show thesis
      proof (cases rule: relay_settle_cases)
        case (refused e)
        show thesis by (rule nothing) (use refused call(2) failed in \<open>simp_all add: answered_def\<close>)
      next
        case (settled v)
        show thesis by (rule received [OF _ settled(2)]) (use settled(1) call(2) in \<open>simp add: answered_def\<close>)
      qed
    qed
  qed
  consider "r' = r" "\<forall>v. x \<noteq> Reply 200 v \<and> x \<noteq> Reply 201 v"
    | (register) d where "post_register rt says clock d r = (x, r')"
    | (settle) d where "post_settle rt says clock d r = (x, r')"
    using assms by (auto simp: do_POST_def Let_def split: sum.splits if_splits)
  then show thesis by cases (fact nothing, fact reg, fact set)
qed

section \<open>The file agrees with the registry\<close>

text \<open>The ledger on disk is the ledger; the keys on disk are those of the directory, at least for every agent that
  has an account.\<close>

definition kept :: "('sk, 'pk) runtime \<Rightarrow> 'pk relay \<Rightarrow> bool" where
  "kept rt r \<longleftrightarrow> rl_path r \<and> kr_lookup (rl_keyring r) = (\<lambda>a. None) \<and> ledger_ok rt (rl_ledger r) \<and>
     (\<exists>ks. rl_disk r = Some (JObj [(''ledger'', JObj (ledger_export (rl_ledger r))),
                                   (''keyring'', JObj (List.map (\<lambda>(agent, pem). (agent, JStr pem)) ks))]) \<and>
       (\<forall>agent \<in> accounts_of r. map_of ks agent = map_of (kr_keys (rl_keyring r)) agent))"

lemma kept_saved:
  assumes "rl_path r" "kr_lookup (rl_keyring r) = (\<lambda>a. None)" "ledger_ok rt (rl_ledger r)" "rl_disk r = Some (relay_doc r)"
  shows "kept rt r"
  using assms by (auto simp: kept_def relay_doc_def)

lemma kept_save:
  "rl_path r \<Longrightarrow> kr_lookup (rl_keyring r) = (\<lambda>a. None) \<Longrightarrow> ledger_ok rt (rl_ledger r) \<Longrightarrow> kept rt (relay_save r)"
  by (rule kept_saved) (simp_all add: relay_save_doc)

lemma keyring_add_fields:
  assumes "keyring_add rt agent pem kr = Inr (fp, kr')"
  shows "kr_lookup kr' = kr_lookup kr" "kr_keys kr' = dict_set agent pem (kr_keys kr)"
  using assms by (auto simp: keyring_add_def split: sum.splits)

lemma kept_half:
  assumes "kept rt r" "keyring_add rt agent pem (rl_keyring r) = Inr (fp, kr)" "agent \<notin> accounts_of r"
  shows "kept rt (r\<lparr>rl_keyring := kr\<rparr>)"
  using assms keyring_add_fields [OF assms(2)]
  by (auto simp: kept_def accounts_of_def update_conv')

lemma kept_step:
  assumes "kept rt r" "in_digits rt says [op] r"
  shows "kept rt (relay_step rt says op r)"
proof -
  note ok = assms(1) [unfolded kept_def]
  show ?thesis
  proof (cases op)
    case (Get rq)
    with assms(1) show ?thesis by simp
  next
    case (Post clock rq)
    obtain x r' where x: "do_POST rt says clock rq r = (x, r')" by fastforce
    then have "kept rt r'"
    proof (cases rule: do_POST_cases)
      case (half agent pem fp kr)
      with kept_half [OF assms(1)] show ?thesis by simp
    next
      case (stored agent pem limit fp kr v)
      with ok keyring_add_fields [OF stored(1)] show ?thesis
        by (auto intro!: kept_save open_account_ok)
    next
      case (received agent amount v)
      with ok show ?thesis by (auto intro!: kept_save ledger_settle_ok)
    qed (use assms(1) in simp)
    with Post x show ?thesis by simp
  next
    case (Sold clock pf now)
    obtain x r' where x: "relay_charge rt clock pf now r = (x, r')" by fastforce
    moreover have "x \<noteq> Inl (PriceFailure InvalidOperation)" using assms(2) Sold x by simp
    ultimately have "kept rt r'"
    proof (cases rule: relay_charge_cases)
      case (sold c)
      with ok show ?thesis by (auto intro!: kept_save ledger_charge_ok)
    qed (use assms(1) in simp)
    with Sold x show ?thesis by simp
  qed
qed

lemma kept_run: "kept rt r \<Longrightarrow> in_digits rt says ops r \<Longrightarrow> kept rt (relay_run rt says ops r)"
proof (induction ops arbitrary: r)
  case (Cons op ops)
  have "kept rt (relay_step rt says op r)" using Cons.prems by (intro kept_step) simp_all
  with Cons.IH Cons.prems(2) show ?case by (simp add: relay_run_def)
qed (simp add: relay_run_def)

lemma keys_of_doc_written: "keys_of_doc (Some (JObj (List.map (\<lambda>(agent, pem). (agent, JStr pem)) ks))) = Some ks"
  by (induction ks) (auto simp: keys_of_doc_def o_def case_prod_beta)


text \<open>C24: A \<open>POST\<close> that is answered with anything but 200 or 201 leaves the books, the file and the keys of all agents
  that have an account as they were, and one that is answered with 200 or 201 is on disk when the answer leaves.\<close>

theorem relay_post_all_or_nothing:
  assumes "rl_path r" "do_POST rt says clock rq r = (x, r')"
  shows "if \<exists>v. x = Reply 200 v \<or> x = Reply 201 v then rl_disk r' = Some (relay_doc r')
    else rl_ledger r' = rl_ledger r \<and> rl_disk r' = rl_disk r \<and>
      (\<forall>agent \<in> accounts_of r. keyring_public_pem (rl_keyring r') agent = keyring_public_pem (rl_keyring r) agent)"
  using assms(2)
proof (cases rule: do_POST_cases)
  case (half agent pem fp kr)
  then show ?thesis
    using keyring_add_fields [OF half(1)] by (auto simp: keyring_public_pem_def update_conv' cong: option.case_cong)
qed (use assms(1) in \<open>auto simp: relay_save_doc\<close>)

section \<open>Witnesses and limits\<close>

definition toy_relay :: "string relay" where
  "toy_relay = relay_save \<lparr> rl_ledger = toy_ledger, rl_keyring = keyring_new (\<lambda>a. None) [(''alice'', ''PEM a'')],
     rl_path = True, rl_disk = None \<rparr>"


definition toy_post :: relay_request where
  "toy_post = \<lparr> rq_path = ''/register/'', rq_query = [], rq_length = Some '' 2 '', rq_raw = ''{}'' \<rparr>"

lemma toy_post_body: "relay_body toy_post = Inr []"
proof -
  have "int_of_text '' 2 '' = Some 2" by code_simp
  moreover have "loads_bytes ''{}'' = Some (JObj [])" by code_simp
  ultimately show ?thesis by (simp add: relay_body_def toy_post_def)
qed

theorem relay_post_all_or_nothing_witness:
  "\<exists>r'. do_POST toy_runtime (\<lambda>e. []) 7 toy_post toy_relay =
      (Reply 400 (error_json ''missing_field'' ''field'' (py_repr ''agent_id'')), r') \<and> rl_ledger r' = toy_ledger"
proof -
  have p: "rl_path toy_relay" by (simp add: toy_relay_def)
  have "split_path toy_post = ''/register''" by (simp add: split_path_def toy_post_def)
  then have e: "do_POST toy_runtime (\<lambda>e. []) 7 toy_post toy_relay =
      (Reply 400 (error_json ''missing_field'' ''field'' (py_repr ''agent_id'')), toy_relay)"
    by (simp add: do_POST_def toy_post_body post_register_def post_failure_def)
  show ?thesis using relay_post_all_or_nothing [OF p e] e by (simp add: toy_relay_def)
qed

text \<open>A registration that is refused because of its credit limit has replaced the agent's key all the same (in memory:
  the file follows with the next operation that is saved).\<close>

theorem rejected_registration_keeps_key:
  assumes "map_of d ''agent_id'' = Some (JStr agent)" "map_of d ''public_key'' = Some (JStr pem)"
    and "load_public_pem rt pem = Inr key" "map_of d ''credit_limit'' = Some (JInt i)" "agent \<notin> accounts_of r"
  shows "\<exists>v r'. post_register rt says clock d r = (Reply 400 v, r') \<and> keyring_public_pem (rl_keyring r') agent = Some pem"
  using assms
  by (simp add: post_register_def credit_limit_of_def relay_register_def keyring_add_def open_account_def accounts_of_def
      map_of_eq_None_iff [symmetric] answered_def post_failure_def is_rejection_def is_PriceError_def
      is_LedgerError_def keyring_public_pem_def update_conv')

text \<open>The relay does not ask who registers: a readable key takes the place of an agent's key, and the account stays.\<close>

theorem registration_takes_over_key:
  assumes "load_public_pem rt pem = Inr key" "map_of (lg_accounts (rl_ledger r)) agent = Some a"
  shows "\<exists>v r'. relay_register rt clock agent pem limit r = (Inr v, r') \<and> rl_ledger r' = rl_ledger r \<and>
     keyring_public_pem (rl_keyring r') agent = Some pem"
  using assms by (simp add: relay_register_def keyring_add_def open_account_def keyring_public_pem_def update_conv')

text \<open>The answer for an unknown agent names it between the quotes of \<open>repr\<close>.\<close>

theorem unknown_agent_is_quoted:
  assumes "kr_keys (rl_keyring r) = []" "kr_lookup (rl_keyring r) = (\<lambda>a. None)" "rq_path rq = ''/keys/bob''"
  shows "do_GET rt says rq r = Reply 404 (error_json ''unknown_agent'' ''agent_id'' [char_of (39 :: nat), CHR ''b'', CHR ''o'', CHR ''b'', char_of (39 :: nat)])"
proof -
  have "py_repr ''bob'' = [char_of (39 :: nat), CHR ''b'', CHR ''o'', CHR ''b'', char_of (39 :: nat)]" by code_simp
  moreover have "split_path rq = ''/keys/bob''" using assms(3) by (simp add: split_path_def)
  moreover have "keyring_public_pem (rl_keyring r) a = None" for a using assms(1,2) by (simp add: keyring_public_pem_def)
  ultimately show ?thesis by (simp add: do_GET_def relay_public_key_def answered_def get_failure_def)
qed

text \<open>With finite bounds a statement is the ledger's own, with the bounds rounded up to whole milliseconds.\<close>

lemma statement_rows_finite:
  "statement_rows L agent (JFloat a) (JFloat b) = statement L agent (Some \<lceil>a\<rceil>) (Some \<lceil>b\<rceil>)"
proof -
  have "a \<le> of_int t \<longleftrightarrow> \<lceil>a\<rceil> \<le> t" "of_int t < b \<longleftrightarrow> t < \<lceil>b\<rceil>" for t
    by (simp_all add: ceiling_le_iff less_ceiling_iff)
  then show ?thesis by (simp add: statement_rows_def statement_def not_before_def is_before_def)
qed

end
