(* ===== verification/Schema.thy ===== *)
theory Schema
  imports Wire
begin

text \<open>
  \<open>schema.py\<close>: named schemas (which field of a format stands for which concept), the table of
  synonyms, and the translation of a payload from one schema to another through the concepts.
  A payload is a \<open>dict\<close> in its order; the values are never looked at, so they have any type.
\<close>

datatype schema_error = UnknownSchema string

definition synonyms :: "(string \<times> string list) list" where
  "synonyms =
     [(''input_text'', [''prompt'', ''user_query'', ''query'', ''input'', ''message'', ''question'']),
      (''output_text'', [''response'', ''completion'', ''output'', ''result'', ''answer'', ''reply'']),
      (''system_prompt'', [''system'', ''system_prompt'', ''instructions'', ''system_message'']),
      (''history'', [''messages'', ''history'', ''conversation'', ''chat_history'']),
      (''temperature'', [''temperature'', ''temp'']),
      (''max_tokens'', [''max_tokens'', ''max_length'', ''max_new_tokens''])]"

definition synonym_concept :: "string \<Rightarrow> string option" where
  "synonym_concept field =
     (case List.filter (\<lambda>(concept, names). field \<in> set names) synonyms of
        [(concept, names)] \<Rightarrow> Some concept | _ \<Rightarrow> None)"

record schema_def =
  sd_name :: string
  sd_fields :: "(string \<times> string) list"

text \<open>The inverse table is built field by field: of two fields of one concept the last stays.\<close>

definition concept_to_field :: "schema_def \<Rightarrow> (string \<times> string) list" where
  "concept_to_field d = fold (\<lambda>(field, concept). dict_set concept field) (sd_fields d) []"

definition field_for_concept :: "schema_def \<Rightarrow> string \<Rightarrow> string option" where
  "field_for_concept d concept = map_of (concept_to_field d) concept"

definition concept_for_field :: "schema_def \<Rightarrow> string \<Rightarrow> string option" where
  "concept_for_field d field = map_of (sd_fields d) field"

type_synonym schemas = "(string \<times> schema_def) list"

definition schema_register :: "string \<Rightarrow> (string \<times> string) list \<Rightarrow> schemas \<Rightarrow> schemas" where
  "schema_register name fs R = dict_set name \<lparr> sd_name = name, sd_fields = fs \<rparr> R"

definition source_schema :: "schemas \<Rightarrow> string option \<Rightarrow> schema_def option" where
  "source_schema R name = (if name = None \<or> name = Some [] then None else map_of R (the name))"

text \<open>The key a field gets: its declared concept, else its synonym, else itself.\<close>

definition canonical_key :: "schema_def option \<Rightarrow> string \<Rightarrow> string" where
  "canonical_key source field =
     (let declared = Option.bind source (\<lambda>d. concept_for_field d field)
      in str_or (case declared of None \<Rightarrow> synonym_concept field | Some c \<Rightarrow> Some c) field)"

definition rekey :: "(string \<Rightarrow> string) \<Rightarrow> (string \<times> 'v) list \<Rightarrow> (string \<times> 'v) list" where
  "rekey r payload = fold (\<lambda>(k, v). dict_set (r k) v) payload []"

definition to_canonical :: "schemas \<Rightarrow> (string \<times> 'v) list \<Rightarrow> string option \<Rightarrow> (string \<times> 'v) list" where
  "to_canonical R payload source = rekey (canonical_key (source_schema R source)) payload"

definition from_canonical :: "schemas \<Rightarrow> (string \<times> 'v) list \<Rightarrow> string \<Rightarrow> schema_error + (string \<times> 'v) list" where
  "from_canonical R canonical target =
     (case map_of R target of
        None \<Rightarrow> Inl (UnknownSchema target)
      | Some d \<Rightarrow> Inr (rekey (\<lambda>concept. str_or (field_for_concept d concept) concept) canonical))"

definition translate_schema ::
  "schemas \<Rightarrow> (string \<times> 'v) list \<Rightarrow> string \<Rightarrow> string option \<Rightarrow> schema_error + (string \<times> 'v) list" where
  "translate_schema R payload target source = from_canonical R (to_canonical R payload source) target"

definition default_schemas :: schemas where
  "default_schemas =
     schema_register ''llama_style'' [(''user_query'', ''input_text''), (''answer'', ''output_text'')]
      (schema_register ''claude_style'' [(''prompt'', ''input_text''), (''response'', ''output_text'')]
        (schema_register ''openai_style'' [(''prompt'', ''input_text''), (''completion'', ''output_text'')]
          (schema_register ''generic'' [(''input'', ''input_text''), (''output'', ''output_text'')] [])))"

section \<open>Renaming keys\<close>

lemma dict_set_fresh: "k \<notin> fst ` set d \<Longrightarrow> dict_set k v d = d @ [(k, v)]"
  by (induction d) auto

lemma fold_dict_set_new:
  "distinct (List.map (r \<circ> fst) xs) \<Longrightarrow> (\<forall>x \<in> set xs. r (fst x) \<notin> fst ` set acc)
    \<Longrightarrow> fold (\<lambda>(k, v). dict_set (r k) v) xs acc = acc @ List.map (\<lambda>(k, v). (r k, v)) xs"
proof (induction xs arbitrary: acc)
  case (Cons x xs)
  obtain k v where x: "x = (k, v)" by (cases x)
  have new: "dict_set (r k) v acc = acc @ [(r k, v)]"
    using Cons.prems(2) x by (simp add: dict_set_fresh)
  have "fold (\<lambda>(k, v). dict_set (r k) v) xs (acc @ [(r k, v)])
      = (acc @ [(r k, v)]) @ List.map (\<lambda>(k, v). (r k, v)) xs"
    by (rule Cons.IH) (use Cons.prems x in \<open>auto simp: rev_image_eqI\<close>)
  then show ?case by (simp add: x new)
qed simp

lemma rekey_inj: "distinct (List.map (r \<circ> fst) xs) \<Longrightarrow> rekey r xs = List.map (\<lambda>(k, v). (r k, v)) xs"
  unfolding rekey_def by (subst fold_dict_set_new) auto

text \<open>Without that hypothesis a later value takes the place of an earlier one: the values that remain are fewer.\<close>

lemma rekey_keys: "set (List.map fst (rekey r xs)) = r ` fst ` set xs"
proof -
  have "set (List.map fst (fold (\<lambda>(k, v). dict_set (r k) v) xs acc)) = r ` fst ` set xs \<union> fst ` set acc" for acc
  proof (induction xs arbitrary: acc)
    case (Cons x xs)
    obtain k v where "x = (k, v)" by (cases x)
    then show ?case using Cons.IH [of "dict_set (r k) v acc"] by (simp only: fold_simps) (simp add: dom_update)
  qed simp
  then show ?thesis by (simp add: rekey_def)
qed

lemma rekey_distinct: "distinct (List.map fst (rekey r xs))"
proof -
  have "distinct (List.map fst acc) \<Longrightarrow> distinct (List.map fst (fold (\<lambda>(k, v). dict_set (r k) v) xs acc))" for acc
    by (induction xs arbitrary: acc) (auto simp: distinct_update)
  then show ?thesis by (simp add: rekey_def)
qed

lemma rekey_length: "length (rekey r xs) = card (r ` fst ` set xs)"
  by (metis distinct_card length_map rekey_distinct rekey_keys)

section \<open>Translation there and back\<close>

text \<open>A schema that names each concept once, with names that are no empty texts.\<close>

definition one_to_one :: "schema_def \<Rightarrow> bool" where
  "one_to_one d \<longleftrightarrow> distinct (List.map fst (sd_fields d)) \<and> distinct (List.map snd (sd_fields d)) \<and>
     [] \<notin> set (List.map fst (sd_fields d)) \<and> [] \<notin> set (List.map snd (sd_fields d))"

lemma concept_to_field_one_to_one:
  assumes "one_to_one d"
  shows "concept_to_field d = List.map (\<lambda>(f, c). (c, f)) (sd_fields d)"
proof -
  have "fold (\<lambda>(k, v). dict_set (id k) v) (List.map (\<lambda>(f, c). (c, f)) (sd_fields d)) []
      = [] @ List.map (\<lambda>(k, v). (id k, v)) (List.map (\<lambda>(f, c). (c, f)) (sd_fields d))"
    by (rule fold_dict_set_new) (use assms in \<open>auto simp: one_to_one_def o_def case_prod_beta\<close>)
  then show ?thesis by (simp add: concept_to_field_def fold_map o_def case_prod_unfold)
qed

lemma field_and_concept:
  assumes "one_to_one d" "(f, c) \<in> set (sd_fields d)"
  shows "concept_for_field d f = Some c" "field_for_concept d c = Some f" "f \<noteq> []" "c \<noteq> []"
proof -
  show "concept_for_field d f = Some c"
    using assms by (simp add: concept_for_field_def one_to_one_def)
  have "distinct (List.map fst (List.map (\<lambda>(f, c). (c, f)) (sd_fields d)))"
    using assms(1) by (simp add: one_to_one_def o_def case_prod_beta)
  moreover have "(c, f) \<in> set (List.map (\<lambda>(f, c). (c, f)) (sd_fields d))" using assms(2) by force
  ultimately show "field_for_concept d c = Some f"
    by (simp add: field_for_concept_def concept_to_field_one_to_one [OF assms(1)])
qed (use assms in \<open>force simp: one_to_one_def\<close>)+

lemma canonical_key_declared:
  assumes "one_to_one d" "(f, c) \<in> set (sd_fields d)"
  shows "canonical_key (Some d) f = c"
  using field_and_concept [OF assms] by (simp add: canonical_key_def str_or_def)

text \<open>\<open>renamed S T f\<close>: the name in \<open>T\<close> of the concept that \<open>S\<close> calls \<open>f\<close>.\<close>

definition renamed :: "schema_def \<Rightarrow> schema_def \<Rightarrow> string \<Rightarrow> string" where
  "renamed S T f = the (field_for_concept T (the (concept_for_field S f)))"

lemma translate_declared:
  assumes "map_of R s = Some S" "map_of R t = Some T" "one_to_one S" "one_to_one T" "s \<noteq> []"
    and "fst ` set p \<subseteq> fst ` set (sd_fields S)" "snd ` set (sd_fields S) \<subseteq> snd ` set (sd_fields T)"
    and "distinct (List.map fst p)"
  shows "translate_schema R p t (Some s) = Inr (List.map (\<lambda>(f, v). (renamed S T f, v)) p)"
    and "\<forall>f \<in> fst ` set p. (renamed S T f, the (concept_for_field S f)) \<in> set (sd_fields T)"
    and "distinct (List.map fst (List.map (\<lambda>(f, v). (renamed S T f, v)) p))"
proof -
  define key where "key f = the (concept_for_field S f)" for f
  have known: "\<exists>g. (f, key f) \<in> set (sd_fields S) \<and> (g, key f) \<in> set (sd_fields T)" if f: "f \<in> fst ` set p" for f
  proof -
    obtain c where c: "(f, c) \<in> set (sd_fields S)" using subsetD [OF assms(6) f] by auto
    then have "c \<in> snd ` set (sd_fields S)" by force
    from subsetD [OF assms(7) this] obtain g where g: "(g, c) \<in> set (sd_fields T)" by auto
    have "key f = c" by (simp add: key_def field_and_concept(1) [OF assms(3) c])
    with c g show ?thesis by blast
  qed
  have ren: "(renamed S T f, key f) \<in> set (sd_fields T)" if "f \<in> fst ` set p" for f
  proof -
    from known [OF that] obtain g where g: "(g, key f) \<in> set (sd_fields T)" by blast
    from field_and_concept(2) [OF assms(4) this] show ?thesis by (simp add: renamed_def g flip: key_def)
  qed
  then show "\<forall>f \<in> fst ` set p. (renamed S T f, the (concept_for_field S f)) \<in> set (sd_fields T)"
    by (simp add: key_def)
  have canon: "canonical_key (Some S) f = key f" if "f \<in> fst ` set p" for f
    using known [OF that] canonical_key_declared [OF assms(3)] by blast
  have "inj_on key (fst ` set p)"
  proof (rule inj_onI)
    fix f g assume "f \<in> fst ` set p" "g \<in> fst ` set p" "key f = key g"
    then show "f = g" using known field_and_concept(2) [OF assms(3)] by (metis option.inject)
  qed
  with assms(8) have inj: "distinct (List.map (key \<circ> fst) p)"
    by (simp add: distinct_map comp_inj_on)
  have "inj_on (renamed S T) (fst ` set p)"
  proof (rule inj_onI)
    fix f g assume fg: "f \<in> fst ` set p" "g \<in> fst ` set p" "renamed S T f = renamed S T g"
    then have "key f = key g" using ren field_and_concept(1) [OF assms(4)] by (metis option.inject)
    then show "f = g" using fg(1,2) \<open>inj_on key (fst ` set p)\<close> by (auto dest: inj_onD)
  qed
  with assms(8) have new: "distinct (List.map (renamed S T \<circ> fst) p)" by (simp add: distinct_map comp_inj_on)
  then show "distinct (List.map fst (List.map (\<lambda>(f, v). (renamed S T f, v)) p))"
    by (simp add: o_def case_prod_unfold)
  have keys: "List.map (canonical_key (Some S) \<circ> fst) p = List.map (key \<circ> fst) p"
    by (simp add: canon)
  have keyed: "distinct (List.map (canonical_key (Some S) \<circ> fst) p)" unfolding keys by (rule inj)
  have 1: "to_canonical R p (Some s) = List.map (\<lambda>(f, v). (key f, v)) p"
  proof -
    have "to_canonical R p (Some s) = List.map (\<lambda>(f, v). (canonical_key (Some S) f, v)) p"
      using assms(1,5) by (simp add: to_canonical_def source_schema_def rekey_inj [OF keyed])
    also have "\<dots> = List.map (\<lambda>(f, v). (key f, v)) p" by (auto simp: canon rev_image_eqI)
    finally show ?thesis .
  qed
  have named: "str_or (field_for_concept T (key f)) (key f) = renamed S T f" if "f \<in> fst ` set p" for f
    using field_and_concept [OF assms(4) ren [OF that]] by (simp add: str_or_def)
  have "rekey (\<lambda>c. str_or (field_for_concept T c) c) (List.map (\<lambda>(f, v). (key f, v)) p)
      = List.map (\<lambda>(c, v). (str_or (field_for_concept T c) c, v)) (List.map (\<lambda>(f, v). (key f, v)) p)"
  proof (rule rekey_inj)
    have same: "List.map ((\<lambda>c. str_or (field_for_concept T c) c) \<circ> fst) (List.map (\<lambda>(f, v). (key f, v)) p)
        = List.map (renamed S T \<circ> fst) p"
      using named by (auto simp: case_prod_beta)
    show "distinct (List.map ((\<lambda>c. str_or (field_for_concept T c) c) \<circ> fst) (List.map (\<lambda>(f, v). (key f, v)) p))"
      unfolding same by (rule new)
  qed
  also have "\<dots> = List.map (\<lambda>(f, v). (renamed S T f, v)) p" using named by (auto simp: rev_image_eqI)
  finally show "translate_schema R p t (Some s) = Inr (List.map (\<lambda>(f, v). (renamed S T f, v)) p)"
    by (simp add: translate_schema_def from_canonical_def assms(2) 1)
qed

text \<open>Between two declared schemas that name the same concepts, each once, a payload of declared fields
  is translated field by field, its values and their order untouched, and translating the result back gives the
  payload again.\<close>

theorem schema_translation_roundtrip:
  assumes "map_of R s = Some S" "map_of R t = Some T" "one_to_one S" "one_to_one T" "s \<noteq> []" "t \<noteq> []"
    and "fst ` set p \<subseteq> fst ` set (sd_fields S)" "snd ` set (sd_fields S) = snd ` set (sd_fields T)"
    and "distinct (List.map fst p)"
  shows "\<exists>q. translate_schema R p t (Some s) = Inr q \<and> List.map snd q = List.map snd p \<and>
     fst ` set q \<subseteq> fst ` set (sd_fields T) \<and> translate_schema R q s (Some t) = Inr p"
proof -
  define q where "q = List.map (\<lambda>(f, v). (renamed S T f, v)) p"
  note there = translate_declared [OF assms(1-5,7) equalityD1 [OF assms(8)] assms(9), folded q_def]
  have fields: "fst ` set q \<subseteq> fst ` set (sd_fields T)"
    using there(2) by (force simp: q_def)
  note ret = translate_declared [OF assms(2,1,4,3,6) fields equalityD2 [OF assms(8)] there(3)]
  have "renamed T S (renamed S T f) = f" if f: "f \<in> fst ` set p" for f
  proof -
    obtain c where c: "(f, c) \<in> set (sd_fields S)" using subsetD [OF assms(7) f] by auto
    note fc = field_and_concept [OF assms(3) c]
    have "(renamed S T f, c) \<in> set (sd_fields T)" using bspec [OF there(2) f] fc(1) by simp
    note gc = field_and_concept [OF assms(4) this]
    show ?thesis by (simp add: renamed_def [of T S] gc(1) fc(2))
  qed
  then have "List.map (\<lambda>(f, v). (renamed T S f, v)) q = p"
    unfolding q_def List.map_map by (intro map_idI) (simp add: case_prod_beta)
  moreover have "List.map snd q = List.map snd p" by (auto simp: q_def)
  ultimately show ?thesis using there(1) ret(1) fields by auto
qed

theorem schema_translation_roundtrip_witness:
  "\<exists>q. translate_schema default_schemas [(''completion'', 1 :: int), (''prompt'', 2)] ''llama_style'' (Some ''openai_style'')
      = Inr q \<and> List.map snd q = [1, 2] \<and>
    translate_schema default_schemas q ''openai_style'' (Some ''llama_style'') = Inr [(''completion'', 1), (''prompt'', 2)]"
proof -
  let ?S = "\<lparr> sd_name = ''openai_style'', sd_fields = [(''prompt'', ''input_text''), (''completion'', ''output_text'')] \<rparr>"
  let ?T = "\<lparr> sd_name = ''llama_style'', sd_fields = [(''user_query'', ''input_text''), (''answer'', ''output_text'')] \<rparr>"
  have "\<exists>q. translate_schema default_schemas [(''completion'', 1 :: int), (''prompt'', 2)] ''llama_style'' (Some ''openai_style'')
      = Inr q \<and> List.map snd q = List.map snd [(''completion'', 1 :: int), (''prompt'', 2)] \<and>
     fst ` set q \<subseteq> fst ` set (sd_fields ?T) \<and>
     translate_schema default_schemas q ''openai_style'' (Some ''llama_style'') = Inr [(''completion'', 1), (''prompt'', 2)]"
    by (rule schema_translation_roundtrip [of default_schemas _ ?S _ ?T])
      (simp_all add: default_schemas_def schema_register_def one_to_one_def)
  then show ?thesis by auto
qed

text \<open>Two fields that stand for one concept: the first value is lost, without an error.\<close>

theorem schema_synonyms_lose_a_value:
  "translate_schema default_schemas [(''prompt'', a), (''question'', b)] ''llama_style'' None = Inr [(''user_query'', b)]"
  by (simp add: translate_schema_def to_canonical_def from_canonical_def rekey_def default_schemas_def
      schema_register_def canonical_key_def source_schema_def synonym_concept_def synonyms_def
      field_for_concept_def concept_to_field_def str_or_def)

text \<open>An undeclared target is an error, whatever the payload.\<close>

lemma translate_unknown: "map_of R t = None \<Longrightarrow> translate_schema R p t s = Inl (UnknownSchema t)"
  by (simp add: translate_schema_def from_canonical_def)

text \<open>No name is a synonym of two concepts, so each one listed is translated.\<close>

lemma synonyms_unambiguous:
  "List.map (\<lambda>n. synonym_concept n) (concat (List.map snd synonyms))
   = concat (List.map (\<lambda>(c, ns). List.map (\<lambda>n. Some c) ns) synonyms)"
  by (simp add: synonyms_def synonym_concept_def)

end
