(* ===== verification/Agent.thy ===== *)
theory Agent
  imports Schema Egress Crypto
begin

text \<open>
  \<open>agent.py\<close>: the client of a hub.  Its state holds the hubs it may join, what it waits for (\<open>ag_requests\<close> and
  \<open>ag_tasks\<close>: the pending futures by identifier, with \<open>True\<close> for one that is done already, as after a time-out),
  the outcomes its futures got, its caches, the frames it sent; \<open>ag_connected\<close> tells whether it has a connection object.

  An operation is one step: what it awaits (the answers to its \<open>WHO_IS\<close> requests, the fate of a send) is an argument.
  The configuration holds what is fixed: libraries, the registry of schemas, the handlers of the application.  A
  handler is a function of what it is given; it tells whether it raised.
\<close>

section \<open>State\<close>

datatype future = Request string | TaskOf string

datatype agent_exc =
    Mismatch
  | EgressStop string
  | KeyUnusable
  | HandlerRaised string
  | NoHandler
  | BadTask wire_error
  | NotHashable
  | ConnectionLost
  | Denied json
  | Told json
  | NoHub
  | Unreadable

datatype outcome = Resolved json | Raised agent_exc

record ('sk, 'pk, 'rsk, 'rpk) agent_conf =
  gc_rt :: "('sk, 'pk) runtime"
  gc_lib :: "('rsk, 'rpk) crypto_lib"
  gc_rx :: regexes
  gc_schemas :: schemas
  gc_message :: "(message \<Rightarrow> agent_exc option) option"
  gc_request :: "(message \<Rightarrow> agent_exc + json) option"
  gc_task :: "(json \<Rightarrow> task \<Rightarrow> (agent_exc + json) \<times> task) option"
  gc_failover :: "(string \<Rightarrow> string \<Rightarrow> bool) option"
  gc_says :: "agent_exc \<Rightarrow> string"
  gc_summary :: "task \<Rightarrow> string \<Rightarrow> string"
  gc_failure :: "task \<Rightarrow> agent_exc \<Rightarrow> string"

record 'rsk agent =
  ag_name :: string
  ag_org :: string
  ag_qualified :: string
  ag_identity :: identity
  ag_api_key :: "string option"
  ag_token :: "string option"
  ag_sk :: 'rsk
  ag_hubs :: "string list"
  ag_hub :: string
  ag_connected :: bool
  ag_encrypt :: bool
  ag_egress :: "egress_policy option"
  ag_auto :: bool
  ag_closing :: bool
  ag_backoff :: rat
  ag_max_backoff :: rat
  ag_keys :: "(string \<times> json) list"
  ag_target_schemas :: "(string \<times> json) list"
  ag_requests :: "(string \<times> bool) list"
  ag_tasks :: "(string \<times> bool) list"
  ag_outcomes :: "(future \<times> outcome) list"
  ag_sent :: "message list"

text \<open>What an operation finds outside: the time, a fresh identifier, what is drawn for an encryption, whether the send
  succeeds.\<close>

record agent_tick =
  at_now :: rat
  at_id :: string
  at_draw :: "string \<times> string \<times> string"
  at_alive :: bool

definition agent_new ::
  "string \<Rightarrow> string \<Rightarrow> string option \<Rightarrow> identity \<Rightarrow> 'rsk \<Rightarrow> string list \<Rightarrow> bool \<Rightarrow> egress_policy option \<Rightarrow> bool \<Rightarrow> rat \<Rightarrow> rat \<Rightarrow> 'rsk agent" where
  "agent_new name org api_key identity sk hubs encrypt egress auto backoff max_backoff =
     \<lparr> ag_name = name, ag_org = org, ag_qualified = id_qualified_name identity, ag_identity = identity,
       ag_api_key = api_key, ag_token = None, ag_sk = sk, ag_hubs = hubs, ag_hub = hd hubs, ag_connected = False,
       ag_encrypt = encrypt, ag_egress = egress, ag_auto = auto, ag_closing = False, ag_backoff = backoff,
       ag_max_backoff = max_backoff, ag_keys = [], ag_target_schemas = [], ag_requests = [], ag_tasks = [],
       ag_outcomes = [], ag_sent = [] \<rparr>"

section \<open>Joining a hub\<close>

datatype dial = Unreachable | Answered message

datatype joined = Joined | Refused json | NeitherNor | NotJoined

definition register_payload :: "'rsk agent \<Rightarrow> json" where
  "register_payload ag = (case identity_to_dict (ag_identity ag) of
     JObj d \<Rightarrow> JObj (case ag_api_key ag of None \<Rightarrow> d | Some k \<Rightarrow> if k = [] then d else dict_set ''api_key'' (JStr k) d)
   | v \<Rightarrow> v)"

definition learn_siblings :: "json \<Rightarrow> string list \<Rightarrow> string list" where
  "learn_siblings urls hubs = (case urls of
     JList vs \<Rightarrow> foldl (\<lambda>hs v. case v of JStr u \<Rightarrow> if u \<noteq> [] \<and> u \<notin> set hs then hs @ [u] else hs | _ \<Rightarrow> hs) hubs vs
   | _ \<Rightarrow> hubs)"

text \<open>Roles and permissions are lists of texts where the hub sends them; other shapes are not kept.\<close>

definition taken_texts :: "(string \<times> json) list \<Rightarrow> string \<Rightarrow> string list \<Rightarrow> string list" where
  "taken_texts d k old = (case map_of d k of
     Some (JList vs) \<Rightarrow> (case those (List.map opt_of_json vs) of Some xs \<Rightarrow> xs | None \<Rightarrow> old) | _ \<Rightarrow> old)"

definition take_registration :: "(string \<times> json) list \<Rightarrow> 'rsk agent \<Rightarrow> 'rsk agent" where
  "take_registration d ag =
     (let i = ag_identity ag;
          i1 = i\<lparr>id_roles := taken_texts d ''roles'' (id_roles i), id_permissions := taken_texts d ''permissions'' (id_permissions i)\<rparr>;
          org = (case map_of d ''org_id'' of Some (JStr s) \<Rightarrow> Some s | _ \<Rightarrow> None)
      in ag\<lparr>ag_token := opt_of_json (py_get d ''token''),
            ag_qualified := (case map_of d ''qualified_name'' of Some (JStr s) \<Rightarrow> s | _ \<Rightarrow> ag_name ag),
            ag_identity := (case org of None \<Rightarrow> i1 | Some s \<Rightarrow> i1\<lparr>id_org_id := s\<rparr>),
            ag_org := (case org of None \<Rightarrow> ag_org ag | Some s \<Rightarrow> s),
            ag_hubs := learn_siblings (py_get d ''cluster_hubs'') (ag_hubs ag)\<rparr>)"

definition register_on :: "string \<Rightarrow> dial \<Rightarrow> 'rsk agent \<Rightarrow> joined \<times> 'rsk agent" where
  "register_on url answer ag = (case answer of
     Unreachable \<Rightarrow> (NotJoined, ag)
   | Answered m \<Rightarrow>
       (case ms_type m of
          MRegistered \<Rightarrow>
            (let ag1 = ag\<lparr>ag_connected := True, ag_hub := url\<rparr> in
             case ms_content m of JObj d \<Rightarrow> (Joined, take_registration d ag1) | _ \<Rightarrow> (NotJoined, ag1))
        | MError \<Rightarrow> (Refused (ms_content m), ag)
        | _ \<Rightarrow> (NeitherNor, ag)))"

text \<open>\<open>connect\<close>: the candidates in order; a refusal ends the search.\<close>

fun connect_over :: "(string \<Rightarrow> dial) \<Rightarrow> string list \<Rightarrow> 'rsk agent \<Rightarrow> (agent_exc + string) \<times> 'rsk agent" where
  "connect_over world [] ag = (Inl NoHub, ag)"
| "connect_over world (url # urls) ag =
     (case register_on url (world url) ag of
        (NotJoined, ag') \<Rightarrow> connect_over world urls ag'
      | (Refused content, ag') \<Rightarrow> (Inl (Denied content), ag')
      | (_, ag') \<Rightarrow> (Inr url, ag'))"

definition connect :: "(string \<Rightarrow> dial) \<Rightarrow> 'rsk agent \<Rightarrow> (agent_exc + string) \<times> 'rsk agent" where
  "connect world ag = connect_over world (ag_hubs ag) ag"

text \<open>One round of the reconnection: a fail-over handler that raises sends the loop on to the next candidate.\<close>

fun rejoin_over ::
  "(string \<Rightarrow> string \<Rightarrow> bool) option \<Rightarrow> (string \<Rightarrow> dial) \<Rightarrow> string \<Rightarrow> string list \<Rightarrow> 'rsk agent \<Rightarrow> (agent_exc + string) \<times> 'rsk agent" where
  "rejoin_over failover world old [] ag = (Inl NoHub, ag)"
| "rejoin_over failover world old (url # urls) ag =
     (case register_on url (world url) ag of
        (NotJoined, ag') \<Rightarrow> rejoin_over failover world old urls ag'
      | (Refused content, ag') \<Rightarrow> (Inl (Denied content), ag')
      | (_, ag') \<Rightarrow>
          (case failover of
             Some handler \<Rightarrow> if url \<noteq> old \<and> \<not> handler old url then rejoin_over failover world old urls ag' else (Inr url, ag')
           | None \<Rightarrow> (Inr url, ag')))"

definition backoff_after :: "nat \<Rightarrow> 'rsk agent \<Rightarrow> rat" where
  "backoff_after attempt ag = min (ag_max_backoff ag) (ag_backoff ag * 2 ^ min attempt 5)"

text \<open>How a round ends: \<open>None\<close> when no hub could be joined.\<close>

definition reconnect_round ::
  "(string \<Rightarrow> string \<Rightarrow> bool) option \<Rightarrow> (string \<Rightarrow> dial) \<Rightarrow> string \<Rightarrow> 'rsk agent \<Rightarrow> (agent_exc + string option) option \<times> 'rsk agent" where
  "reconnect_round failover world old ag =
     (case rejoin_over failover world old (ag_hubs ag) ag of
        (Inr url, ag') \<Rightarrow> (Some (Inr (Some url)), ag')
      | (Inl (Denied content), ag') \<Rightarrow> (Some (Inl (Denied content)), ag')
      | (Inl e, ag') \<Rightarrow> (None, ag'))"

text \<open>
  The reconnection loop.  \<open>world n\<close> is what the hubs answer in round \<open>n\<close>, \<open>closing n\<close> whether the agent is being closed
  when round \<open>n\<close> begins; the result holds the waits between the rounds.  Nothing bounds the number of rounds: \<open>None\<close> is
  a loop that never returns.
\<close>

partial_function (option) reconnect_loop ::
  "(string \<Rightarrow> string \<Rightarrow> bool) option \<Rightarrow> (nat \<Rightarrow> string \<Rightarrow> dial) \<Rightarrow> (nat \<Rightarrow> bool) \<Rightarrow> string \<Rightarrow> nat \<Rightarrow> rat list \<Rightarrow> 'rsk agent
    \<Rightarrow> ((agent_exc + string option) \<times> rat list \<times> 'rsk agent) option" where
  "reconnect_loop failover world closing old attempt waits ag =
     (if closing attempt then Some (Inr None, waits, ag)
      else (case reconnect_round failover (world attempt) old ag of
              (ended, ag') \<Rightarrow>
                (case ended of
                   Some x \<Rightarrow> Some (x, waits, ag')
                 | None \<Rightarrow> reconnect_loop failover world closing old (Suc attempt)
                             (waits @ [backoff_after (Suc attempt) ag']) ag')))"

definition reconnect ::
  "(string \<Rightarrow> string \<Rightarrow> bool) option \<Rightarrow> (nat \<Rightarrow> string \<Rightarrow> dial) \<Rightarrow> (nat \<Rightarrow> bool) \<Rightarrow> 'rsk agent
    \<Rightarrow> ((agent_exc + string option) \<times> rat list \<times> 'rsk agent) option" where
  "reconnect failover world closing ag = reconnect_loop failover world closing (ag_hub ag) 0 [] ag"

section \<open>Content on its way out\<close>

definition cache_key :: "string \<Rightarrow> json \<Rightarrow> 'rsk agent \<Rightarrow> 'rsk agent" where
  "cache_key name data ag = (case data of
     JObj d \<Rightarrow> if py_true (py_get d ''public_key'') then ag\<lparr>ag_keys := dict_set name (py_get d ''public_key'') (ag_keys ag)\<rparr> else ag
   | _ \<Rightarrow> ag)"

text \<open>\<open>answer\<close>: what \<open>who_is\<close> returned, \<open>None\<close> if it raised.\<close>

definition fetch_public_key :: "string \<Rightarrow> json option \<Rightarrow> 'rsk agent \<Rightarrow> json option \<times> 'rsk agent" where
  "fetch_public_key name answer ag = (case map_of (ag_keys ag) name of
     Some pk \<Rightarrow> (Some pk, ag)
   | None \<Rightarrow>
       (case answer of
          Some (JObj d) \<Rightarrow>
            (let pk = py_get d ''public_key'' in if py_true pk then (Some pk, cache_key name (JObj d) ag) else (None, ag))
        | _ \<Rightarrow> (None, ag)))"

definition fetch_target_schema :: "string \<Rightarrow> json option \<Rightarrow> 'rsk agent \<Rightarrow> json \<times> 'rsk agent" where
  "fetch_target_schema name answer ag = (case map_of (ag_target_schemas ag) name of
     Some s \<Rightarrow> (s, ag)
   | None \<Rightarrow>
       (let s = (case answer of Some (JObj d) \<Rightarrow> py_get d ''schema'' | _ \<Rightarrow> JNull);
            ag1 = (case answer of Some v \<Rightarrow> cache_key name v ag | None \<Rightarrow> ag)
        in (s, ag1\<lparr>ag_target_schemas := dict_set name s (ag_target_schemas ag1)\<rparr>)))"

definition translate_for ::
  "('sk, 'pk, 'rsk, 'rpk) agent_conf \<Rightarrow> string \<Rightarrow> json \<Rightarrow> json option \<Rightarrow> 'rsk agent \<Rightarrow> json \<times> 'rsk agent" where
  "translate_for gc target payload answer ag =
     (case (id_schema (ag_identity ag), payload) of
        (Some own, JObj d) \<Rightarrow>
          if own = [] then (payload, ag)
          else
            (let (theirs, ag') = fetch_target_schema target answer ag in
             case theirs of
               JStr t \<Rightarrow>
                 if t = [] \<or> t = own then (payload, ag')
                 else (case translate_schema (gc_schemas gc) d t (Some own) of
                         Inr d' \<Rightarrow> (JObj d', ag') | Inl e \<Rightarrow> (payload, ag'))
             | _ \<Rightarrow> (payload, ag'))
      | _ \<Rightarrow> (payload, ag))"

definition target_org :: "string \<Rightarrow> string" where
  "target_org target = (if CHR ''/'' \<in> set target then takeWhile (\<lambda>c. c \<noteq> CHR ''/'') target else ''default'')"

definition egress_for ::
  "('sk, 'pk, 'rsk, 'rpk) agent_conf \<Rightarrow> 'rsk agent \<Rightarrow> string \<Rightarrow> json \<Rightarrow> agent_exc + json" where
  "egress_for gc ag target payload = (case ag_egress ag of
     None \<Rightarrow> Inr payload
   | Some p \<Rightarrow>
       if ep_rules p = [] then Inr payload
       else if target_org target = ag_org ag then Inr payload
       else (case apply_egress (gc_rx gc) payload (target_org target) (ag_egress ag) of
               Inl rule \<Rightarrow> Inl (EgressStop rule) | Inr (filtered, triggered) \<Rightarrow> Inr filtered))"

definition plaintext_of :: "('sk, 'pk) runtime \<Rightarrow> json \<Rightarrow> string" where
  "plaintext_of rt content = (case content of JStr s \<Rightarrow> s | _ \<Rightarrow> ser (default_format rt) content)"

definition encrypt_content ::
  "('sk, 'pk, 'rsk, 'rpk) agent_conf \<Rightarrow> agent_tick \<Rightarrow> json \<Rightarrow> json \<Rightarrow> agent_exc + json" where
  "encrypt_content gc tk pk content =
     (let (k, n, r) = at_draw tk in
      case pk of
        JStr pem \<Rightarrow>
          (case encrypt_for (gc_lib gc) k n r pem (plaintext_of (gc_rt gc) content) of
             Some e \<Rightarrow> Inr (JStr e) | None \<Rightarrow> Inl KeyUnusable)
      | _ \<Rightarrow> Inl KeyUnusable)"

text \<open>Without a key the content goes out as it is.\<close>

definition seal ::
  "('sk, 'pk, 'rsk, 'rpk) agent_conf \<Rightarrow> agent_tick \<Rightarrow> string \<Rightarrow> json option \<Rightarrow> json \<Rightarrow> 'rsk agent \<Rightarrow> (agent_exc + json) \<times> 'rsk agent" where
  "seal gc tk target answer content ag =
     (if \<not> ag_encrypt ag then (Inr content, ag)
      else (case fetch_public_key target answer ag of
              (Some pk, ag') \<Rightarrow> (encrypt_content gc tk pk content, ag')
            | (None, ag') \<Rightarrow> (Inr content, ag')))"

text \<open>Translate, filter, encrypt: \<open>a1\<close> and \<open>a2\<close> answer the two \<open>WHO_IS\<close> requests.\<close>

definition prepare ::
  "('sk, 'pk, 'rsk, 'rpk) agent_conf \<Rightarrow> agent_tick \<Rightarrow> string \<Rightarrow> json \<Rightarrow> json option \<Rightarrow> json option \<Rightarrow> 'rsk agent
    \<Rightarrow> (agent_exc + json) \<times> 'rsk agent" where
  "prepare gc tk target payload a1 a2 ag =
     (let (translated, ag1) = translate_for gc target payload a1 ag in
      case egress_for gc ag1 target translated of
        Inl e \<Rightarrow> (Inl e, ag1)
      | Inr filtered \<Rightarrow> seal gc tk target a2 filtered ag1)"

section \<open>Content on its way in\<close>

definition read_json_text :: "string \<Rightarrow> json" where
  "read_json_text s = (case loads s of Some v \<Rightarrow> v | None \<Rightarrow> JStr s)"

definition decrypt_content :: "('sk, 'pk, 'rsk, 'rpk) agent_conf \<Rightarrow> 'rsk agent \<Rightarrow> string \<Rightarrow> agent_exc + json" where
  "decrypt_content gc ag text =
     (case decrypt_with (gc_lib gc) (ag_sk ag) text of
        Some plain \<Rightarrow> Inr (read_json_text plain)
      | None \<Rightarrow> if looks_encrypted (JStr text) then Inl Mismatch else Inr (read_json_text text))"

definition unwrap_incoming :: "('sk, 'pk, 'rsk, 'rpk) agent_conf \<Rightarrow> 'rsk agent \<Rightarrow> json \<Rightarrow> agent_exc + json" where
  "unwrap_incoming gc ag v =
     (if ag_encrypt ag then (case v of JStr s \<Rightarrow> decrypt_content gc ag s | _ \<Rightarrow> Inr v)
      else if looks_encrypted v then Inl Mismatch
      else Inr v)"

text \<open>What the loop does with the content of a response, a request or a result: no check where encryption is off.\<close>

definition open_text :: "('sk, 'pk, 'rsk, 'rpk) agent_conf \<Rightarrow> 'rsk agent \<Rightarrow> json \<Rightarrow> agent_exc + json" where
  "open_text gc ag v = (if ag_encrypt ag then (case v of JStr s \<Rightarrow> decrypt_content gc ag s | _ \<Rightarrow> Inr v) else Inr v)"

section \<open>Futures\<close>

text \<open>A future that is done already keeps what it has.\<close>

definition settle :: "future \<Rightarrow> bool \<Rightarrow> outcome \<Rightarrow> 'rsk agent \<Rightarrow> 'rsk agent" where
  "settle f done x ag = (if done then ag else ag\<lparr>ag_outcomes := ag_outcomes ag @ [(f, x)]\<rparr>)"

definition pop_request :: "string \<Rightarrow> 'rsk agent \<Rightarrow> 'rsk agent" where
  "pop_request i ag = ag\<lparr>ag_requests := dict_del i (ag_requests ag)\<rparr>"

definition pop_task :: "string \<Rightarrow> 'rsk agent \<Rightarrow> 'rsk agent" where
  "pop_task i ag = ag\<lparr>ag_tasks := dict_del i (ag_tasks ag)\<rparr>"

definition fail_all :: "(string \<Rightarrow> future) \<Rightarrow> agent_exc \<Rightarrow> (string \<times> bool) list \<Rightarrow> 'rsk agent \<Rightarrow> 'rsk agent" where
  "fail_all kind e pending ag = fold (\<lambda>(i, done). settle (kind i) done (Raised e)) pending ag"

definition fail_pending :: "'rsk agent \<Rightarrow> 'rsk agent" where
  "fail_pending ag =
     (let ag1 = (fail_all Request ConnectionLost (ag_requests ag) ag)\<lparr>ag_requests := []\<rparr>
      in (fail_all TaskOf ConnectionLost (ag_tasks ag1) ag1)\<lparr>ag_tasks := []\<rparr>)"

text \<open>A time-out: the future is cancelled, and then taken out by the coroutine that waited for it.\<close>

definition expire :: "future \<Rightarrow> 'rsk agent \<Rightarrow> 'rsk agent" where
  "expire f ag = (case f of
     Request i \<Rightarrow> if map_of (ag_requests ag) i = None then ag else ag\<lparr>ag_requests := dict_set i True (ag_requests ag)\<rparr>
   | TaskOf i \<Rightarrow> if map_of (ag_tasks ag) i = None then ag else ag\<lparr>ag_tasks := dict_set i True (ag_tasks ag)\<rparr>)"

definition give_up :: "future \<Rightarrow> 'rsk agent \<Rightarrow> 'rsk agent" where
  "give_up f ag = (case f of Request i \<Rightarrow> pop_request i ag | TaskOf i \<Rightarrow> pop_task i ag)"

definition close :: "'rsk agent \<Rightarrow> 'rsk agent" where
  "close ag = ag\<lparr>ag_closing := True\<rparr>"

section \<open>The loop that listens\<close>

text \<open>What a frame makes the loop start: coroutines of their own, or a call of the application's handler.\<close>

datatype effect = StartReply message | StartTask task | CallHandler message

definition answer_types :: "message_type list" where
  "answer_types = [MResponse, MIdentity, MDiscoverResult, MAdminResult]"

definition awaited :: "message \<Rightarrow> 'rsk agent \<Rightarrow> (string \<times> bool) option" where
  "awaited m ag = (case ms_reply_to m of
     None \<Rightarrow> None | Some i \<Rightarrow> map_option (Pair i) (map_of (ag_requests ag) i))"

text \<open>The future of an answer is taken out first; if the answer cannot be opened it has no outcome.\<close>

definition hear_answer ::
  "('sk, 'pk, 'rsk, 'rpk) agent_conf \<Rightarrow> message \<Rightarrow> string \<Rightarrow> bool \<Rightarrow> 'rsk agent \<Rightarrow> agent_exc option \<times> 'rsk agent" where
  "hear_answer gc m i done ag =
     (let ag1 = pop_request i ag in
      if done then (None, ag1)
      else (case (if ms_type m = MResponse then open_text gc ag1 (ms_content m) else Inr (ms_content m)) of
              Inl e \<Rightarrow> (Some e, ag1)
            | Inr v \<Rightarrow> (None, settle (Request i) False (Resolved v) ag1)))"

definition hear_update ::
  "('sk, 'pk, 'rsk, 'rpk) agent_conf \<Rightarrow> task \<Rightarrow> 'rsk agent \<Rightarrow> agent_exc option \<times> 'rsk agent" where
  "hear_update gc t ag =
     (case map_of (ag_tasks ag) (tk_task_id t) of
        None \<Rightarrow> (None, ag)
      | Some done \<Rightarrow>
          (case tk_status t of
             Completed \<Rightarrow>
               (let ag1 = pop_task (tk_task_id t) ag in
                case open_text gc ag1 (tk_output t) of
                  Inl e \<Rightarrow> (Some e, ag1)
                | Inr v \<Rightarrow> (None, settle (TaskOf (tk_task_id t)) done (Resolved v) ag1))
           | Failed \<Rightarrow>
               (None, settle (TaskOf (tk_task_id t)) done (Raised (Told (tk_error t))) (pop_task (tk_task_id t) ag))
           | _ \<Rightarrow> (None, ag)))"

definition refusal_of :: "json \<Rightarrow> agent_exc" where
  "refusal_of content = (case content of
     JStr s \<Rightarrow> if str_prefix ''ADMIN_DENIED'' s then Denied content else Told content | _ \<Rightarrow> Told content)"

definition named_task :: "json \<Rightarrow> json" where
  "named_task content = (case content of JObj d \<Rightarrow> py_get d ''task_id'' | _ \<Rightarrow> JNull)"

definition fail_request :: "message \<Rightarrow> 'rsk agent \<Rightarrow> 'rsk agent" where
  "fail_request m ag = (case awaited m ag of
     None \<Rightarrow> ag
   | Some (i, done) \<Rightarrow> if i = [] then ag else settle (Request i) done (Raised (refusal_of (ms_content m))) (pop_request i ag))"

definition fail_named :: "json \<Rightarrow> string \<Rightarrow> 'rsk agent \<Rightarrow> 'rsk agent" where
  "fail_named content i ag = (case map_of (ag_tasks ag) i of
     None \<Rightarrow> ag | Some done \<Rightarrow> settle (TaskOf i) done (Raised (Told content)) (pop_task i ag))"

text \<open>An error that names a task fails this task; any other error fails every task in flight.\<close>

definition hear_error :: "message \<Rightarrow> 'rsk agent \<Rightarrow> agent_exc option \<times> 'rsk agent" where
  "hear_error m ag =
     (let ag1 = fail_request m ag; content = ms_content m; named = named_task content in
      if py_true named then
        (case named of
           JStr i \<Rightarrow> (None, fail_named content i ag1)
         | JList vs \<Rightarrow> (Some NotHashable, ag1) | JObj d \<Rightarrow> (Some NotHashable, ag1)
         | _ \<Rightarrow> (None, ag1))
      else (None, (fail_all TaskOf (Told content) (ag_tasks ag1) ag1)\<lparr>ag_tasks := []\<rparr>))"

text \<open>One frame; \<open>Some e\<close> is an exception that ends the loop.\<close>

definition hear ::
  "('sk, 'pk, 'rsk, 'rpk) agent_conf \<Rightarrow> agent_tick \<Rightarrow> message \<Rightarrow> 'rsk agent \<Rightarrow> agent_exc option \<times> effect list \<times> 'rsk agent" where
  "hear gc tk m ag =
     (case (ms_type m \<in> set answer_types, awaited m ag) of
        (True, Some (i, done)) \<Rightarrow> (let (e, ag') = hear_answer gc m i done ag in (e, [], ag'))
      | _ \<Rightarrow>
          (case ms_type m of
             MTaskAssign \<Rightarrow>
               (case task_from_dict (at_id tk) (at_now tk) (ms_content m) of
                  Inl e \<Rightarrow> (Some (BadTask e), [], ag) | Inr t \<Rightarrow> (None, [StartTask t], ag))
           | MTaskUpdate \<Rightarrow>
               (case task_from_dict (at_id tk) (at_now tk) (ms_content m) of
                  Inl e \<Rightarrow> (Some (BadTask e), [], ag)
                | Inr t \<Rightarrow> (let (e, ag') = hear_update gc t ag in (e, [], ag')))
           | MRequest \<Rightarrow>
               (case open_text gc ag (ms_content m) of
                  Inl e \<Rightarrow> (Some e, [], ag)
                | Inr v \<Rightarrow> (None, if gc_request gc = None then [] else [StartReply (m\<lparr>ms_content := v\<rparr>)], ag))
           | MMessage \<Rightarrow>
               (case unwrap_incoming gc ag (ms_content m) of
                  Inl e \<Rightarrow> (Some e, [], ag)
                | Inr v \<Rightarrow>
                    (case gc_message gc of
                       None \<Rightarrow> (None, [], ag)
                     | Some handler \<Rightarrow> (handler (m\<lparr>ms_content := v\<rparr>), [CallHandler (m\<lparr>ms_content := v\<rparr>)], ag)))
           | MError \<Rightarrow> (let (e, ag') = hear_error m ag in (e, [], ag'))
           | _ \<Rightarrow> (None, [], ag)))"

text \<open>\<open>finally\<close>: whatever ended the loop, what was waited for fails; \<open>True\<close> if a reconnection starts.\<close>

definition loop_ends :: "'rsk agent \<Rightarrow> bool \<times> 'rsk agent" where
  "loop_ends ag = (ag_auto ag \<and> \<not> ag_closing ag, fail_pending ag)"

section \<open>Operations\<close>

definition frame_of ::
  "agent_tick \<Rightarrow> message_type \<Rightarrow> string option \<Rightarrow> json \<Rightarrow> string option \<Rightarrow> 'rsk agent \<Rightarrow> message" where
  "frame_of tk ty to content reply_to ag =
     message_new (at_id tk) (at_now tk) ty (ag_qualified ag) to content reply_to None JNull ''intermesh/v1'' (ag_token ag)"

definition push_frame :: "message \<Rightarrow> 'rsk agent \<Rightarrow> 'rsk agent" where
  "push_frame m ag = ag\<lparr>ag_sent := ag_sent ag @ [m]\<rparr>"

definition transmit :: "agent_tick \<Rightarrow> message \<Rightarrow> 'rsk agent \<Rightarrow> agent_exc option \<times> 'rsk agent" where
  "transmit tk m ag = (if at_alive tk then (None, push_frame m ag) else (Some ConnectionLost, ag))"

definition await_request :: "string \<Rightarrow> 'rsk agent \<Rightarrow> 'rsk agent" where
  "await_request i ag = ag\<lparr>ag_requests := dict_set i False (ag_requests ag)\<rparr>"

definition await_task :: "string \<Rightarrow> 'rsk agent \<Rightarrow> 'rsk agent" where
  "await_task i ag = ag\<lparr>ag_tasks := dict_set i False (ag_tasks ag)\<rparr>"

definition send_message ::
  "('sk, 'pk, 'rsk, 'rpk) agent_conf \<Rightarrow> agent_tick \<Rightarrow> string \<Rightarrow> json \<Rightarrow> json option \<Rightarrow> json option \<Rightarrow> 'rsk agent
    \<Rightarrow> agent_exc option \<times> 'rsk agent" where
  "send_message gc tk to content a1 a2 ag =
     (case prepare gc tk to content a1 a2 ag of
        (Inl e, ag') \<Rightarrow> (Some e, ag')
      | (Inr v, ag') \<Rightarrow> transmit tk (frame_of tk MMessage (Some to) v None ag') ag')"

text \<open>\<open>who_is\<close>, \<open>discover\<close> and \<open>admin\<close> send their content as it is.\<close>

definition call :: "agent_tick \<Rightarrow> message_type \<Rightarrow> string option \<Rightarrow> json \<Rightarrow> 'rsk agent \<Rightarrow> agent_exc option \<times> 'rsk agent" where
  "call tk ty to content ag =
     (let m = frame_of tk ty to content None ag in transmit tk m (await_request (ms_id m) ag))"

definition ask ::
  "('sk, 'pk, 'rsk, 'rpk) agent_conf \<Rightarrow> agent_tick \<Rightarrow> string \<Rightarrow> json \<Rightarrow> json option \<Rightarrow> json option \<Rightarrow> 'rsk agent
    \<Rightarrow> agent_exc option \<times> 'rsk agent" where
  "ask gc tk to content a1 a2 ag =
     (case prepare gc tk to content a1 a2 ag of
        (Inl e, ag') \<Rightarrow> (Some e, ag')
      | (Inr v, ag') \<Rightarrow> call tk MRequest (Some to) v ag')"

definition who_is :: "agent_tick \<Rightarrow> string \<Rightarrow> 'rsk agent \<Rightarrow> agent_exc option \<times> 'rsk agent" where
  "who_is tk name ag = call tk MWhoIs None (JStr name) ag"

definition discover :: "agent_tick \<Rightarrow> (string \<times> json) list \<Rightarrow> 'rsk agent \<Rightarrow> agent_exc option \<times> 'rsk agent" where
  "discover tk query ag = call tk MDiscover None (JObj query) ag"

definition admin :: "agent_tick \<Rightarrow> string \<Rightarrow> (string \<times> json) list \<Rightarrow> 'rsk agent \<Rightarrow> agent_exc option \<times> 'rsk agent" where
  "admin tk command params ag =
     call tk MAdminRequest None (JObj [(''command'', JStr command), (''params'', JObj params)]) ag"

text \<open>The optional members of a submission, each present when it is true.\<close>

definition with_members :: "(string \<times> json) list \<Rightarrow> json \<Rightarrow> json" where
  "with_members extra content = (case content of
     JObj d \<Rightarrow> JObj (foldl (\<lambda>d (k, v). if py_true v then dict_set k v d else d) d extra) | v \<Rightarrow> v)"

definition submit_task ::
  "('sk, 'pk, 'rsk, 'rpk) agent_conf \<Rightarrow> agent_tick \<Rightarrow> string \<Rightarrow> string \<Rightarrow> string \<Rightarrow> json \<Rightarrow> json \<Rightarrow> json \<Rightarrow> json
    \<Rightarrow> json option \<Rightarrow> json option \<Rightarrow> 'rsk agent \<Rightarrow> agent_exc option \<times> 'rsk agent" where
  "submit_task gc tk task_id title assignee input_data cost parent escrow a1 a2 ag =
     (case prepare gc tk assignee input_data a1 a2 ag of
        (Inl e, ag') \<Rightarrow> (Some e, ag')
      | (Inr v, ag') \<Rightarrow>
          (let t = task_new task_id (at_now tk) title (ag_qualified ag') assignee v None Pending JNull JNull None JNull JNull;
               content = with_members [(''estimated_cost'', cost), (''parent_task_id'', parent), (''escrow'', escrow)] (task_to_dict t)
           in transmit tk (frame_of tk MTaskSubmit (Some assignee) content None ag') (await_task (tk_task_id t) ag')))"

text \<open>The coroutine of a request: whatever fails, nothing is sent.\<close>

definition respond_to_request ::
  "('sk, 'pk, 'rsk, 'rpk) agent_conf \<Rightarrow> agent_tick \<Rightarrow> message \<Rightarrow> json option \<Rightarrow> 'rsk agent \<Rightarrow> 'rsk agent" where
  "respond_to_request gc tk m a2 ag =
     (case gc_request gc of
        None \<Rightarrow> ag
      | Some handler \<Rightarrow>
          (case handler m of
             Inl e \<Rightarrow> ag
           | Inr reply \<Rightarrow>
               (case egress_for gc ag (ms_sender m) reply of
                  Inl e \<Rightarrow> ag
                | Inr filtered \<Rightarrow>
                    (case seal gc tk (ms_sender m) a2 filtered ag of
                       (Inl e, ag') \<Rightarrow> ag'
                     | (Inr v, ag') \<Rightarrow>
                         snd (transmit tk (frame_of tk MResponse (Some (ms_sender m)) v (Some (ms_id m)) ag') ag')))))"

definition task_update_frame :: "agent_tick \<Rightarrow> task \<Rightarrow> 'rsk agent \<Rightarrow> message" where
  "task_update_frame tk t ag = frame_of tk MTaskUpdate None (task_to_dict t) None ag"

text \<open>The output of an assigned task, or what went wrong, with the task as the handler left it.\<close>

definition run_assigned ::
  "('sk, 'pk, 'rsk, 'rpk) agent_conf \<Rightarrow> agent_tick \<Rightarrow> task \<Rightarrow> json option \<Rightarrow> json option \<Rightarrow> 'rsk agent
    \<Rightarrow> (agent_exc + json) \<times> task \<times> 'rsk agent" where
  "run_assigned gc tk t a1 a2 ag =
     (case unwrap_incoming gc ag (tk_input t) of
        Inl e \<Rightarrow> (Inl e, t, ag)
      | Inr input \<Rightarrow>
          (case gc_task gc of
             None \<Rightarrow> (Inl NoHandler, t, ag)
           | Some handler \<Rightarrow>
               (case handler input t of
                  (Inl e, t') \<Rightarrow> (Inl e, t', ag)
                | (Inr out, t') \<Rightarrow>
                    (let (x, ag') = prepare gc tk (tk_orchestrator t') out a1 a2 ag in (x, t', ag')))))"

definition finished_task ::
  "('sk, 'pk, 'rsk, 'rpk) agent_conf \<Rightarrow> agent_tick \<Rightarrow> (agent_exc + json) \<Rightarrow> task \<Rightarrow> 'rsk agent \<Rightarrow> task" where
  "finished_task gc tk x t ag =
     (case x of
        Inr v \<Rightarrow> update_status (at_now tk) Completed v JNull (Some (str_or (tk_summary t) (gc_summary gc t (ag_qualified ag)))) t
      | Inl e \<Rightarrow> update_status (at_now tk) Failed JNull (JStr (gc_says gc e)) (Some (str_or (tk_summary t) (gc_failure gc t e))) t)"

definition execute_assigned_task ::
  "('sk, 'pk, 'rsk, 'rpk) agent_conf \<Rightarrow> agent_tick \<Rightarrow> agent_tick \<Rightarrow> task \<Rightarrow> json option \<Rightarrow> json option \<Rightarrow> 'rsk agent
    \<Rightarrow> agent_exc option \<times> 'rsk agent" where
  "execute_assigned_task gc tk0 tk t a1 a2 ag =
     (let t1 = update_status (at_now tk0) Running JNull JNull None t in
      case transmit tk0 (task_update_frame tk0 t1 ag) ag of
        (Some e, ag1) \<Rightarrow> (Some e, ag1)
      | (None, ag1) \<Rightarrow>
          (let (x, t2, ag2) = run_assigned gc tk t1 a1 a2 ag1
           in transmit tk (task_update_frame tk (finished_task gc tk x t2 ag2) ag2) ag2))"

end
