(* ===== verification/AgentSafety.thy ===== *)
theory AgentSafety
  imports Agent
begin

text \<open>
  What holds of an agent: payloads arrive as they were sealed, ciphertext is not handed out as data, every future is
  settled at most once, an error that names a task concerns this task, reconnection ends once a hub answers; and the
  places where the code falls short of it.
\<close>

section \<open>Payloads\<close>

text \<open>A content that its JSON text gives back: texts must not read as JSON themselves.\<close>

definition json_stable :: "('sk, 'pk) runtime \<Rightarrow> json \<Rightarrow> bool" where
  "json_stable rt v = (case v of JStr s \<Rightarrow> loads s = None | _ \<Rightarrow> ser_ok (default_format rt) v \<and> wf_json v)"

lemma read_plaintext: "json_stable rt v \<Longrightarrow> read_json_text (plaintext_of rt v) = v"
proof (cases "\<exists>s. v = JStr s")
  case False
  assume st: "json_stable rt v"
  have "plaintext_of rt v = ser (default_format rt) v" using False by (cases v) (simp_all add: plaintext_of_def)
  moreover have "loads (ser (default_format rt) v) = Some v"
  proof (rule loads_ser)
    show "format_ok (default_format rt)" by (simp add: format_ok_def default_format_def)
    show "ser_ok (default_format rt) v" "wf_json v" using st False by (cases v; simp add: json_stable_def)+
  qed
  ultimately show ?thesis by (simp add: read_json_text_def)
qed (auto simp: json_stable_def plaintext_of_def read_json_text_def)

lemma encrypt_content_Inr:
  "encrypt_content gc tk pk content = Inr v \<longleftrightarrow>
   (\<exists>pem e. pk = JStr pem \<and> v = JStr e \<and>
      encrypt_for (gc_lib gc) (fst (at_draw tk)) (fst (snd (at_draw tk))) (snd (snd (at_draw tk))) pem
        (plaintext_of (gc_rt gc) content) = Some e)"
  by (cases "at_draw tk") (auto simp: encrypt_content_def split: json.split option.split)

lemma decrypt_sealed:
  assumes "encrypt_content gc tk (JStr pem) content = Inr v" "gc_lib gc' = gc_lib gc"
    and "key_pair (gc_lib gc) (ag_sk b) pem" "aes_ok (gc_lib gc)" "json_stable (gc_rt gc) content"
  shows "looks_encrypted v" "\<exists>e. v = JStr e \<and> decrypt_content gc' b e = Inr content"
proof -
  from assms(1) obtain e where e: "v = JStr e"
    "encrypt_for (gc_lib gc) (fst (at_draw tk)) (fst (snd (at_draw tk))) (snd (snd (at_draw tk))) pem
        (plaintext_of (gc_rt gc) content) = Some e"
    by (auto simp: encrypt_content_Inr)
  note opens = envelope_opens [OF e(2) assms(3,4)]
  show "looks_encrypted v" using opens e(1) by simp
  show "\<exists>e. v = JStr e \<and> decrypt_content gc' b e = Inr content"
    using opens e(1) assms(2) by (simp add: decrypt_content_def read_plaintext [OF assms(5)])
qed


text \<open>What is sealed has gone through the egress policy first.\<close>

lemma prepare_filters:
  assumes "prepare gc tk target payload a1 a2 ag = (Inr v, ag')"
  obtains translated ag1 filtered where "translate_for gc target payload a1 ag = (translated, ag1)"
    "egress_for gc ag1 target translated = Inr filtered" "seal gc tk target a2 filtered ag1 = (Inr v, ag')"
  using assms by (auto simp: prepare_def split: prod.splits sum.splits)

lemma translate_for_keeps:
  "ag_egress (snd (translate_for gc target payload a1 ag)) = ag_egress ag"
  "ag_org (snd (translate_for gc target payload a1 ag)) = ag_org ag"
  by (auto simp: translate_for_def fetch_target_schema_def cache_key_def Let_def
      split: option.split json.split sum.split prod.split)


section \<open>What cannot be opened is not handed out\<close>

text \<open>Content that looks encrypted and that the agent cannot open: another key, or encryption switched off.\<close>

definition closed_to :: "('sk, 'pk, 'rsk, 'rpk) agent_conf \<Rightarrow> 'rsk agent \<Rightarrow> json \<Rightarrow> bool" where
  "closed_to gc ag v \<longleftrightarrow> looks_encrypted v \<and>
     (ag_encrypt ag \<longrightarrow> (case v of JStr s \<Rightarrow> decrypt_with (gc_lib gc) (ag_sk ag) s = None | _ \<Rightarrow> False))"

lemma unwrap_closed: "closed_to gc ag v \<Longrightarrow> unwrap_incoming gc ag v = Inl Mismatch"
  by (auto simp: closed_to_def unwrap_incoming_def decrypt_content_def split: json.splits)

lemma transmit_alive: "at_alive tk \<Longrightarrow> transmit tk m ag = (None, push_frame m ag)"
  by (simp add: transmit_def)

lemma push_frame_fields [simp]:
  "ag_sent (push_frame m ag) = ag_sent ag @ [m]" "ag_encrypt (push_frame m ag) = ag_encrypt ag"
  "ag_sk (push_frame m ag) = ag_sk ag" "ag_qualified (push_frame m ag) = ag_qualified ag"
  "ag_token (push_frame m ag) = ag_token ag"
  by (simp_all add: push_frame_def)

lemma closed_to_push [simp]: "closed_to gc (push_frame m ag) v = closed_to gc ag v"
  by (simp add: closed_to_def cong: json.case_cong)

text \<open>C12: A task whose input the agent cannot open is reported as failed with the reason, whatever handler is installed:
  the handler is not called, and the output is empty.\<close>

theorem agent_refuses_closed_task:
  assumes "closed_to gc ag (tk_input t)" "at_alive tk0" "at_alive tk" "tk_summary t = None"
  shows "\<exists>m1 m2 ag'. execute_assigned_task gc tk0 tk t a1 a2 ag = (None, ag') \<and> ag_sent ag' = ag_sent ag @ [m1, m2] \<and>
     ms_content m2 = task_to_dict (update_status (at_now tk) Failed JNull (JStr (gc_says gc Mismatch))
       (Some (gc_failure gc (update_status (at_now tk0) Running JNull JNull None t) Mismatch))
       (update_status (at_now tk0) Running JNull JNull None t))"
proof -
  let ?t1 = "update_status (at_now tk0) Running JNull JNull None t"
  have i: "tk_input ?t1 = tk_input t" "tk_summary ?t1 = None" using assms(4) by (simp_all add: update_status_def)
  then show ?thesis
    using assms(1) by (simp add: execute_assigned_task_def Let_def transmit_alive [OF assms(2)] transmit_alive [OF assms(3)]
        run_assigned_def unwrap_closed finished_task_def str_or_def task_update_frame_def frame_of_def message_new_def)
qed

section \<open>Futures\<close>

definition pend :: "'rsk agent \<Rightarrow> future \<Rightarrow> bool option" where
  "pend ag f = (case f of Request i \<Rightarrow> map_of (ag_requests ag) i | TaskOf i \<Rightarrow> map_of (ag_tasks ag) i)"

definition settled_ones :: "'rsk agent \<Rightarrow> future set" where
  "settled_ones ag = fst ` set (ag_outcomes ag)"

text \<open>Each future has at most one outcome; one that waits has none; all of them were opened.\<close>

definition futures_ok :: "future set \<Rightarrow> 'rsk agent \<Rightarrow> bool" where
  "futures_ok used ag \<longleftrightarrow>
     distinct (List.map fst (ag_requests ag)) \<and> distinct (List.map fst (ag_tasks ag)) \<and>
     distinct (List.map fst (ag_outcomes ag)) \<and>
     (\<forall>f. pend ag f = Some False \<longrightarrow> f \<notin> settled_ones ag) \<and>
     (\<forall>f. pend ag f \<noteq> None \<or> f \<in> settled_ones ag \<longrightarrow> f \<in> used)"

text \<open>What operations that only prepare and send leave alone.\<close>

definition waits_of :: "'rsk agent \<Rightarrow> (string \<times> bool) list \<times> (string \<times> bool) list \<times> (future \<times> outcome) list" where
  "waits_of ag = (ag_requests ag, ag_tasks ag, ag_outcomes ag)"

lemma futures_ok_waits: "waits_of ag' = waits_of ag \<Longrightarrow> futures_ok used ag' = futures_ok used ag"
  by (simp add: futures_ok_def waits_of_def pend_def settled_ones_def cong: future.case_cong)

lemma waits_cache_key [simp]: "waits_of (cache_key name v ag) = waits_of ag"
  by (simp add: cache_key_def waits_of_def split: json.split)

lemma waits_fetch [simp]:
  "waits_of (snd (fetch_public_key name a ag)) = waits_of ag" "waits_of (snd (fetch_target_schema name a ag)) = waits_of ag"
proof -
  show "waits_of (snd (fetch_public_key name a ag)) = waits_of ag"
    by (simp add: fetch_public_key_def Let_def split: option.split json.split)
  have "waits_of (x\<lparr>ag_target_schemas := s\<rparr>) = waits_of x" for x :: "'a agent" and s by (simp add: waits_of_def)
  then show "waits_of (snd (fetch_target_schema name a ag)) = waits_of ag"
    by (simp add: fetch_target_schema_def Let_def split: option.split)
qed

lemma waits_translate [simp]: "waits_of (snd (translate_for gc target v a ag)) = waits_of ag"
proof -
  have "waits_of ag' = waits_of ag" if "fetch_target_schema target a ag = (s, ag')" for s ag'
    using waits_fetch(2) [of target a ag] that by simp
  then show ?thesis
    by (auto simp: translate_for_def Let_def split: option.split json.split sum.split prod.split)
qed

lemma waits_seal [simp]: "waits_of (snd (seal gc tk target a v ag)) = waits_of ag"
proof -
  obtain x ag' where s: "fetch_public_key target a ag = (x, ag')" by fastforce
  with waits_fetch(1) [of target a ag] have "waits_of ag' = waits_of ag" by simp
  with s show ?thesis by (cases x) (simp_all add: seal_def)
qed

lemma waits_prepare [simp]: "waits_of (snd (prepare gc tk target v a1 a2 ag)) = waits_of ag"
proof -
  obtain w ag1 where t: "translate_for gc target v a1 ag = (w, ag1)" by fastforce
  with waits_translate [of gc target v a1 ag] have "waits_of ag1 = waits_of ag" by simp
  with t show ?thesis by (simp add: prepare_def split: sum.split)
qed

lemma waits_push [simp]: "waits_of (push_frame m ag) = waits_of ag"
  by (simp add: push_frame_def waits_of_def)

lemma waits_transmit [simp]: "waits_of (snd (transmit tk m ag)) = waits_of ag"
  by (simp add: transmit_def)

lemma settle_fields [simp]:
  "ag_requests (settle f done x ag) = ag_requests ag" "ag_tasks (settle f done x ag) = ag_tasks ag"
  "pend (settle f done x ag) = pend ag"
  "ag_outcomes (settle f done x ag) = (if done then ag_outcomes ag else ag_outcomes ag @ [(f, x)])"
  by (auto simp: settle_def pend_def cong: future.case_cong)

lemma pop_fields [simp]:
  "ag_outcomes (pop_request i ag) = ag_outcomes ag" "ag_outcomes (pop_task i ag) = ag_outcomes ag"
  "ag_requests (pop_task i ag) = ag_requests ag" "ag_tasks (pop_request i ag) = ag_tasks ag"
  "ag_tasks (pop_task i ag) = dict_del i (ag_tasks ag)" "ag_requests (pop_request i ag) = dict_del i (ag_requests ag)"
  by (simp_all add: pop_request_def pop_task_def)

text \<open>Taking a future out, and giving it an outcome if it was not done.\<close>

definition pop :: "future \<Rightarrow> 'rsk agent \<Rightarrow> 'rsk agent" where
  "pop f ag = (case f of Request i \<Rightarrow> pop_request i ag | TaskOf i \<Rightarrow> pop_task i ag)"

lemma pend_pop: "pend (pop f ag) g = (if g = f then None else pend ag g)"
  by (cases f; cases g) (simp_all add: pop_def pend_def delete_conv')

lemma pop_keeps:
  "distinct (List.map fst (ag_requests ag)) \<Longrightarrow> distinct (List.map fst (ag_requests (pop f ag)))"
  "distinct (List.map fst (ag_tasks ag)) \<Longrightarrow> distinct (List.map fst (ag_tasks (pop f ag)))"
  "ag_outcomes (pop f ag) = ag_outcomes ag"
  by (cases f; simp add: pop_def distinct_delete)+

lemma futures_ok_pop: "futures_ok used ag \<Longrightarrow> futures_ok used (pop f ag)"
  by (auto simp: futures_ok_def pend_pop pop_keeps settled_ones_def)

lemma futures_ok_settle:
  assumes "futures_ok used ag" "pend ag f = Some done"
  shows "futures_ok used (settle f done x (pop f ag))"
proof (cases "done")
  case True
  then show ?thesis using futures_ok_pop [OF assms(1)] by (simp add: settle_def)
next
  case False
  with assms have "f \<notin> settled_ones ag" "f \<in> used" by (auto simp: futures_ok_def)
  then show ?thesis
    using assms(1) False by (auto simp: futures_ok_def pop_keeps settled_ones_def pend_pop)
qed

text \<open>Failing every future of a table, and emptying it.\<close>

lemma fail_all_fields [simp]:
  "ag_requests (fail_all kind e xs ag) = ag_requests ag" "ag_tasks (fail_all kind e xs ag) = ag_tasks ag"
  "ag_outcomes (fail_all kind e xs ag) = ag_outcomes ag @ List.map (\<lambda>(i, done). (kind i, Raised e)) (List.filter (\<lambda>x. \<not> snd x) xs)"
  unfolding fail_all_def by (induction xs arbitrary: ag) auto

definition table :: "(string \<Rightarrow> future) \<Rightarrow> 'rsk agent \<Rightarrow> (string \<times> bool) list" where
  "table kind ag = (if kind = Request then ag_requests ag else ag_tasks ag)"

definition emptied :: "(string \<Rightarrow> future) \<Rightarrow> 'rsk agent \<Rightarrow> 'rsk agent" where
  "emptied kind ag = (if kind = Request then ag\<lparr>ag_requests := []\<rparr> else ag\<lparr>ag_tasks := []\<rparr>)"

lemma kinds_differ: "Request \<noteq> TaskOf"
  by (metis future.distinct(1))

lemma futures_ok_fail_all:
  assumes "futures_ok used ag" "kind = Request \<or> kind = TaskOf"
  shows "futures_ok used (emptied kind (fail_all kind e (table kind ag) ag))"
proof -
  let ?xs = "table kind ag" and ?ag = "emptied kind (fail_all kind e (table kind ag) ag)"
  define failed where "failed = List.map (\<lambda>(i, done). (kind i, Raised e)) (List.filter (\<lambda>x. \<not> snd x) ?xs)"
  have inj: "inj kind" using assms(2) by (auto intro!: injI)
  have keys: "distinct (List.map fst ?xs)" using assms by (auto simp: table_def futures_ok_def)
  have pend_kind: "pend ag (kind i) = map_of ?xs i" for i
    using assms(2) kinds_differ by (auto simp: table_def pend_def)
  have failed_keys: "fst ` set failed = {kind i | i. pend ag (kind i) = Some False}"
    using keys by (force simp: failed_def pend_kind)
  have "distinct (List.map fst failed)"
  proof -
    have "List.map fst failed = List.map kind (List.map fst (List.filter (\<lambda>x. \<not> snd x) ?xs))"
      by (auto simp: failed_def)
    moreover have "distinct (List.map fst (List.filter (\<lambda>x. \<not> snd x) ?xs))" using keys by (rule distinct_map_filter)
    ultimately show ?thesis using inj by (simp add: distinct_map comp_inj_on inj_on_subset [of kind UNIV])
  qed
  moreover have out: "ag_outcomes ?ag = ag_outcomes ag @ failed"
    by (auto simp: emptied_def failed_def)
  then have settled: "settled_ones ?ag = settled_ones ag \<union> fst ` set failed"
    by (auto simp: settled_ones_def)
  have pend': "pend ?ag f \<noteq> None \<Longrightarrow> pend ?ag f = pend ag f \<and> f \<notin> fst ` set failed" for f
    using assms(2) kinds_differ by (auto simp: failed_keys pend_def emptied_def split: future.splits if_splits)
  have new: "f \<notin> settled_ones ag \<and> f \<in> used" if "f \<in> fst ` set failed" for f
    using that assms(1) by (auto simp: failed_keys futures_ok_def)
  moreover have "distinct (List.map fst (ag_outcomes ag))" using assms(1) by (simp add: futures_ok_def)
  ultimately have "distinct (List.map fst (ag_outcomes ?ag))"
    unfolding out by (auto simp: settled_ones_def)
  moreover have "distinct (List.map fst (ag_requests ?ag))" "distinct (List.map fst (ag_tasks ?ag))"
    using assms(1) by (simp_all add: emptied_def futures_ok_def)
  moreover have "pend ?ag f = Some False \<longrightarrow> f \<notin> settled_ones ?ag" for f
  proof
    assume "pend ?ag f = Some False"
    then have "pend ag f = Some False" "f \<notin> fst ` set failed" using pend' [of f] by simp_all
    then show "f \<notin> settled_ones ?ag" using assms(1) by (simp add: settled futures_ok_def)
  qed
  moreover have "pend ?ag f \<noteq> None \<or> f \<in> settled_ones ?ag \<longrightarrow> f \<in> used" for f
    using pend' [of f] new [of f] assms(1) unfolding settled futures_ok_def by (metis UnE)
  ultimately show ?thesis by (simp add: futures_ok_def)
qed

lemma futures_ok_fail_pending:
  assumes "futures_ok used ag"
  shows "futures_ok used (fail_pending ag)"
proof -
  let ?ag1 = "emptied Request (fail_all Request ConnectionLost (table Request ag) ag)"
  have "futures_ok used (emptied TaskOf (fail_all TaskOf ConnectionLost (table TaskOf ?ag1) ?ag1))"
    by (intro futures_ok_fail_all assms) simp_all
  moreover have "fail_pending ag = emptied TaskOf (fail_all TaskOf ConnectionLost (table TaskOf ?ag1) ?ag1)"
    using kinds_differ by (auto simp: fail_pending_def emptied_def table_def Let_def)
  ultimately show ?thesis by simp
qed

lemma pop_named [simp]: "pop (Request i) ag = pop_request i ag" "pop (TaskOf i) ag = pop_task i ag"
  by (simp_all add: pop_def)

lemma futures_ok_request:
  assumes "futures_ok used ag" "map_of (ag_requests ag) i = Some done"
  shows "futures_ok used (settle (Request i) done x (pop_request i ag))" "futures_ok used (pop_request i ag)"
  using futures_ok_settle [OF assms(1), of "Request i" "done" x] futures_ok_pop [OF assms(1), of "Request i"] assms(2)
  by (simp_all add: pend_def)

lemma futures_ok_task:
  assumes "futures_ok used ag" "map_of (ag_tasks ag) i = Some done"
  shows "futures_ok used (settle (TaskOf i) done x (pop_task i ag))" "futures_ok used (pop_task i ag)"
  using futures_ok_settle [OF assms(1), of "TaskOf i" "done" x] futures_ok_pop [OF assms(1), of "TaskOf i"] assms(2)
  by (simp_all add: pend_def)

lemma awaited_pending: "awaited m ag = Some (i, done) \<Longrightarrow> map_of (ag_requests ag) i = Some done"
  by (auto simp: awaited_def split: option.splits)

lemma futures_ok_hear_answer:
  assumes "futures_ok used ag" "map_of (ag_requests ag) i = Some done"
  shows "futures_ok used (snd (hear_answer gc m i done ag))"
  using futures_ok_request [OF assms]
  by (cases "done") (auto simp: hear_answer_def Let_def split: sum.split if_splits)

lemma futures_ok_hear_update:
  assumes "futures_ok used ag"
  shows "futures_ok used (snd (hear_update gc t ag))"
proof (cases "map_of (ag_tasks ag) (tk_task_id t)")
  case None
  then show ?thesis using assms by (simp add: hear_update_def)
next
  case (Some "done")
  then show ?thesis
    using assms futures_ok_task [OF assms Some]
    by (auto simp: hear_update_def Let_def split: task_status.split sum.split)
qed

lemma futures_ok_fail_request: "futures_ok used ag \<Longrightarrow> futures_ok used (fail_request m ag)"
  by (auto simp: fail_request_def futures_ok_request dest: awaited_pending split: option.split)

lemma futures_ok_fail_named: "futures_ok used ag \<Longrightarrow> futures_ok used (fail_named content i ag)"
  by (auto simp: fail_named_def futures_ok_task split: option.split)

lemma hear_error_cases:
  "snd (hear_error m ag) \<in> {fail_request m ag, emptied TaskOf (fail_all TaskOf (Told (ms_content m))
      (table TaskOf (fail_request m ag)) (fail_request m ag))} \<union> range (\<lambda>i. fail_named (ms_content m) i (fail_request m ag))"
  using kinds_differ by (auto simp: hear_error_def Let_def emptied_def table_def split: json.split)

lemma futures_ok_hear_error:
  assumes "futures_ok used ag"
  shows "futures_ok used (snd (hear_error m ag))"
proof -
  have f: "futures_ok used (fail_request m ag)" by (rule futures_ok_fail_request [OF assms])
  have "futures_ok used (emptied TaskOf (fail_all TaskOf e (table TaskOf (fail_request m ag)) (fail_request m ag)))" for e
    by (rule futures_ok_fail_all [OF f]) simp
  with f futures_ok_fail_named [OF f] hear_error_cases [of m ag] show ?thesis by auto
qed

lemma hear_cases:
  "snd (snd (hear gc tk m ag)) \<in> {ag, snd (hear_error m ag)} \<union> range (\<lambda>t. snd (hear_update gc t ag)) \<union>
     {snd (hear_answer gc m i done ag) | i done. map_of (ag_requests ag) i = Some done}"
proof (cases "ms_type m \<in> set answer_types \<and> awaited m ag \<noteq> None")
  case True
  then obtain i d where a: "ms_type m \<in> set answer_types" "awaited m ag = Some (i, d)" by auto
  from awaited_pending [OF a(2)] a show ?thesis by (auto simp: hear_def case_prod_beta)
next
  case False
  then have "hear gc tk m ag = (case ms_type m of
             MTaskAssign \<Rightarrow>
               (case task_from_dict (at_id tk) (at_now tk) (ms_content m) of
                  Inl e \<Rightarrow> (Some (BadTask e), [], ag) | Inr t \<Rightarrow> (None, [StartTask t], ag))
           | MTaskUpdate \<Rightarrow>
               (case task_from_dict (at_id tk) (at_now tk) (ms_content m) of
                  Inl e \<Rightarrow> (Some (BadTask e), [], ag)
                | Inr t \<Rightarrow> (let (e, ag') = hear_update gc t ag in (e, [], ag')))
           | MRequest \<Rightarrow>
               (case open_text gc ag (ms_content m) of
                  Inl e \<Rightarrow> (Some e, [], ag)
                | Inr v \<Rightarrow> (None, if gc_request gc = None then [] else [StartReply (m\<lparr>ms_content := v\<rparr>)], ag))
           | MMessage \<Rightarrow>
               (case unwrap_incoming gc ag (ms_content m) of
                  Inl e \<Rightarrow> (Some e, [], ag)
                | Inr v \<Rightarrow>
                    (case gc_message gc of
                       None \<Rightarrow> (None, [], ag)
                     | Some handler \<Rightarrow> (handler (m\<lparr>ms_content := v\<rparr>), [CallHandler (m\<lparr>ms_content := v\<rparr>)], ag)))
           | MError \<Rightarrow> (let (e, ag') = hear_error m ag in (e, [], ag'))
           | _ \<Rightarrow> (None, [], ag))"
    unfolding hear_def by (auto split: option.split bool.split)
  then show ?thesis
    by (auto simp: case_prod_beta split: message_type.split sum.split option.split)
qed

lemma futures_ok_hear:
  assumes "futures_ok used ag"
  shows "futures_ok used (snd (snd (hear gc tk m ag)))"
  using hear_cases [of gc tk m ag] assms futures_ok_hear_error [OF assms] futures_ok_hear_update [OF assms]
    futures_ok_hear_answer [OF assms] by auto

lemma futures_ok_expire:
  assumes "futures_ok used ag"
  shows "futures_ok used (expire f ag)"
proof -
  have d: "map_of xs i \<noteq> None \<Longrightarrow> distinct (List.map fst xs) \<Longrightarrow> distinct (List.map fst (dict_set i True xs))" for i and xs :: "(string \<times> bool) list"
    by (simp add: distinct_update)
  have "pend (expire f ag) g = (if g = f \<and> pend ag f \<noteq> None then Some True else pend ag g)" for g
    by (cases f; cases g) (auto simp: expire_def pend_def update_conv')
  moreover have "ag_outcomes (expire f ag) = ag_outcomes ag" by (cases f) (simp_all add: expire_def)
  moreover have "distinct (List.map fst (ag_requests (expire f ag)))" "distinct (List.map fst (ag_tasks (expire f ag)))"
    using assms by (cases f; auto simp: expire_def futures_ok_def distinct_update)+
  ultimately show ?thesis using assms by (auto simp: futures_ok_def settled_ones_def split: if_splits)
qed

lemma give_up_pop: "give_up f ag = pop f ag"
  by (simp add: give_up_def pop_def)

text \<open>Opening a future under an identifier that was not used before.\<close>

lemma futures_ok_open:
  assumes "futures_ok used ag" "f \<notin> used" "waits_of ag' = waits_of (case f of Request i \<Rightarrow> await_request i ag | TaskOf i \<Rightarrow> await_task i ag)"
  shows "futures_ok (insert f used) ag'"
proof -
  let ?ag = "case f of Request i \<Rightarrow> await_request i ag | TaskOf i \<Rightarrow> await_task i ag"
  have "pend ?ag g = (if g = f then Some False else pend ag g)" for g
    by (cases f; cases g) (auto simp: await_request_def await_task_def pend_def update_conv')
  moreover have "ag_outcomes ?ag = ag_outcomes ag" by (cases f) (simp_all add: await_request_def await_task_def)
  moreover have "distinct (List.map fst (ag_requests ?ag))" "distinct (List.map fst (ag_tasks ?ag))"
    using assms(1) by (cases f; simp add: await_request_def await_task_def futures_ok_def distinct_update)+
  ultimately have "futures_ok (insert f used) ?ag"
    using assms(1,2) by (auto simp: futures_ok_def settled_ones_def)
  then show ?thesis using futures_ok_waits [OF assms(3)] by simp
qed

lemma futures_ok_more: "futures_ok used ag \<Longrightarrow> futures_ok (insert f used) ag"
  by (auto simp: futures_ok_def)

section \<open>Runs of an agent\<close>

datatype agent_op =
    DoSend agent_tick string json "json option" "json option"
  | DoAsk agent_tick string json "json option" "json option"
  | DoWhoIs agent_tick string
  | DoDiscover agent_tick "(string \<times> json) list"
  | DoAdmin agent_tick string "(string \<times> json) list"
  | DoSubmit agent_tick string string string json json json json "json option" "json option"
  | DoHear agent_tick message
  | DoRespond agent_tick message "json option"
  | DoExecute agent_tick agent_tick task "json option" "json option"
  | DoExpire future
  | DoGiveUp future
  | DoLoopEnds

fun agent_step :: "('sk, 'pk, 'rsk, 'rpk) agent_conf \<Rightarrow> agent_op \<Rightarrow> 'rsk agent \<Rightarrow> 'rsk agent" where
  "agent_step gc (DoSend tk to v a1 a2) ag = snd (send_message gc tk to v a1 a2 ag)"
| "agent_step gc (DoAsk tk to v a1 a2) ag = snd (ask gc tk to v a1 a2 ag)"
| "agent_step gc (DoWhoIs tk name) ag = snd (who_is tk name ag)"
| "agent_step gc (DoDiscover tk q) ag = snd (discover tk q ag)"
| "agent_step gc (DoAdmin tk c ps) ag = snd (admin tk c ps ag)"
| "agent_step gc (DoSubmit tk i title assignee v cost parent escrow a1 a2) ag =
     snd (submit_task gc tk i title assignee v cost parent escrow a1 a2 ag)"
| "agent_step gc (DoHear tk m) ag = snd (snd (hear gc tk m ag))"
| "agent_step gc (DoRespond tk m a2) ag = respond_to_request gc tk m a2 ag"
| "agent_step gc (DoExecute tk0 tk t a1 a2) ag = snd (execute_assigned_task gc tk0 tk t a1 a2 ag)"
| "agent_step gc (DoExpire f) ag = expire f ag"
| "agent_step gc (DoGiveUp f) ag = give_up f ag"
| "agent_step gc DoLoopEnds ag = snd (loop_ends ag)"

definition agent_run :: "('sk, 'pk, 'rsk, 'rpk) agent_conf \<Rightarrow> agent_op list \<Rightarrow> 'rsk agent \<Rightarrow> 'rsk agent" where
  "agent_run gc ops ag = fold (agent_step gc) ops ag"

text \<open>The future an operation opens, under the fresh identifier of its frame or task.\<close>

fun opens :: "agent_op \<Rightarrow> future list" where
  "opens (DoAsk tk to v a1 a2) = [Request (at_id tk)]"
| "opens (DoWhoIs tk name) = [Request (at_id tk)]"
| "opens (DoDiscover tk q) = [Request (at_id tk)]"
| "opens (DoAdmin tk c ps) = [Request (at_id tk)]"
| "opens (DoSubmit tk i title assignee v cost parent escrow a1 a2) = [TaskOf i]"
| "opens _ = []"

lemma frame_id [simp]: "ms_id (frame_of tk ty to v r ag) = at_id tk"
  by (simp add: frame_of_def message_new_def str_or_def)

lemma new_task_id [simp]: "tk_task_id (task_new i now a b c v None s x y z u w) = i"
  by (simp add: task_new_def str_or_def)

lemma waits_respond [simp]: "waits_of (respond_to_request gc tk m a2 ag) = waits_of ag"
proof -
  have "waits_of ag' = waits_of ag" if "seal gc tk target a2 v ag = (x, ag')" for target v x ag'
    using waits_seal [of gc tk target a2 v ag] that by simp
  then show ?thesis
    by (auto simp: respond_to_request_def split: option.split sum.split prod.split)
qed

lemma waits_execute [simp]: "waits_of (snd (execute_assigned_task gc tk0 tk t a1 a2 ag)) = waits_of ag"
proof -
  have p: "waits_of ag' = waits_of ag1" if "prepare gc tk target v a1 a2 ag1 = (x, ag')" for target v x ag' ag1
    using waits_prepare [of gc tk target v a1 a2 ag1] that by simp
  have r: "waits_of ag' = waits_of ag1" if "run_assigned gc tk t1 a1 a2 ag1 = (x, t2, ag')" for t1 x t2 ag' ag1
    using that by (auto simp: run_assigned_def split: sum.splits option.splits prod.splits dest: p)
  show ?thesis
  proof (cases "at_alive tk0")
    case True
    obtain x t2 ag2 where e: "run_assigned gc tk (update_status (at_now tk0) Running JNull JNull None t) a1 a2
        (push_frame (task_update_frame tk0 (update_status (at_now tk0) Running JNull JNull None t) ag) ag) = (x, t2, ag2)"
      using prod_cases3 by blast
    show ?thesis using r [OF e] by (simp add: execute_assigned_task_def transmit_alive [OF True] Let_def e)
  qed (simp add: execute_assigned_task_def transmit_def Let_def)
qed

lemma waits_call:
  "waits_of (snd (call tk ty to v ag)) = waits_of (await_request (at_id tk) ag)"
  by (simp add: call_def Let_def)

lemma waits_await: "waits_of ag' = waits_of ag \<Longrightarrow> waits_of (await_request i ag') = waits_of (await_request i ag)"
  "waits_of ag' = waits_of ag \<Longrightarrow> waits_of (await_task i ag') = waits_of (await_task i ag)"
  by (simp_all add: waits_of_def await_request_def await_task_def)

lemma waits_ask:
  "waits_of (snd (ask gc tk to v a1 a2 ag)) \<in> {waits_of ag, waits_of (await_request (at_id tk) ag)}"
proof -
  obtain x ag' where e: "prepare gc tk to v a1 a2 ag = (x, ag')" by fastforce
  with waits_prepare [of gc tk to v a1 a2 ag] have w: "waits_of ag' = waits_of ag" by simp
  then show ?thesis using waits_await(1) [OF w] by (cases x) (simp_all add: ask_def e waits_call)
qed

lemma waits_submit:
  "waits_of (snd (submit_task gc tk i title assignee v cost parent escrow a1 a2 ag))
     \<in> {waits_of ag, waits_of (await_task i ag)}"
proof -
  obtain x ag' where e: "prepare gc tk assignee v a1 a2 ag = (x, ag')" by fastforce
  with waits_prepare [of gc tk assignee v a1 a2 ag] have w: "waits_of ag' = waits_of ag" by simp
  then show ?thesis using waits_await(2) [OF w] by (cases x) (simp_all add: submit_task_def e Let_def)
qed

lemma waits_send: "waits_of (snd (send_message gc tk to v a1 a2 ag)) = waits_of ag"
proof -
  obtain x ag' where e: "prepare gc tk to v a1 a2 ag = (x, ag')" by fastforce
  with waits_prepare [of gc tk to v a1 a2 ag] have w: "waits_of ag' = waits_of ag" by simp
  then show ?thesis by (cases x) (simp_all add: send_message_def e)
qed

lemma futures_ok_opened:
  assumes "futures_ok used ag" "f \<notin> used"
    and "waits_of ag' \<in> {waits_of ag, waits_of (case f of Request i \<Rightarrow> await_request i ag | TaskOf i \<Rightarrow> await_task i ag)}"
  shows "futures_ok (insert f used) ag'"
  using assms(3) futures_ok_open [OF assms(1,2), of ag'] futures_ok_more [OF assms(1)] futures_ok_waits [of ag' ag] by auto

lemma futures_ok_call:
  "futures_ok used ag \<Longrightarrow> Request (at_id tk) \<notin> used \<Longrightarrow>
   futures_ok (insert (Request (at_id tk)) used) (snd (call tk ty to v ag))"
  by (erule futures_ok_open) (auto simp only: waits_call future.case)

lemma futures_ok_step:
  assumes "futures_ok used ag" "set (opens op) \<inter> used = {}"
  shows "futures_ok (set (opens op) \<union> used) (agent_step gc op ag)"
proof (cases op)
  case (DoSend tk to v a1 a2)
  then show ?thesis using assms(1) futures_ok_waits [OF waits_send [of gc tk to v a1 a2 ag]] by simp
next
  case (DoAsk tk to v a1 a2)
  then show ?thesis using futures_ok_opened [OF assms(1), of "Request (at_id tk)"] assms(2) waits_ask [of gc tk to v a1 a2 ag]
    by simp
next
  case (DoWhoIs tk name)
  then show ?thesis using futures_ok_call [OF assms(1)] assms(2) by (simp add: who_is_def)
next
  case (DoDiscover tk q)
  then show ?thesis using futures_ok_call [OF assms(1)] assms(2) by (simp add: discover_def)
next
  case (DoAdmin tk c ps)
  then show ?thesis using futures_ok_call [OF assms(1)] assms(2) by (simp add: admin_def)
next
  case (DoSubmit tk i title assignee v cost parent escrow a1 a2)
  then show ?thesis using futures_ok_opened [OF assms(1), of "TaskOf i"] assms(2)
      waits_submit [of gc tk i title assignee v cost parent escrow a1 a2 ag] by simp
next
  case (DoHear tk m)
  then show ?thesis using futures_ok_hear [OF assms(1)] by simp
next
  case (DoRespond tk m a2)
  then show ?thesis using assms(1) futures_ok_waits [OF waits_respond [of gc tk m a2 ag]] by simp
next
  case (DoExecute tk0 tk t a1 a2)
  then show ?thesis using assms(1) futures_ok_waits [OF waits_execute [of gc tk0 tk t a1 a2 ag]] by simp
next
  case (DoExpire f)
  then show ?thesis using futures_ok_expire [OF assms(1)] by simp
next
  case (DoGiveUp f)
  then show ?thesis using futures_ok_pop [OF assms(1)] by (simp add: give_up_pop)
next
  case DoLoopEnds
  then show ?thesis using futures_ok_fail_pending [OF assms(1)] by (simp add: loop_ends_def)
qed

lemma futures_ok_run:
  assumes "futures_ok used ag" "distinct (concat (List.map opens ops))" "set (concat (List.map opens ops)) \<inter> used = {}"
  shows "futures_ok (set (concat (List.map opens ops)) \<union> used) (agent_run gc ops ag)"
  using assms
proof (induction ops arbitrary: used ag)
  case (Cons op ops)
  have "futures_ok (set (opens op) \<union> used) (agent_step gc op ag)"
    using Cons.prems by (intro futures_ok_step) auto
  moreover have "set (concat (List.map opens ops)) \<inter> (set (opens op) \<union> used) = {}" "distinct (concat (List.map opens ops))"
    using Cons.prems(2,3) by auto
  ultimately have "futures_ok (set (concat (List.map opens ops)) \<union> (set (opens op) \<union> used)) (agent_run gc ops (agent_step gc op ag))"
    by (intro Cons.IH)
  moreover have "set (concat (List.map opens (op # ops))) \<union> used = set (concat (List.map opens ops)) \<union> (set (opens op) \<union> used)"
    by auto
  ultimately show ?case by (simp add: agent_run_def)
qed (simp add: agent_run_def)

lemma loop_ends_waits: "pend (snd (loop_ends ag)) f = None"
  by (cases f) (simp_all add: loop_ends_def fail_pending_def pend_def Let_def)


lemma hear_MError: "ms_type m = MError \<Longrightarrow> hear gc tk m ag = (fst (hear_error m ag), [], snd (hear_error m ag))"
  by (simp add: hear_def answer_types_def case_prod_beta split: option.split)

lemma fail_request_tasks [simp]: "ag_tasks (fail_request m ag) = ag_tasks ag"
  by (auto simp: fail_request_def split: option.split)

lemma fail_request_settles: "TaskOf j \<in> settled_ones (fail_request m ag) \<longleftrightarrow> TaskOf j \<in> settled_ones ag"
  by (auto simp: fail_request_def settled_ones_def split: option.split)

text \<open>C27: An error of the hub that names a task settles this task's future and no other's: every other task in flight
  keeps waiting, and the loop goes on.\<close>

theorem agent_named_error_is_local:
  assumes "ms_type m = MError" "ms_content m = JObj d" "map_of d ''task_id'' = Some (JStr i)" "i \<noteq> []"
  shows "fst (hear gc tk m ag) = None \<and>
    (let ag' = snd (snd (hear gc tk m ag)) in
     pend ag' (TaskOf i) = None \<and> (pend ag (TaskOf i) = Some False \<longrightarrow> (TaskOf i, Raised (Told (JObj d))) \<in> set (ag_outcomes ag')) \<and>
     (\<forall>j. j \<noteq> i \<longrightarrow> pend ag' (TaskOf j) = pend ag (TaskOf j) \<and> (TaskOf j \<in> settled_ones ag' \<longleftrightarrow> TaskOf j \<in> settled_ones ag)))"
proof -
  let ?f = "fail_request m ag"
  have n: "named_task (JObj d) = JStr i" using assms(3) by (simp add: named_task_def py_get_def)
  have "hear_error m ag = (None, fail_named (JObj d) i ?f)"
    using assms(4) by (simp add: hear_error_def assms(2) n py_true_def)
  moreover have "pend (fail_named c i ?f) (TaskOf j) = (if j = i then None else pend ag (TaskOf j))" for c j
    by (cases "map_of (ag_tasks ag) i") (auto simp: fail_named_def pend_def delete_conv')
  moreover have "j \<noteq> i \<Longrightarrow> TaskOf j \<in> settled_ones (fail_named c i ?f) \<longleftrightarrow> TaskOf j \<in> settled_ones ag" for c j
    using fail_request_settles [of j m ag] by (auto simp: fail_named_def settled_ones_def split: option.split)
  moreover have "pend ag (TaskOf i) = Some False \<Longrightarrow> (TaskOf i, Raised (Told c)) \<in> set (ag_outcomes (fail_named c i ?f))" for c
    by (simp add: fail_named_def pend_def)
  ultimately show ?thesis by (simp add: hear_MError [OF assms(1)] Let_def)
qed

section \<open>Reconnection\<close>

text \<open>A hub that answers a registration with an acceptance.\<close>

definition accepts :: "dial \<Rightarrow> bool" where
  "accepts x = (case x of Answered m \<Rightarrow> ms_type m = MRegistered \<and> (case ms_content m of JObj d \<Rightarrow> True | _ \<Rightarrow> False) | _ \<Rightarrow> False)"

definition keeps_going :: "(string \<Rightarrow> string \<Rightarrow> bool) option \<Rightarrow> bool" where
  "keeps_going failover \<longleftrightarrow> (case failover of None \<Rightarrow> True | Some h \<Rightarrow> \<forall>a b. h a b)"

text \<open>What an attempt that joined no hub leaves alone.\<close>

definition same_plan :: "'rsk agent \<Rightarrow> 'rsk agent \<Rightarrow> bool" where
  "same_plan ag ag' \<longleftrightarrow> ag_hubs ag' = ag_hubs ag \<and> ag_backoff ag' = ag_backoff ag \<and> ag_max_backoff ag' = ag_max_backoff ag"

lemma register_on_NotJoined: "register_on url x ag = (NotJoined, ag') \<Longrightarrow> same_plan ag ag' \<and> \<not> accepts x"
  by (auto simp: register_on_def same_plan_def accepts_def Let_def split: dial.splits message_type.splits json.splits)

lemma rejoin_over_fails:
  assumes "rejoin_over failover world old urls ag = (Inl e, ag')" "keeps_going failover"
  shows "(\<exists>c. e = Denied c) \<or> same_plan ag ag' \<and> (\<forall>url \<in> set urls. \<not> accepts (world url))"
  using assms
proof (induction urls arbitrary: ag)
  case (Cons url urls)
  obtain x ag1 where r: "register_on url (world url) ag = (x, ag1)" by fastforce
  show ?case
  proof (cases x)
    case NotJoined
    with register_on_NotJoined [of url "world url" ag ag1] r have "same_plan ag ag1" "\<not> accepts (world url)" by simp_all
    with Cons.IH [of ag1] Cons.prems r NotJoined show ?thesis by (auto simp: same_plan_def)
  qed (use Cons.prems r in \<open>auto simp: keeps_going_def split: option.splits if_splits\<close>)
qed (simp add: same_plan_def)

lemma reconnect_round_fails:
  assumes "reconnect_round failover world old ag = (None, ag')" "keeps_going failover"
  shows "same_plan ag ag' \<and> (\<forall>url \<in> set (ag_hubs ag). \<not> accepts (world url))"
proof -
  obtain x ag1 where r: "rejoin_over failover world old (ag_hubs ag) ag = (x, ag1)" by fastforce
  show ?thesis
  proof (cases x)
    case (Inl e)
    with rejoin_over_fails [of failover world old "ag_hubs ag" ag e ag1] assms r show ?thesis
      by (auto simp: reconnect_round_def split: agent_exc.splits)
  qed (use assms r in \<open>simp add: reconnect_round_def\<close>)
qed

lemma reconnect_loop_returns:
  assumes "keeps_going failover" "closing k \<or> (\<exists>url \<in> set (ag_hubs ag). accepts (world k url))" "attempt \<le> k"
  shows "\<exists>x ws ag'. reconnect_loop failover world closing old attempt waits ag = Some (x, waits @ ws, ag') \<and>
     length ws \<le> k - attempt \<and> (\<forall>i < length ws. ws ! i = backoff_after (Suc (attempt + i)) ag)"
  using assms(2,3)
proof (induction "k - attempt" arbitrary: attempt waits ag)
  case n: 0
  then have [simp]: "attempt = k" by simp
  show ?case
  proof (cases "closing k")
    case True
    then show ?thesis by (subst reconnect_loop.simps) simp
  next
    case False
    obtain x ag' where r: "reconnect_round failover (world k) old ag = (x, ag')" by fastforce
    have "x \<noteq> None"
    proof
      assume "x = None"
      with reconnect_round_fails [OF r [unfolded \<open>x = None\<close>] assms(1)] False n.prems(1) show False by blast
    qed
    with r False show ?thesis by (subst reconnect_loop.simps) auto
  qed
next
  case n: (Suc n)
  obtain x ag1 where r: "reconnect_round failover (world attempt) old ag = (x, ag1)" by fastforce
  show ?case
  proof (cases "closing attempt \<or> x \<noteq> None")
    case True
    then show ?thesis using r by (subst reconnect_loop.simps) auto
  next
    case False
    with r reconnect_round_fails [of failover "world attempt" old ag ag1] assms(1) have p: "same_plan ag ag1" by simp
    have later: "n = k - Suc attempt" "Suc attempt \<le> k" using n(2) by simp_all
    have "closing k \<or> (\<exists>url \<in> set (ag_hubs ag1). accepts (world k url))" using n.prems(1) p by (simp add: same_plan_def)
    from n(1) [OF later(1) this later(2), of "waits @ [backoff_after (Suc attempt) ag1]"] obtain y ws ag' where
      w: "reconnect_loop failover world closing old (Suc attempt) (waits @ [backoff_after (Suc attempt) ag1]) ag1
            = Some (y, (waits @ [backoff_after (Suc attempt) ag1]) @ ws, ag')" "length ws \<le> k - Suc attempt"
         "\<forall>i < length ws. ws ! i = backoff_after (Suc (Suc attempt + i)) ag1" by blast
    have same: "backoff_after j ag1 = backoff_after j ag" for j using p by (simp add: same_plan_def backoff_after_def)
    have "reconnect_loop failover world closing old attempt waits ag = Some (y, waits @ (backoff_after (Suc attempt) ag # ws), ag')"
      using False r w(1) by (subst reconnect_loop.simps) (simp add: same)
    moreover have "\<forall>i < length (backoff_after (Suc attempt) ag # ws).
        (backoff_after (Suc attempt) ag # ws) ! i = backoff_after (Suc (attempt + i)) ag"
      using w(3) by (simp add: same nth_Cons split: nat.split)
    moreover have "length (backoff_after (Suc attempt) ag # ws) \<le> k - attempt" using w(2) later by simp
    ultimately show ?thesis by blast
  qed
qed

text \<open>C20: If in some round a known hub accepts the agent, or the agent is closed, the reconnection loop returns, after at
  most that many waits; the \<open>i\<close>-th wait doubles from the base up to 32 times it and never exceeds the maximum.  Without
  such a round the loop goes on for ever, which is what it is for.\<close>

theorem agent_reconnects:
  assumes "keeps_going failover" "closing k \<or> (\<exists>url \<in> set (ag_hubs ag). accepts (world k url))" "0 \<le> ag_backoff ag"
  shows "\<exists>x waits ag'. reconnect failover world closing ag = Some (x, waits, ag') \<and> length waits \<le> k \<and>
     (\<forall>i < length waits. waits ! i = min (ag_max_backoff ag) (ag_backoff ag * 2 ^ min (Suc i) 5) \<and>
        waits ! i \<le> ag_max_backoff ag \<and> waits ! i \<le> 32 * ag_backoff ag)"
proof -
  from reconnect_loop_returns [where attempt = 0 and old = "ag_hub ag" and waits = "[]" and k = k and closing = closing
      and world = world and failover = failover and ag = ag] assms(1,2) obtain x ws ag' where
    w: "reconnect failover world closing ag = Some (x, ws, ag')" "length ws \<le> k"
       "\<forall>i < length ws. ws ! i = backoff_after (Suc i) ag"
    by (auto simp: reconnect_def)
  have "ag_backoff ag * 2 ^ min j 5 \<le> 32 * ag_backoff ag" for j
  proof -
    have "(2 :: rat) ^ min j 5 \<le> 2 ^ 5" by (rule power_increasing) simp_all
    then have "ag_backoff ag * 2 ^ min j 5 \<le> ag_backoff ag * 2 ^ 5" by (rule mult_left_mono) (rule assms(3))
    then show ?thesis by simp
  qed
  then have "backoff_after j ag \<le> ag_max_backoff ag \<and> backoff_after j ag \<le> 32 * ag_backoff ag" for j
    by (simp add: backoff_after_def min_le_iff_disj)
  with w show ?thesis by (fold backoff_after_def) auto
qed

text \<open>The candidates an agent knows only grow, and keep their order.\<close>

lemma learn_siblings_grows: "\<exists>new. learn_siblings v hubs = hubs @ new"
proof (cases v)
  case (JList vs)
  have "\<exists>new. foldl (\<lambda>hs v. case v of JStr u \<Rightarrow> if u \<noteq> [] \<and> u \<notin> set hs then hs @ [u] else hs | _ \<Rightarrow> hs) hubs vs = hubs @ new"
  proof (induction vs arbitrary: hubs)
    case (Cons v vs)
    have "\<exists>new. (if c then hubs @ [u] else hubs) = hubs @ new" for c u by (cases c) simp_all
    then obtain new where "(case v of JStr u \<Rightarrow> if u \<noteq> [] \<and> u \<notin> set hubs then hubs @ [u] else hubs | _ \<Rightarrow> hubs) = hubs @ new"
      by (cases v) auto
    with Cons.IH [of "hubs @ new"] show ?case by auto
  qed simp
  with JList show ?thesis by (simp add: learn_siblings_def)
qed (simp_all add: learn_siblings_def)

lemma register_on_hubs: "\<exists>new. ag_hubs (snd (register_on url x ag)) = ag_hubs ag @ new"
  using learn_siblings_grows
  by (auto simp: register_on_def take_registration_def Let_def split: dial.split message_type.split json.split)

lemma rejoin_over_hubs: "\<exists>new. ag_hubs (snd (rejoin_over failover world old urls ag)) = ag_hubs ag @ new"
proof (induction urls arbitrary: ag)
  case (Cons url urls)
  obtain x ag1 where r: "register_on url (world url) ag = (x, ag1)" by fastforce
  with register_on_hubs [of url "world url" ag] obtain new where n: "ag_hubs ag1 = ag_hubs ag @ new" by auto
  from Cons.IH [of ag1] obtain new' where "ag_hubs (snd (rejoin_over failover world old urls ag1)) = ag_hubs ag1 @ new'" ..
  with n r show ?case by (cases x) (auto split: option.split)
qed simp

section \<open>Witnesses\<close>

definition toy_agent :: "bool \<Rightarrow> string agent" where
  "toy_agent enc = agent_new ''bob'' ''acme'' None (toy_identity []) ''bob'' [''ws://a'', ''ws://b''] enc
     (Some \<lparr> ep_name = ''p'', ep_rules = [\<lparr> er_name = ''d'', er_action = Drop, er_pattern = None, er_field = Some ''ssn'',
        er_replacement = [], er_to_orgs = [''*''] \<rparr>] \<rparr>) True 1 15"

definition toy_agent_conf :: "(string, string, string, string) agent_conf" where
  "toy_agent_conf = \<lparr> gc_rt = toy_runtime, gc_lib = toy_crypto, gc_rx = \<lparr> rx_search = (\<lambda>p. None), rx_subn = (\<lambda>p r t. (t, 0)) \<rparr>,
     gc_schemas = default_schemas, gc_message = None, gc_request = Some (\<lambda>m. Inr (ms_content m)), gc_task = None, gc_failover = None,
     gc_says = (\<lambda>e. ''refused''), gc_summary = (\<lambda>t q. []), gc_failure = (\<lambda>t e. []) \<rparr>"

definition toy_agent_tick :: "string \<Rightarrow> agent_tick" where
  "toy_agent_tick i = \<lparr> at_now = 1, at_id = i, at_draw = (''k'', ''n'', ''r''), at_alive = True \<rparr>"

lemma toy_seal:
  "\<exists>e a'. seal toy_agent_conf (toy_agent_tick ''m'') ''globex/bob'' (Some (JObj [(''public_key'', JStr ''bob'')])) JNull (toy_agent True)
     = (Inr (JStr e), a')"
proof -
  obtain e where "encrypt_for toy_crypto ''k'' ''n'' ''r'' ''bob'' (ser (default_format toy_runtime) JNull) = Some e"
    by (auto simp: encrypt_for_Some toy_crypto_def)
  then show ?thesis
    by (simp add: seal_def toy_agent_def agent_new_def fetch_public_key_def py_get_def py_true_def encrypt_content_def Let_def
        toy_agent_tick_def toy_agent_conf_def plaintext_of_def)
qed




definition toy_error :: message where
  "toy_error = message_new ''e'' 1 MError ''hub'' None (JObj [(''task_id'', JStr ''t1'')]) None None JNull ''intermesh/v1'' None"

theorem agent_named_error_is_local_witness:
  "pend (snd (snd (hear toy_agent_conf (toy_agent_tick ''x'') toy_error (await_task ''t2'' (await_task ''t1'' (toy_agent True))))))
     (TaskOf ''t2'') = Some False"
proof -
  let ?a = "await_task ''t2'' (await_task ''t1'' (toy_agent True))"
  have e: "ms_type toy_error = MError" "ms_content toy_error = JObj [(''task_id'', JStr ''t1'')]"
    by (simp_all add: toy_error_def message_new_def)
  have "pend ?a (TaskOf ''t2'') = Some False" by (simp add: pend_def await_task_def update_conv')
  with agent_named_error_is_local [OF e, of "''t1''" toy_agent_conf "toy_agent_tick ''x''" ?a] show ?thesis by (simp add: Let_def)
qed

definition toy_registered :: message where
  "toy_registered = message_new ''e'' 1 MRegistered ''hub'' None (JObj [(''qualified_name'', JStr ''acme/bob'')]) None None JNull
     ''intermesh/v1'' None"

theorem agent_reconnects_witness:
  "\<exists>x waits ag'. reconnect None (\<lambda>n url. if n = 3 \<and> url = ''ws://b'' then Answered toy_registered else Unreachable) (\<lambda>n. False) (toy_agent True)
     = Some (x, waits, ag') \<and> length waits \<le> 3 \<and> (\<forall>w \<in> set waits. w \<le> 15)"
proof -
  let ?w = "\<lambda>n url. if n = (3 :: nat) \<and> url = ''ws://b'' then Answered toy_registered else Unreachable"
  have a: "accepts (Answered toy_registered)" by (simp add: accepts_def toy_registered_def message_new_def)
  have "False \<or> (\<exists>url \<in> set (ag_hubs (toy_agent True)). accepts (?w 3 url))" using a by (simp add: toy_agent_def agent_new_def)
  moreover have "keeps_going None" "0 \<le> ag_backoff (toy_agent True)" "ag_max_backoff (toy_agent True) = 15"
    by (simp_all add: keeps_going_def toy_agent_def agent_new_def)
  ultimately show ?thesis
    using agent_reconnects [where failover = None and k = 3 and closing = "\<lambda>n. False" and world = ?w and ag = "toy_agent True"]
    by (fastforce simp: in_set_conv_nth)
qed

text \<open>A blob that looks encrypted and that no key of the agent opens.\<close>

lemma toy_closed: "\<exists>v. closed_to toy_agent_conf (toy_agent False) v"
proof -
  obtain e where e: "encrypt_for toy_crypto ''k'' ''n'' ''r'' ''bob'' ''hello'' = Some e"
    by (auto simp: encrypt_for_Some toy_crypto_def)
  with envelope_opens [OF e toy_crypto_ok(2,1)] have "closed_to toy_agent_conf (toy_agent False) (JStr e)"
    by (simp add: closed_to_def toy_agent_def agent_new_def)
  then show ?thesis ..
qed

theorem agent_refuses_closed_task_witness:
  "\<exists>t m1 m2 ag'. execute_assigned_task toy_agent_conf (toy_agent_tick ''u'') (toy_agent_tick ''v'') t None None (toy_agent False) = (None, ag') \<and>
     ag_sent ag' = [m1, m2] \<and> (\<exists>d. ms_content m2 = JObj d \<and> map_of d ''status'' = Some (JStr ''failed''))"
proof -
  from toy_closed obtain v where v: "closed_to toy_agent_conf (toy_agent False) (tk_input (toy_task\<lparr>tk_input := v\<rparr>))" by auto
  have "tk_summary (toy_task\<lparr>tk_input := v\<rparr>) = None" by (simp add: toy_task_def task_new_def)
  from agent_refuses_closed_task [OF v _ _ this, of "toy_agent_tick ''u''" "toy_agent_tick ''v''" None None] show ?thesis
    by (fastforce simp: toy_agent_tick_def toy_agent_def agent_new_def task_to_dict_def update_status_def task_status_value_def)
qed

section \<open>Where the code falls short\<close>

lemma decrypt_push [simp]: "decrypt_content gc (push_frame m ag) s = decrypt_content gc ag s"
  by (simp add: decrypt_content_def)

lemma unwrap_push [simp]: "unwrap_incoming gc (push_frame m ag) v = unwrap_incoming gc ag v"
  by (simp add: unwrap_incoming_def cong: json.case_cong)

text \<open>A message that the agent cannot open ends the loop that listens: any agent whose message reaches this one can take it
  off the hub, and everything the agent waits for fails.\<close>

theorem unreadable_message_ends_the_loop:
  assumes "ms_type m = MMessage" "closed_to gc ag (ms_content m)"
  shows "hear gc tk m ag = (Some Mismatch, [], ag)"
  using assms(1) unwrap_closed [OF assms(2)] by (simp add: hear_def answer_types_def split: option.split)

text \<open>An answer that cannot be opened: its future was taken out before, so that not even the end of the loop settles it.\<close>

theorem unreadable_answer_is_lost:
  assumes "map_of (ag_requests ag) i = Some False" "ag_encrypt ag" "closed_to gc ag (ms_content m)" "ms_type m = MResponse"
    and "futures_ok used ag"
  shows "fst (hear_answer gc m i False ag) = Some Mismatch \<and>
    Request i \<notin> settled_ones (snd (loop_ends (snd (hear_answer gc m i False ag))))"
proof -
  have c: "open_text gc (pop_request i ag) (ms_content m) = Inl Mismatch"
    using assms(2,3) by (auto simp: closed_to_def open_text_def decrypt_content_def pop_request_def split: json.splits)
  then have h: "hear_answer gc m i False ag = (Some Mismatch, pop_request i ag)"
    using assms(4) by (simp add: hear_answer_def Let_def)
  have "Request i \<notin> settled_ones ag" using assms(1,5) by (auto simp: futures_ok_def pend_def)
  then show ?thesis
    by (auto simp: h loop_ends_def fail_pending_def Let_def settled_ones_def AList.delete_eq)
qed

text \<open>With encryption switched off, a request's ciphertext is handed to the handler as data: only messages and tasks are
  checked.\<close>

theorem closed_request_reaches_the_handler:
  assumes "ms_type m = MRequest" "\<not> ag_encrypt ag" "gc_request gc \<noteq> None"
  shows "hear gc tk m ag = (None, [StartReply m], ag)"
  using assms by (simp add: hear_def answer_types_def open_text_def split: option.split)

text \<open>Encryption is on, and the key of the target is not known: the content leaves in clear, without an error.\<close>

theorem without_a_key_in_clear:
  assumes "ag_encrypt ag" "map_of (ag_keys ag) target = None"
  shows "seal gc tk target None content ag = (Inr content, ag)"
  using assms by (simp add: seal_def fetch_public_key_def)

text \<open>The text of a handler's exception goes into the report as it is, whatever the egress policy says.\<close>

theorem failure_text_is_not_filtered:
  assumes "at_alive tk0" "at_alive tk" "unwrap_incoming gc ag (tk_input t) = Inr input" "gc_task gc = Some handler"
    and "handler input (update_status (at_now tk0) Running JNull JNull None t) = (Inl e, t')"
  shows "\<exists>m1 m2 ag'. execute_assigned_task gc tk0 tk t a1 a2 ag = (None, ag') \<and> ag_sent ag' = ag_sent ag @ [m1, m2] \<and>
     (\<exists>d. ms_content m2 = JObj d \<and> map_of d ''error_message'' = Some (JStr (gc_says gc e)))"
proof -
  let ?t1 = "update_status (at_now tk0) Running JNull JNull None t"
  have i: "tk_input ?t1 = tk_input t" by (simp add: update_status_def)
  show ?thesis
    using assms(3)
    by (simp add: execute_assigned_task_def Let_def transmit_alive [OF assms(1)] transmit_alive [OF assms(2)] run_assigned_def i
        assms(4,5) finished_task_def task_update_frame_def frame_of_def message_new_def task_to_dict_def)
      (simp add: update_status_def)
qed

text \<open>A text that is JSON itself arrives as what it denotes.\<close>

theorem text_payload_changes_type:
  assumes "encrypt_content gc tk (JStr pem) (JStr ''42'') = Inr v" "gc_lib gc' = gc_lib gc"
    and "key_pair (gc_lib gc) (ag_sk b) pem" "aes_ok (gc_lib gc)" "ag_encrypt b"
  shows "unwrap_incoming gc' b v = Inr (JInt 42)"
proof -
  from assms(1) obtain e where e: "v = JStr e"
    "encrypt_for (gc_lib gc) (fst (at_draw tk)) (fst (snd (at_draw tk))) (snd (snd (at_draw tk))) pem ''42'' = Some e"
    by (auto simp: encrypt_content_Inr plaintext_of_def)
  have "loads ''42'' = Some (JInt 42)" by code_simp
  with envelope_opens [OF e(2) assms(3,4)] e(1) assms(2,5) show ?thesis
    by (simp add: unwrap_incoming_def decrypt_content_def read_json_text_def)
qed

text \<open>An error that answers one request and names no task fails every task in flight as well.\<close>

theorem answered_error_fails_all_tasks:
  assumes "ms_type m = MError" "ms_content m = JStr s" "awaited m ag = Some (i, False)" "i \<noteq> []"
    and "map_of (ag_tasks ag) j = Some False"
  shows "(TaskOf j, Raised (Told (JStr s))) \<in> set (ag_outcomes (snd (snd (hear gc tk m ag))))"
proof -
  have "(j, False) \<in> set (ag_tasks ag)" using assms(5) by (rule map_of_SomeD)
  then have "(TaskOf j, Raised (Told (JStr s))) \<in> set (ag_outcomes (snd (hear_error m ag)))"
    by (force simp: hear_error_def assms(2) named_task_def py_true_def Let_def)
  then show ?thesis by (simp add: hear_MError [OF assms(1)])
qed

text \<open>A hub that answers a registration with something else: \<open>connect\<close> returns as if it had joined, without a connection.\<close>

theorem connect_without_a_connection:
  assumes "ag_hubs ag = [url]" "world url = Answered m" "ms_type m = MAck" "\<not> ag_connected ag"
  shows "\<exists>ag'. connect world ag = (Inr url, ag') \<and> \<not> ag_connected ag'"
  using assms by (simp add: connect_def register_on_def)

text \<open>One time-out of \<open>who_is\<close> and the schema of the target is taken to be unknown for good.\<close>

theorem missed_schema_is_remembered:
  assumes "map_of (ag_target_schemas ag) name = None"
  shows "fst (fetch_target_schema name (Some answer) (snd (fetch_target_schema name None ag))) = JNull"
  using assms by (simp add: fetch_target_schema_def Let_def update_conv')

text \<open>A refusal ends the reconnection for good, although the hub may accept the agent later.\<close>

theorem refusal_ends_reconnection:
  assumes "ag_hubs ag = url # urls" "world 0 url = Answered m" "ms_type m = MError" "\<not> closing 0"
  shows "reconnect failover world closing ag = Some (Inl (Denied (ms_content m)), [], ag)"
  unfolding reconnect_def using assms
  by (subst reconnect_loop.simps) (simp add: reconnect_round_def register_on_def)

end
