(* ===== verification/Bridge.thy ===== *)
theory Bridge
  imports AgentSafety
begin

text \<open>
  \<open>bridge.py\<close> and \<open>adapters.py\<close>: agents whose work is done by a program, an HTTP service, a function or a chain.  The
  program and the service are parameters: what a process leaves behind when it ends, or that it did not in time; what a
  request to the service gives.  \<open>decode\<close> is the reading of bytes as UTF-8 with replacement.
\<close>

datatype process = TimedOut | Exited int string string

datatype service = Body string | HttpError int string | UrlError string

datatype bridge_error = NoAnswerInTime | ExitCode int string | HttpStatus int string | Unreachable string

definition decode_output :: "string \<Rightarrow> json" where
  "decode_output raw =
     (let text = str_strip raw in
      if text = [] then JObj []
      else (case loads text of Some v \<Rightarrow> v | None \<Rightarrow> JObj [(''output'', JStr text)]))"

definition run_command ::
  "('sk, 'pk) runtime \<Rightarrow> (string \<Rightarrow> string) \<Rightarrow> (string \<Rightarrow> process) \<Rightarrow> json \<Rightarrow> bridge_error + json" where
  "run_command rt decode program payload =
     (case program (utf8_encode (ser (default_format rt) payload)) of
        TimedOut \<Rightarrow> Inl NoAnswerInTime
      | Exited code out err \<Rightarrow>
          if code \<noteq> 0 then
            (let detail = str_strip (decode err) in Inl (ExitCode code (if detail = [] then ''(stderr vide)'' else detail)))
          else Inr (decode_output (decode out)))"

definition post_task ::
  "('sk, 'pk) runtime \<Rightarrow> (string \<Rightarrow> string) \<Rightarrow> (string \<Rightarrow> service) \<Rightarrow> json \<Rightarrow> bridge_error + json" where
  "post_task rt decode site payload =
     (case site (utf8_encode (ser (default_format rt) payload)) of
        Body b \<Rightarrow> Inr (decode_output (decode b))
      | HttpError code reason \<Rightarrow> Inl (HttpStatus code reason)
      | UrlError reason \<Rightarrow> Inl (Unreachable reason))"

text \<open>The handlers: the task itself is not touched.  \<open>says\<close> words the error.\<close>

definition bridge_handler ::
  "(bridge_error \<Rightarrow> string) \<Rightarrow> (json \<Rightarrow> bridge_error + json) \<Rightarrow> json \<Rightarrow> task \<Rightarrow> (agent_exc + json) \<times> task" where
  "bridge_handler says run input t = (case run input of Inl e \<Rightarrow> Inl (HandlerRaised (says e)) | Inr v \<Rightarrow> Inr v, t)"

definition exec_handler ::
  "('sk, 'pk) runtime \<Rightarrow> (string \<Rightarrow> string) \<Rightarrow> (bridge_error \<Rightarrow> string) \<Rightarrow> (string \<Rightarrow> process) \<Rightarrow> json \<Rightarrow> task
    \<Rightarrow> (agent_exc + json) \<times> task" where
  "exec_handler rt decode says program = bridge_handler says (run_command rt decode program)"

definition http_handler ::
  "('sk, 'pk) runtime \<Rightarrow> (string \<Rightarrow> string) \<Rightarrow> (bridge_error \<Rightarrow> string) \<Rightarrow> (string \<Rightarrow> service) \<Rightarrow> json \<Rightarrow> task
    \<Rightarrow> (agent_exc + json) \<times> task" where
  "http_handler rt decode says site = bridge_handler says (post_task rt decode site)"

text \<open>\<open>adapters.py\<close>: a function, and a chain whose result is wrapped; \<open>None\<close> is an object without a method to call.\<close>

definition callable_handler :: "(json \<Rightarrow> agent_exc + json) \<Rightarrow> json \<Rightarrow> task \<Rightarrow> (agent_exc + json) \<times> task" where
  "callable_handler fn input t = (fn input, t)"

definition langchain_handler :: "string \<Rightarrow> (json \<Rightarrow> agent_exc + json) option \<Rightarrow> json \<Rightarrow> task \<Rightarrow> (agent_exc + json) \<times> task" where
  "langchain_handler not_a_chain chain input t =
     (case chain of
        None \<Rightarrow> Inl (HandlerRaised not_a_chain)
      | Some invoke \<Rightarrow> rbind (invoke input) (\<lambda>res. Inr (JObj [(''output'', res), (''adapter'', JStr ''langchain_intermesh_v1'')])), t)"

section \<open>Properties\<close>

text \<open>What a failing or silent program leads to: the reports of the agent, whatever else its state is.\<close>

lemma exec_handler_fails:
  "run_command rt decode program v = Inl e \<Longrightarrow> exec_handler rt decode says program v t = (Inl (HandlerRaised (says e)), t)"
  by (simp add: exec_handler_def bridge_handler_def)

text \<open>A program that ends with another code than zero, or does not answer in time, makes its task fail and nothing
  else: the agent reports the task as running and then as failed with the program's error, and stays as it was.\<close>

theorem bridged_failure_is_reported:
  assumes "gc_task gc = Some (exec_handler (gc_rt gc) decode says program)" "at_alive tk0" "at_alive tk"
    and "unwrap_incoming gc ag (tk_input t) = Inr input"
    and "program (utf8_encode (ser (default_format (gc_rt gc)) input)) = p" "p = TimedOut \<or> (\<exists>code out err. p = Exited code out err \<and> code \<noteq> 0)"
  shows "\<exists>m1 m2 e. execute_assigned_task gc tk0 tk t a1 a2 ag = (None, push_frame m2 (push_frame m1 ag)) \<and>
     run_command (gc_rt gc) decode program input = Inl e \<and>
     (\<exists>d. ms_content m2 = JObj d \<and> map_of d ''status'' = Some (JStr ''failed'') \<and> map_of d ''task_id'' = Some (JStr (tk_task_id t)) \<and>
        map_of d ''error_message'' = Some (JStr (gc_says gc (HandlerRaised (says e)))))"
proof -
  obtain e where e: "run_command (gc_rt gc) decode program input = Inl e"
    using assms(5,6) by (auto simp: run_command_def Let_def)
  let ?t1 = "update_status (at_now tk0) Running JNull JNull None t"
  have i: "tk_input ?t1 = tk_input t" "tk_task_id ?t1 = tk_task_id t" by (simp_all add: update_status_def)
  have "unwrap_incoming gc (push_frame f ag) (tk_input ?t1) = Inr input" for f using assms(4) by (simp add: i)
  moreover define m1 where "m1 = task_update_frame tk0 ?t1 ag"
  moreover define m2 where "m2 = task_update_frame tk
    (finished_task gc tk (Inl (HandlerRaised (says e))) ?t1 (push_frame m1 ag)) (push_frame m1 ag)"
  ultimately have "execute_assigned_task gc tk0 tk t a1 a2 ag = (None, push_frame m2 (push_frame m1 ag))"
    by (simp add: execute_assigned_task_def Let_def transmit_alive [OF assms(2)] transmit_alive [OF assms(3)]
        run_assigned_def assms(1) exec_handler_fails [OF e])
  moreover have "\<exists>d. ms_content m2 = JObj d \<and> map_of d ''status'' = Some (JStr ''failed'') \<and> map_of d ''task_id'' = Some (JStr (tk_task_id t)) \<and>
        map_of d ''error_message'' = Some (JStr (gc_says gc (HandlerRaised (says e))))"
    by (simp add: m2_def finished_task_def task_update_frame_def frame_of_def message_new_def task_to_dict_def update_status_def
        task_status_value_def)
  ultimately show ?thesis using e by blast
qed

theorem bridged_failure_is_reported_witness:
  "\<exists>gc m1 m2. execute_assigned_task (gc :: (string, string, string, string) agent_conf) (toy_agent_tick ''u'') (toy_agent_tick ''v'') toy_task None None
      (toy_agent False) = (None, push_frame m2 (push_frame m1 (toy_agent False))) \<and>
     (\<exists>d. ms_content m2 = JObj d \<and> map_of d ''status'' = Some (JStr ''failed''))"
proof -
  let ?gc = "toy_agent_conf\<lparr>gc_task := Some (exec_handler toy_runtime id (\<lambda>e. ''failed'') (\<lambda>s. Exited 3 [] []))\<rparr>"
  have g: "gc_task ?gc = Some (exec_handler (gc_rt ?gc) id (\<lambda>e. ''failed'') (\<lambda>s. Exited 3 [] []))"
    by (simp add: toy_agent_conf_def)
  have u: "unwrap_incoming ?gc (toy_agent False) (tk_input toy_task) = Inr JNull"
    by (simp add: unwrap_incoming_def toy_agent_def agent_new_def toy_task_def task_new_def looks_encrypted_def)
  from bridged_failure_is_reported [OF g _ _ u refl, of "toy_agent_tick ''u''" "toy_agent_tick ''v''" None None] show ?thesis
    by (fastforce simp: toy_agent_tick_def)
qed

text \<open>A program's answer in JSON comes back as it is, around any white space; other text is wrapped.\<close>

theorem program_answer_is_read:
  assumes "str_strip out = text" "text \<noteq> []"
  shows "run_command rt (\<lambda>b. b) (\<lambda>s. Exited 0 out err) payload =
     Inr (case loads text of Some v \<Rightarrow> v | None \<Rightarrow> JObj [(''output'', JStr text)])"
  using assms by (simp add: run_command_def decode_output_def)

end
