(* ===== verification/Pipeline.thy ===== *)
theory Pipeline
  imports PyValues
begin

text \<open>
  \<open>pipeline.py\<close>: chains of tasks and parallel branches over an orchestrating agent.  The agent is a parameter: what its
  \<open>discover\<close> and its \<open>submit_task\<close> give or raise, by the number of the step (of the branch) that calls them.
\<close>

datatype 'e pipeline_error =
    NoCriterion string
  | NoAgent string
  | NoSteps
  | OddAnswer
  | Passed 'e

record 'e orchestrator =
  oc_discover :: "nat \<Rightarrow> string list \<Rightarrow> string list \<Rightarrow> json \<Rightarrow> 'e + json"
  oc_submit :: "nat \<Rightarrow> string \<Rightarrow> string \<Rightarrow> json \<Rightarrow> rat \<Rightarrow> 'e + json"

record 'e pstep =
  ps_title :: string
  ps_agent :: "string option"
  ps_capabilities :: "string list"
  ps_roles :: "string list"
  ps_metadata :: json
  ps_input :: "(json \<Rightarrow> 'e + json) option"
  ps_timeout :: rat

record step_result =
  sr_title :: string
  sr_agent :: string
  sr_output :: json

definition make_step ::
  "string \<Rightarrow> string option \<Rightarrow> string list \<Rightarrow> string list \<Rightarrow> json \<Rightarrow> (json \<Rightarrow> 'e + json) option \<Rightarrow> rat
    \<Rightarrow> 'e pipeline_error + 'e pstep" where
  "make_step title agent caps roles metadata fn timeout =
     (if agent = None \<and> caps = [] \<and> roles = [] then Inl (NoCriterion title)
      else Inr \<lparr> ps_title = title, ps_agent = agent, ps_capabilities = caps, ps_roles = roles,
                 ps_metadata = py_or metadata (JObj []), ps_input = fn, ps_timeout = timeout \<rparr>)"

definition add_step :: "'e pipeline_error + 'e pstep \<Rightarrow> 'e pstep list \<Rightarrow> 'e pipeline_error + 'e pstep list" where
  "add_step made steps = (case made of Inl e \<Rightarrow> Inl e | Inr s \<Rightarrow> Inr (steps @ [s]))"

text \<open>\<open>found.get("count", 0) == 0\<close> and \<open>found["agents"][0]["name"]\<close>; answers of another shape raise (\<open>OddAnswer\<close>).\<close>

definition nobody :: "(string \<times> json) list \<Rightarrow> bool" where
  "nobody found = (case map_of found ''count'' of
     None \<Rightarrow> True | Some (JInt i) \<Rightarrow> i = 0 | Some (JFloat q) \<Rightarrow> q = 0 | Some (JBool b) \<Rightarrow> \<not> b | Some _ \<Rightarrow> False)"

definition first_name :: "(string \<times> json) list \<Rightarrow> 'e pipeline_error + string" where
  "first_name found = (case map_of found ''agents'' of
     Some (JList (JObj a # rest)) \<Rightarrow> (case map_of a ''name'' of Some (JStr n) \<Rightarrow> Inr n | _ \<Rightarrow> Inl OddAnswer)
   | _ \<Rightarrow> Inl OddAnswer)"

definition chosen :: "string \<Rightarrow> 'e + json \<Rightarrow> 'e pipeline_error + string" where
  "chosen title answer = (case answer of
     Inl e \<Rightarrow> Inl (Passed e)
   | Inr (JObj found) \<Rightarrow> if nobody found then Inl (NoAgent title) else first_name found
   | Inr v \<Rightarrow> Inl OddAnswer)"

definition resolve_agent :: "'e orchestrator \<Rightarrow> nat \<Rightarrow> 'e pstep \<Rightarrow> 'e pipeline_error + string" where
  "resolve_agent oc n s = (case ps_agent s of
     Some a \<Rightarrow> if a \<noteq> [] then Inr a else chosen (ps_title s) (oc_discover oc n (ps_capabilities s) (ps_roles s) (ps_metadata s))
   | None \<Rightarrow> chosen (ps_title s) (oc_discover oc n (ps_capabilities s) (ps_roles s) (ps_metadata s)))"

definition input_of :: "'e pstep \<Rightarrow> json \<Rightarrow> 'e pipeline_error + json" where
  "input_of s v = (case ps_input s of None \<Rightarrow> Inr v | Some f \<Rightarrow> (case f v of Inl e \<Rightarrow> Inl (Passed e) | Inr w \<Rightarrow> Inr w))"

text \<open>The loop of \<open>run\<close>, with the submissions it made: title, agent and payload.\<close>

fun run_steps ::
  "'e orchestrator \<Rightarrow> nat \<Rightarrow> 'e pstep list \<Rightarrow> json \<Rightarrow> step_result list
    \<Rightarrow> ('e pipeline_error + json \<times> step_result list) \<times> (string \<times> string \<times> json) list" where
  "run_steps oc n [] result history = (Inr (result, history), [])"
| "run_steps oc n (s # ss) result history =
     (case resolve_agent oc n s of
        Inl e \<Rightarrow> (Inl e, [])
      | Inr target \<Rightarrow>
          (case input_of s result of
             Inl e \<Rightarrow> (Inl e, [])
           | Inr payload \<Rightarrow>
               (case oc_submit oc n (ps_title s) target payload (ps_timeout s) of
                  Inl e \<Rightarrow> (Inl (Passed e), [(ps_title s, target, payload)])
                | Inr out \<Rightarrow>
                    (let (r, calls) = run_steps oc (Suc n) ss out
                           (history @ [\<lparr> sr_title = ps_title s, sr_agent = target, sr_output = out \<rparr>])
                     in (r, (ps_title s, target, payload) # calls)))))"

definition pipeline_run ::
  "'e orchestrator \<Rightarrow> 'e pstep list \<Rightarrow> json
    \<Rightarrow> ('e pipeline_error + json \<times> step_result list) \<times> (string \<times> string \<times> json) list" where
  "pipeline_run oc steps initial = (if steps = [] then (Inl NoSteps, []) else run_steps oc 0 steps initial [])"

section \<open>Branches\<close>

text \<open>An iterable that can be walked again (a list), or only once (a generator): the second walk finds nothing.\<close>

datatype 'a iterable = Again "'a list" | Once "'a list"

fun first_walk :: "'a iterable \<Rightarrow> 'a list" where
  "first_walk (Again xs) = xs"
| "first_walk (Once xs) = xs"

fun second_walk :: "'a iterable \<Rightarrow> 'a list" where
  "second_walk (Again xs) = xs"
| "second_walk (Once xs) = []"

definition run_branch ::
  "'e orchestrator \<Rightarrow> (string \<times> string list) list \<Rightarrow> (string \<times> string) list \<Rightarrow> rat \<Rightarrow> nat \<Rightarrow> string \<times> json
    \<Rightarrow> 'e pipeline_error + json" where
  "run_branch oc capabilities agents timeout n branch =
     (let (key, payload) = branch;
          target = (case map_of agents key of
             Some a \<Rightarrow> Inr a
           | None \<Rightarrow> chosen key (oc_discover oc n (case map_of capabilities key of None \<Rightarrow> [] | Some cs \<Rightarrow> cs) [] JNull))
      in case target of
           Inl e \<Rightarrow> Inl e
         | Inr a \<Rightarrow> (case oc_submit oc n key a payload timeout of Inl e \<Rightarrow> Inl (Passed e) | Inr v \<Rightarrow> Inr v))"

text \<open>\<open>gather(return_exceptions=True)\<close> keeps the order of the branches; \<open>dict(zip(keys, results))\<close> files them by key.\<close>

definition fan_out ::
  "'e orchestrator \<Rightarrow> (string \<times> json) iterable \<Rightarrow> (string \<times> string list) list \<Rightarrow> (string \<times> string) list \<Rightarrow> rat
    \<Rightarrow> (string \<times> ('e pipeline_error + json)) list" where
  "fan_out oc branches capabilities agents timeout =
     (let keys = List.map fst (first_walk branches);
          todo = second_walk branches;
          results = List.map (\<lambda>n. run_branch oc capabilities agents timeout n (todo ! n)) [0 ..< length todo]
      in fold (\<lambda>(k, r). dict_set k r) (zip keys results) [])"

section \<open>Properties\<close>

text \<open>What a run submitted: step after step, each payload made from the output before; the run ends at the first step
  that fails, and only a run of all steps has an output.\<close>

fun chained ::
  "'e orchestrator \<Rightarrow> nat \<Rightarrow> 'e pstep list \<Rightarrow> json \<Rightarrow> (string \<times> string \<times> json) list \<Rightarrow> step_result list \<Rightarrow> bool" where
  "chained oc n ss v [] hist = (hist = [])"
| "chained oc n [] v (c # cs) hist = False"
| "chained oc n (s # ss) v ((title, target, payload) # cs) hist =
     (title = ps_title s \<and> resolve_agent oc n s = Inr target \<and> input_of s v = Inr payload \<and>
      (case oc_submit oc n title target payload (ps_timeout s) of
         Inl e \<Rightarrow> cs = [] \<and> hist = []
       | Inr out \<Rightarrow> (case hist of [] \<Rightarrow> False
           | h # hs \<Rightarrow> h = \<lparr> sr_title = title, sr_agent = target, sr_output = out \<rparr> \<and> chained oc (Suc n) ss out cs hs)))"

lemma run_steps_chained:
  "run_steps oc n ss v history = (r, calls) \<Longrightarrow>
   \<exists>hist. chained oc n ss v calls hist \<and> length hist \<le> length ss \<and>
     (case r of Inr (out, h) \<Rightarrow> h = history @ hist \<and> length hist = length ss \<and> out = last (v # List.map sr_output hist)
      | Inl e \<Rightarrow> length hist < length ss)"
proof (induction ss arbitrary: n v history r calls)
  case Nil
  then show ?case by (intro exI [of _ "[]"]) auto
next
  case (Cons s ss)
  show ?case
  proof (cases "\<exists>target payload. resolve_agent oc n s = Inr target \<and> input_of s v = Inr payload")
    case False
    with Cons.prems show ?thesis
      by (intro exI [of _ "[]"]) (auto split: sum.splits)
  next
    case True
    then obtain target payload where t: "resolve_agent oc n s = Inr target" "input_of s v = Inr payload" by blast
    show ?thesis
    proof (cases "oc_submit oc n (ps_title s) target payload (ps_timeout s)")
      case (Inl e)
      with Cons.prems t show ?thesis by (intro exI [of _ "[]"]) auto
    next
      case (Inr out)
      let ?h = "\<lparr> sr_title = ps_title s, sr_agent = target, sr_output = out \<rparr>"
      obtain r' calls' where r: "run_steps oc (Suc n) ss out (history @ [?h]) = (r', calls')" by fastforce
      from Cons.IH [OF this] obtain hist where h: "chained oc (Suc n) ss out calls' hist" "length hist \<le> length ss"
        "case r' of Inr (o', h) \<Rightarrow> h = (history @ [?h]) @ hist \<and> length hist = length ss \<and> o' = last (out # List.map sr_output hist)
           | Inl e \<Rightarrow> length hist < length ss" by blast
      have "r = r'" "calls = (ps_title s, target, payload) # calls'" using Cons.prems t Inr r by simp_all
      with h t Inr show ?thesis by (intro exI [of _ "?h # hist"]) (auto split: sum.splits)
    qed
  qed
qed


definition toy_orchestrator :: "nat orchestrator" where
  "toy_orchestrator = \<lparr> oc_discover = (\<lambda>n cs rs m. Inr (JObj [(''count'', JInt 1), (''agents'', JList [JObj [(''name'', JStr ''acme/a'')]])])),
     oc_submit = (\<lambda>n title target v t. if n < 1 then Inr (JList [v]) else Inl n) \<rparr>"

definition toy_step :: "string \<Rightarrow> nat pstep" where
  "toy_step title = \<lparr> ps_title = title, ps_agent = None, ps_capabilities = [''c''], ps_roles = [], ps_metadata = JObj [],
     ps_input = None, ps_timeout = 15 \<rparr>"


text \<open>Branches with keys of their own: each has its own result, whatever happens to the others.\<close>

lemma fold_zip_distinct:
  "distinct ks \<Longrightarrow> length ks = length rs \<Longrightarrow> fst ` set acc \<inter> set ks = {} \<Longrightarrow>
   fold (\<lambda>(k, r). dict_set k r) (zip ks rs) acc = acc @ zip ks rs"
proof (induction ks arbitrary: rs acc)
  case (Cons k ks)
  then obtain r rs' where rs: "rs = r # rs'" by (cases rs) auto
  have "k \<notin> fst ` set acc" using Cons.prems(3) by auto
  then have "dict_set k r acc = acc @ [(k, r)]" by (induction acc) auto
  moreover have "fst ` set (acc @ [(k, r)]) \<inter> set ks = {}" using Cons.prems(1,3) by auto
  ultimately show ?case using Cons.IH [of rs' "acc @ [(k, r)]"] Cons.prems(1,2) by (simp add: rs)
qed simp

theorem fan_out_isolates_branches:
  assumes "distinct (List.map fst bs)" "i < length bs"
  shows "map_of (fan_out oc (Again bs) capabilities agents timeout) (fst (bs ! i))
     = Some (run_branch oc capabilities agents timeout i (bs ! i))"
proof -
  let ?rs = "List.map (\<lambda>n. run_branch oc capabilities agents timeout n (bs ! n)) [0 ..< length bs]"
  have "fan_out oc (Again bs) capabilities agents timeout = zip (List.map fst bs) ?rs"
    using fold_zip_distinct [OF assms(1), of ?rs "[]"] by (simp add: fan_out_def)
  then show ?thesis using map_of_zip_nth [of "List.map fst bs" ?rs i] assms by simp
qed

text \<open>Branches given as a generator: the keys use it up, and no branch is run.\<close>

theorem fan_out_of_a_generator_does_nothing: "fan_out oc (Once bs) capabilities agents timeout = []"
  by (simp add: fan_out_def)

text \<open>A step whose agent is the empty text passes the check of the declaration and is run by any agent that is found.\<close>

theorem step_without_agent_or_criterion:
  "\<exists>s. make_step title (Some []) [] [] JNull None t = Inr s \<and>
     resolve_agent oc n s = chosen title (oc_discover oc n [] [] (JObj []))"
  by (simp add: make_step_def resolve_agent_def py_or_def py_true_def)

end
