(* ===== verification/HubSecret.thy ===== *)
theory HubSecret
  imports Prelude
begin

text \<open>
  \<open>secret.py\<close>: where the hub's signing secret comes from.  The file is its text (\<open>None\<close> while it does not exist);
  access rights, the directory and what is printed are not modelled.  \<open>fresh\<close> is what \<open>token_hex\<close> draws.
\<close>

datatype secret_error = SecretTooShort nat | SecretFileExists

datatype source = FromEnvironment | Ephemeral | FromFile | WrittenToFile | NotWritable

text \<open>What happens to the exclusive creation of the file: another process may have been faster, or the disk refuses.\<close>

datatype creation = Created | Exists "string option" | Fails

definition min_secret_length :: nat where "min_secret_length = 32"

definition read_secret_file :: "string option \<Rightarrow> string option" where
  "read_secret_file file = (case file of
     None \<Rightarrow> None | Some text \<Rightarrow> (let s = str_strip text in if s = [] then None else Some s))"

definition write_secret_file :: "creation \<Rightarrow> string \<Rightarrow> string option \<Rightarrow> string option" where
  "write_secret_file c secret file = (case c of Created \<Rightarrow> Some secret | Exists now \<Rightarrow> now | Fails \<Rightarrow> file)"

definition resolve_hub_secret ::
  "string option \<Rightarrow> bool \<Rightarrow> string \<Rightarrow> creation \<Rightarrow> string option \<Rightarrow> (secret_error + string \<times> source) \<times> string option" where
  "resolve_hub_secret env ephemeral fresh c file =
     (if env \<noteq> None \<and> env \<noteq> Some [] then
        (let s = str_strip (the env)
         in if length s < min_secret_length then (Inl (SecretTooShort (length s)), file) else (Inr (s, FromEnvironment), file))
      else if ephemeral then (Inr (fresh, Ephemeral), file)
      else (case read_secret_file file of
              Some s \<Rightarrow> (Inr (s, FromFile), file)
            | None \<Rightarrow>
                (let file' = write_secret_file c fresh file in
                 case c of
                   Created \<Rightarrow> (Inr (fresh, WrittenToFile), file')
                 | Exists now \<Rightarrow>
                     (case read_secret_file now of
                        Some s \<Rightarrow> (Inr (s, FromFile), file') | None \<Rightarrow> (Inl SecretFileExists, file'))
                 | Fails \<Rightarrow> (Inr (fresh, NotWritable), file'))))"

text \<open>A drawn secret: hexadecimal digits, so nothing to strip.\<close>

definition plain_secret :: "string \<Rightarrow> bool" where
  "plain_secret s \<longleftrightarrow> s \<noteq> [] \<and> str_strip s = s"

text \<open>A hub that wrote its secret or read it from the file finds the same secret at every later start, as long as
  the environment names none: its tokens survive.\<close>

theorem hub_secret_is_stable:
  assumes "resolve_hub_secret env False fresh c file = (Inr (s, src), file')" "src \<in> {FromFile, WrittenToFile}" "plain_secret fresh"
    and "env' = None \<or> env' = Some []"
  shows "resolve_hub_secret env' False fresh' c' file' = (Inr (s, FromFile), file')"
proof -
  have "read_secret_file file' = Some s"
    using assms(1-3)
    by (auto simp: resolve_hub_secret_def write_secret_file_def Let_def plain_secret_def read_secret_file_def
        split: if_splits option.splits creation.splits)
  then show ?thesis using assms(4) by (auto simp: resolve_hub_secret_def)
qed

definition toy_secret :: string where "toy_secret = replicate 64 (CHR ''a'')"

lemma toy_secret_plain: "plain_secret toy_secret"
proof -
  have "str_strip toy_secret = toy_secret" by code_simp
  then show ?thesis by (simp add: plain_secret_def toy_secret_def)
qed

theorem hub_secret_is_stable_witness:
  "resolve_hub_secret (Some []) False ''other'' Fails (Some toy_secret) = (Inr (toy_secret, FromFile), Some toy_secret)"
proof -
  have "resolve_hub_secret None False toy_secret Created None = (Inr (toy_secret, WrittenToFile), Some toy_secret)"
    by (simp add: resolve_hub_secret_def read_secret_file_def write_secret_file_def)
  from hub_secret_is_stable [OF this _ toy_secret_plain, of "Some []"] show ?thesis by simp
qed

text \<open>The length is checked for the environment only: a short secret in the file is taken.\<close>

theorem short_secret_in_the_file_is_taken:
  "resolve_hub_secret None ephemeral fresh c (Some ''abc'') = (Inr (if ephemeral then (fresh, Ephemeral) else (''abc'', FromFile)), Some ''abc'')"
proof -
  have "str_strip ''abc'' = ''abc''" by code_simp
  then show ?thesis by (simp add: resolve_hub_secret_def read_secret_file_def)
qed

text \<open>An empty file stops every later start: it is neither read nor replaced.\<close>

theorem empty_secret_file_is_fatal:
  "resolve_hub_secret None False fresh (Exists (Some [])) (Some []) = (Inl SecretFileExists, Some [])"
  by (simp add: resolve_hub_secret_def read_secret_file_def write_secret_file_def str_strip_def)

section \<open>Several hubs starting on one file\<close>

text \<open>
  The steps of processes that resolve the secret at the same time: reading, drawing, creating the file (empty, and only
  one process can), filling it.  The strings that are drawn differ from process to process.
\<close>

datatype phase = Starting | Drew string | Filling string | Has string | Broke

inductive race_step :: "string option \<times> (nat \<Rightarrow> phase) \<Rightarrow> string option \<times> (nat \<Rightarrow> phase) \<Rightarrow> bool" where
  Found: "ph p = Starting \<Longrightarrow> read_secret_file f = Some s \<Longrightarrow> race_step (f, ph) (f, ph(p := Has s))"
| Draws: "ph p = Starting \<Longrightarrow> read_secret_file f = None \<Longrightarrow> plain_secret s \<Longrightarrow> race_step (f, ph) (f, ph(p := Drew s))"
| Creates: "ph p = Drew s \<Longrightarrow> f = None \<Longrightarrow> race_step (f, ph) (Some [], ph(p := Filling s))"
| Late: "ph p = Drew s \<Longrightarrow> f \<noteq> None \<Longrightarrow> read_secret_file f = Some t \<Longrightarrow> race_step (f, ph) (f, ph(p := Has t))"
| TooLate: "ph p = Drew s \<Longrightarrow> f \<noteq> None \<Longrightarrow> read_secret_file f = None \<Longrightarrow> race_step (f, ph) (f, ph(p := Broke))"
| Fills: "ph p = Filling s \<Longrightarrow> race_step (f, ph) (Some s, ph(p := Has s))"

inductive_cases race_stepE: "race_step x y"

inductive race_steps :: "string option \<times> (nat \<Rightarrow> phase) \<Rightarrow> string option \<times> (nat \<Rightarrow> phase) \<Rightarrow> bool" where
  Here: "race_steps x x"
| Then: "race_steps x y \<Longrightarrow> race_step y z \<Longrightarrow> race_steps x z"

text \<open>The file is filled at most once, and whoever has a secret has the one of the file.\<close>

definition race_ok :: "string option \<times> (nat \<Rightarrow> phase) \<Rightarrow> bool" where
  "race_ok st \<longleftrightarrow> (case st of (f, ph) \<Rightarrow>
     (\<forall>p s. ph p = Has s \<longrightarrow> read_secret_file f = Some s) \<and>
     (\<forall>p s. ph p = Filling s \<longrightarrow> f = Some [] \<and> plain_secret s) \<and>
     (\<forall>p q s t. ph p = Filling s \<longrightarrow> ph q = Filling t \<longrightarrow> p = q) \<and>
     (\<forall>p s. ph p = Drew s \<longrightarrow> plain_secret s))"

lemma read_secret_file_simps [simp]:
  "read_secret_file None = None" "read_secret_file (Some []) = None" "plain_secret s \<Longrightarrow> read_secret_file (Some s) = Some s"
  by (simp_all add: read_secret_file_def plain_secret_def str_strip_def)

lemma race_ok_step: "race_step x y \<Longrightarrow> race_ok x \<Longrightarrow> race_ok y"
proof (induction rule: race_step.induct)
  case (Found ph p f s)
  then show ?case by (auto simp: race_ok_def)
next
  case (Draws ph p f s)
  then show ?case by (auto simp: race_ok_def)
next
  case (Creates ph p s f)
  then have "\<And>q t. ph q \<noteq> Has t" "\<And>q t. ph q \<noteq> Filling t" "plain_secret s"
    by (fastforce simp: race_ok_def)+
  with Creates show ?case by (auto simp: race_ok_def)
next
  case (Late ph p s f t)
  then show ?case by (auto simp: race_ok_def)
next
  case (TooLate ph p s f)
  then show ?case by (auto simp: race_ok_def)
next
  case (Fills ph p s f)
  then have f: "f = Some []" "plain_secret s" by (auto simp: race_ok_def)
  then have "\<And>q t. ph q \<noteq> Has t" using Fills by (fastforce simp: race_ok_def)
  with Fills f show ?case by (auto simp: race_ok_def)
qed

lemma race_ok_steps: "race_steps x y \<Longrightarrow> race_ok x \<Longrightarrow> race_ok y"
  by (induction rule: race_steps.induct) (auto dest: race_ok_step)



text \<open>A hub that arrives between the creation of the file and its filling does not come up.\<close>

theorem a_late_hub_may_break:
  "plain_secret s \<Longrightarrow> race_step (Some [], \<lambda>p. if p = 0 then Filling t else Drew s)
     (Some [], (\<lambda>p. if p = 0 then Filling t else Drew s)(1 := Broke))"
  by (rule TooLate) simp_all

end
