(* ===== verification/Supervision.thy ===== *)
theory Supervision
  imports HubCore
begin

text \<open>
  \<open>health.py\<close>, \<open>metrics.py\<close> and the probes of \<open>hub.py\<close>: the HTTP requests a hub answers on its WebSocket port; and
  \<open>config.py\<close>: the environment file and the settings read from the environment.  The rendering of the uptime with two
  decimals is a parameter.
\<close>

section \<open>Metrics\<close>

record collector =
  mc_start :: rat
  mc_counters :: "(string \<times> int) list"

definition collector_new :: "rat \<Rightarrow> collector" where
  "collector_new now = \<lparr> mc_start = now, mc_counters =
     [(''intermesh_messages_routed_total'', 0), (''intermesh_tasks_submitted_total'', 0), (''nexus_tasks_completed_total'', 0),
      (''nexus_tasks_failed_total'', 0), (''nexus_auth_failures_total'', 0)] \<rparr>"

definition increment :: "string \<Rightarrow> int \<Rightarrow> collector \<Rightarrow> collector" where
  "increment name v c = c\<lparr>mc_counters := dict_set name
     (case map_of (mc_counters c) name of None \<Rightarrow> v | Some n \<Rightarrow> n + v) (mc_counters c)\<rparr>"

definition metric_lines :: "string \<Rightarrow> string \<Rightarrow> string \<Rightarrow> string \<Rightarrow> string list" where
  "metric_lines name kind help value =
     [''# HELP '' @ name @ '' '' @ help, ''# TYPE '' @ name @ '' '' @ kind, name @ '' '' @ value]"

definition prometheus_lines ::
  "('sk, 'pk) runtime \<Rightarrow> (rat \<Rightarrow> string) \<Rightarrow> rat \<Rightarrow> (string \<times> json) list \<Rightarrow> collector \<Rightarrow> string list" where
  "prometheus_lines rt two_decimals now gauges c =
     metric_lines ''intermesh_uptime_seconds'' ''gauge'' ''Duree de fonctionnement du Hub en secondes.'' (two_decimals (now - mc_start c))
     @ concat (List.map (\<lambda>(n, v). metric_lines n ''gauge'' ''Metrique d'etat instantane du Hub.'' (py_str rt v)) gauges)
     @ concat (List.map (\<lambda>(n, v). metric_lines n ''counter'' ''Compteur cumulatif d'evenements.'' (int_str v)) (mc_counters c))"

definition join_lines :: "string list \<Rightarrow> string" where
  "join_lines ls = concat (List.map (\<lambda>l. l @ [char_of (10 :: nat)]) ls)"

definition prometheus_output ::
  "('sk, 'pk) runtime \<Rightarrow> (rat \<Rightarrow> string) \<Rightarrow> rat \<Rightarrow> (string \<times> json) list \<Rightarrow> collector \<Rightarrow> string" where
  "prometheus_output rt two_decimals now gauges c = join_lines (prometheus_lines rt two_decimals now gauges c)"

section \<open>Probes\<close>

record probe =
  pr_status :: nat
  pr_headers :: "(string \<times> string) list"
  pr_body :: string

definition probe_answer :: "nat \<Rightarrow> string \<Rightarrow> string \<Rightarrow> probe" where
  "probe_answer status content_type text =
     (let body = utf8_encode text in
      \<lparr> pr_status = status, pr_headers = [(''Content-Type'', content_type), (''Content-Length'', nat_str (length body)),
          (''Access-Control-Allow-Origin'', ''*'')], pr_body = body \<rparr>)"

definition clean_path :: "string \<Rightarrow> string" where
  "clean_path path = rev (dropWhile (\<lambda>c. c = CHR ''/'') (rev (takeWhile (\<lambda>c. c \<noteq> CHR ''?'') path)))"

definition json_type :: string where "json_type = ''application/json; charset=utf-8''"

definition handle_request ::
  "('sk, 'pk) runtime \<Rightarrow> (rat \<Rightarrow> string) \<Rightarrow> rat \<Rightarrow> bool option \<Rightarrow> (string \<times> json) list \<Rightarrow> collector \<Rightarrow> string \<Rightarrow> probe option" where
  "handle_request rt two_decimals now ready gauges c path =
     (if clean_path path = ''/healthz'' then
        Some (probe_answer 200 json_type (ser (default_format rt) (JObj [(''status'', JStr ''ok''), (''service'', JStr ''nexus-hub'')])))
      else if clean_path path = ''/readyz'' then
        (let is_ready = (case ready of None \<Rightarrow> True | Some b \<Rightarrow> b) in
         Some (probe_answer (if is_ready then 200 else 503) json_type (ser (default_format rt)
           (JObj [(''status'', JStr (if is_ready then ''ready'' else ''unavailable'')), (''ready'', JBool is_ready)]))))
      else if clean_path path = ''/metrics'' then
        Some (probe_answer 200 ''text/plain; version=0.0.4; charset=utf-8'' (prometheus_output rt two_decimals now gauges c))
      else None)"

definition hub_gauges :: "hub \<Rightarrow> (string \<times> json) list" where
  "hub_gauges h =
     [(''intermesh_connected_agents'', JInt (int (length (hb_agents h)))),
      (''intermesh_registered_identities'', JInt (int (length (hb_identities h)))),
      (''intermesh_peered_hubs'', JInt (int (length (hb_peers h)))),
      (''intermesh_observers'', JInt (int (length (hb_observers h))))]"

definition process_request ::
  "('sk, 'pk) runtime \<Rightarrow> (rat \<Rightarrow> string) \<Rightarrow> rat \<Rightarrow> collector \<Rightarrow> string option \<Rightarrow> hub \<Rightarrow> probe option" where
  "process_request rt two_decimals now c path h =
     (case path of None \<Rightarrow> None | Some p \<Rightarrow>
        if p = [] then None else handle_request rt two_decimals now (Some True) (hub_gauges h) c p)"

section \<open>The environment file\<close>

definition strip_quotes :: "string \<Rightarrow> string" where
  "strip_quotes v =
     (let dq = [char_of (34 :: nat)]; sq = [char_of (39 :: nat)] in
      if (str_prefix dq v \<and> str_suffix dq v) \<or> (str_prefix sq v \<and> str_suffix sq v)
      then take (length v - 2) (drop 1 v) else v)"

text \<open>A line of the file: nothing, or a key with its value.\<close>

definition env_entry :: "string \<Rightarrow> (string \<times> string) option" where
  "env_entry raw =
     (let line = str_strip raw in
      if line = [] \<or> hd line = CHR ''#'' \<or> CHR ''='' \<notin> set line then None
      else Some (str_strip (takeWhile (\<lambda>c. c \<noteq> CHR ''='') line),
                 strip_quotes (str_strip (drop 1 (dropWhile (\<lambda>c. c \<noteq> CHR ''='') line)))))"

text \<open>\<open>os.environ\<close> refuses an empty name and zero characters; the exception ends the reading of the file.\<close>

definition environ_takes :: "string \<Rightarrow> string \<Rightarrow> bool" where
  "environ_takes k v \<longleftrightarrow> k \<noteq> [] \<and> char_of (0 :: nat) \<notin> set k \<and> char_of (0 :: nat) \<notin> set v"

fun load_env_lines :: "string list \<Rightarrow> (string \<times> string) list \<Rightarrow> (string \<times> string) list" where
  "load_env_lines [] env = env"
| "load_env_lines (l # ls) env =
     (case env_entry l of
        None \<Rightarrow> load_env_lines ls env
      | Some (k, v) \<Rightarrow>
          if map_of env k \<noteq> None then load_env_lines ls env
          else if environ_takes k v then load_env_lines ls (dict_set k v env)
          else env)"

definition load_env_file :: "string list option \<Rightarrow> (string \<times> string) list \<Rightarrow> (string \<times> string) list" where
  "load_env_file file env = (case file of None \<Rightarrow> env | Some ls \<Rightarrow> load_env_lines ls env)"

section \<open>Settings\<close>

definition text_setting :: "string \<Rightarrow> string \<Rightarrow> (string \<times> string) list \<Rightarrow> string" where
  "text_setting k dflt env = (case map_of env k of None \<Rightarrow> dflt | Some v \<Rightarrow> v)"

definition int_setting :: "string \<Rightarrow> int \<Rightarrow> (string \<times> string) list \<Rightarrow> int" where
  "int_setting k dflt env = (case map_of env k of
     None \<Rightarrow> dflt | Some v \<Rightarrow> (case int_of_text v of None \<Rightarrow> dflt | Some i \<Rightarrow> i))"

definition flag_setting :: "string \<Rightarrow> string \<Rightarrow> (string \<times> string) list \<Rightarrow> bool" where
  "flag_setting k dflt env = (str_lower (text_setting k dflt env) \<in> {''true'', ''1'', ''yes'', ''on''})"

definition hub_port :: "(string \<times> string) list \<Rightarrow> int" where "hub_port env = int_setting ''INTERMESH_HUB_PORT'' 8765 env"
definition hub_host :: "(string \<times> string) list \<Rightarrow> string" where "hub_host env = text_setting ''INTERMESH_HUB_HOST'' ''0.0.0.0'' env"
definition default_org :: "(string \<times> string) list \<Rightarrow> string" where "default_org env = text_setting ''INTERMESH_DEFAULT_ORG'' ''default'' env"
definition default_hub_url :: "(string \<times> string) list \<Rightarrow> string" where
  "default_hub_url env = text_setting ''INTERMESH_HUB_URL'' ''ws://localhost:8765'' env"
definition token_expiry_setting :: "(string \<times> string) list \<Rightarrow> int" where
  "token_expiry_setting env = int_setting ''INTERMESH_TOKEN_EXPIRY'' 3600 env"
definition default_encrypt :: "(string \<times> string) list \<Rightarrow> bool" where
  "default_encrypt env = flag_setting ''INTERMESH_ENCRYPT'' ''true'' env"
definition allow_cross_tenant :: "(string \<times> string) list \<Rightarrow> bool" where
  "allow_cross_tenant env = flag_setting ''INTERMESH_ALLOW_CROSS_TENANT'' ''false'' env"

section \<open>Properties\<close>

text \<open>The environment as a map: what a file adds, as a reference, with the first definition of each name.\<close>

fun first_definitions :: "string list \<Rightarrow> (string \<times> string) list" where
  "first_definitions [] = []"
| "first_definitions (l # ls) = (case env_entry l of None \<Rightarrow> first_definitions ls | Some kv \<Rightarrow> kv # first_definitions ls)"

text \<open>An environment file adds to the environment and never overrides it: after reading it, a name has the value the
  environment gave it, or else its first definition in the file (where all entries are acceptable to the system).\<close>

theorem env_file_never_overrides:
  assumes "\<forall>(k, v) \<in> set (first_definitions ls). environ_takes k v"
  shows "map_of (load_env_file (Some ls) env) k =
     (case map_of env k of Some v \<Rightarrow> Some v | None \<Rightarrow> map_of (first_definitions ls) k)"
proof -
  have "map_of (load_env_lines ls env) k = (case map_of env k of Some v \<Rightarrow> Some v | None \<Rightarrow> map_of (first_definitions ls) k)"
    using assms
  proof (induction ls arbitrary: env)
    case (Cons l ls)
    show ?case
    proof (cases "env_entry l")
      case None
      with Cons show ?thesis by (simp cong: option.case_cong)
    next
      case (Some kv)
      obtain a b where kv: "kv = (a, b)" by (cases kv)
      with Some Cons.prems have "environ_takes a b" by simp
      with Some kv Cons.IH [of env] Cons.IH [of "dict_set a b env"] Cons.prems show ?thesis
        by (cases "k = a"; cases "map_of env a"; cases "map_of env k") (auto simp: update_conv')
    qed
  qed (simp split: option.split)
  then show ?thesis by (simp add: load_env_file_def)
qed

theorem env_file_never_overrides_witness:
  "map_of (load_env_file (Some [''A=1'', ''B=2'']) [(''A'', ''0'')]) ''A'' = Some ''0'' \<and>
   map_of (load_env_file (Some [''A=1'', ''B=2'']) [(''A'', ''0'')]) ''B'' = Some ''2''"
proof -
  have d: "first_definitions [''A=1'', ''B=2''] = [(''A'', ''1''), (''B'', ''2'')]" by code_simp
  have "environ_takes ''A'' ''1''" "environ_takes ''B'' ''2''" by code_simp+
  then have "\<forall>(k, v) \<in> set (first_definitions [''A=1'', ''B=2'']). environ_takes k v" unfolding d by simp
  note all = env_file_never_overrides [OF this, unfolded d]
  show ?thesis unfolding all by simp
qed

text \<open>A line without a name ends the reading: what follows it is not taken.\<close>

theorem nameless_line_hides_the_rest: "load_env_file (Some (''=x'' # ls)) env = env" if "map_of env [] = None"
proof -
  have "env_entry ''=x'' = Some ([], ''x'')" by code_simp
  then show ?thesis using that by (simp add: load_env_file_def environ_takes_def)
qed

text \<open>A misspelt value switches encryption off.\<close>

theorem misspelt_flag_switches_encryption_off: "default_encrypt [(''INTERMESH_ENCRYPT'', ''ture'')] = False"
proof -
  have "str_lower ''ture'' = ''ture''" by code_simp
  then show ?thesis by (simp add: default_encrypt_def flag_setting_def text_setting_def)
qed

text \<open>A hub is always ready, and a path that is no probe is left to the WebSocket.\<close>

lemma hub_always_ready:
  "clean_path p = ''/readyz'' \<Longrightarrow> p \<noteq> [] \<Longrightarrow> map_option pr_status (process_request rt d now c (Some p) h) = Some 200"
  by (simp add: process_request_def handle_request_def probe_answer_def Let_def)

lemma probes_only:
  "clean_path p \<notin> {''/healthz'', ''/readyz'', ''/metrics''} \<Longrightarrow> process_request rt d now c (Some p) h = None"
  by (simp add: process_request_def handle_request_def)

end
