(* ===== verification/Operator.thy ===== *)
theory Operator
  imports Proxy
begin

text \<open>
  The commands of \<open>cli.py\<close> that decide something: \<open>proxy\<close> opens the journal and the approvals an assurance proxy works
  on, \<open>approve\<close> grants an approval for an action found in the journal, \<open>verify\<close> checks a file of evidence.  A command
  ends with an exit code or with an exception; \<open>Foreign\<close> is an action whose method or target is no text, which is
  not followed.  The journal is the text of its file, the file of approvals the JSON document it holds.
\<close>

datatype ending = Exit nat | Uncaught | Foreign

section \<open>Starting a proxy\<close>

text \<open>\<open>ApprovalStore(path)\<close>: what iterating over the document gives; \<open>None\<close> is an exception.\<close>

definition approvals_open :: "('sk, 'pk) runtime \<Rightarrow> json option \<Rightarrow> approvals option" where
  "approvals_open rt file = (case file of
     None \<Rightarrow> Some []
   | Some (JList rows) \<Rightarrow> approvals_load rt rows
   | Some (JObj d) \<Rightarrow> if d = [] then Some [] else None
   | Some (JStr s) \<Rightarrow> if s = [] then Some [] else None
   | Some _ \<Rightarrow> None)"

definition proxy_start ::
  "('sk, 'pk) runtime \<Rightarrow> policy \<Rightarrow> 'sk \<Rightarrow> string \<Rightarrow> string \<Rightarrow> string option \<Rightarrow> json option \<Rightarrow> 'sk proxy option" where
  "proxy_start rt policy key agent org journal file =
     Option.bind (store_open journal) (\<lambda>st.
     map_option (\<lambda>aps. \<lparr> px_policy = policy, px_key = key, px_store = st, px_agent = agent, px_org = org, px_approvals = aps \<rparr>)
       (approvals_open rt file))"

section \<open>\<open>approve\<close>\<close>

definition journal_lines :: "string \<Rightarrow> string list" where
  "journal_lines text = split_lines [] (str_strip (universal_newlines text))"

text \<open>The first record with the identifier: \<open>None\<close> is the \<open>AttributeError\<close> of a line that is JSON and no object.\<close>

fun find_record :: "string \<Rightarrow> string list \<Rightarrow> fields option option" where
  "find_record i [] = Some None"
| "find_record i (l # ls) = (case loads l of
     None \<Rightarrow> find_record i ls
   | Some (JObj d) \<Rightarrow> if py_get d ''action_id'' = JStr i then Some (Some d) else find_record i ls
   | Some _ \<Rightarrow> None)"

definition cli_grant ::
  "('sk, 'pk) runtime \<Rightarrow> string \<Rightarrow> string \<Rightarrow> rat \<Rightarrow> int \<Rightarrow> fields \<Rightarrow> json option \<Rightarrow> ending \<times> json option" where
  "cli_grant rt i who ttl now d file =
     (case py_or (py_get d ''action'') (JObj []) of
        JObj action \<Rightarrow>
          (case approvals_open rt file of
             None \<Rightarrow> (Uncaught, file)
           | Some st \<Rightarrow>
               (case (get_or action ''method'' (JStr []), get_or action ''target'' (JStr [])) of
                  (JStr method, JStr target) \<Rightarrow>
                    (let st' = snd (grant_approval now i method target who (trunc (ttl * 1000)) st)
                     in (case sub_get d ''risk'' ''level'' of None \<Rightarrow> Uncaught | Some v \<Rightarrow> Exit 0,
                         Some (JList (approvals_saved st'))))
                | _ \<Rightarrow> (Foreign, file)))
      | _ \<Rightarrow> (Uncaught, file))"

definition cli_approve ::
  "('sk, 'pk) runtime \<Rightarrow> string option \<Rightarrow> string \<Rightarrow> string \<Rightarrow> rat \<Rightarrow> int \<Rightarrow> json option \<Rightarrow> ending \<times> json option" where
  "cli_approve rt journal i who ttl now file = (case journal of
     None \<Rightarrow> (Exit 2, file)
   | Some text \<Rightarrow>
       (case find_record i (journal_lines text) of
          None \<Rightarrow> (Uncaught, file)
        | Some None \<Rightarrow> (Exit 1, file)
        | Some (Some d) \<Rightarrow>
            (case sub_get d ''execution'' ''status'' of
               None \<Rightarrow> (Uncaught, file)
             | Some status \<Rightarrow>
                 if status \<noteq> JStr ''pending_approval'' then (Exit 1, file)
                 else cli_grant rt i who ttl now d file)))"

section \<open>\<open>verify\<close>\<close>

definition evidence_of_text :: "string \<Rightarrow> json list option" where
  "evidence_of_text text =
     (let s = str_strip (universal_newlines text) in
      if str_prefix ''['' s then (case loads s of Some (JList vs) \<Rightarrow> Some vs | _ \<Rightarrow> None)
      else if CHR 0x0A \<in> set s \<and> \<not> str_prefix [CHR ''{'', CHR 0x0A] s
      then those (List.map loads (List.filter (\<lambda>l. str_strip l \<noteq> []) (split_lines [] s)))
      else map_option (\<lambda>v. [v]) (loads s))"

text \<open>\<open>None\<close>: no record at all (an \<open>IndexError\<close>), or an exception of the verification.\<close>

definition report_on :: "('sk, 'pk) runtime \<Rightarrow> json list \<Rightarrow> report option" where
  "report_on rt vs = (case vs of
     [] \<Rightarrow> None | [v] \<Rightarrow> verify_evidence rt None v | _ \<Rightarrow> verify_chain rt vs)"

definition cli_verify :: "('sk, 'pk) runtime \<Rightarrow> bool \<Rightarrow> string option \<Rightarrow> ending" where
  "cli_verify rt as_json file = (case file of
     None \<Rightarrow> Exit 2
   | Some text \<Rightarrow>
       (case evidence_of_text text of
          None \<Rightarrow> Exit 2
        | Some vs \<Rightarrow>
            (case report_on rt vs of
               None \<Rightarrow> Uncaught
             | Some r \<Rightarrow>
                 if \<not> as_json \<and> py_true (rp_decision r) \<and> opt_of_json (rp_decision r) = None then Uncaught
                 else Exit (if report_valid r then 0 else 1))))"

section \<open>The text of a journal\<close>

abbreviation line_of :: "('sk, 'pk) runtime \<Rightarrow> fields \<Rightarrow> string" where
  "line_of rt d \<equiv> ser (readable_format (float_repr rt)) (JObj d)"

abbreviation text_of_records :: "('sk, 'pk) runtime \<Rightarrow> fields list \<Rightarrow> string" where
  "text_of_records rt ds \<equiv> concat (List.map (evidence_line rt) ds)"

lemma split_lines_open:
  "acc @ b \<noteq> [] \<Longrightarrow> b = [] \<or> \<not> line_end (last b) \<Longrightarrow> split_lines acc (b @ [CHR 0x0A]) = split_lines acc b"
  by (induction b arbitrary: acc) (auto simp: line_end_def split: if_splits)

text \<open>A journal with a record begins with a brace and ends with one before the last line feed.\<close>

lemma text_of_records_shape:
  assumes "ds \<noteq> []"
  obtains r where "text_of_records rt ds = CHR ''{'' # r @ [CHR ''}'', CHR 0x0A]"
proof -
  obtain ds' d where d: "ds = ds' @ [d]" using assms by (cases ds rule: rev_cases) auto
  have "\<exists>r. text_of_records rt (ds' @ [d]) = CHR ''{'' # r @ [CHR ''}'', CHR 0x0A]"
    by (cases ds') (auto simp: evidence_line_def)
  with d that show thesis by blast
qed

lemma strip_text_of_records:
  assumes "\<forall>d \<in> set ds. signed_plain d" "ds \<noteq> []"
  shows "text_of_records rt ds = str_strip (universal_newlines (text_of_records rt ds)) @ [CHR 0x0A]"
    and "last (str_strip (universal_newlines (text_of_records rt ds))) = CHR ''}''"
    and "str_strip (universal_newlines (text_of_records rt ds)) \<noteq> []"
proof -
  obtain r where r: "text_of_records rt ds = CHR ''{'' # r @ [CHR ''}'', CHR 0x0A]"
    using text_of_records_shape [OF assms(2)] .
  have "universal_newlines (text_of_records rt ds) = text_of_records rt ds"
    by (rule universal_newlines_plain [OF lines_no_cr [OF assms(1)]])
  then have "str_strip (universal_newlines (text_of_records rt ds)) = CHR ''{'' # r @ [CHR ''}'']"
    by (simp add: r str_strip_def is_space_def)
  with r show "text_of_records rt ds = str_strip (universal_newlines (text_of_records rt ds)) @ [CHR 0x0A]"
    "last (str_strip (universal_newlines (text_of_records rt ds))) = CHR ''}''"
    "str_strip (universal_newlines (text_of_records rt ds)) \<noteq> []" by simp_all
qed

lemma journal_lines_records:
  assumes "\<forall>d \<in> set ds. signed_plain d \<and> one_line rt d"
  shows "journal_lines (text_of_records rt ds) = List.map (line_of rt) ds"
proof (cases "ds = []")
  case False
  let ?s = "str_strip (universal_newlines (text_of_records rt ds))"
  have s: "text_of_records rt ds = ?s @ [CHR 0x0A]" "last ?s = CHR ''}''" "?s \<noteq> []"
    using strip_text_of_records [of ds rt] assms False by blast+
  have "split_lines [] ?s = split_lines [] (?s @ [CHR 0x0A])"
    using s(2,3) by (intro split_lines_open [symmetric]) (simp_all add: line_end_def)
  also have "\<dots> = List.map (line_of rt) ds" using split_lines_records [OF assms] s(1) by simp
  finally show ?thesis by (simp add: journal_lines_def)
qed (simp add: journal_lines_def str_strip_def)

lemma find_record_lines:
  "\<forall>d \<in> set ds. signed_plain d \<Longrightarrow>
   find_record i (List.map (line_of rt) ds) = Some (List.find (\<lambda>d. py_get d ''action_id'' = JStr i) ds)"
  by (induction ds) (simp_all add: loads_record del: ser.simps)

section \<open>A suspended action in the journal\<close>

text \<open>What \<open>approve\<close> needs of a record.\<close>

definition waiting_for :: "string \<Rightarrow> string \<Rightarrow> string \<Rightarrow> fields \<Rightarrow> bool" where
  "waiting_for i method target d \<longleftrightarrow> py_get d ''action_id'' = JStr i \<and>
     sub_get d ''execution'' ''status'' = Some (JStr ''pending_approval'') \<and> (\<exists>v. sub_get d ''risk'' ''level'' = Some v) \<and>
     (\<exists>action. py_or (py_get d ''action'') (JObj []) = JObj action \<and>
        get_or action ''method'' (JStr []) = JStr method \<and> get_or action ''target'' (JStr []) = JStr target)"

lemma pending_record_waits:
  assumes "proxy_record rt (i, t) m url v ''pending_approval'' ph None None [] px = Inr (d, px1)"
  shows "waiting_for i (str_upper m) url d"
proof -
  define reason where "reason = (if vd_reason v = [] then JNull else JStr (vd_reason v))"
  define status where "status = (''status'', JStr ''pending_approval'') # (if vd_reason v = [] then [] else [(''reason'', reason)])"
  obtain label where "version_label rt (px_policy px) = Inr label" using version_label_ok by blast
  define b where "b = evidence_build i t (px_agent px) (px_org px) m url (vd_risk v) (vd_decision v) label (Some (vd_rule v)) ph
    ''pending_approval'' None None genesis [(''reason'', reason)]"
  have x: "ev_execution b = status"
    by (simp add: b_def evidence_build_def clean_def merge_def json_opt_def status_def reason_def)
  then have "move_approval b = b"
    by (simp add: move_approval_def status_def py_get_def b_def evidence_build_def)
  then obtain digest where "d = evidence_body (b\<lparr>ev_prev_hash := est_last (px_store px)\<rparr>)
      @ [(''evidence'', JObj (evidence_envelope rt (px_key px) digest (px_org px)))]"
    using assms \<open>version_label rt (px_policy px) = Inr label\<close>
    by (auto simp: proxy_record_def store_append_def evidence_sign_def rbind_Inr_iff present_def reason_def [symmetric]
        b_def [symmetric]) (simp add: b_def evidence_build_def)
  then have d: "py_get d ''action_id'' = JStr (ev_action_id b)" "py_get d ''execution'' = JObj (clean (ev_execution b))"
      "py_get d ''risk'' = JObj (ev_risk b)" "py_get d ''action'' = JObj (clean (ev_action b))"
    by (simp_all add: evidence_body_def py_get_def)
  have "sub_get d ''execution'' ''status'' = Some (JStr ''pending_approval'')"
    unfolding sub_get_def d x by (simp add: status_def clean_def py_get_def)
  moreover have "\<exists>v. sub_get d ''risk'' ''level'' = Some v" by (simp add: sub_get_def d)
  moreover have "py_or (py_get d ''action'') (JObj []) = JObj (clean (ev_action b))"
    by (simp add: d py_or_def b_def evidence_build_def clean_def)
  moreover have "get_or (clean (ev_action b)) ''method'' (JStr []) = JStr (str_upper m)"
    "get_or (clean (ev_action b)) ''target'' (JStr []) = JStr url"
    by (simp_all add: get_or_def b_def evidence_build_def clean_def)
  ultimately show ?thesis
    using d(1) by (simp add: waiting_for_def b_def evidence_build_def)
qed

lemma suspended_request:
  assumes "str_prefix ''http'' (rq_url rq)" "evaluate rx (px_policy px) (rq_method rq) (rq_url rq) = Some v"
    and "vd_decision v = NeedsApproval" "get_header (rq_headers rq) approval_header = None"
  obtains d where "oc_records (handle rt rx explain send (i, t) rq px) = [d]"
    and "recorded rt px d (oc_proxy (handle rt rx explain send (i, t) rq px))" "waiting_for i (str_upper (rq_method rq)) (rq_url rq) d"
proof -
  obtain d px1 where r: "proxy_record rt (i, t) (rq_method rq) (rq_url rq) v ''pending_approval''
      (payload_digest rt (rq_body rq)) None None [] px = Inr (d, px1)" "recorded rt px d px1"
    by (rule proxy_record_ok) auto
  obtain label where "version_label rt (px_policy px1) = Inr label" using version_label_ok by blast
  then have "oc_records (handle rt rx explain send (i, t) rq px) = [d]" "oc_proxy (handle rt rx explain send (i, t) rq px) = px1"
    using assms r(1) by (simp_all add: handle_def Let_def refuse_with_def)
  then show thesis using that r pending_record_waits [OF r(1)] by simp
qed

section \<open>The file of approvals\<close>

definition filed :: "approvals \<Rightarrow> bool" where
  "filed st \<longleftrightarrow> distinct (List.map fst st) \<and> (\<forall>(k, a) \<in> set st. ap_action_id a = k)"

lemma filed_set: "filed st \<Longrightarrow> ap_action_id a = k \<Longrightarrow> filed (dict_set k a st)"
  using set_update_subset [of k a st] by (auto simp: filed_def distinct_update)

lemma filed_loaded: "filed st \<Longrightarrow> filed (foldl (\<lambda>st a. dict_set (ap_action_id a) a st) st as)"
  by (induction as arbitrary: st) (simp_all add: filed_set)

lemma approvals_open_filed: "approvals_open rt file = Some st \<Longrightarrow> filed st"
  using filed_loaded [of "[]"]
  by (auto simp: approvals_open_def approvals_load_def filed_def split: option.splits json.splits if_splits)

lemma approvals_reopened: "filed st \<Longrightarrow> approvals_open rt (Some (JList (approvals_saved st))) = Some st"
  using approvals_save_load [of st rt] by (auto simp: approvals_open_def filed_def)

lemma cli_grant_waiting:
  assumes "waiting_for i method target d" "approvals_open rt file = Some st"
  shows "cli_grant rt i who ttl now d file
    = (Exit 0, Some (JList (approvals_saved (snd (grant_approval now i method target who (trunc (ttl * 1000)) st)))))"
  using assms by (auto simp: waiting_for_def cli_grant_def Let_def)

text \<open>\<open>approve\<close> on a journal whose last record waits and is the only one with its identifier.\<close>

lemma cli_approve_last:
  assumes "\<forall>d \<in> set (ds @ [d]). signed_plain d \<and> one_line rt d" "\<forall>d \<in> set ds. py_get d ''action_id'' \<noteq> JStr i"
    and "waiting_for i method target d" "approvals_open rt file = Some st"
  shows "cli_approve rt (Some (text_of_records rt (ds @ [d]))) i who ttl now file
    = (Exit 0, Some (JList (approvals_saved (snd (grant_approval now i method target who (trunc (ttl * 1000)) st)))))"
proof -
  have w: "py_get d ''action_id'' = JStr i" "sub_get d ''execution'' ''status'' = Some (JStr ''pending_approval'')"
    using assms(3) by (simp_all add: waiting_for_def)
  have "List.find (\<lambda>d. py_get d ''action_id'' = JStr i) (ds @ [d]) = Some d"
    using assms(2) w(1) by (induction ds) auto
  then have "find_record i (journal_lines (text_of_records rt (ds @ [d]))) = Some (Some d)"
    using journal_lines_records [OF assms(1)] find_record_lines [of "ds @ [d]" i rt] assms(1) by simp
  then show ?thesis using w(2) cli_grant_waiting [OF assms(3,4)] by (simp add: cli_approve_def del: concat_append map_append)
qed

section \<open>The whole way of an approval\<close>

lemma proxy_started:
  assumes "proxy_start rt policy key agent org journal file = Some px"
  shows "px_policy px = policy" "approvals_open rt file = Some (px_approvals px)" "store_open journal = Some (px_store px)"
  using assms by (auto simp: proxy_start_def bind_eq_Some_conv)

definition with_approval :: "string \<Rightarrow> http_request \<Rightarrow> http_request" where
  "with_approval i rq = rq\<lparr>rq_headers := rq_headers rq @ [(approval_header, i)]\<rparr>"

lemma with_approval_fields [simp]:
  "rq_method (with_approval i rq) = rq_method rq" "rq_url (with_approval i rq) = rq_url rq" "rq_body (with_approval i rq) = rq_body rq"
  by (simp_all add: with_approval_def)

lemma get_header_append: "get_header hs name = None \<Longrightarrow> get_header (hs @ [(name, v)]) name = Some v"
  by (induction hs) (auto simp: get_header_def split: if_splits)

lemma with_approval_header:
  "get_header (rq_headers rq) approval_header = None \<Longrightarrow> get_header (rq_headers (with_approval i rq)) approval_header = Some i"
  by (simp add: with_approval_def get_header_append)

lemma record_policy: "proxy_record rt stamp m url v st ph rs rh extra px = Inr (d, px1) \<Longrightarrow> px_policy px1 = px_policy px"
  by (auto simp: proxy_record_def rbind_Inr_iff)

lemma refuse_policy: "(\<And>d px1. res = Inr (d, px1) \<Longrightarrow> px_policy px1 = px_policy px) \<Longrightarrow>
   px_policy (oc_proxy (refuse_with rt kind v det px res)) = px_policy px"
  by (cases res) (auto simp: refuse_with_def crash_def split: sum.split)

lemma forward_policy: "px_policy (oc_proxy (forward rt send stamp rq v a px)) = px_policy px"
  by (auto simp: forward_def crash_def Let_def dest: record_policy split: sum.split prod.split)

lemma handle_policy: "px_policy (oc_proxy (handle rt rx explain send stamp rq px)) = px_policy px"
  by (simp add: handle_def Let_def crash_def refuse_policy [OF record_policy] forward_policy
      split: option.split decision.split prod.split sum.split)

lemma connect_policy: "px_policy (oc_proxy (connect rt rx dial stamp target px)) = px_policy px"
  by (auto simp: connect_def Let_def crash_def refuse_policy [OF record_policy] dest: record_policy split: option.split prod.split sum.split)

lemma proxy_run_policy: "proxy_run rt rx explain ops px = (ds, px') \<Longrightarrow> px_policy px' = px_policy px"
proof (induction ops arbitrary: px ds)
  case (Cons op ops)
  then show ?case by (cases op) (auto simp: Let_def handle_policy connect_policy split: prod.splits)
qed simp

lemma proxy_run_snoc:
  "proxy_run rt rx explain ops px = (ds, px') \<Longrightarrow>
   proxy_run rt rx explain (ops @ [op]) px
     = (ds @ oc_records (proxy_step rt rx explain op px'), oc_proxy (proxy_step rt rx explain op px'))"
  by (induction ops arbitrary: px ds) (auto simp: Let_def split: prod.splits)

text \<open>A request with an approval that fits is sent, and sent again it is not.\<close>

lemma approval_spent_once:
  assumes "str_prefix ''http'' (rq_url rq)" "evaluate rx (px_policy px) (rq_method rq) (rq_url rq) = Some v"
    and "vd_decision v = NeedsApproval" "get_header (rq_headers rq) approval_header = Some i" "i \<noteq> []"
    and "map_of (px_approvals px) i = Some a" "ap_used_at a = None" "t \<le> ap_expires_at a"
    and "ap_method a = str_upper (rq_method rq)" "ap_target a = rq_url rq"
  shows "oc_forwarded (handle rt rx explain send (j, t) rq px) \<noteq> None"
    and "oc_forwarded (handle rt rx explain send' (j', t') rq (oc_proxy (handle rt rx explain send (j, t) rq px))) = None"
proof -
  let ?a = "a\<lparr>ap_used_at := Some t\<rparr>"
  let ?aps = "dict_set i ?a (px_approvals px)"
  have h: "handle rt rx explain send (j, t) rq px = forward rt send (j, t) rq v (Some ?a) (px\<lparr>px_approvals := ?aps\<rparr>)"
    using assms by (simp add: handle_def Let_def consume_approval_def approval_spent_def approval_is_expired_def)
  note f = forward_outcome [of rt "px\<lparr>px_approvals := ?aps\<rparr>" send "(j, t)" rq v "Some ?a"]
  show "oc_forwarded (handle rt rx explain send (j, t) rq px) \<noteq> None" using f by (simp add: h)
  let ?px = "oc_proxy (handle rt rx explain send (j, t) rq px)"
  have "px_approvals ?px = ?aps" using f by (simp add: h)
  then have spent: "fst (consume_approval t' i (rq_method rq) (rq_url rq) (px_approvals ?px)) = Inl AlreadySpent"
    by (simp add: consume_approval_def approval_spent_def update_conv')
  show "oc_forwarded (handle rt rx explain send' (j', t') rq ?px) = None"
  proof (cases rule: handle_cases [of rq rt ?px rx explain send' "(j', t')"])
    case (allowed w)
    then show ?thesis using assms(2,3) by (simp add: handle_policy)
  next
    case (approved w k b aps)
    then show ?thesis using assms(4) spent by simp
  qed (simp_all add: crash_def)
qed


definition toy_policy :: policy where
  "toy_policy = px_policy (toy_proxy NeedsApproval None)"

definition toy_suspended :: "string outcome" where
  "toy_suspended = handle tiny_runtime (\<lambda>p. None) (\<lambda>e. []) toy_send (''i1'', 5) toy_request (toy_proxy NeedsApproval (Some []))"

lemma toy_suspended_one_line: "list_all (one_line tiny_runtime) (oc_records toy_suspended)"
  by code_simp


section \<open>What \<open>verify\<close> accepts\<close>

lemma line_of_shape: "line_of rt d = CHR ''{'' # ser_members (readable_format (float_repr rt)) d @ ''}''"
  by simp

lemma line_not_blank: "str_strip (line_of rt d) \<noteq> []"
  by (simp add: str_strip_def is_space_def)

lemma those_loads_records:
  "\<forall>d \<in> set ds. signed_plain d \<Longrightarrow> those (List.map loads (List.map (line_of rt) ds)) = Some (List.map JObj ds)"
  by (induction ds) (simp_all add: loads_record del: ser.simps)

lemma evidence_of_journal:
  assumes "\<forall>d \<in> set ds. signed_plain d \<and> one_line rt d" "ds \<noteq> []"
  shows "evidence_of_text (text_of_records rt ds) = Some (List.map JObj ds)"
proof -
  let ?s = "str_strip (universal_newlines (text_of_records rt ds))"
  obtain d es where ds: "ds = d # es" using assms(2) by (cases ds) auto
  have t: "text_of_records rt ds = ?s @ [CHR 0x0A]" using strip_text_of_records(1) [of ds rt] assms by blast
  have clean: "\<forall>c \<in> set (line_of rt d). \<not> line_end c" using assms(1) ds by (intro line_clean) auto
  have s: "?s = line_of rt d @ (if es = [] then [] else CHR 0x0A # butlast (text_of_records rt es))"
  proof -
    have "?s = butlast (text_of_records rt ds)" by (subst t) simp
    also have "\<dots> = line_of rt d @ (if es = [] then [] else CHR 0x0A # butlast (text_of_records rt es))"
      by (cases es) (auto simp: ds evidence_line_def butlast_append simp del: ser.simps)
    finally show ?thesis .
  qed
  have lines: "split_lines [] ?s = List.map (line_of rt) ds"
    using journal_lines_records [OF assms(1)] by (simp add: journal_lines_def)
  have plain: "\<forall>d \<in> set ds. signed_plain d" using assms(1) by blast
  have lf: "line_end (CHR 0x0A)" by (simp add: line_end_def)
  obtain c x where x: "line_of rt d = CHR ''{'' # c # x"
    by (cases "ser_members (readable_format (float_repr rt)) d") auto
  have "\<not> str_prefix ''['' ?s" "\<not> str_prefix [CHR ''{'', CHR 0x0A] ?s"
    using clean lf unfolding s x by auto
  moreover have "CHR 0x0A \<in> set ?s \<longleftrightarrow> es \<noteq> []"
    using clean lf unfolding s by auto
  moreover have "List.filter (\<lambda>l. str_strip l \<noteq> []) (List.map (line_of rt) ds) = List.map (line_of rt) ds"
    using line_not_blank by (intro filter_True) auto
  ultimately show ?thesis
    using those_loads_records [OF plain, of rt] lines s ds loads_record [of d rt] plain
    by (cases es) (simp_all add: evidence_of_text_def Let_def del: ser.simps)
qed

lemma reported_valid:
  assumes "chained prev_of stored_hash (record_valid rt None) genesis ds" "\<forall>d \<in> set ds. \<exists>p. py_get d ''prev_hash'' = JStr p" "ds \<noteq> []"
  shows "\<exists>r. report_on rt (List.map JObj ds) = Some r \<and> report_valid r"
proof (cases "\<exists>d. ds = [d]")
  case True
  then show ?thesis using assms(1) by (auto simp: report_on_def record_valid_def split: option.splits)
next
  case False
  let ?r = "empty_report\<lparr>rp_schema := True, rp_integrity := True, rp_signature := True\<rparr>"
  have "report_valid ?r" by (simp add: report_valid_def)
  from verify_from_complete [OF assms(1) this assms(2), of 0] have "\<exists>r. verify_chain rt (List.map JObj ds) = Some r \<and> report_valid r"
    unfolding verify_chain_def by blast
  moreover have "report_on rt (List.map JObj ds) = verify_chain rt (List.map JObj ds)"
    using assms(3) False by (cases ds rule: list.exhaust; cases "tl ds") (auto simp: report_on_def)
  ultimately show ?thesis by simp
qed

text \<open>The journal of a proxy started without one passes \<open>verify\<close>, as text, after any run: the two programs agree on the
  format, the digests, the signatures and the links.\<close>

theorem proxy_journal_passes_verify:
  assumes "runtime_ok rt" "proxy_start rt policy key agent org (Some []) file = Some px0"
    and "proxy_run rt rx explain ops px0 = (ds, px)" "ds \<noteq> []" "\<forall>d \<in> set ds. one_line rt d"
  shows "cli_verify rt True (est_file (px_store px)) = Exit 0"
proof -
  have px0: "px_store px0 = store_new (Some [])" using proxy_started(3) [OF assms(2)] by (simp add: store_open_def)
  have c: "chained prev_of stored_hash (record_valid rt None) genesis ds" "\<forall>d \<in> set ds. \<exists>p. py_get d ''prev_hash'' = JStr p"
    using proxy_run_chained [OF assms(1,3)] by (simp_all add: px0 store_new_def)
  have "\<forall>d \<in> set ds. signed_plain d \<and> one_line rt d" "est_file (px_store px) = Some (text_of_records rt ds)"
    using proxy_run_file [OF assms(3)] assms(5) by (simp_all add: px0 store_new_def)
  with evidence_of_journal [OF this(1) assms(4)] reported_valid [OF c assms(4)]
  show ?thesis by (auto simp: cli_verify_def)
qed

text \<open>But any single record of it passes as well: the link of a file's only record is not compared with the first
  digest, so that a journal of which everything else was removed is still called valid.\<close>

theorem cut_journal_passes_verify:
  assumes "runtime_ok rt" "proxy_start rt policy key agent org (Some []) file = Some px0"
    and "proxy_run rt rx explain ops px0 = (ds, px)" "d \<in> set ds" "one_line rt d"
  shows "cli_verify rt True (Some (text_of_records rt [d])) = Exit 0"
proof -
  have px0: "px_store px0 = store_new (Some [])" using proxy_started(3) [OF assms(2)] by (simp add: store_open_def)
  have "record_valid rt None d"
    using proxy_run_chained [OF assms(1,3)] chained_sealed [OF _ assms(4)] by blast
  then obtain r where "report_on rt (List.map JObj [d]) = Some r" "report_valid r"
    by (auto simp: report_on_def record_valid_def split: option.splits)
  moreover have "\<forall>e \<in> set [d]. signed_plain e \<and> one_line rt e" using proxy_run_file [OF assms(3)] assms(4,5) by simp
  from evidence_of_journal [OF this] have "evidence_of_text (text_of_records rt [d]) = Some (List.map JObj [d])" by simp
  ultimately show ?thesis unfolding cli_verify_def by simp
qed

text \<open>A proxy that is running reads its file of approvals once, when it starts: what \<open>approve\<close> grants meanwhile does not
  let the request through.\<close>

theorem running_proxy_misses_the_grant:
  assumes "str_prefix ''http'' (rq_url rq)" "evaluate rx (px_policy px) (rq_method rq) (rq_url rq) = Some v" "vd_decision v = NeedsApproval"
    and "get_header (rq_headers rq) approval_header = None" "map_of (px_approvals px) i = None"
    and "oc = handle rt rx explain send (i, t) rq px"
  shows "oc_forwarded (handle rt rx explain send' (j, later) (with_approval i rq) (oc_proxy oc)) = None"
proof -
  have aps: "px_approvals (oc_proxy oc) = px_approvals px"
    by (cases rule: handle_cases [of rq rt px rx explain send "(i, t)"]) (use assms in \<open>simp_all add: crash_def\<close>)
  have pol: "px_policy (oc_proxy oc) = px_policy px" by (simp add: assms(6) handle_policy)
  show ?thesis
    by (cases rule: handle_cases [of "with_approval i rq" rt "oc_proxy oc" rx explain send' "(j, later)"])
       (use assms aps pol with_approval_header [OF assms(4), of i] in \<open>simp_all add: crash_def consume_approval_def\<close>)
qed

text \<open>An empty list of records ends \<open>verify\<close> with an exception instead of a verdict.\<close>

lemma empty_list_breaks_verify: "cli_verify rt as_json (Some ''[]'') = Uncaught"
proof -
  have "evidence_of_text ''[]'' = Some []" by code_simp
  then show ?thesis by (simp add: cli_verify_def report_on_def)
qed

end
