(* ===== verification/Delegation.thy ===== *)
theory Delegation
  imports HubSafety AgentSafety
begin

text \<open>
  A task on its whole way: an agent submits it, the hub registers it and hands it to the assignee, whose handler works
  on it, and the hub brings the result back to the future that the submission opened.  The operations are those of
  \<open>Agent\<close> and of \<open>HubTasks\<close>, composed by the frames they exchange.
\<close>

section \<open>The hub on the way out\<close>

definition task_fields :: "task \<Rightarrow> (string \<times> json) list" where
  "task_fields t = (case task_to_dict t of JObj d \<Rightarrow> d | _ \<Rightarrow> [])"

lemma task_fields_dict: "task_to_dict t = JObj (task_fields t)"
  by (simp add: task_fields_def task_to_dict_def)

lemma task_fields_get [simp]:
  "py_get (task_fields t) ''task_id'' = JStr (tk_task_id t)" "py_get (task_fields t) ''assignee'' = JStr (tk_assignee t)"
  "py_get (task_fields t) ''orchestrator'' = JStr (tk_orchestrator t)" "py_get (task_fields t) ''escrow'' = JNull"
  "py_get (task_fields t) ''action'' = JNull" "obj_of (JObj (task_fields t)) = Some (task_fields t)"
  by (simp_all add: task_fields_def task_to_dict_def py_get_def obj_of_def)

lemma task_fields_read: "task_ok t \<Longrightarrow> task_from_dict uuid now (JObj (task_fields t)) = Inr t"
  using task_dict_roundtrip [of t] by (simp add: task_fields_dict)

lemma task_frame_unkilled: "ms_content m = task_to_dict t \<Longrightarrow> kill_target m = None"
  by (simp add: kill_target_def task_fields_dict)

text \<open>A submission that passes the guards, without an escrow.\<close>

lemma submission_delivered:
  assumes frame: "ms_type msg = MTaskSubmit" "ms_content msg = task_to_dict t" "task_ok t" "frame_authenticated cf tk msg h"
    and guards: "guard_submission cf tk (task_fields t) (ms_sender msg) (count_message tk c h) = Some (None, h1)"
      "bp_admit (fst (task_load h)) (snd (task_load h)) (tc_now tk) (hb_gate h) = (None, g)"
      "held_back cf (task_fields t) (tk_assignee t) (agent_org cf h (ms_sender msg)) h = None"
    and assignee: "local_name h (Some (tk_assignee t)) = Some l" "map_of (hb_agents h) l = Some b" "tc_alive tk b"
    and result: "handle_frame cf tk c msg h = (ok, h')"
  shows "ok \<and> map_of (hb_tasks h') (tk_task_id t) = Some t \<and>
    (\<exists>m. last (hb_out h') = Send b m \<and> ms_type m = MTaskAssign \<and> ms_content m = task_to_dict t)"
proof -
  let ?h0 = "count_message tk c h" and ?s = "ms_sender msg"
  define h2 where "h2 = h1\<lparr>hb_gate := g\<rparr>"
  have h1: "h1 = ?h0\<lparr>hb_engine := hb_engine h1\<rparr>" by (rule guard_keeps [OF guards(1)])
  have agents: "hb_agents h2 = hb_agents h" unfolding h2_def by (subst h1, simp)
  define h4 where "h4 = announce_task cf tk t ?s h2"
  define m where "m = hub_message tk h4 MTaskAssign ''hub'' (Some (tk_assignee t)) (task_to_dict t) (Some (ms_id msg)) (ms_token msg)"
  have m: "ms_to m = Some (tk_assignee t)" "ms_type m = MTaskAssign" "ms_content m = task_to_dict t"
    by (simp_all add: m_def hub_message_def message_new_def)
  have "hb_agents h4 = hb_agents h" by (simp add: h4_def agents)
  then have "deliver_new cf tk MTaskAssign ''hub'' (Some (tk_assignee t)) (task_to_dict t) (Some (ms_id msg)) (ms_token msg) h4
      = (True, h4\<lparr>hb_out := hb_out h4 @ [Send b m]\<rparr>)"
    using assignee by (simp add: deliver_new_def m_def [symmetric] deliver_local [OF m(1)] local_name_same [of h4 h] send_alive)
  then have fin: "finalize_task_submission cf tk (task_fields t) ?s (ms_token msg) (Some (ms_id msg)) h2
      = (Submitted, h4\<lparr>hb_out := hb_out h4 @ [Send b m]\<rparr>)"
    by (simp add: finalize_task_submission_def hold_for_def task_fields_read [OF frame(3)] h4_def)
  have "handle_task_submit cf tk c msg ?h0 = (True, h4\<lparr>hb_out := hb_out h4 @ [Send b m]\<rparr>)"
  proof (rule passing_submission [OF _ guards(1)])
    show "bp_admit (fst (task_load ?h0)) (snd (task_load ?h0)) (tc_now tk) (hb_gate ?h0) = (None, g)"
      using guards(2) by (simp add: task_load_def)
    show "held_back cf (task_fields t) (text_of (Some (tk_assignee t))) (agent_org cf ?h0 ?s) ?h0 = None"
      using guards(3) by (simp add: held_back_def text_of_def)
  qed (use frame(2) fin in \<open>simp_all add: h2_def task_fields_dict text_or_absent_def\<close>)
  then have "handle_frame cf tk c msg h = (True, h4\<lparr>hb_out := hb_out h4 @ [Send b m]\<rparr>)"
    using frame(1,4) handle_frame_unkilled [OF task_frame_unkilled [OF frame(2)], of cf tk c h]
    by (simp add: authenticated_types_def handle_authenticated_def frame_authenticated_def Let_def)
  with result have "ok" "h' = h4\<lparr>hb_out := hb_out h4 @ [Send b m]\<rparr>" by simp_all
  then show ?thesis using m by (simp add: h4_def update_conv')
qed

section \<open>The hub on the way back\<close>

lemma finish_fields [simp]:
  "hb_agents (finish_task cf tk tid t s o' h) = hb_agents h" "hb_tasks (finish_task cf tk tid t s o' h) = hb_tasks h"
  by (simp_all add: finish_task_def settle_completed_def settle_failed_def split: task_status.split option.split)

lemma update_delivered:
  assumes frame: "ms_type msg = MTaskUpdate" "ms_content msg = task_to_dict t" "task_ok t" "frame_authenticated cf tk msg h"
    and task: "map_of (hb_tasks h) (tk_task_id t) \<noteq> None"
    and orchestrator: "local_name h (Some (tk_orchestrator t)) = Some l" "map_of (hb_agents h) l = Some b" "tc_alive tk b"
    and result: "handle_frame cf tk c msg h = (ok, h')"
  shows "ok \<and> map_of (hb_tasks h') (tk_task_id t) = Some t \<and>
    (\<exists>m. last (hb_out h') = Send b m \<and> ms_type m = MTaskUpdate \<and> ms_content m = task_to_dict t)"
proof -
  let ?h0 = "count_message tk c h"
  define h2 where "h2 = finish_task cf tk (tk_task_id t) t (ms_sender msg) (Some (tk_orchestrator t)) (remember_task cf t ?h0)"
  define m where "m = hub_message tk h2 MTaskUpdate ''hub'' (Some (tk_orchestrator t)) (task_to_dict t) None (ms_token msg)"
  have m: "ms_to m = Some (tk_orchestrator t)" "ms_type m = MTaskUpdate" "ms_content m = task_to_dict t"
    by (simp_all add: m_def hub_message_def message_new_def)
  have a: "hb_agents h2 = hb_agents h" and t: "map_of (hb_tasks h2) (tk_task_id t) = Some t"
    by (simp_all add: h2_def update_conv')
  have "known_task ?h0 (JStr (tk_task_id t)) = Some (Some (tk_task_id t))" using task by (simp add: known_task_def)
  then have "handle_task_update cf tk msg ?h0 = relay_update cf tk ''hub'' (task_fields t) (ms_token msg) h2"
    using frame(2) by (simp add: handle_task_update_def task_fields_dict task_fields_read [OF frame(3)] h2_def)
  also have "\<dots> = (True, h2\<lparr>hb_out := hb_out h2 @ [Send b m]\<rparr>)"
    using orchestrator
    by (simp add: relay_update_def deliver_new_def m_def [symmetric] task_fields_dict [symmetric] deliver_local [OF m(1)]
        local_name_same [OF a] a send_alive)
  finally have "handle_frame cf tk c msg h = (True, h2\<lparr>hb_out := hb_out h2 @ [Send b m]\<rparr>)"
    using frame(1,4) handle_frame_unkilled [OF task_frame_unkilled [OF frame(2)], of cf tk c h]
    by (simp add: authenticated_types_def handle_authenticated_def frame_authenticated_def Let_def)
  with result m t show ?thesis by auto
qed

section \<open>The agents\<close>

lemma submit_task_sends:
  assumes "prepare gc tk b cargo a1 a2 ag = (Inr v, ag0)" "at_alive tk" "tid \<noteq> []"
    and "t = task_new tid (at_now tk) title (ag_qualified ag0) b v None Pending JNull JNull None JNull JNull"
  shows "submit_task gc tk tid title b cargo JNull JNull JNull a1 a2 ag
    = (None, push_frame (frame_of tk MTaskSubmit (Some b) (task_to_dict t) None ag0) (await_task tid ag0))"
  using assms by (simp add: submit_task_def with_members_def transmit_def task_new_def str_or_def task_to_dict_def)

lemma hear_assignment: "ms_type m = MTaskAssign \<Longrightarrow> ms_content m = task_to_dict t \<Longrightarrow> task_ok t \<Longrightarrow>
   hear gc tk m ag = (None, [StartTask t], ag)"
  by (simp add: hear_def answer_types_def task_dict_roundtrip)

lemma open_text_pop [simp]: "open_text gc (pop_task i ag) v = open_text gc ag v"
  by (cases v) (simp_all add: open_text_def pop_task_def decrypt_content_def)

lemma hear_completed:
  assumes "ms_type m = MTaskUpdate" "ms_content m = task_to_dict t" "task_ok t" "tk_status t = Completed"
    and "map_of (ag_tasks ag) (tk_task_id t) = Some False" "open_text gc ag (tk_output t) = Inr out"
  shows "hear gc tk m ag = (None, [], settle (TaskOf (tk_task_id t)) False (Resolved out) (pop_task (tk_task_id t) ag))"
  using assms by (simp add: hear_def answer_types_def task_dict_roundtrip hear_update_def Let_def)

lemma execution_reports:
  assumes "unwrap_incoming gc ag (tk_input t) = Inr input" "gc_task gc = Some handler"
    and "t1 = update_status (at_now tk0) Running JNull JNull None t" "handler input t1 = (Inr result, t1)"
    and "at_alive tk0" "at_alive tk"
    and "prepare gc tk (tk_orchestrator t) result a1 a2 (push_frame (task_update_frame tk0 t1 ag) ag) = (Inr w, ag2)"
  shows "execute_assigned_task gc tk0 tk t a1 a2 ag
    = (None, push_frame (task_update_frame tk (finished_task gc tk (Inr w) t1 ag2) ag2) ag2)"
proof -
  have i: "tk_input t1 = tk_input t" "tk_orchestrator t1 = tk_orchestrator t" by (simp_all add: assms(3) update_status_def)
  have "unwrap_incoming gc (push_frame f ag) (tk_input t1) = Inr input" for f using assms(1) by (simp add: i)
  then show ?thesis
    using assms(2,4-7)
    by (simp add: execute_assigned_task_def Let_def transmit_alive run_assigned_def i assms(3) [symmetric])
qed

section \<open>The whole way\<close>

lemma submitted_task_ok:
  assumes "nonblank (JStr title)" "nonblank (JStr orchestrator)" "nonblank (JStr b)" "now \<noteq> 0" "tid \<noteq> []"
    and "t = task_new tid now title orchestrator b v None Pending JNull JNull None JNull JNull"
  shows "task_ok t"
  using assms(1-5) by (simp add: assms(6) task_ok_def task_new_def str_or_def py_or_def opt_number_def nonblank_def)

lemma finished_task_ok:
  "task_ok t \<Longrightarrow> at_now tk \<noteq> 0 \<Longrightarrow> task_ok (finished_task gc tk x (update_status now s out err None t) ag)"
  by (cases x) (simp_all add: finished_task_def update_status_def task_ok_def Let_def)

text \<open>C17: A task comes back.  If the hub lets the submission pass and the assignee is connected, the assignee's loop starts
  exactly the task that was submitted; and when its handler has made a result of the opened input, the update it sends
  settles the submitter's future with the opened result, whatever happened at the hub and at the submitter in between,
  as long as the hub knows the task, the submitter is connected and still waits.\<close>

theorem delegated_task_comes_back:
  assumes out: "prepare gcA tkA b cargo a1 a2 agA = (Inr v, agA0)" "at_alive tkA" "at_now tkA \<noteq> 0" "tid \<noteq> []"
      "nonblank (JStr title)" "nonblank (JStr (ag_qualified agA0))" "nonblank (JStr b)"
      "t = task_new tid (at_now tkA) title (ag_qualified agA0) b v None Pending JNull JNull None JNull JNull"
      "submit_task gcA tkA tid title b cargo JNull JNull JNull a1 a2 agA = (None, agA1)" "f1 = last (ag_sent agA1)"
    and hub1: "frame_authenticated cf th1 f1 h"
      "guard_submission cf th1 (task_fields t) (ms_sender f1) (count_message th1 cA h) = Some (None, hg)"
      "bp_admit (fst (task_load h)) (snd (task_load h)) (tc_now th1) (hb_gate h) = (None, g)"
      "held_back cf (task_fields t) b (agent_org cf h (ms_sender f1)) h = None"
      "local_name h (Some b) = Some lb" "map_of (hb_agents h) lb = Some cB" "tc_alive th1 cB"
      "handle_frame cf th1 cA f1 h = (ok1, h1)"
    and work: "unwrap_incoming gcB agB v = Inr input" "gc_task gcB = Some handler"
      "handler input (update_status (at_now tkB0) Running JNull JNull None t)
         = (Inr result, update_status (at_now tkB0) Running JNull JNull None t)"
      "at_alive tkB0" "at_alive tkB" "at_now tkB \<noteq> 0"
      "prepare gcB tkB (ag_qualified agA0) result b1 b2
         (push_frame (task_update_frame tkB0 (update_status (at_now tkB0) Running JNull JNull None t) agB) agB) = (Inr w, agB0)"
      "execute_assigned_task gcB tkB0 tkB t b1 b2 agB = (None, agB1)" "f2 = last (ag_sent agB1)"
    and hub2: "frame_authenticated cf th2 f2 h2" "map_of (hb_tasks h2) tid \<noteq> None"
      "local_name h2 (Some (ag_qualified agA0)) = Some la" "map_of (hb_agents h2) la = Some cA'" "tc_alive th2 cA'"
      "handle_frame cf th2 cB' f2 h2 = (ok2, h3)"
    and waits: "map_of (ag_tasks agA2) tid = Some False" "open_text gcA agA2 w = Inr opened"
  shows "map_of (ag_tasks agA1) tid = Some False \<and> map_of (hb_tasks h1) tid = Some t \<and>
    (\<exists>m1. last (hb_out h1) = Send cB m1 \<and> hear gcB tkH1 m1 agB = (None, [StartTask t], agB)) \<and>
    (\<exists>m2 agA3. last (hb_out h3) = Send cA' m2 \<and> hear gcA tkH2 m2 agA2 = (None, [], agA3) \<and>
       map_of (ag_tasks agA3) tid = None \<and> (TaskOf tid, Resolved opened) \<in> set (ag_outcomes agA3))"
proof -
  let ?run = "update_status (at_now tkB0) Running JNull JNull None t"
  have tf: "tk_task_id t = tid" "tk_orchestrator t = ag_qualified agA0" "tk_assignee t = b" "tk_input t = v"
    using out(4) by (simp_all add: out(8) task_new_def str_or_def)
  have ok: "task_ok t" by (rule submitted_task_ok [OF out(5-7,3,4,8)])
  have A1: "agA1 = push_frame (frame_of tkA MTaskSubmit (Some b) (task_to_dict t) None agA0) (await_task tid agA0)"
    using submit_task_sends [OF out(1,2,4,8)] out(9) by simp
  then have f1: "ms_type f1 = MTaskSubmit" "ms_content f1 = task_to_dict t" "map_of (ag_tasks agA1) tid = Some False"
    by (simp_all add: out(10) push_frame_def await_task_def frame_of_def message_new_def update_conv')
  from submission_delivered [OF f1(1,2) ok hub1(1,2,3) _ _ hub1(6,7,8)] hub1(4,5) obtain m1 where
    m1: "map_of (hb_tasks h1) tid = Some t" "last (hb_out h1) = Send cB m1" "ms_type m1 = MTaskAssign" "ms_content m1 = task_to_dict t"
    by (auto simp: tf)
  define t2 where "t2 = finished_task gcB tkB (Inr w) ?run agB0"
  have "execute_assigned_task gcB tkB0 tkB t b1 b2 agB = (None, push_frame (task_update_frame tkB t2 agB0) agB0)"
    unfolding t2_def by (rule execution_reports [OF _ work(2) refl work(3,4,5)]) (use work(1,7) tf in simp_all)
  then have "agB1 = push_frame (task_update_frame tkB t2 agB0) agB0" using work(8) by simp
  then have f2: "ms_type f2 = MTaskUpdate" "ms_content f2 = task_to_dict t2"
    by (simp_all add: work(9) push_frame_def task_update_frame_def frame_of_def message_new_def)
  have ok2: "task_ok t2" unfolding t2_def by (rule finished_task_ok [OF ok work(6)])
  have t2: "tk_task_id t2 = tid" "tk_orchestrator t2 = ag_qualified agA0" "tk_status t2 = Completed" "tk_output t2 = w"
    using tf by (simp_all add: t2_def finished_task_def update_status_def Let_def)
  from update_delivered [OF f2 ok2 hub2(1) _ _ hub2(4,5,6)] hub2(2,3) obtain m2 where
    m2: "last (hb_out h3) = Send cA' m2" "ms_type m2 = MTaskUpdate" "ms_content m2 = task_to_dict t2"
    by (auto simp: t2)
  note heard = hear_completed [OF m2(2,3) ok2 t2(3), of agA2 gcA opened]
  show ?thesis
    using f1(3) m1 m2(1) hear_assignment [OF m1(3,4) ok] heard waits
    by (auto simp: t2 settle_def pop_task_def delete_conv')
qed

section \<open>A concrete delegation\<close>

definition toy_party :: "string \<Rightarrow> string agent" where
  "toy_party n = (agent_new n ''acme'' None (toy_identity []) n [''ws://a''] False None False 1 15)
     \<lparr>ag_qualified := n, ag_token := Some n\<rparr>"

definition toy_worker_conf :: "(string, string, string, string) agent_conf" where
  "toy_worker_conf = toy_agent_conf\<lparr>gc_task := Some (\<lambda>v t. (Inr (JStr ''y''), t))\<rparr>"

definition toy_delegated :: task where
  "toy_delegated = task_new ''t1'' 1 ''T'' ''alice'' ''bob'' (JStr ''x'') None Pending JNull JNull None JNull JNull"

definition toy_submitted :: "string agent" where
  "toy_submitted = snd (submit_task toy_agent_conf (toy_agent_tick ''m1'') ''t1'' ''T'' ''bob'' (JStr ''x'') JNull JNull JNull None None (toy_party ''alice''))"

definition toy_worked :: "string agent" where
  "toy_worked = snd (execute_assigned_task toy_worker_conf (toy_agent_tick ''u1'') (toy_agent_tick ''u2'') toy_delegated None None (toy_party ''bob''))"

definition toy_after :: hub where
  "toy_after = toy_hub\<lparr>hb_agents := [(''alice'', 7)], hb_tasks := [(''t1'', toy_delegated)]\<rparr>"

lemma toy_prepare: "prepare gc tk target (JStr s) a1 a2 (toy_party n) = (Inr (JStr s), toy_party n)"
  "prepare gc tk target (JStr s) a1 a2 (push_frame f (toy_party n)) = (Inr (JStr s), push_frame f (toy_party n))"
  by (simp_all add: prepare_def translate_for_def egress_for_def seal_def toy_party_def agent_new_def push_frame_def split: option.split)

lemma toy_fields: "task_fields toy_delegated = [(''task_id'', JStr ''t1''), (''title'', JStr ''T''), (''orchestrator'', JStr ''alice''),
     (''assignee'', JStr ''bob''), (''input_data'', JStr ''x''), (''status'', JStr ''pending''), (''output_data'', JNull),
     (''error_message'', JNull), (''summary'', JNull), (''created_at'', JFloat 1), (''updated_at'', JFloat 1)]"
  by (simp add: task_fields_def task_to_dict_def toy_delegated_def task_new_def str_or_def py_or_def json_of_opt_def task_status_value_def)

lemma toy_guarded: "\<exists>h1. guard_submission toy_conf toy_tick (task_fields toy_delegated) ''alice'' toy_hub = Some (None, h1)"
proof -
  have "List.find (\<lambda>p. False) ps = None" for ps :: "string list" by (induction ps) auto
  then have "find_pattern (\<lambda>p s. False) p t = None" for p t by (simp add: find_pattern_def)
  then show ?thesis
    by (simp add: guard_submission_def submitted_cost_def py_or_def text_of_def comparable_cost_def toy_fields text_or_absent_def
        validate_task_submission_def is_tripped_def engine_new_def guardrail_default_def register_task_def count_recent_def
        get_policy_def inspect_payload_def record_event_def Let_def py_str_def py_get_def)
qed

lemma toy_free: "held_back toy_conf (task_fields toy_delegated) a org toy_hub = None"
  by (simp add: held_back_def requires_approval_def carol_rule_def rule_holds_back_def pattern_found_def any_star_def
      toy_fields py_get_def py_or_def py_str_def Let_def)

lemma toy_nonblank: "nonblank (JStr ''T'')" "nonblank (JStr ''alice'')" "nonblank (JStr ''bob'')"
  by code_simp+

lemma toy_tick_alive [simp]: "at_alive (toy_agent_tick i)" "at_now (toy_agent_tick i) = 1"
  by (simp_all add: toy_agent_tick_def)

lemma toy_party_fields [simp]: "ag_qualified (toy_party n) = n" "ag_token (toy_party n) = Some n" "ag_encrypt (toy_party n) = False"
  by (simp_all add: toy_party_def agent_new_def)

lemma toy_unwrap: "unwrap_incoming gc (toy_party n) (JStr ''x'') = Inr (JStr ''x'')"
proof -
  have "\<not> looks_encrypted (JStr ''x'')" by code_simp
  then show ?thesis by (simp add: unwrap_incoming_def)
qed

lemma toy_submission:
  "submit_task toy_agent_conf (toy_agent_tick ''m1'') ''t1'' ''T'' ''bob'' (JStr ''x'') JNull JNull JNull None None (toy_party ''alice'')
     = (None, toy_submitted)"
  "ms_sender (last (ag_sent toy_submitted)) = ''alice''" "ms_token (last (ag_sent toy_submitted)) = Some ''alice''"
  "ms_type (last (ag_sent toy_submitted)) = MTaskSubmit" "map_of (ag_tasks toy_submitted) ''t1'' = Some False" "ag_encrypt toy_submitted = False"
proof -
  have "submit_task toy_agent_conf (toy_agent_tick ''m1'') ''t1'' ''T'' ''bob'' (JStr ''x'') JNull JNull JNull None None (toy_party ''alice'')
    = (None, push_frame (frame_of (toy_agent_tick ''m1'') MTaskSubmit (Some ''bob'') (task_to_dict toy_delegated) None (toy_party ''alice''))
        (await_task ''t1'' (toy_party ''alice'')))"
    by (rule submit_task_sends [OF toy_prepare(1)]) (simp_all add: toy_delegated_def)
  note e = this toy_submitted_def [unfolded this snd_conv]
  show "submit_task toy_agent_conf (toy_agent_tick ''m1'') ''t1'' ''T'' ''bob'' (JStr ''x'') JNull JNull JNull None None (toy_party ''alice'')
    = (None, toy_submitted)" unfolding e ..
  show "ms_sender (last (ag_sent toy_submitted)) = ''alice''" "ms_token (last (ag_sent toy_submitted)) = Some ''alice''"
    "ms_type (last (ag_sent toy_submitted)) = MTaskSubmit" "map_of (ag_tasks toy_submitted) ''t1'' = Some False" "ag_encrypt toy_submitted = False"
    unfolding e by (simp_all add: push_frame_def await_task_def frame_of_def message_new_def update_conv')
qed

lemma toy_work:
  "execute_assigned_task toy_worker_conf (toy_agent_tick ''u1'') (toy_agent_tick ''u2'') toy_delegated None None (toy_party ''bob'')
     = (None, toy_worked)"
  "ms_sender (last (ag_sent toy_worked)) = ''bob''" "ms_token (last (ag_sent toy_worked)) = Some ''bob''"
  "ms_type (last (ag_sent toy_worked)) = MTaskUpdate"
proof -
  have "unwrap_incoming toy_worker_conf (toy_party ''bob'') (tk_input toy_delegated) = Inr (JStr ''x'')"
    by (simp add: toy_unwrap toy_delegated_def task_new_def)
  from execution_reports [OF this _ refl _ toy_tick_alive(1) toy_tick_alive(1) toy_prepare(2),
      where handler = "\<lambda>v t. (Inr (JStr ''y''), t)"]
  have e: "execute_assigned_task toy_worker_conf (toy_agent_tick ''u1'') (toy_agent_tick ''u2'') toy_delegated None None (toy_party ''bob'')
    = (None, push_frame (task_update_frame (toy_agent_tick ''u2'') (finished_task toy_worker_conf (toy_agent_tick ''u2'') (Inr (JStr ''y''))
        (update_status (at_now (toy_agent_tick ''u1'')) Running JNull JNull None toy_delegated)
        (push_frame (task_update_frame (toy_agent_tick ''u1'') (update_status (at_now (toy_agent_tick ''u1'')) Running JNull JNull None toy_delegated)
           (toy_party ''bob'')) (toy_party ''bob'')))
      (push_frame (task_update_frame (toy_agent_tick ''u1'') (update_status (at_now (toy_agent_tick ''u1'')) Running JNull JNull None toy_delegated)
           (toy_party ''bob'')) (toy_party ''bob'')))
      (push_frame (task_update_frame (toy_agent_tick ''u1'') (update_status (at_now (toy_agent_tick ''u1'')) Running JNull JNull None toy_delegated)
           (toy_party ''bob'')) (toy_party ''bob'')))"
    by (simp add: toy_worker_conf_def)
  then show "execute_assigned_task toy_worker_conf (toy_agent_tick ''u1'') (toy_agent_tick ''u2'') toy_delegated None None (toy_party ''bob'')
     = (None, toy_worked)" by (simp add: toy_worked_def)
  show "ms_sender (last (ag_sent toy_worked)) = ''bob''" "ms_token (last (ag_sent toy_worked)) = Some ''bob''"
    "ms_type (last (ag_sent toy_worked)) = MTaskUpdate"
    unfolding toy_worked_def e by (simp_all add: push_frame_def task_update_frame_def frame_of_def message_new_def)
qed

theorem delegated_task_comes_back_witness:
  "\<exists>h1 h3 m1 m2 agA3. snd (handle_frame toy_conf toy_tick 3 (last (ag_sent toy_submitted)) toy_hub) = h1 \<and> last (hb_out h1) = Send 2 m1 \<and>
     hear toy_worker_conf (toy_agent_tick ''q'') m1 (toy_party ''bob'') = (None, [StartTask toy_delegated], toy_party ''bob'') \<and>
     snd (handle_frame toy_conf toy_tick 2 (last (ag_sent toy_worked)) toy_after) = h3 \<and> last (hb_out h3) = Send 7 m2 \<and>
     hear toy_agent_conf (toy_agent_tick ''q'') m2 toy_submitted = (None, [], agA3) \<and>
     (TaskOf ''t1'', Resolved (JStr ''y'')) \<in> set (ag_outcomes agA3)"
proof -
  let ?f1 = "last (ag_sent toy_submitted)" and ?f2 = "last (ag_sent toy_worked)"
  obtain ok1 h1 ok2 h3 where r: "handle_frame toy_conf toy_tick 3 ?f1 toy_hub = (ok1, h1)" "handle_frame toy_conf toy_tick 2 ?f2 toy_after = (ok2, h3)"
    by fastforce
  obtain hg where hg: "guard_submission toy_conf toy_tick (task_fields toy_delegated) ''alice'' toy_hub = Some (None, hg)" using toy_guarded by blast
  obtain g where g: "bp_admit (fst (task_load toy_hub)) (snd (task_load toy_hub)) 5 (hb_gate toy_hub) = (None, g)" using toy_gate by blast
  have "map_of (ag_tasks toy_submitted) ''t1'' = Some False \<and> map_of (hb_tasks h1) ''t1'' = Some toy_delegated \<and>
    (\<exists>m1. last (hb_out h1) = Send 2 m1 \<and>
       hear toy_worker_conf (toy_agent_tick ''q'') m1 (toy_party ''bob'') = (None, [StartTask toy_delegated], toy_party ''bob'')) \<and>
    (\<exists>m2 agA3. last (hb_out h3) = Send 7 m2 \<and> hear toy_agent_conf (toy_agent_tick ''q'') m2 toy_submitted = (None, [], agA3) \<and>
       map_of (ag_tasks agA3) ''t1'' = None \<and> (TaskOf ''t1'', Resolved (JStr ''y'')) \<in> set (ag_outcomes agA3))"
  proof (rule delegated_task_comes_back [where tkA = "toy_agent_tick ''m1''" and title = "''T''" and b = "''bob''" and g = g and hg = hg
        and input = "JStr ''x''" and handler = "\<lambda>v t. (Inr (JStr ''y''), t)" and result = "JStr ''y''" and w = "JStr ''y''"
        and tkB = "toy_agent_tick ''u2''" and ?tkB0.0 = "toy_agent_tick ''u1''" and ?agA0.0 = "toy_party ''alice''"
        and ?a1.0 = None and ?a2.0 = None and ?b1.0 = None and ?b2.0 = None])
    show "prepare toy_agent_conf (toy_agent_tick ''m1'') ''bob'' (JStr ''x'') None None (toy_party ''alice'') = (Inr (JStr ''x''), toy_party ''alice'')"
      by (rule toy_prepare)
    show "prepare toy_worker_conf (toy_agent_tick ''u2'') (ag_qualified (toy_party ''alice'')) (JStr ''y'') None None
       (push_frame (task_update_frame (toy_agent_tick ''u1'') (update_status (at_now (toy_agent_tick ''u1'')) Running JNull JNull None toy_delegated)
          (toy_party ''bob'')) (toy_party ''bob'')) = (Inr (JStr ''y''), push_frame (task_update_frame (toy_agent_tick ''u1'')
          (update_status (at_now (toy_agent_tick ''u1'')) Running JNull JNull None toy_delegated) (toy_party ''bob'')) (toy_party ''bob''))"
      by (rule toy_prepare)
    show "toy_delegated = task_new ''t1'' (at_now (toy_agent_tick ''m1'')) ''T'' (ag_qualified (toy_party ''alice'')) ''bob'' (JStr ''x'') None Pending
       JNull JNull None JNull JNull" by (simp add: toy_delegated_def)
    show "unwrap_incoming toy_worker_conf (toy_party ''bob'') (JStr ''x'') = Inr (JStr ''x'')" by (rule toy_unwrap)
    show "gc_task toy_worker_conf = Some (\<lambda>v t. (Inr (JStr ''y''), t))" by (simp add: toy_worker_conf_def)
  qed (use toy_submission toy_work toy_nonblank hg g r toy_free in
      \<open>simp_all add: frame_authenticated_def text_of_def local_name_def toy_after_def open_text_def\<close>)
  with r show ?thesis by auto
qed

end
