(* ===== verification/Spec2Isabelle.thy ===== *)
theory Spec2Isabelle
  imports Journal Wallet Evidence ActionApproval Escrow Throttle Guardrails TaskApproval Egress Wire Proxy Tenancy Store HubGaps
    ConsoleViews Relay AgentSafety Bridge Pipeline HubSecret Supervision Operator Delegation
begin

text \<open>
  InterMesh connects software agents of several organisations.  This development models its Python package
  \<open>src/sdk-python/intermesh\<close> (paths below are relative to it) and proves what makes its parts correct.

  \<^bold>\<open>The program.\<close>  An agent (\<open>agent.py\<close>) joins a hub (\<open>hub.py\<close>) over a WebSocket and sends it messages, requests and
  tasks.  The hub checks tokens, organisations, guardrails, back-pressure and approval rules, holds funds in escrow while a
  task runs, delivers to the assignee - here, through a sibling hub of its cluster, or through a peered organisation's hub -
  and writes a journal of sealed entries and a store.  Administrators use a console (\<open>admin.py\<close>) and snapshots
  (\<open>snapshot.py\<close>).  Beside the hub there is a payment protocol over HTTP (a gate, a wallet, a ledger, a relay that keeps
  the ledger) and an assurance proxy that decides on an agent's HTTP requests and signs evidence of what it decided.

  \<^bold>\<open>Theories and code.\<close>  Each theory follows the order of the code it names; a record stands for an object's or a module's
  state, a definition for a function or method, a datatype of errors for its exceptions.

  \<^item> Shared: \<open>Prelude\<close> (texts, dictionaries as association lists, errors as sums, UTF-8), \<open>Json\<close> (\<open>json.loads\<close> and
    \<open>json.dumps\<close>), \<open>PyValues\<close> (\<open>str\<close>, \<open>int\<close>, \<open>float\<close>, truth of JSON values), \<open>Canonical\<close> (\<open>canonical.py\<close>,
    \<open>signing.py\<close>), \<open>HashChain\<close>, \<open>Consumable\<close> (interfaces, below), \<open>Wire\<close> (\<open>message.py\<close>, \<open>task.py\<close>, \<open>identity.py\<close>).
  \<^item> Payments: \<open>Journal\<close> (\<open>audit.py\<close>), \<open>Price\<close>, \<open>Payments\<close>, \<open>Ledger\<close> (\<open>payments/\<close>), \<open>Gate\<close> (\<open>server/\<close>), \<open>Wallet\<close>
    (\<open>client/\<close>), \<open>Relay\<close> (\<open>relay.py\<close>).
  \<^item> Assurance (\<open>assurance/\<close>): \<open>RiskPolicy\<close>, \<open>Evidence\<close>, \<open>ActionApproval\<close>, \<open>Proxy\<close>, and \<open>Operator\<close> (the commands \<open>proxy\<close>,
    \<open>approve\<close> and \<open>verify\<close> of \<open>cli.py\<close>).
  \<^item> What the hub uses: \<open>Escrow\<close>, \<open>Throttle\<close> (\<open>ratelimit.py\<close>, \<open>backpressure.py\<close>), \<open>Guardrails\<close>, \<open>TaskApproval\<close>
    (\<open>approval.py\<close>), \<open>Egress\<close>, \<open>Tenancy\<close> (\<open>policy.py\<close>, \<open>peering.py\<close>, \<open>apikeys.py\<close>), \<open>Store\<close> (\<open>store.py\<close>), \<open>Crypto\<close>
    (\<open>crypto.py\<close>), \<open>HubSecret\<close> (\<open>secret.py\<close>), \<open>Supervision\<close> (\<open>health.py\<close>, \<open>metrics.py\<close>, \<open>config.py\<close>).
  \<^item> The hub: \<open>HubCore\<close> (state, tokens, names, discovery), \<open>HubTasks\<close> (delivery, submission, updates, messages),
    \<open>HubSession\<close> (frames, registration, links, the end of a connection, the start of a hub); \<open>HubAdmin\<close>, \<open>HubConsole\<close>
    (console), \<open>Snapshots\<close>.  Its results are in \<open>HubInvariants\<close>, \<open>HubLedgers\<close>, \<open>HubSafety\<close>, \<open>ConsoleSafety\<close>,
    \<open>ConsoleViews\<close>, \<open>SnapshotSafety\<close>, \<open>HubGaps\<close>.
  \<^item> The agent: \<open>Schema\<close> (\<open>schema.py\<close>), \<open>Agent\<close> and \<open>AgentSafety\<close> (\<open>agent.py\<close>), \<open>Bridge\<close> (\<open>bridge.py\<close>,
    \<open>adapters.py\<close>), \<open>Pipeline\<close> (\<open>pipeline.py\<close>); \<open>Delegation\<close> composes agents and the hub.

  \<^bold>\<open>Interfaces.\<close>  Each locale is interpreted on the code's own operations.

  \<^item> \<open>hash_chain\<close>: entries sealed by a digest over their content and the digest before.  Two verified chains that end in
    one digest are equal or exhibit a collision.  Journal; evidence records.
  \<^item> \<open>consumable\<close>: what may be used a bounded number of times.  Payment nonces in the ledger and through the gate, action
    approvals and requests through the proxy, escrow holds.
  \<^item> \<open>metered\<close>: token buckets; no window of time sees more than the burst plus the rate times its length.  Rate limiter and
    back-pressure.
  \<^item> \<open>hub_talks\<close>, extended by \<open>hub_writes\<close> and \<open>console_writes\<close>: a relation between hub states that the few writing
    operations keep is kept by every frame, every console command and every run.  Journal, funds, tasks, sent frames.

  \<^bold>\<open>What the theorems show.\<close>  Money: a gate serves only paid requests and no nonce twice, a charge moves exactly its amount
  within the credit limit, wallets stay in their budget, an honest client is served, the relay and the escrow neither lose
  nor make funds, a relay restarts where it was.  Records: the journal and the evidence cannot be altered without a hash
  collision, they survive restarts and snapshots, and console commands only append to them.  Authority: tasks and funds
  change only with a valid token and past the guards, tokens bind names, messages stay in their organisation, a console
  needs an administrator's key and an organisation's administrator stays in its organisation.  Agents: payloads arrive as
  sent, are filtered before they are sealed, ciphertext is never handed to a task handler, each future settles once,
  reconnection returns.  Compositions: client, gate and ledger (\<open>Wallet\<close>); agent, hub and agent (\<open>Delegation\<close>); proxy,
  journal, operator and restarted proxy (\<open>Operator\<close>); program, bridge and agent (\<open>Bridge\<close>); hub, store and snapshot
  (\<open>SnapshotSafety\<close>, \<open>HubLedgers\<close>).  Lemmas whose names tell a defect (\<open>HubGaps\<close>, the ends of \<open>ConsoleViews\<close>,
  \<open>AgentSafety\<close>, \<open>Relay\<close>, \<open>Operator\<close> and others) state where the code allows more, or does less, than it means to.

  \<^bold>\<open>Loops and fuel.\<close>  Loops over data are structural recursions or folds.  The JSON parser takes fuel, the length of the text
  and a constant; \<open>Json.p_fuel_enough\<close> shows that more never changes its result.  The reconnection loop of an agent may
  run for ever: it is a partial function into \<open>option\<close>, and \<open>agent_reconnects\<close> shows when it returns.

  \<^bold>\<open>Limits of the model.\<close>  Texts are lists of the 256 characters of Latin-1, so code points above 255 do not occur.  Python
  floats are rationals (no rounding, with separate values for infinities and NaN), decimals are integers in their unit.
  SHA-256, Ed25519, RSA, AES-GCM, PBKDF2, JWT, regular expressions, random draws, clocks, sockets, subprocesses and HTTP
  exchanges are parameters, with the laws that the code relies on as hypotheses; the wording of messages is a parameter
  where it is computed.  A file is the text or the JSON document it holds.  A hub handles one frame at a time and an agent
  one event at a time; what a coroutine awaits is an argument of its step.

  \<^bold>\<open>Not modelled.\<close>  Argument parsing and terminal output (\<open>cli.py\<close>, \<open>main\<close> of \<open>hub.py\<close>), logging, TLS contexts, the schema
  and the PostgreSQL dialect of the store, access rights and temporary files, the machine fingerprint, the settings that are
  read as floats or paths: they are calls of libraries, or text for a human.  Benchmarks, examples, the invoice generator,
  the JavaScript SDK and the web portal are not part of the package.
\<close>

end
